(* ===== verification/Nexus_Prelude.thy ===== *)
theory Nexus_Prelude
  imports Main "HOL-Library.Word"
begin

unbundle bit_operations_syntax

text \<open>
  The prelude of the development: the machine integers, byte strings and result type that every
  component uses, big-endian encodings (Rust's \<open>to_be_bytes\<close> / \<open>from_be_bytes\<close>), the saturating and
  checked arithmetic of the standard library, and the generic contract of a component that is driven
  by a sequence of operations.

  A Rust \<open>String\<close> is modelled by its UTF-8 bytes: HOL's \<^typ>\<open>char\<close> is an 8-bit value, so a
  \<^typ>\<open>string\<close> is exactly such a byte sequence and \<open>s.len()\<close> is \<^term>\<open>length s\<close>.  A \<open>usize\<close> that
  counts elements of a list held by the model is a \<^typ>\<open>nat\<close>; where the code computes with a
  \<open>usize\<close> that may overflow, the 64-bit bound is written out.
\<close>

section \<open>Machine integers and bytes\<close>

type_synonym u8 = "8 word"
type_synonym u16 = "16 word"
type_synonym u32 = "32 word"
type_synonym u64 = "64 word"
type_synonym u128 = "128 word"
type_synonym bytes = "u8 list"

abbreviation u64_max :: u64 where "u64_max \<equiv> - 1"
abbreviation usize_max :: nat where "usize_max \<equiv> 18446744073709551615"

text \<open>\<open>as_bytes\<close>: the bytes of a string.\<close>

definition as_bytes :: "string \<Rightarrow> bytes" where
  "as_bytes s = map (\<lambda>c. of_char c) s"

lemma length_as_bytes [simp]: "length (as_bytes s) = length s"
  by (simp add: as_bytes_def)

lemma of_char_u8_inject: "(of_char c :: u8) = of_char d \<longleftrightarrow> c = d"
proof -
  have "unat (of_char c :: u8) = of_char c" for c
    using nat_of_char_less_256 [of c]
    by (simp add: of_char_def unat_of_nat) 
  then show ?thesis
    by (metis of_char_eq_iff)
qed

lemma as_bytes_inject [simp]: "as_bytes s = as_bytes t \<longleftrightarrow> s = t"
  unfolding as_bytes_def
  by (metis (mono_tags, lifting) inj_map_eq_map inj_onI of_char_u8_inject)

text \<open>
  \<open>to_be_bytes\<close> on the low \<open>n\<close> bytes of a word, most significant byte first, and \<open>from_be_bytes\<close>.
\<close>

primrec to_be :: "nat \<Rightarrow> 'a::len word \<Rightarrow> bytes" where
  "to_be 0 w = []"
| "to_be (Suc n) w = ucast (drop_bit (8 * n) w) # to_be n w"

definition from_be :: "bytes \<Rightarrow> 'a::len word" where
  "from_be bs = foldl (\<lambda>acc b. push_bit 8 acc OR ucast b) 0 bs"

lemma length_to_be [simp]: "length (to_be n w) = n"
  by (induction n) simp_all

lemma ucast_u8_ucast:
  "8 \<le> LENGTH('a) \<Longrightarrow> ucast (ucast (w :: 'a::len word) :: u8) = take_bit 8 w"
  by (rule bit_word_eqI) (auto simp: bit_take_bit_iff bit_ucast_iff)

lemma from_be_step:
  fixes w :: "'a::len word"
  assumes "8 \<le> LENGTH('a)"
  shows "push_bit (8 * n) (push_bit 8 acc OR ucast (ucast (drop_bit (8 * n) w) :: u8))
           OR take_bit (8 * n) w
       = push_bit (8 * Suc n) acc OR take_bit (8 * Suc n) w"
  using assms
  by (intro bit_word_eqI)
     (auto simp: ucast_u8_ucast bit_or_iff bit_push_bit_iff bit_take_bit_iff bit_drop_bit_eq ac_simps)

lemma foldl_to_be:
  fixes w acc :: "'a::len word"
  assumes "8 \<le> LENGTH('a)"
  shows "foldl (\<lambda>acc b. push_bit 8 acc OR ucast b) acc (to_be n w)
       = push_bit (8 * n) acc OR take_bit (8 * n) w"
  by (induction n arbitrary: acc) (simp_all add: from_be_step [OF assms, simplified])

lemma from_be_to_be:
  fixes w :: "'a::len word"
  assumes "LENGTH('a) = 8 * n"
  shows "from_be (to_be n w) = w"
proof -
  have "8 \<le> LENGTH('a)"
    using assms len_gt_0 [where 'a='a] by (cases n) simp_all
  then have "from_be (to_be n w) = take_bit (8 * n) w"
    by (simp add: from_be_def foldl_to_be)
  then show ?thesis
    using assms by (simp add: take_bit_word_eq_self)
qed

lemma from_be_snoc:
  "from_be (bs @ [b]) = (push_bit 8 (from_be bs) OR ucast b :: 'a::len word)"
  by (simp add: from_be_def)

lemma to_be_Suc_snoc:
  "to_be (Suc n) w = to_be n (drop_bit 8 w) @ [ucast w]"
  by (induction n) (simp_all add: drop_bit_drop_bit add.commute)

lemma to_be_take_bit_cong:
  fixes v w :: "'a::len word"
  assumes "take_bit (8 * n) v = take_bit (8 * n) w"
  shows "to_be n v = to_be n w"
  using assms
proof (induction n)
  case 0
  then show ?case by simp
next
  case (Suc n)
  have eq: "bit v k = bit w k" if "k < 8 * Suc n" for k
    using arg_cong [OF Suc.prems, of "\<lambda>x. bit x k"] that by (simp add: bit_take_bit_iff)
  have "take_bit (8 * n) v = take_bit (8 * n) w"
    by (rule bit_word_eqI) (auto simp: bit_take_bit_iff eq)
  moreover have "(ucast (drop_bit (8 * n) v) :: u8) = ucast (drop_bit (8 * n) w)"
    by (rule bit_word_eqI) (auto simp: bit_ucast_iff bit_drop_bit_eq eq)
  ultimately show ?case
    using Suc.IH by simp
qed

lemma to_be_from_be:
  assumes "length bs = n" "8 * n \<le> LENGTH('a)"
  shows "to_be n (from_be bs :: 'a::len word) = bs"
  using assms
proof (induction bs arbitrary: n rule: rev_induct)
  case Nil
  then show ?case by simp
next
  case (snoc b bs)
  let ?w = "from_be bs :: 'a word"
  obtain m where n: "n = Suc m" and m: "length bs = m" "8 * m + 8 \<le> LENGTH('a)"
    using snoc.prems by simp
  have b: "ucast (push_bit 8 ?w OR ucast b) = b"
    using m by (intro bit_word_eqI) (auto simp: bit_ucast_iff bit_or_iff bit_push_bit_iff)
  have d: "take_bit (8 * m) (drop_bit 8 (push_bit 8 ?w OR ucast b)) = take_bit (8 * m) ?w"
    using m
    by (intro bit_word_eqI)
       (auto simp: bit_take_bit_iff bit_drop_bit_eq bit_or_iff bit_push_bit_iff bit_ucast_iff
             dest: bit_imp_le_length)
  have "to_be n (from_be (bs @ [b]) :: 'a word) = to_be m (drop_bit 8 (push_bit 8 ?w OR ucast b)) @ [b]"
    by (simp add: n to_be_Suc_snoc from_be_snoc b del: to_be.simps)
  also have "to_be m (drop_bit 8 (push_bit 8 ?w OR ucast b)) = to_be m ?w"
    by (rule to_be_take_bit_cong [OF d])
  finally show ?case
    using snoc.IH [of m] m by simp
qed

lemma to_be_numeral [simp]:
  "to_be (numeral k) w = ucast (drop_bit (8 * pred_numeral k) w) # to_be (pred_numeral k) w"
  by (simp add: numeral_eq_Suc)

lemma from_be_to_be_width [simp]:
  "from_be (to_be 2 w16) = (w16 :: u16)"
  "from_be (to_be 4 w32) = (w32 :: u32)"
  "from_be (to_be 8 w64) = (w64 :: u64)"
  by (rule from_be_to_be; simp)+

text \<open>The same with the bytes written out, as they are when read one by one.\<close>

lemmas from_be_bytes = from_be_to_be_width [unfolded to_be_numeral, simplified]

lemma to_be_from_be_bytes:
  "to_be 2 (from_be [a, b] :: u16) = [a, b]"
  "to_be 4 (from_be [a, b, c, d] :: u32) = [a, b, c, d]"
  "to_be 8 (from_be [a, b, c, d, e, f, g, h] :: u64) = [a, b, c, d, e, f, g, h]"
  by (rule to_be_from_be; simp)+

section \<open>Results\<close>

text \<open>
  Rust's \<open>Result\<close>; \<open>and_then\<close> is what the \<open>?\<close> operator does with it, \<open>map_err\<close> converts the error.
\<close>

datatype ('a, 'e) result = Ok 'a | Err 'e

primrec and_then :: "('a, 'e) result \<Rightarrow> ('a \<Rightarrow> ('b, 'e) result) \<Rightarrow> ('b, 'e) result" where
  "and_then (Ok x) f = f x"
| "and_then (Err e) f = Err e"

primrec map_err :: "('e \<Rightarrow> 'f) \<Rightarrow> ('a, 'e) result \<Rightarrow> ('a, 'f) result" where
  "map_err f (Ok x) = Ok x"
| "map_err f (Err e) = Err (f e)"

primrec map_ok :: "('a \<Rightarrow> 'b) \<Rightarrow> ('a, 'e) result \<Rightarrow> ('b, 'e) result" where
  "map_ok f (Ok x) = Ok (f x)"
| "map_ok f (Err e) = Err e"

primrec is_ok :: "('a, 'e) result \<Rightarrow> bool" where
  "is_ok (Ok x) \<longleftrightarrow> True"
| "is_ok (Err e) \<longleftrightarrow> False"

primrec ok_or :: "'e \<Rightarrow> 'a option \<Rightarrow> ('a, 'e) result" where
  "ok_or e None = Err e"
| "ok_or e (Some x) = Ok x"

text \<open>An early return: \<open>if !cond { return Err(e) }\<close>.\<close>

definition ensure :: "bool \<Rightarrow> 'e \<Rightarrow> (unit, 'e) result" where
  "ensure c e = (if c then Ok () else Err e)"

text \<open>A computation that may panic.\<close>

datatype 'a outcome = Returns 'a | Panics

named_theorems eval_simps \<open>definitions to unfold when evaluating the model on a concrete input\<close>

named_theorems res_simps \<open>decomposition of results into their branches\<close>

lemma and_then_eq_Ok [res_simps]: "and_then r f = Ok y \<longleftrightarrow> (\<exists>x. r = Ok x \<and> f x = Ok y)"
  by (cases r) simp_all

lemma and_then_eq_Err [res_simps]:
  "and_then r f = Err e \<longleftrightarrow> r = Err e \<or> (\<exists>x. r = Ok x \<and> f x = Err e)"
  by (cases r) auto

lemma map_err_eq_Ok [res_simps]: "map_err f r = Ok x \<longleftrightarrow> r = Ok x"
  by (cases r) simp_all

lemma map_err_eq_Err [res_simps]: "map_err f r = Err e \<longleftrightarrow> (\<exists>d. r = Err d \<and> e = f d)"
  by (cases r) auto

lemma map_ok_eq_Ok [res_simps]: "map_ok f r = Ok y \<longleftrightarrow> (\<exists>x. r = Ok x \<and> y = f x)"
  by (cases r) auto

lemma map_ok_eq_Err [res_simps]: "map_ok f r = Err e \<longleftrightarrow> r = Err e"
  by (cases r) simp_all

lemma ensure_eq_Ok [res_simps]: "ensure c e = Ok u \<longleftrightarrow> c"
  by (simp add: ensure_def)

lemma ensure_eq_Err [res_simps]: "ensure c e = Err d \<longleftrightarrow> \<not> c \<and> d = e"
  by (auto simp: ensure_def)

lemma ok_or_eq_Ok [res_simps]: "ok_or e opt = Ok x \<longleftrightarrow> opt = Some x"
  by (cases opt) simp_all

lemma ok_or_eq_Err [res_simps]: "ok_or e opt = Err d \<longleftrightarrow> opt = None \<and> d = e"
  by (cases opt) auto

text \<open>The continuation is simplified only once the result it is applied to is known.\<close>

lemma and_then_weak_cong [cong]: "r = r' \<Longrightarrow> and_then r f = and_then r' f"
  by simp

lemma is_ok_iff: "is_ok r \<longleftrightarrow> (\<exists>x. r = Ok x)"
  by (cases r) simp_all

lemma not_is_ok_iff: "\<not> is_ok r \<longleftrightarrow> (\<exists>e. r = Err e)"
  by (cases r) simp_all

lemma ensure_simps [simp]: "ensure True e = Ok ()" "ensure False e = Err e"
  by (simp_all add: ensure_def)

section \<open>Checked and saturating arithmetic\<close>

definition saturating_add :: "'a::len word \<Rightarrow> 'a word \<Rightarrow> 'a word" where
  "saturating_add a b = (if unat a + unat b < 2 ^ LENGTH('a) then a + b else - 1)"

definition saturating_sub :: "'a::len word \<Rightarrow> 'a word \<Rightarrow> 'a word" where
  "saturating_sub a b = (if b \<le> a then a - b else 0)"

definition saturating_mul :: "'a::len word \<Rightarrow> 'a word \<Rightarrow> 'a word" where
  "saturating_mul a b = (if unat a * unat b < 2 ^ LENGTH('a) then a * b else - 1)"

definition checked_add :: "'a::len word \<Rightarrow> 'a word \<Rightarrow> 'a word option" where
  "checked_add a b = (if unat a + unat b < 2 ^ LENGTH('a) then Some (a + b) else None)"

definition checked_sub :: "'a::len word \<Rightarrow> 'a word \<Rightarrow> 'a word option" where
  "checked_sub a b = (if b \<le> a then Some (a - b) else None)"

definition checked_mul :: "'a::len word \<Rightarrow> 'a word \<Rightarrow> 'a word option" where
  "checked_mul a b = (if unat a * unat b < 2 ^ LENGTH('a) then Some (a * b) else None)"

lemma unat_lt_2p_len: "unat (c :: 'a::len word) < 2 ^ LENGTH('a)"
  by simp

lemma unat_max_word: "unat (- 1 :: 'a::len word) = 2 ^ LENGTH('a) - 1"
  by (simp add: unsigned_minus_1_eq_mask mask_eq_exp_minus_1)

lemma unat_ucast_up:
  "LENGTH('a) \<le> LENGTH('b) \<Longrightarrow> unat (ucast (w :: 'a::len word) :: 'b::len word) = unat w"
  using less_le_trans [OF unat_lt_2p_len [of w], of "2 ^ LENGTH('b)"]
  by (simp add: unsigned_ucast_eq take_bit_nat_eq_self)

lemma of_nat_small:
  assumes "j < 2 ^ LENGTH('a)" "k < 2 ^ LENGTH('a::len)"
  shows "unat (of_nat j :: 'a word) = j"
    and "(of_nat j :: 'a word) = of_nat k \<longleftrightarrow> j = k"
    and "(of_nat j :: 'a word) < of_nat k \<longleftrightarrow> j < k"
    and "(of_nat j :: 'a word) \<le> of_nat k \<longleftrightarrow> j \<le> k"
  using assms by (simp_all add: unat_of_nat word_unat_eq_iff word_less_nat_alt word_le_nat_alt)

lemma unat_saturating_add:
  "unat (saturating_add a b) = min (unat a + unat b) (2 ^ LENGTH('a) - 1)"
  for a b :: "'a::len word"
  by (auto simp: saturating_add_def unat_word_ariths unat_max_word min_def)

lemma unat_saturating_sub: "unat (saturating_sub a b) = unat a - unat b"
  for a b :: "'a::len word"
  by (auto simp: saturating_sub_def unat_sub word_le_nat_alt)

lemma unat_saturating_mul:
  "unat (saturating_mul a b) = min (unat a * unat b) (2 ^ LENGTH('a) - 1)"
  for a b :: "'a::len word"
  using Nat.le_simps(2) [of "unat a * unat b" "2 ^ LENGTH('a) - 1"]
  by (auto simp: saturating_mul_def unat_word_ariths unat_max_word min_def)

lemma checked_add_eq_Some:
  "checked_add a b = Some c \<longleftrightarrow> unat c = unat a + unat b"
  for a b c :: "'a::len word"
  using unat_lt_2p_len [of c]
  by (auto simp: checked_add_def unat_word_ariths word_unat_eq_iff simp del: unsigned_less)

lemma checked_mul_eq_Some:
  "checked_mul a b = Some c \<longleftrightarrow> unat c = unat a * unat b"
  for a b c :: "'a::len word"
  using unat_lt_2p_len [of c]
  by (auto simp: checked_mul_def unat_word_ariths word_unat_eq_iff simp del: unsigned_less)

lemma checked_sub_eq_Some:
  "checked_sub a b = Some c \<longleftrightarrow> unat a = unat b + unat c"
  for a b c :: "'a::len word"
  by (auto simp: checked_sub_def unat_sub word_le_nat_alt word_unat_eq_iff)

section \<open>Lists\<close>

lemma take_eq_map_nth: "n \<le> length xs \<Longrightarrow> take n xs = map (nth xs) [0..<n]"
  by (rule nth_equalityI) simp_all

lemma find_hd_filter: "filter p xs \<noteq> [] \<Longrightarrow> find p xs = Some (hd (filter p xs))"
  by (induction xs) auto

section \<open>Components driven by a sequence of operations\<close>

text \<open>
  \<open>run_ops\<close> feeds a sequence of operations to a step function and collects the outputs.  The
  \<open>machine\<close> contract says that every step keeps the component's invariant, \<open>ranked_machine\<close> adds a
  quantity that never decreases, and \<open>emitting_machine\<close> adds outputs that carry a fresh, larger
  value of that quantity: the numbers such a component hands out are strictly increasing, hence
  never repeated.
\<close>

primrec run_ops :: "('s \<Rightarrow> 'op \<Rightarrow> 's \<times> 'out) \<Rightarrow> 's \<Rightarrow> 'op list \<Rightarrow> 's \<times> 'out list" where
  "run_ops step s [] = (s, [])"
| "run_ops step s (op # ops) =
     (let (s', out) = step s op; (s'', outs) = run_ops step s' ops in (s'', out # outs))"

lemma fst_run_ops_Cons [simp]:
  "fst (run_ops step s (op # ops)) = fst (run_ops step (fst (step s op)) ops)"
  by (simp add: case_prod_beta Let_def)

lemma snd_run_ops_Cons [simp]:
  "snd (run_ops step s (op # ops)) = snd (step s op) # snd (run_ops step (fst (step s op)) ops)"
  by (simp add: case_prod_beta Let_def)

lemma run_ops_append:
  "run_ops step s (xs @ ys) =
     (let (s', o1) = run_ops step s xs; (s'', o2) = run_ops step s' ys in (s'', o1 @ o2))"
  by (induction xs arbitrary: s) (simp_all add: case_prod_beta Let_def)

lemma length_run_ops [simp]: "length (snd (run_ops step s ops)) = length ops"
  by (induction ops arbitrary: s) (simp_all add: case_prod_beta Let_def)

lemma fst_run_ops_append: "fst (run_ops step s (xs @ ys)) = fst (run_ops step (fst (run_ops step s xs)) ys)"
  by (simp add: run_ops_append split_beta Let_def)

lemma run_ops_nth:
  "i < length ops \<Longrightarrow> snd (run_ops step s ops) ! i = snd (step (fst (run_ops step s (take i ops))) (ops ! i))"
  by (induction ops arbitrary: s i) (auto simp: nth_Cons simp del: run_ops.simps(2) split: nat.splits)

lemma take_run_ops: "take i (snd (run_ops step s ops)) = snd (run_ops step s (take i ops))"
  by (induction ops arbitrary: s i) (auto simp: take_Cons simp del: run_ops.simps(2) split: nat.splits)

lemma fst_run_ops_take_Suc:
  "i < length ops \<Longrightarrow> fst (run_ops step s (take (Suc i) ops)) = fst (step (fst (run_ops step s (take i ops))) (ops ! i))"
  by (simp add: take_Suc_conv_app_nth fst_run_ops_append split_beta)

locale machine =
  fixes step :: "'s \<Rightarrow> 'op \<Rightarrow> 's \<times> 'out"
    and inv :: "'s \<Rightarrow> bool"
  assumes step_inv: "inv s \<Longrightarrow> inv (fst (step s op))"
begin

lemma run_inv: "inv s \<Longrightarrow> inv (fst (run_ops step s ops))"
  by (induction ops arbitrary: s) (simp_all del: run_ops.simps(2) add: step_inv)

lemma run_outputs:
  assumes "\<And>s op. inv s \<Longrightarrow> P (snd (step s op))" "inv s"
  shows "\<forall>out \<in> set (snd (run_ops step s ops)). P out"
  using assms(2)
proof (induction ops arbitrary: s)
  case (Cons op ops)
  then show ?case
    using assms(1) [of s op] Cons.IH [OF step_inv, of s op] by (simp del: run_ops.simps(2))
qed simp

end

locale ranked_machine = machine step inv
  for step :: "'s \<Rightarrow> 'op \<Rightarrow> 's \<times> 'out" and inv :: "'s \<Rightarrow> bool" +
  fixes rank :: "'s \<Rightarrow> nat"
  assumes rank_step: "inv s \<Longrightarrow> rank s \<le> rank (fst (step s op))"
begin

lemma run_rank: "inv s \<Longrightarrow> rank s \<le> rank (fst (run_ops step s ops))"
proof (induction ops arbitrary: s)
  case (Cons op ops)
  then show ?case
    using rank_step [of s op] Cons.IH [OF step_inv, of s op]
    by (simp del: run_ops.simps(2))
qed simp

end

locale emitting_machine = ranked_machine step inv rank
  for step :: "'s \<Rightarrow> 'op \<Rightarrow> 's \<times> 'out" and inv :: "'s \<Rightarrow> bool" and rank :: "'s \<Rightarrow> nat" +
  fixes emits :: "'out \<Rightarrow> nat option"
  assumes emits_fresh: "\<lbrakk>inv s; emits (snd (step s op)) = Some n\<rbrakk> \<Longrightarrow> rank s \<le> n"
    and emits_rank: "\<lbrakk>inv s; emits (snd (step s op)) = Some n\<rbrakk> \<Longrightarrow> n < rank (fst (step s op))"
begin

lemma emitted_ge_rank:
  assumes "inv s" "n \<in> set (List.map_filter emits (snd (run_ops step s ops)))"
  shows "rank s \<le> n"
  using assms
proof (induction ops arbitrary: s)
  case (Cons op ops)
  have "rank s \<le> rank (fst (step s op))"
    by (rule rank_step [OF Cons.prems(1)])
  with Cons show ?case
    using emits_fresh [OF Cons.prems(1), of op] Cons.IH [OF step_inv [OF Cons.prems(1), of op]]
    by (auto simp: List.map_filter_simps simp del: run_ops.simps(2) split: option.splits)
qed (simp add: List.map_filter_simps)

lemma emitted_lt_rank:
  assumes "inv s" "n \<in> set (List.map_filter emits (snd (run_ops step s ops)))"
  shows "n < rank (fst (run_ops step s ops))"
  using assms
proof (induction ops arbitrary: s)
  case (Cons op ops)
  note inv' = step_inv [OF Cons.prems(1), of op]
  have "n < rank (fst (step s op)) \<or> n \<in> set (List.map_filter emits (snd (run_ops step (fst (step s op)) ops)))"
    using Cons.prems(2) emits_rank [OF Cons.prems(1), of op]
    by (auto simp: List.map_filter_simps simp del: run_ops.simps(2) split: option.splits)
  then show ?case
    using run_rank [OF inv', of ops] Cons.IH [OF inv'] by (auto simp del: run_ops.simps(2))
qed (simp add: List.map_filter_simps)

theorem emitted_strictly_increasing:
  assumes "inv s"
  shows "sorted_wrt (<) (List.map_filter emits (snd (run_ops step s ops)))"
  using assms
proof (induction ops arbitrary: s)
  case (Cons op ops)
  note inv' = step_inv [OF Cons.prems, of op]
  show ?case
    using Cons.IH [OF inv'] emitted_ge_rank [OF inv', of _ ops] emits_rank [OF Cons.prems, of op]
    by (fastforce simp: List.map_filter_simps simp del: run_ops.simps(2) split: option.splits)
qed (simp add: List.map_filter_simps)

corollary emitted_distinct:
  assumes "inv s"
  shows "distinct (List.map_filter emits (snd (run_ops step s ops)))"
  using emitted_strictly_increasing [OF assms, of ops]
  by (simp add: strict_sorted_iff)

end

end
