(* ===== verification/Rust_Std.thy ===== *)
theory Rust_Std
  imports Nexus_Prelude
begin

text \<open>
  The parts of Rust's standard library, beyond the integers of the prelude, that the sources call:
  \<open>Duration\<close>, decimal \<open>Display\<close> and \<open>FromStr\<close> of the unsigned integers, \<open>char_indices\<close> on UTF-8
  strings, \<open>trim\<close>, \<open>to_ascii_lowercase\<close> and splitting at a character.
\<close>

section \<open>\<open>Duration\<close> and \<open>Instant\<close>\<close>

text \<open>
  A \<open>Duration\<close> is its number of nanoseconds, which is below \<open>2^64 * 10^9\<close>; an \<open>Instant\<close> is the
  number of nanoseconds since an arbitrary origin.
\<close>

type_synonym Duration = nat
type_synonym Instant = nat

definition dur_limit :: nat where
  "dur_limit = 2 ^ 64 * 1000000000"

definition dur_from_secs :: "u64 \<Rightarrow> Duration" where
  "dur_from_secs s = unat s * 1000000000"

definition dur_from_millis :: "u64 \<Rightarrow> Duration" where
  "dur_from_millis m = unat m * 1000000"

definition dur_as_secs :: "Duration \<Rightarrow> u64" where
  "dur_as_secs d = of_nat (d div 1000000000)"

text \<open>\<open>as_millis\<close> is a \<open>u128\<close>, which never overflows.\<close>

definition dur_as_millis :: "Duration \<Rightarrow> nat" where
  "dur_as_millis d = d div 1000000"

lemma dur_as_secs_from_secs [simp]: "dur_as_secs (dur_from_secs s) = s"
  by (simp add: dur_as_secs_def dur_from_secs_def)

lemma dur_from_secs_le_iff [simp]: "dur_from_secs a \<le> dur_from_secs b \<longleftrightarrow> a \<le> b"
  by (simp add: dur_from_secs_def word_le_nat_alt)

lemma unat_dur_as_secs: "d < dur_limit \<Longrightarrow> unat (dur_as_secs d) = d div 1000000000"
  by (simp add: dur_as_secs_def dur_limit_def unat_of_nat less_mult_imp_div_less)

section \<open>Decimal numbers\<close>

datatype IntErrorKind = IntEmpty | InvalidDigit | PosOverflow

definition char_code :: "char \<Rightarrow> nat" where
  "char_code c = of_char c"

definition digit_value :: "char \<Rightarrow> nat option" where
  "digit_value c = (let n = char_code c in if 48 \<le> n \<and> n \<le> 57 then Some (n - 48) else None)"

definition digit_char :: "nat \<Rightarrow> char" where
  "digit_char d = char_of (48 + d)"

text \<open>
  \<open>str::parse\<close> for an unsigned type with the given greatest value: the digit is inspected before the
  overflow of the accumulated product is reported.
\<close>

primrec parse_digits :: "nat \<Rightarrow> nat \<Rightarrow> string \<Rightarrow> (nat, IntErrorKind) result" where
  "parse_digits mx acc [] = Ok acc"
| "parse_digits mx acc (c # cs) =
     (case digit_value c of
        None \<Rightarrow> Err InvalidDigit
      | Some d \<Rightarrow> if mx < acc * 10 + d then Err PosOverflow
                  else parse_digits mx (acc * 10 + d) cs)"

definition parse_uint :: "nat \<Rightarrow> string \<Rightarrow> (nat, IntErrorKind) result" where
  "parse_uint mx s =
     (case s of
        [] \<Rightarrow> Err IntEmpty
      | c # cs \<Rightarrow>
          if cs = [] \<and> (c = CHR ''+'' \<or> c = CHR ''-'') then Err InvalidDigit
          else if c = CHR ''+'' then parse_digits mx 0 cs
          else parse_digits mx 0 s)"

fun show_nat :: "nat \<Rightarrow> string" where
  "show_nat n = (if n < 10 then [digit_char n] else show_nat (n div 10) @ [digit_char (n mod 10)])"

declare show_nat.simps [simp del]

declare char_code_def [eval_simps]

lemma digit_char_eval [eval_simps]:
  "digit_char 0 = CHR ''0''" "digit_char (Suc 0) = CHR ''1''" "digit_char 2 = CHR ''2''"
  "digit_char 3 = CHR ''3''" "digit_char 4 = CHR ''4''" "digit_char 5 = CHR ''5''"
  "digit_char 6 = CHR ''6''" "digit_char 7 = CHR ''7''" "digit_char 8 = CHR ''8''"
  "digit_char 9 = CHR ''9''"
  by code_simp+

lemma digit_value_char [simp]: "d < 10 \<Longrightarrow> digit_value (digit_char d) = Some d"
  by (simp add: digit_value_def digit_char_def char_code_def Let_def)

lemma digit_value_plus: "digit_value (CHR ''+'') = None"
  by (simp add: digit_value_def char_code_def)

lemma digit_value_minus: "digit_value (CHR ''-'') = None"
  by (simp add: digit_value_def char_code_def)

lemma parse_digits_append:
  "parse_digits mx acc (xs @ ys) =
     and_then (parse_digits mx acc xs) (\<lambda>acc'. parse_digits mx acc' ys)"
  by (induction xs arbitrary: acc) (simp_all split: option.splits)

lemma parse_digits_show_nat:
  assumes "n \<le> mx"
  shows "parse_digits mx 0 (show_nat n) = Ok n"
  using assms
proof (induction n rule: show_nat.induct)
  case (1 n)
  show ?case
  proof (cases "n < 10")
    case False
    then have "parse_digits mx 0 (show_nat (n div 10)) = Ok (n div 10)"
      using 1 div_le_dividend [of n 10] le_trans by blast
    with False 1(2) show ?thesis
      by (subst show_nat.simps) (simp add: parse_digits_append)
  qed (use 1(2) in \<open>simp add: show_nat.simps\<close>)
qed

lemma show_nat_not_Nil [simp]: "show_nat n \<noteq> []"
  by (subst show_nat.simps) simp

lemma hd_show_nat: "\<exists>d < 10. hd (show_nat n) = digit_char d"
proof (induction n rule: show_nat.induct)
  case (1 n)
  then show ?case
    by (subst (1) show_nat.simps) auto
qed

lemma digit_char_neq_sign:
  "d < 10 \<Longrightarrow> digit_char d \<noteq> CHR ''+''" "d < 10 \<Longrightarrow> digit_char d \<noteq> CHR ''-''"
  using digit_value_char [of d] by (auto simp: digit_value_plus digit_value_minus simp del: digit_value_char)

theorem parse_uint_show_nat:
  assumes "n \<le> mx"
  shows "parse_uint mx (show_nat n) = Ok n"
proof -
  obtain c cs where s: "show_nat n = c # cs"
    using show_nat_not_Nil [of n] by (cases "show_nat n") auto
  then obtain d where "d < 10" "c = digit_char d"
    using hd_show_nat [of n] by auto
  then have "c \<noteq> CHR ''+''" "c \<noteq> CHR ''-''"
    by (simp_all add: digit_char_neq_sign)
  then show ?thesis
    using parse_digits_show_nat [OF assms] by (simp add: parse_uint_def s)
qed

lemma parse_digits_le: "\<lbrakk>parse_digits mx acc s = Ok n; acc \<le> mx\<rbrakk> \<Longrightarrow> n \<le> mx"
  by (induction s arbitrary: acc) (auto split: option.splits if_splits)

lemma parse_uint_le: "parse_uint mx s = Ok n \<Longrightarrow> n \<le> mx"
  by (auto simp: parse_uint_def simp del: parse_digits.simps(2)
      split: list.splits if_splits dest: parse_digits_le)

section \<open>Strings\<close>

text \<open>
  \<open>char_indices\<close>: the code points of a UTF-8 string with their byte offsets.  Sequences that are
  not well-formed, which no \<open>str\<close> contains, decode to U+FFFD.
\<close>

definition wide_char :: "nat \<Rightarrow> nat" where
  "wide_char cp = (if cp < 128 then 65533 else cp)"

fun decode_utf8 :: "nat \<Rightarrow> nat list \<Rightarrow> (nat \<times> nat) list" where
  "decode_utf8 off [] = []"
| "decode_utf8 off (a # bs) =
     (if a < 128 then (off, a) # decode_utf8 (off + 1) bs
      else if a < 224 then
        (case bs of
           b # cs \<Rightarrow> (off, wide_char (a mod 32 * 64 + b mod 64)) # decode_utf8 (off + 2) cs
         | _ \<Rightarrow> [(off, 65533)])
      else if a < 240 then
        (case bs of
           b # c # cs \<Rightarrow>
             (off, wide_char ((a mod 16 * 64 + b mod 64) * 64 + c mod 64)) # decode_utf8 (off + 3) cs
         | _ \<Rightarrow> [(off, 65533)])
      else
        (case bs of
           b # c # d # cs \<Rightarrow>
             (off, wide_char (((a mod 8 * 64 + b mod 64) * 64 + c mod 64) * 64 + d mod 64))
               # decode_utf8 (off + 4) cs
         | _ \<Rightarrow> [(off, 65533)]))"

definition char_indices :: "string \<Rightarrow> (nat \<times> nat) list" where
  "char_indices s = decode_utf8 0 (map char_code s)"

lemma wide_char_ge: "128 \<le> wide_char cp"
  by (simp add: wide_char_def)

text \<open>A character is outside ASCII exactly when it has a byte outside ASCII.\<close>

lemma decode_utf8_ascii:
  assumes "\<forall>b \<in> set bs. b < 128"
  shows "decode_utf8 off bs = zip [off..<off + length bs] bs"
  using assms
proof (induction bs arbitrary: off)
  case (Cons b bs)
  then show ?case
    by (simp add: upt_conv_Cons del: upt_Suc)
qed simp

lemma decode_utf8_not_ascii:
  assumes "\<exists>b \<in> set bs. 128 \<le> b"
  shows "\<exists>(off', cp) \<in> set (decode_utf8 off bs). 128 \<le> cp"
  using assms
proof (induction off bs rule: decode_utf8.induct)
  case (2 off a bs)
  show ?case
  proof (cases "a < 128")
    case True
    with 2 show ?thesis by fastforce
  next
    case False
    then show ?thesis
      by (auto split: list.splits simp: wide_char_ge)
  qed
qed simp

definition is_whitespace :: "nat \<Rightarrow> bool" where
  "is_whitespace cp \<longleftrightarrow>
     9 \<le> cp \<and> cp \<le> 13 \<or> cp = 32 \<or> cp = 133 \<or> cp = 160 \<or> cp = 5760 \<or>
     8192 \<le> cp \<and> cp \<le> 8202 \<or> cp = 8232 \<or> cp = 8233 \<or> cp = 8239 \<or> cp = 8287 \<or> cp = 12288"

definition len_utf8 :: "nat \<Rightarrow> nat" where
  "len_utf8 cp = (if cp < 128 then 1 else if cp < 2048 then 2 else if cp < 65536 then 3 else 4)"

definition trim :: "string \<Rightarrow> string" where
  "trim s =
     (let cs = filter (\<lambda>(off, cp). \<not> is_whitespace cp) (char_indices s) in
      if cs = [] then []
      else let start = fst (hd cs); (off, cp) = last cs in
           take (off + len_utf8 cp - start) (drop start s))"

lemma trim_ident:
  assumes "\<forall>c \<in> set s. char_code c < 128 \<and> \<not> is_whitespace (char_code c)"
  shows "trim s = s"
proof (cases "s = []")
  case True
  then show ?thesis by (simp add: trim_def char_indices_def)
next
  case False
  let ?z = "zip [0..<length s] (map char_code s)"
  have ci: "char_indices s = ?z"
    using assms by (simp add: char_indices_def decode_utf8_ascii)
  have "filter (\<lambda>(off, cp). \<not> is_whitespace cp) ?z = ?z"
    using assms by (auto simp: filter_id_conv dest!: set_zip_rightD)
  moreover have "?z \<noteq> []" "hd ?z = (0, char_code (hd s))"
    using False by (auto simp: hd_zip list.map_sel(1))
  moreover have "last ?z = (length s - 1, char_code (last s))"
    using False by (simp add: last_zip last_map last_upt)
  ultimately show ?thesis
    using False assms unfolding trim_def ci by (simp add: len_utf8_def)
qed

definition to_ascii_lowercase_char :: "char \<Rightarrow> char" where
  "to_ascii_lowercase_char c =
     (let n = char_code c in if 65 \<le> n \<and> n \<le> 90 then char_of (n + 32) else c)"

definition to_ascii_lowercase :: "string \<Rightarrow> string" where
  "to_ascii_lowercase s = map to_ascii_lowercase_char s"

text \<open>\<open>split_once(sep)\<close> for an ASCII separator.\<close>

fun split_once :: "char \<Rightarrow> string \<Rightarrow> (string \<times> string) option" where
  "split_once c [] = None"
| "split_once c (x # xs) =
     (if x = c then Some ([], xs) else map_option (\<lambda>(a, b). (x # a, b)) (split_once c xs))"

lemma split_once_append: "c \<notin> set xs \<Longrightarrow> split_once c (xs @ c # ys) = Some (xs, ys)"
  by (induction xs) auto

lemma split_once_Some: "split_once c s = Some (a, b) \<Longrightarrow> s = a @ c # b \<and> c \<notin> set a"
  by (induction s arbitrary: a) (auto split: if_splits)

lemma split_once_None: "split_once c s = None \<longleftrightarrow> c \<notin> set s"
  by (induction s) auto

section \<open>Options, conversions and formatting\<close>

definition unwrap_or :: "'a option \<Rightarrow> 'a \<Rightarrow> 'a" where
  "unwrap_or o' d = (case o' of None \<Rightarrow> d | Some x \<Rightarrow> x)"

lemma unwrap_or_simps [simp]: "unwrap_or None d = d" "unwrap_or (Some x) d = x"
  by (simp_all add: unwrap_or_def)

text \<open>\<open>i64::try_from\<close> of a \<open>u64\<close>, and \<open>u64::try_from\<close> and \<open>u32::try_from\<close> of an \<open>i64\<close>.\<close>

definition i64_try_from :: "u64 \<Rightarrow> int option" where
  "i64_try_from w = (if unat w < 2 ^ 63 then Some (int (unat w)) else None)"

definition u64_try_from :: "int \<Rightarrow> u64 option" where
  "u64_try_from i = (if 0 \<le> i then Some (of_int i) else None)"

definition u32_try_from :: "int \<Rightarrow> u32 option" where
  "u32_try_from i = (if 0 \<le> i \<and> i < 2 ^ 32 then Some (of_int i) else None)"

lemma i64_try_from_eq_Some [simp]: "i64_try_from w = Some i \<longleftrightarrow> unat w < 2 ^ 63 \<and> i = int (unat w)"
  by (auto simp: i64_try_from_def)

lemma u64_i64_try_from: "i64_try_from w = Some i \<Longrightarrow> u64_try_from i = Some w"
  by (auto simp: u64_try_from_def)

text \<open>\<open>&s[..n]\<close>: a panic when \<open>n\<close> is past the end or inside a character.\<close>

definition is_char_boundary :: "string \<Rightarrow> nat \<Rightarrow> bool" where
  "is_char_boundary s n \<longleftrightarrow> n \<le> length s \<and> (n = length s \<or> \<not> (128 \<le> (of_char (s ! n) :: nat) \<and> (of_char (s ! n) :: nat) < 192))"

definition str_prefix :: "string \<Rightarrow> nat \<Rightarrow> string outcome" where
  "str_prefix s n = (if is_char_boundary s n then Returns (take n s) else Panics)"

text \<open>\<open>String::from_utf8\<close>: the well-formed byte sequences of UTF-8, by the length of a character.\<close>

definition utf8_tail :: "u8 \<Rightarrow> bool" where
  "utf8_tail b \<longleftrightarrow> 0x80 \<le> b \<and> b \<le> 0xBF"

fun utf8_valid :: "bytes \<Rightarrow> bool" where
  "utf8_valid [] = True"
| "utf8_valid (a # bs) =
     (if a < 0x80 then utf8_valid bs
      else if 0xC2 \<le> a \<and> a \<le> 0xDF then
        (case bs of b # r \<Rightarrow> utf8_tail b \<and> utf8_valid r | _ \<Rightarrow> False)
      else if 0xE0 \<le> a \<and> a \<le> 0xEF then
        (case bs of b # c # r \<Rightarrow>
            utf8_tail b \<and> utf8_tail c \<and> (a = 0xE0 \<longrightarrow> 0xA0 \<le> b) \<and> (a = 0xED \<longrightarrow> b \<le> 0x9F) \<and> utf8_valid r
         | _ \<Rightarrow> False)
      else if 0xF0 \<le> a \<and> a \<le> 0xF4 then
        (case bs of b # c # d # r \<Rightarrow>
            utf8_tail b \<and> utf8_tail c \<and> utf8_tail d \<and> (a = 0xF0 \<longrightarrow> 0x90 \<le> b) \<and> (a = 0xF4 \<longrightarrow> b \<le> 0x8F)
            \<and> utf8_valid r
         | _ \<Rightarrow> False)
      else False)"

definition from_utf8 :: "bytes \<Rightarrow> string option" where
  "from_utf8 bs = (if utf8_valid bs then Some (map (\<lambda>b. char_of (unat b)) bs) else None)"

lemma utf8_valid_ascii: "list_all (\<lambda>b. b < 0x80) bs \<Longrightarrow> utf8_valid bs"
  by (induction bs) simp_all

text \<open>\<open>{x:02x}\<close> of a byte.\<close>

definition hex_digit :: "nat \<Rightarrow> char" where
  "hex_digit d = (if d < 10 then char_of (48 + d) else char_of (87 + d))"

definition hex_byte :: "u8 \<Rightarrow> string" where
  "hex_byte b = [hex_digit (unat b div 16), hex_digit (unat b mod 16)]"

end
