(* ===== verification/Common_Time.thy ===== *)
theory Common_Time
  imports Rust_Std
begin

text \<open>
  \<open>crates/nexus-common/src/time.rs\<close>: second-granular timestamps, the \<open>Clock\<close> trait with its default
  method, the clock of the operating system (its reading is an argument) and the mock clock.
  Rust's plain \<open>+\<close> and \<open>-\<close> panic on overflow when overflow checks are compiled in and wrap around
  otherwise; the operators take that build setting as their first argument.
\<close>

section \<open>\<open>UnixTimestamp\<close>\<close>

datatype UnixTimestamp = UnixTimestamp (as_secs: u64)

instantiation UnixTimestamp :: linorder
begin

definition less_eq_UnixTimestamp :: "UnixTimestamp \<Rightarrow> UnixTimestamp \<Rightarrow> bool" where
  "less_eq_UnixTimestamp a b \<longleftrightarrow> as_secs a \<le> as_secs b"

definition less_UnixTimestamp :: "UnixTimestamp \<Rightarrow> UnixTimestamp \<Rightarrow> bool" where
  "less_UnixTimestamp a b \<longleftrightarrow> as_secs a < as_secs b"

instance
  by standard
     (auto simp: less_eq_UnixTimestamp_def less_UnixTimestamp_def UnixTimestamp.expand)

end

definition UnixTimestamp_EPOCH :: UnixTimestamp where
  "UnixTimestamp_EPOCH = UnixTimestamp 0"

definition UnixTimestamp_MIN :: UnixTimestamp where
  "UnixTimestamp_MIN = UnixTimestamp 0"

definition UnixTimestamp_MAX :: UnixTimestamp where
  "UnixTimestamp_MAX = UnixTimestamp u64_max"

definition from_secs :: "u64 \<Rightarrow> UnixTimestamp" where
  "from_secs secs = UnixTimestamp secs"

definition from_millis :: "u64 \<Rightarrow> UnixTimestamp" where
  "from_millis millis = UnixTimestamp (millis div 1000)"

definition from_micros :: "u64 \<Rightarrow> UnixTimestamp" where
  "from_micros micros = UnixTimestamp (micros div 1000000)"

definition as_millis :: "UnixTimestamp \<Rightarrow> u64" where
  "as_millis t = saturating_mul (as_secs t) 1000"

definition as_micros :: "UnixTimestamp \<Rightarrow> u128" where
  "as_micros t = saturating_mul (ucast (as_secs t)) 1000000"

definition as_nanos :: "UnixTimestamp \<Rightarrow> u128" where
  "as_nanos t = saturating_mul (ucast (as_secs t)) 1000000000"

definition ts_saturating_add :: "UnixTimestamp \<Rightarrow> Duration \<Rightarrow> UnixTimestamp" where
  "ts_saturating_add t d = UnixTimestamp (saturating_add (as_secs t) (dur_as_secs d))"

definition saturating_add_secs :: "UnixTimestamp \<Rightarrow> u64 \<Rightarrow> UnixTimestamp" where
  "saturating_add_secs t secs = UnixTimestamp (saturating_add (as_secs t) secs)"

definition ts_saturating_sub :: "UnixTimestamp \<Rightarrow> Duration \<Rightarrow> UnixTimestamp" where
  "ts_saturating_sub t d = UnixTimestamp (saturating_sub (as_secs t) (dur_as_secs d))"

definition saturating_sub_secs :: "UnixTimestamp \<Rightarrow> u64 \<Rightarrow> UnixTimestamp" where
  "saturating_sub_secs t secs = UnixTimestamp (saturating_sub (as_secs t) secs)"

definition saturating_duration_since :: "UnixTimestamp \<Rightarrow> UnixTimestamp \<Rightarrow> Duration" where
  "saturating_duration_since t earlier =
     dur_from_secs (saturating_sub (as_secs t) (as_secs earlier))"

definition checked_duration_since :: "UnixTimestamp \<Rightarrow> UnixTimestamp \<Rightarrow> Duration option" where
  "checked_duration_since t earlier =
     (if as_secs t \<ge> as_secs earlier then Some (dur_from_secs (as_secs t - as_secs earlier))
      else None)"

definition ts_checked_add :: "UnixTimestamp \<Rightarrow> Duration \<Rightarrow> UnixTimestamp option" where
  "ts_checked_add t d =
     (case checked_add (as_secs t) (dur_as_secs d) of
        Some secs \<Rightarrow> Some (UnixTimestamp secs)
      | None \<Rightarrow> None)"

definition ts_checked_sub :: "UnixTimestamp \<Rightarrow> Duration \<Rightarrow> UnixTimestamp option" where
  "ts_checked_sub t d =
     (case checked_sub (as_secs t) (dur_as_secs d) of
        Some secs \<Rightarrow> Some (UnixTimestamp secs)
      | None \<Rightarrow> None)"

definition ts_display :: "UnixTimestamp \<Rightarrow> string" where
  "ts_display t = show_nat (unat (as_secs t))"

definition ts_from_str :: "string \<Rightarrow> (UnixTimestamp, IntErrorKind) result" where
  "ts_from_str s =
     and_then (parse_uint usize_max s) (\<lambda>secs. Ok (from_secs (of_nat secs)))"

text \<open>The operators \<open>+\<close> and \<open>-\<close>; \<open>checks\<close> says whether overflow checks are compiled in.\<close>

definition ts_add :: "bool \<Rightarrow> UnixTimestamp \<Rightarrow> Duration \<Rightarrow> UnixTimestamp outcome" where
  "ts_add checks t d =
     (case checked_add (as_secs t) (dur_as_secs d) of
        Some secs \<Rightarrow> Returns (UnixTimestamp secs)
      | None \<Rightarrow> if checks then Panics else Returns (UnixTimestamp (as_secs t + dur_as_secs d)))"

definition ts_sub :: "bool \<Rightarrow> UnixTimestamp \<Rightarrow> Duration \<Rightarrow> UnixTimestamp outcome" where
  "ts_sub checks t d =
     (case checked_sub (as_secs t) (dur_as_secs d) of
        Some secs \<Rightarrow> Returns (UnixTimestamp secs)
      | None \<Rightarrow> if checks then Panics else Returns (UnixTimestamp (as_secs t - dur_as_secs d)))"

definition ts_diff :: "bool \<Rightarrow> UnixTimestamp \<Rightarrow> UnixTimestamp \<Rightarrow> Duration outcome" where
  "ts_diff checks t u =
     (case checked_sub (as_secs t) (as_secs u) of
        Some secs \<Rightarrow> Returns (dur_from_secs secs)
      | None \<Rightarrow> if checks then Panics else Returns (dur_from_secs (as_secs t - as_secs u)))"

section \<open>Clocks\<close>

text \<open>
  \<open>SystemTime::now().duration_since(UNIX_EPOCH)\<close> is an argument: \<open>None\<close> when the system clock is
  before the epoch.
\<close>

definition SystemClock_now :: "Duration option \<Rightarrow> UnixTimestamp" where
  "SystemClock_now since_epoch =
     (case since_epoch of
        Some d \<Rightarrow> from_secs (dur_as_secs d)
      | None \<Rightarrow> UnixTimestamp_EPOCH)"

definition SystemClock_now_millis :: "Duration option \<Rightarrow> u64" where
  "SystemClock_now_millis since_epoch =
     (case since_epoch of
        Some d \<Rightarrow> of_nat (min (dur_as_millis d) usize_max)
      | None \<Rightarrow> 0)"

record MockClock =
  mock_now_millis :: u64

definition MockClock_new :: "UnixTimestamp \<Rightarrow> MockClock" where
  "MockClock_new initial = \<lparr>mock_now_millis = as_millis initial\<rparr>"

definition MockClock_from_millis :: "u64 \<Rightarrow> MockClock" where
  "MockClock_from_millis millis = \<lparr>mock_now_millis = millis\<rparr>"

definition MockClock_advance :: "Duration \<Rightarrow> MockClock \<Rightarrow> MockClock" where
  "MockClock_advance d c =
     (let delta = of_nat (min (dur_as_millis d) usize_max)
      in c\<lparr>mock_now_millis := saturating_add (mock_now_millis c) delta\<rparr>)"

definition MockClock_set :: "UnixTimestamp \<Rightarrow> MockClock \<Rightarrow> MockClock" where
  "MockClock_set t c = c\<lparr>mock_now_millis := as_millis t\<rparr>"

definition MockClock_set_millis :: "u64 \<Rightarrow> MockClock \<Rightarrow> MockClock" where
  "MockClock_set_millis millis c = c\<lparr>mock_now_millis := millis\<rparr>"

definition MockClock_now :: "MockClock \<Rightarrow> UnixTimestamp" where
  "MockClock_now c = from_millis (mock_now_millis c)"

section \<open>Laws\<close>

lemma UnixTimestamp_le_iff [simp]: "UnixTimestamp a \<le> UnixTimestamp b \<longleftrightarrow> a \<le> b"
  by (simp add: less_eq_UnixTimestamp_def)

lemma UnixTimestamp_less_iff [simp]: "UnixTimestamp a < UnixTimestamp b \<longleftrightarrow> a < b"
  by (simp add: less_UnixTimestamp_def)

lemma unat_as_millis: "unat (as_millis t) = min (unat (as_secs t) * 1000) usize_max"
  by (simp add: as_millis_def unat_saturating_mul)

lemma from_millis_as_millis:
  assumes "unat (as_secs t) * 1000 \<le> usize_max"
  shows "from_millis (as_millis t) = t"
proof -
  have "unat (as_millis t div 1000) = unat (as_secs t)"
    using assms by (simp add: unat_div unat_as_millis min_absorb1)
  then show ?thesis
    by (simp add: from_millis_def UnixTimestamp.expand word_unat_eq_iff)
qed

lemma u64_as_micros_nanos_exact:
  "unat (as_micros t) = unat (as_secs t) * 1000000"
  "unat (as_nanos t) = unat (as_secs t) * 1000000000"
  using unat_lt_2p_len [of "as_secs t"]
  by (simp_all add: as_micros_def as_nanos_def unat_saturating_mul unat_ucast_up min_absorb1)

lemma ts_from_str_display: "ts_from_str (ts_display t) = Ok t"
  using unat_lt_2p_len [of "as_secs t"]
  by (simp add: ts_from_str_def ts_display_def from_secs_def parse_uint_show_nat)

lemma ts_checked_add_sub:
  assumes "ts_checked_add t d = Some t'"
  shows "ts_checked_sub t' d = Some t"
    and "checked_duration_since t' t = Some (dur_from_secs (dur_as_secs d))"
    and "ts_saturating_add t d = t'" and "t \<le> t'"
proof -
  from assms obtain s where s: "t' = UnixTimestamp s" "checked_add (as_secs t) (dur_as_secs d) = Some s"
    by (auto simp: ts_checked_add_def split: option.splits)
  then have u: "unat s = unat (as_secs t) + unat (dur_as_secs d)" and e: "s = as_secs t + dur_as_secs d"
    using s(2) by (simp add: checked_add_eq_Some, simp add: checked_add_def split: if_splits)
  have "checked_sub s (dur_as_secs d) = Some (as_secs t)"
    by (simp add: checked_sub_eq_Some u)
  then show "ts_checked_sub t' d = Some t"
    by (simp add: ts_checked_sub_def s)
  show "checked_duration_since t' t = Some (dur_from_secs (dur_as_secs d))"
    using u by (simp add: checked_duration_since_def s(1) word_le_nat_alt e)
  show "ts_saturating_add t d = t'"
    using s(2) by (simp add: ts_saturating_add_def saturating_add_def checked_add_def s(1) split: if_splits)
  show "t \<le> t'"
    using u by (simp add: s(1) less_eq_UnixTimestamp_def word_le_nat_alt)
qed

lemma MockClock_advance_mono: "mock_now_millis c \<le> mock_now_millis (MockClock_advance d c)"
  using unat_lt_2p_len [of "mock_now_millis c"]
  by (simp add: MockClock_advance_def word_le_nat_alt unat_saturating_add)

lemma MockClock_now_mono: "MockClock_now c \<le> MockClock_now (MockClock_advance d c)"
  using MockClock_advance_mono [of c d]
  by (simp add: MockClock_now_def from_millis_def word_le_nat_alt unat_div div_le_mono)

end
