(* ===== verification/Common_Ids.thy ===== *)
theory Common_Ids
  imports Rust_Std
begin

text \<open>
  \<open>crates/nexus-common/src/id.rs\<close> and \<open>error.rs\<close>: the validated identifier newtypes and the shared
  error codes.  The identifiers made by \<open>define_id!\<close> (\<open>DeviceId\<close>, \<open>UserId\<close>, \<open>NodeId\<close>, \<open>TenantId\<close>,
  \<open>SessionId\<close>, \<open>ClientId\<close>) are all a string that passed \<open>validate_id\<close>.
\<close>

section \<open>Identifiers\<close>

definition MIN_ID_LEN :: nat where "MIN_ID_LEN = 1"
definition MAX_ID_LEN :: nat where "MAX_ID_LEN = 128"

datatype IdError =
    Id_Empty
  | Id_TooLong nat nat              \<comment> \<open>\<open>max\<close>, \<open>actual\<close>\<close>
  | Id_InvalidCharacter nat nat     \<comment> \<open>\<open>c\<close> (code point), \<open>offset\<close>\<close>

definition is_ascii :: "nat \<Rightarrow> bool" where "is_ascii cp \<longleftrightarrow> cp < 128"
definition is_ascii_control :: "nat \<Rightarrow> bool" where "is_ascii_control cp \<longleftrightarrow> cp < 32 \<or> cp = 127"

fun validate_id_chars :: "(nat \<times> nat) list \<Rightarrow> (unit, IdError) result" where
  "validate_id_chars [] = Ok ()"
| "validate_id_chars ((offset, c) # rest) =
     (if \<not> is_ascii c \<or> is_ascii_control c then Err (Id_InvalidCharacter c offset)
      else validate_id_chars rest)"

definition validate_id :: "string \<Rightarrow> (unit, IdError) result" where
  "validate_id s =
     (if s = [] then Err Id_Empty
      else if length s > MAX_ID_LEN then Err (Id_TooLong MAX_ID_LEN (length s))
      else validate_id_chars (char_indices s))"

datatype Id = Id (id_as_str: string)

definition Id_new :: "string \<Rightarrow> (Id, IdError) result" where
  "Id_new s = and_then (validate_id s) (\<lambda>_. Ok (Id s))"

definition Id_from_str :: "string \<Rightarrow> (Id, IdError) result" where
  "Id_from_str s = Id_new s"

section \<open>Error codes\<close>

datatype ErrorCode =
  Unauthenticated | PermissionDenied | NotFound | AlreadyExists | InvalidArgument
| DeadlineExceeded | Conflict | ResourceExhausted | Internal | Unavailable | NotSupported

fun ErrorCode_as_str :: "ErrorCode \<Rightarrow> string" where
  "ErrorCode_as_str Unauthenticated = ''unauthenticated''"
| "ErrorCode_as_str PermissionDenied = ''permission_denied''"
| "ErrorCode_as_str NotFound = ''not_found''"
| "ErrorCode_as_str AlreadyExists = ''already_exists''"
| "ErrorCode_as_str InvalidArgument = ''invalid_argument''"
| "ErrorCode_as_str DeadlineExceeded = ''deadline_exceeded''"
| "ErrorCode_as_str Conflict = ''conflict''"
| "ErrorCode_as_str ResourceExhausted = ''resource_exhausted''"
| "ErrorCode_as_str Internal = ''internal''"
| "ErrorCode_as_str Unavailable = ''unavailable''"
| "ErrorCode_as_str NotSupported = ''not_supported''"

definition ErrorCode_normalize :: "string \<Rightarrow> string" where
  "ErrorCode_normalize s =
     filter (\<lambda>c. c \<noteq> CHR ''_'' \<and> c \<noteq> CHR ''-'') (to_ascii_lowercase (trim s))"

definition ErrorCode_from_str :: "string \<Rightarrow> (ErrorCode, string) result" where
  "ErrorCode_from_str s =
     (let normalized = ErrorCode_normalize s in
      if normalized = ''unauthenticated'' then Ok Unauthenticated
      else if normalized = ''permissiondenied'' then Ok PermissionDenied
      else if normalized = ''notfound'' then Ok NotFound
      else if normalized = ''alreadyexists'' then Ok AlreadyExists
      else if normalized = ''invalidargument'' then Ok InvalidArgument
      else if normalized = ''deadlineexceeded'' then Ok DeadlineExceeded
      else if normalized = ''conflict'' then Ok Conflict
      else if normalized = ''resourceexhausted'' then Ok ResourceExhausted
      else if normalized = ''internal'' then Ok Internal
      else if normalized = ''unavailable'' then Ok Unavailable
      else if normalized = ''notsupported'' then Ok NotSupported
      else Err s)"

record CommonError =
  ce_code :: ErrorCode
  ce_message :: string

definition CommonError_new :: "ErrorCode \<Rightarrow> string \<Rightarrow> CommonError" where
  "CommonError_new c m = \<lparr>ce_code = c, ce_message = m\<rparr>"

text \<open>The rendering of an \<open>IdError\<close> is derived by a macro package and is an argument.\<close>

definition CommonError_from_IdError :: "(IdError \<Rightarrow> string) \<Rightarrow> IdError \<Rightarrow> CommonError" where
  "CommonError_from_IdError to_string err = CommonError_new InvalidArgument (to_string err)"

datatype IoErrorKind =
  Io_NotFound | Io_PermissionDenied | Io_AlreadyExists | Io_InvalidInput | Io_InvalidData
| Io_TimedOut | Io_ConnectionRefused | Io_ConnectionReset | Io_ConnectionAborted
| Io_NotConnected | Io_AddrInUse | Io_AddrNotAvailable | Io_BrokenPipe | Io_Unsupported
| Io_UnexpectedEof | Io_Other

fun ErrorCode_of_io :: "IoErrorKind \<Rightarrow> ErrorCode" where
  "ErrorCode_of_io Io_NotFound = NotFound"
| "ErrorCode_of_io Io_PermissionDenied = PermissionDenied"
| "ErrorCode_of_io Io_AlreadyExists = AlreadyExists"
| "ErrorCode_of_io Io_InvalidInput = InvalidArgument"
| "ErrorCode_of_io Io_InvalidData = InvalidArgument"
| "ErrorCode_of_io Io_TimedOut = DeadlineExceeded"
| "ErrorCode_of_io Io_ConnectionRefused = Unavailable"
| "ErrorCode_of_io Io_ConnectionReset = Unavailable"
| "ErrorCode_of_io Io_ConnectionAborted = Unavailable"
| "ErrorCode_of_io Io_NotConnected = Unavailable"
| "ErrorCode_of_io Io_AddrInUse = Unavailable"
| "ErrorCode_of_io Io_AddrNotAvailable = Unavailable"
| "ErrorCode_of_io Io_BrokenPipe = Unavailable"
| "ErrorCode_of_io Io_Unsupported = NotSupported"
| "ErrorCode_of_io Io_UnexpectedEof = Internal"
| "ErrorCode_of_io Io_Other = Internal"

definition CommonError_from_io :: "IoErrorKind \<Rightarrow> string \<Rightarrow> CommonError" where
  "CommonError_from_io kind msg = CommonError_new (ErrorCode_of_io kind) msg"

section \<open>Laws\<close>

text \<open>The bytes an identifier may contain: printable ASCII.\<close>

definition printable_ascii :: "char \<Rightarrow> bool" where
  "printable_ascii c \<longleftrightarrow> 32 \<le> char_code c \<and> char_code c < 127"

lemma validate_id_chars_Ok:
  "validate_id_chars cs = Ok () \<longleftrightarrow> (\<forall>(off, c) \<in> set cs. 32 \<le> c \<and> c < 127)"
  by (induction cs rule: validate_id_chars.induct) (auto simp: is_ascii_def is_ascii_control_def)

lemma validate_id_chars_find:
  "validate_id_chars cs =
     (case find (\<lambda>(off, c). \<not> is_ascii c \<or> is_ascii_control c) cs of
        None \<Rightarrow> Ok ()
      | Some (off, c) \<Rightarrow> Err (Id_InvalidCharacter c off))"
  by (induction cs rule: validate_id_chars.induct) simp_all

lemma char_indices_printable:
  "(\<forall>(off, c) \<in> set (char_indices s). 32 \<le> c \<and> c < 127) \<longleftrightarrow> (\<forall>c \<in> set s. printable_ascii c)"
proof (cases "\<forall>b \<in> set (map char_code s). b < 128")
  case True
  have "map snd (char_indices s) = map char_code s"
    unfolding char_indices_def decode_utf8_ascii [OF True] by simp
  then have "snd ` set (char_indices s) = char_code ` set s"
    by (metis set_map)
  moreover have "(\<forall>(off, c) \<in> set (char_indices s). 32 \<le> c \<and> c < 127) \<longleftrightarrow>
      (\<forall>c \<in> snd ` set (char_indices s). 32 \<le> c \<and> c < 127)"
    by auto
  ultimately show ?thesis
    by (simp add: printable_ascii_def)
next
  case False
  then obtain off c where "(off, c) \<in> set (char_indices s)" "128 \<le> c"
    using decode_utf8_not_ascii [of "map char_code s" 0] by (auto simp: char_indices_def not_less)
  moreover from False have "\<not> (\<forall>c \<in> set s. printable_ascii c)"
    unfolding printable_ascii_def by fastforce
  ultimately show ?thesis
    by fastforce
qed

lemma validate_id_Ok:
  "validate_id s = Ok () \<longleftrightarrow>
     MIN_ID_LEN \<le> length s \<and> length s \<le> MAX_ID_LEN \<and> (\<forall>c \<in> set s. printable_ascii c)"
  by (auto simp: validate_id_def validate_id_chars_Ok char_indices_printable MIN_ID_LEN_def
        Suc_le_eq)

lemma Id_new_as_str: "Id_new s = Ok i \<Longrightarrow> id_as_str i = s \<and> Id_new (id_as_str i) = Ok i"
  by (auto simp: Id_new_def res_simps)

lemma ErrorCode_as_str_trim: "trim (ErrorCode_as_str c) = ErrorCode_as_str c"
  by (rule trim_ident) (cases c; simp add: char_code_def is_whitespace_def)

lemma ErrorCode_round_trip: "ErrorCode_from_str (ErrorCode_as_str c) = Ok c"
  unfolding ErrorCode_from_str_def ErrorCode_normalize_def ErrorCode_as_str_trim to_ascii_lowercase_def
  by (cases c) (simp_all add: to_ascii_lowercase_char_def char_code_def)

end
