(* ===== verification/Policy_Action.thy ===== *)
theory Policy_Action
  imports Nexus_Prelude
begin

text \<open>
  \<open>crates/nexus-policy/src/action.rs\<close>: the first-class actions, their textual names, and
  \<open>ActionSet\<close>.  The \<open>BTreeSet\<close> inside an \<open>ActionSet\<close> is a HOL set; its iteration order is the
  declaration order of the actions, which the \<open>linorder\<close> instance records.
\<close>

datatype Action =
  DesktopView | DesktopControl | ClipboardRead | ClipboardWrite | FileUpload | FileDownload
| AudioListen | AudioSend | SessionRecord | SessionRequest | SessionApprove

fun Action_index :: "Action \<Rightarrow> nat" where
  "Action_index DesktopView = 0"
| "Action_index DesktopControl = 1"
| "Action_index ClipboardRead = 2"
| "Action_index ClipboardWrite = 3"
| "Action_index FileUpload = 4"
| "Action_index FileDownload = 5"
| "Action_index AudioListen = 6"
| "Action_index AudioSend = 7"
| "Action_index SessionRecord = 8"
| "Action_index SessionRequest = 9"
| "Action_index SessionApprove = 10"

lemma Action_index_inject [simp]: "Action_index a = Action_index b \<longleftrightarrow> a = b"
  by (cases a; cases b) simp_all

instantiation Action :: linorder
begin

definition less_eq_Action :: "Action \<Rightarrow> Action \<Rightarrow> bool" where
  "less_eq_Action a b \<longleftrightarrow> Action_index a \<le> Action_index b"

definition less_Action :: "Action \<Rightarrow> Action \<Rightarrow> bool" where
  "less_Action a b \<longleftrightarrow> Action_index a < Action_index b"

instance
  by standard (auto simp: less_eq_Action_def less_Action_def)

end

definition Action_ALL :: "Action list" where
  "Action_ALL =
     [DesktopView, DesktopControl, ClipboardRead, ClipboardWrite, FileUpload, FileDownload,
      AudioListen, AudioSend, SessionRecord, SessionRequest, SessionApprove]"

fun Action_as_str :: "Action \<Rightarrow> string" where
  "Action_as_str DesktopView = ''desktop.view''"
| "Action_as_str DesktopControl = ''desktop.control''"
| "Action_as_str ClipboardRead = ''clipboard.read''"
| "Action_as_str ClipboardWrite = ''clipboard.write''"
| "Action_as_str FileUpload = ''file.upload''"
| "Action_as_str FileDownload = ''file.download''"
| "Action_as_str AudioListen = ''audio.listen''"
| "Action_as_str AudioSend = ''audio.send''"
| "Action_as_str SessionRecord = ''session.record''"
| "Action_as_str SessionRequest = ''session.request''"
| "Action_as_str SessionApprove = ''session.approve''"

definition Action_from_str :: "string \<Rightarrow> (Action, string) result" where
  "Action_from_str s =
     (if s = ''desktop.view'' then Ok DesktopView
      else if s = ''desktop.control'' then Ok DesktopControl
      else if s = ''clipboard.read'' then Ok ClipboardRead
      else if s = ''clipboard.write'' then Ok ClipboardWrite
      else if s = ''file.upload'' then Ok FileUpload
      else if s = ''file.download'' then Ok FileDownload
      else if s = ''audio.listen'' then Ok AudioListen
      else if s = ''audio.send'' then Ok AudioSend
      else if s = ''session.record'' then Ok SessionRecord
      else if s = ''session.request'' then Ok SessionRequest
      else if s = ''session.approve'' then Ok SessionApprove
      else Err s)"

section \<open>\<open>ActionSet\<close>\<close>

type_synonym ActionSet = "Action set"

definition ActionSet_new :: ActionSet where
  "ActionSet_new = {}"

definition ActionSet_all :: ActionSet where
  "ActionSet_all = set Action_ALL"

definition ActionSet_insert :: "Action \<Rightarrow> ActionSet \<Rightarrow> ActionSet \<times> bool" where
  "ActionSet_insert a s = (insert a s, a \<notin> s)"

definition ActionSet_remove :: "Action \<Rightarrow> ActionSet \<Rightarrow> ActionSet \<times> bool" where
  "ActionSet_remove a s = (s - {a}, a \<in> s)"

definition ActionSet_contains :: "ActionSet \<Rightarrow> Action \<Rightarrow> bool" where
  "ActionSet_contains s a \<longleftrightarrow> a \<in> s"

definition ActionSet_is_subset :: "ActionSet \<Rightarrow> ActionSet \<Rightarrow> bool" where
  "ActionSet_is_subset s t \<longleftrightarrow> s \<subseteq> t"

definition ActionSet_is_superset :: "ActionSet \<Rightarrow> ActionSet \<Rightarrow> bool" where
  "ActionSet_is_superset s t \<longleftrightarrow> t \<subseteq> s"

definition ActionSet_iter :: "ActionSet \<Rightarrow> Action list" where
  "ActionSet_iter s = filter (\<lambda>a. a \<in> s) Action_ALL"

definition ActionSet_len :: "ActionSet \<Rightarrow> nat" where
  "ActionSet_len s = length (ActionSet_iter s)"

definition ActionSet_is_empty :: "ActionSet \<Rightarrow> bool" where
  "ActionSet_is_empty s \<longleftrightarrow> s = {}"

definition ActionSet_union :: "ActionSet \<Rightarrow> ActionSet \<Rightarrow> ActionSet" where
  "ActionSet_union s t = s \<union> t"

definition ActionSet_intersection :: "ActionSet \<Rightarrow> ActionSet \<Rightarrow> ActionSet" where
  "ActionSet_intersection s t = s \<inter> t"

definition ActionSet_difference :: "ActionSet \<Rightarrow> ActionSet \<Rightarrow> ActionSet" where
  "ActionSet_difference s t = s - t"

definition ActionSet_from_iter :: "Action list \<Rightarrow> ActionSet" where
  "ActionSet_from_iter as = set as"

lemmas ActionSet_defs =
  ActionSet_new_def ActionSet_contains_def ActionSet_is_subset_def ActionSet_is_superset_def
  ActionSet_is_empty_def ActionSet_union_def ActionSet_intersection_def ActionSet_difference_def
  ActionSet_from_iter_def

section \<open>Laws\<close>

lemma Action_ALL_complete: "a \<in> set Action_ALL"
  by (cases a) (simp_all add: Action_ALL_def)

lemma Action_ALL_sorted: "sorted_wrt (<) Action_ALL"
  by (simp add: Action_ALL_def less_Action_def)

lemma Action_round_trip: "Action_from_str (Action_as_str a) = Ok a"
  by (cases a) (simp_all add: Action_from_str_def)

lemma Action_from_str_Ok: "Action_from_str s = Ok a \<longleftrightarrow> s = Action_as_str a"
proof
  assume "Action_from_str s = Ok a"
  then show "s = Action_as_str a"
    by (auto simp: Action_from_str_def split: if_splits)
qed (simp add: Action_round_trip)

lemma set_ActionSet_iter [simp]: "set (ActionSet_iter s) = s"
  using Action_ALL_complete by (auto simp: ActionSet_iter_def)

lemma ActionSet_iter_sorted: "sorted_wrt (<) (ActionSet_iter s)"
  unfolding ActionSet_iter_def by (rule sorted_wrt_filter [OF Action_ALL_sorted])

lemma ActionSet_iter_from_iter: "ActionSet_from_iter (ActionSet_iter s) = s"
  by (simp add: ActionSet_from_iter_def)

lemma ActionSet_len_card: "ActionSet_len s = card s"
  using ActionSet_iter_sorted [of s]
  by (metis ActionSet_len_def distinct_card set_ActionSet_iter strict_sorted_iff)

end
