(* ===== verification/Nexus_Maps.thy ===== *)
theory Nexus_Maps
  imports Nexus_Prelude
begin

text \<open>
  The two dictionaries of the Rust standard library that the components keep their tables in.
  \<open>HashMap\<close> is an association list with distinct keys; \<open>BTreeMap\<close> is one whose keys are strictly
  ascending, so that iteration and \<open>first_key_value\<close> read it from the front.  Both meet the same
  contract, the locale \<open>map_adt\<close>, in which the facts the clients use are proved once.
\<close>

section \<open>The contract of a dictionary\<close>

locale map_adt =
  fixes empty :: 'm
    and get :: "'m \<Rightarrow> 'k \<Rightarrow> 'v option"
    and insert :: "'k \<Rightarrow> 'v \<Rightarrow> 'm \<Rightarrow> 'm"
    and remove :: "'k \<Rightarrow> 'm \<Rightarrow> 'm"
    and len :: "'m \<Rightarrow> nat"
    and invar :: "'m \<Rightarrow> bool"
  assumes get_empty: "get empty = Map.empty"
    and get_insert: "invar m \<Longrightarrow> get (insert k v m) = (get m)(k \<mapsto> v)"
    and get_remove: "invar m \<Longrightarrow> get (remove k m) = (get m)(k := None)"
    and invar_empty: "invar empty"
    and invar_insert: "invar m \<Longrightarrow> invar (insert k v m)"
    and invar_remove: "invar m \<Longrightarrow> invar (remove k m)"
    and finite_get: "invar m \<Longrightarrow> finite (dom (get m))"
    and len_card: "invar m \<Longrightarrow> len m = card (dom (get m))"
begin

lemma len_insert:
  assumes "invar m"
  shows "len (insert k v m) = (if k \<in> dom (get m) then len m else Suc (len m))"
  using assms
  by (simp add: len_card invar_insert get_insert finite_get insert_absorb)

lemma len_remove:
  assumes "invar m"
  shows "len (remove k m) = (if k \<in> dom (get m) then len m - 1 else len m)"
  using assms
  by (simp add: len_card invar_remove get_remove finite_get)

lemma len_empty: "len empty = 0"
  by (simp add: len_card invar_empty get_empty)

lemma len_insert_present: "\<lbrakk>invar m; get m k = Some w\<rbrakk> \<Longrightarrow> len (insert k v m) = len m"
  by (simp add: len_insert domI)

lemma remove_insert: "\<lbrakk>invar m; get m k = None\<rbrakk> \<Longrightarrow> get (remove k (insert k v m)) = get m"
  by (simp add: get_remove get_insert invar_insert map_upd_triv fun_upd_idem)

lemma len_remove_le: "invar m \<Longrightarrow> len (remove k m) \<le> len m"
  by (simp add: len_remove)

end

section \<open>\<open>HashMap\<close>\<close>

type_synonym ('k, 'v) hashmap = "('k \<times> 'v) list"

definition hm_get :: "('k, 'v) hashmap \<Rightarrow> 'k \<Rightarrow> 'v option" where
  "hm_get m k = map_of m k"

definition hm_remove :: "'k \<Rightarrow> ('k, 'v) hashmap \<Rightarrow> ('k, 'v) hashmap" where
  "hm_remove k m = filter (\<lambda>(k', _). k' \<noteq> k) m"

definition hm_insert :: "'k \<Rightarrow> 'v \<Rightarrow> ('k, 'v) hashmap \<Rightarrow> ('k, 'v) hashmap" where
  "hm_insert k v m = (k, v) # hm_remove k m"

definition hm_contains :: "('k, 'v) hashmap \<Rightarrow> 'k \<Rightarrow> bool" where
  "hm_contains m k \<longleftrightarrow> hm_get m k \<noteq> None"

text \<open>\<open>retain\<close>: keep the entries that satisfy a predicate.\<close>

definition hm_retain :: "('k \<Rightarrow> 'v \<Rightarrow> bool) \<Rightarrow> ('k, 'v) hashmap \<Rightarrow> ('k, 'v) hashmap" where
  "hm_retain p m = filter (\<lambda>(k, v). p k v) m"

definition hm_invar :: "('k, 'v) hashmap \<Rightarrow> bool" where
  "hm_invar m \<longleftrightarrow> distinct (map fst m)"

lemma hm_get_Nil: "hm_get [] = Map.empty"
  by (simp add: fun_eq_iff hm_get_def)

lemma hm_get_remove: "hm_get (hm_remove k m) = (hm_get m)(k := None)"
  by (induction m) (auto simp: hm_get_def hm_remove_def fun_eq_iff)

lemma hm_get_insert: "hm_get (hm_insert k v m) = (hm_get m)(k \<mapsto> v)"
  using hm_get_remove [of k m] by (auto simp: hm_get_def hm_insert_def fun_eq_iff)

lemma distinct_map_fst_filter: "distinct (map fst m) \<Longrightarrow> distinct (map fst (filter p m))"
  by (induction m) auto

lemma hm_invar_insert: "hm_invar m \<Longrightarrow> hm_invar (hm_insert k v m)"
  by (auto simp: hm_invar_def hm_insert_def hm_remove_def distinct_map_fst_filter)

lemma hm_len_card: "hm_invar m \<Longrightarrow> length m = card (dom (hm_get m))"
  unfolding hm_invar_def hm_get_def
  by (metis (full_types) distinct_card dom_map_of_conv_image_fst length_map set_map)

lemma hm_finite: "finite (dom (hm_get m))"
  by (metis finite_dom_map_of hm_get_def ext)

interpretation hm: map_adt "[]" hm_get hm_insert hm_remove length hm_invar
  by unfold_locales
    (simp_all add: hm_finite,
     simp_all add: hm_get_Nil hm_get_insert hm_get_remove hm_invar_insert hm_len_card,
     simp_all add: hm_invar_def hm_remove_def distinct_map_fst_filter)

lemma hm_invar_retain: "hm_invar m \<Longrightarrow> hm_invar (hm_retain p m)"
  by (simp add: hm_invar_def hm_retain_def distinct_map_fst_filter)

lemma hm_get_retain:
  assumes "hm_invar m"
  shows "hm_get (hm_retain p m) k =
    (case hm_get m k of Some v \<Rightarrow> if p k v then Some v else None | None \<Rightarrow> None)"
  using assms unfolding hm_get_def hm_retain_def hm_invar_def
  by (induction m) (auto split: option.splits dest: map_of_SomeD simp: rev_image_eqI)

lemma hm_len_retain: "length (hm_retain p m) \<le> length m"
  by (simp add: hm_retain_def)

lemma hm_contains_insert: "hm_contains (hm_insert k v m) k' \<longleftrightarrow> k' = k \<or> hm_contains m k'"
  by (simp add: hm_contains_def hm_get_insert)

lemma hm_contains_remove: "hm_contains (hm_remove k m) k' \<longleftrightarrow> k' \<noteq> k \<and> hm_contains m k'"
  by (simp add: hm_contains_def hm_get_remove)

section \<open>\<open>BTreeMap\<close>\<close>

type_synonym ('k, 'v) btree = "('k \<times> 'v) list"

definition bt_get :: "('k, 'v) btree \<Rightarrow> 'k \<Rightarrow> 'v option" where
  "bt_get m k = map_of m k"

definition bt_remove :: "'k \<Rightarrow> ('k, 'v) btree \<Rightarrow> ('k, 'v) btree" where
  "bt_remove k m = filter (\<lambda>(k', _). k' \<noteq> k) m"

fun bt_insert :: "'k::linorder \<Rightarrow> 'v \<Rightarrow> ('k, 'v) btree \<Rightarrow> ('k, 'v) btree" where
  "bt_insert k v [] = [(k, v)]"
| "bt_insert k v ((k', v') # m) =
     (if k < k' then (k, v) # (k', v') # m
      else if k = k' then (k, v) # m
      else (k', v') # bt_insert k v m)"

definition bt_retain :: "('k \<Rightarrow> 'v \<Rightarrow> bool) \<Rightarrow> ('k, 'v) btree \<Rightarrow> ('k, 'v) btree" where
  "bt_retain p m = filter (\<lambda>(k, v). p k v) m"

text \<open>\<open>keys().next()\<close> / \<open>first_key_value()\<close>: the least key.\<close>

fun bt_first :: "('k, 'v) btree \<Rightarrow> ('k \<times> 'v) option" where
  "bt_first [] = None"
| "bt_first (kv # m) = Some kv"

definition bt_invar :: "('k::linorder, 'v) btree \<Rightarrow> bool" where
  "bt_invar m \<longleftrightarrow> sorted_wrt (<) (map fst m)"

lemma bt_get_Nil: "bt_get [] = Map.empty"
  by (simp add: fun_eq_iff bt_get_def)

lemma bt_get_remove: "bt_get (bt_remove k m) = (bt_get m)(k := None)"
  by (induction m) (auto simp: bt_get_def bt_remove_def fun_eq_iff)

lemma bt_get_insert: "bt_invar m \<Longrightarrow> bt_get (bt_insert k v m) = (bt_get m)(k \<mapsto> v)"
  unfolding bt_get_def bt_invar_def
  by (induction k v m rule: bt_insert.induct) (auto simp: fun_eq_iff)

lemma set_bt_insert_keys: "fst ` set (bt_insert k v m) = insert k (fst ` set m)"
  by (induction k v m rule: bt_insert.induct) auto

lemma bt_invar_insert: "bt_invar m \<Longrightarrow> bt_invar (bt_insert k v m)"
proof (induction k v m rule: bt_insert.induct)
  case (2 k v k' v' m)
  then show ?case
    using set_bt_insert_keys [of k v m] by (auto simp: bt_invar_def)
qed (simp add: bt_invar_def)

lemma bt_invar_filter: "bt_invar m \<Longrightarrow> bt_invar (filter p m)"
  unfolding bt_invar_def by (induction m) auto

lemma bt_invar_distinct: "bt_invar m \<Longrightarrow> distinct (map fst m)"
  by (simp add: bt_invar_def strict_sorted_iff)

lemma bt_len_card: "bt_invar m \<Longrightarrow> length m = card (dom (bt_get m))"
  unfolding bt_get_def
  by (metis (full_types) bt_invar_distinct distinct_card dom_map_of_conv_image_fst length_map set_map)

lemma bt_finite: "finite (dom (bt_get m))"
  by (metis finite_dom_map_of bt_get_def ext)

interpretation bt: map_adt "[]" bt_get bt_insert bt_remove length bt_invar
  by unfold_locales
    (simp_all add: bt_finite,
     simp_all add: bt_get_Nil bt_get_insert bt_get_remove bt_invar_insert bt_len_card,
     simp_all add: bt_invar_def bt_remove_def bt_invar_filter [unfolded bt_invar_def])

lemma bt_invar_retain: "bt_invar m \<Longrightarrow> bt_invar (bt_retain p m)"
  by (simp add: bt_retain_def bt_invar_filter)

lemma bt_get_retain:
  assumes "bt_invar m"
  shows "bt_get (bt_retain p m) k =
    (case bt_get m k of Some v \<Rightarrow> if p k v then Some v else None | None \<Rightarrow> None)"
  using hm_get_retain [of m p k] bt_invar_distinct [OF assms]
  by (simp add: bt_get_def bt_retain_def hm_get_def hm_retain_def hm_invar_def)

lemma bt_first_least:
  assumes "bt_invar m" "bt_first m = Some (k, v)" "bt_get m k' = Some v'"
  shows "k \<le> k'"
  using assms by (cases m) (auto simp: bt_invar_def bt_get_def split: if_splits
      dest!: map_of_SomeD)

lemma bt_first_get:
  assumes "bt_first m = Some (k, v)"
  shows "bt_get m k = Some v"
  using assms by (cases m) (auto simp: bt_get_def)

lemma bt_first_None: "bt_first m = None \<longleftrightarrow> m = []"
  by (cases m) simp_all

lemma bt_get_in_set: "bt_invar m \<Longrightarrow> bt_get m k = Some v \<longleftrightarrow> (k, v) \<in> set m"
  by (simp add: bt_get_def bt_invar_distinct)

lemma bt_remove_length_first:
  assumes "bt_invar m" "bt_first m = Some (k, v)"
  shows "length (bt_remove k m) = length m - 1"
  using bt.len_remove [OF assms(1), of k] bt_first_get [OF assms(2)] by (simp add: domI)

end
