(* ===== verification/Policy_Model.thy ===== *)
theory Policy_Model
  imports Policy_Action Nexus_Maps
begin

text \<open>
  \<open>crates/nexus-policy/src/model.rs\<close> and \<open>narrowing.rs\<close>: device label selectors, policy conditions,
  session restrictions, roles, and the validator of dynamic policy updates (ADR-017).
\<close>

section \<open>Label selectors\<close>

type_synonym labels = "(string, string) hashmap"

datatype DeviceLabelSelector =
    Wildcard
  | Exact string string                       \<comment> \<open>\<open>key\<close>, \<open>value\<close>\<close>
  | MatchAll "(string \<times> string) list"         \<comment> \<open>the \<open>BTreeMap\<close> of labels\<close>

definition DeviceLabelSelector_new :: "string \<Rightarrow> string \<Rightarrow> DeviceLabelSelector" where
  "DeviceLabelSelector_new key value0 =
     (if key = ''*'' \<and> value0 = ''*'' then Wildcard else Exact key value0)"

definition label_matches :: "string \<Rightarrow> string \<Rightarrow> labels \<Rightarrow> bool" where
  "label_matches key value0 labels =
     (if key = ''*'' \<and> value0 = ''*'' then True
      else if value0 = ''*'' then hm_contains labels key
      else if key = ''*'' then list_ex (\<lambda>(k, v). v = value0) labels
      else hm_get labels key = Some value0)"

fun DeviceLabelSelector_matches :: "DeviceLabelSelector \<Rightarrow> labels \<Rightarrow> bool" where
  "DeviceLabelSelector_matches Wildcard labels = True"
| "DeviceLabelSelector_matches (Exact key value0) labels = label_matches key value0 labels"
| "DeviceLabelSelector_matches (MatchAll selector_labels) labels =
     list_all (\<lambda>(k, v). label_matches k v labels) selector_labels"

section \<open>Conditions and restrictions\<close>

definition DEFAULT_MAX_DURATION_SECONDS :: u64 where
  "DEFAULT_MAX_DURATION_SECONDS = 3600"

record PolicyConditions =
  require_mfa :: bool
  managed_client_device :: bool
  pc_clipboard_enabled :: bool
  pc_file_transfer_enabled :: bool
  pc_audio_enabled :: bool
  pc_max_duration_seconds :: "u64 option"
  max_resolution_width :: "u32 option"
  max_resolution_height :: "u32 option"
  allowed_ip_ranges :: "string list"

definition PolicyConditions_default :: PolicyConditions where
  "PolicyConditions_default =
     \<lparr>require_mfa = False, managed_client_device = False, pc_clipboard_enabled = True,
      pc_file_transfer_enabled = True, pc_audio_enabled = True, pc_max_duration_seconds = None,
      max_resolution_width = None, max_resolution_height = None, allowed_ip_ranges = []\<rparr>"

definition pc_max_resolution :: "PolicyConditions \<Rightarrow> (u32 \<times> u32) option" where
  "pc_max_resolution c =
     (case (max_resolution_width c, max_resolution_height c) of
        (Some w, Some h) \<Rightarrow> Some (w, h)
      | _ \<Rightarrow> None)"

record SessionRestrictions =
  sr_clipboard_enabled :: bool
  sr_file_transfer_enabled :: bool
  sr_audio_enabled :: bool
  sr_max_duration_seconds :: u64
  sr_max_resolution :: "(u32 \<times> u32) option"

definition SessionRestrictions_default :: SessionRestrictions where
  "SessionRestrictions_default =
     \<lparr>sr_clipboard_enabled = True, sr_file_transfer_enabled = True, sr_audio_enabled = True,
      sr_max_duration_seconds = DEFAULT_MAX_DURATION_SECONDS, sr_max_resolution = None\<rparr>"

definition SessionRestrictions_new ::
  "bool \<Rightarrow> bool \<Rightarrow> bool \<Rightarrow> u64 \<Rightarrow> (u32 \<times> u32) option \<Rightarrow> SessionRestrictions" where
  "SessionRestrictions_new clipboard file_transfer audio max_duration max_res =
     \<lparr>sr_clipboard_enabled = clipboard, sr_file_transfer_enabled = file_transfer,
      sr_audio_enabled = audio, sr_max_duration_seconds = max_duration,
      sr_max_resolution = max_res\<rparr>"

definition SessionRestrictions_from_conditions ::
  "PolicyConditions \<Rightarrow> u64 \<Rightarrow> SessionRestrictions" where
  "SessionRestrictions_from_conditions conditions default_duration =
     (let max_duration =
            (case pc_max_duration_seconds conditions of Some d \<Rightarrow> d | None \<Rightarrow> default_duration)
      in \<lparr>sr_clipboard_enabled = pc_clipboard_enabled conditions,
          sr_file_transfer_enabled = pc_file_transfer_enabled conditions,
          sr_audio_enabled = pc_audio_enabled conditions,
          sr_max_duration_seconds = max_duration,
          sr_max_resolution = pc_max_resolution conditions\<rparr>)"

section \<open>Roles\<close>

record Role =
  role_name :: string
  allowed_actions :: ActionSet
  device_label_selectors :: "DeviceLabelSelector list"
  role_conditions :: PolicyConditions

definition Role_new :: "string \<Rightarrow> Role" where
  "Role_new name =
     \<lparr>role_name = name, allowed_actions = ActionSet_new, device_label_selectors = [],
      role_conditions = PolicyConditions_default\<rparr>"

definition Role_with_actions :: "ActionSet \<Rightarrow> Role \<Rightarrow> Role" where
  "Role_with_actions as r = r\<lparr>allowed_actions := as\<rparr>"

definition Role_with_action :: "Action \<Rightarrow> Role \<Rightarrow> Role" where
  "Role_with_action a r = r\<lparr>allowed_actions := fst (ActionSet_insert a (allowed_actions r))\<rparr>"

definition Role_with_label_selector :: "DeviceLabelSelector \<Rightarrow> Role \<Rightarrow> Role" where
  "Role_with_label_selector sel r = r\<lparr>device_label_selectors := device_label_selectors r @ [sel]\<rparr>"

definition Role_with_conditions :: "PolicyConditions \<Rightarrow> Role \<Rightarrow> Role" where
  "Role_with_conditions c r = r\<lparr>role_conditions := c\<rparr>"

definition allows_action :: "Role \<Rightarrow> Action \<Rightarrow> bool" where
  "allows_action r a = ActionSet_contains (allowed_actions r) a"

definition matches_device :: "Role \<Rightarrow> labels \<Rightarrow> bool" where
  "matches_device r labels =
     (if device_label_selectors r = [] then True
      else list_ex (\<lambda>selector. DeviceLabelSelector_matches selector labels)
             (device_label_selectors r))"

section \<open>Dynamic narrowing\<close>

datatype NarrowingError =
    ActionEscalationAttempted ActionSet
  | RestrictionWidened string

definition validate_policy_narrowing ::
  "ActionSet \<Rightarrow> ActionSet \<Rightarrow> SessionRestrictions \<Rightarrow> SessionRestrictions
     \<Rightarrow> (SessionRestrictions, NarrowingError) result" where
  "validate_policy_narrowing original_actions proposed_actions original proposed =
     (if \<not> ActionSet_is_subset proposed_actions original_actions then
        Err (ActionEscalationAttempted (ActionSet_difference proposed_actions original_actions))
      else if \<not> sr_clipboard_enabled original \<and> sr_clipboard_enabled proposed then
        Err (RestrictionWidened ''cannot enable clipboard if originally disabled'')
      else if \<not> sr_file_transfer_enabled original \<and> sr_file_transfer_enabled proposed then
        Err (RestrictionWidened ''cannot enable file transfer if originally disabled'')
      else if \<not> sr_audio_enabled original \<and> sr_audio_enabled proposed then
        Err (RestrictionWidened ''cannot enable audio if originally disabled'')
      else if sr_max_duration_seconds proposed > sr_max_duration_seconds original then
        Err (RestrictionWidened ''cannot extend max session duration'')
      else
        (case sr_max_resolution original of
           Some (orig_w, orig_h) \<Rightarrow>
             (case sr_max_resolution proposed of
                None \<Rightarrow> Err (RestrictionWidened ''cannot remove max resolution constraint'')
              | Some (prop_w, prop_h) \<Rightarrow>
                  if prop_w > orig_w \<or> prop_h > orig_h then
                    Err (RestrictionWidened ''cannot increase max resolution width or height'')
                  else Ok proposed)
         | None \<Rightarrow> Ok proposed))"

section \<open>Laws\<close>

text \<open>
  What a session may do, as a predicate on concrete demands: an action, the three channels, a
  duration and a resolution.  The validator is correct when it accepts exactly the updates after
  which every demand that is served was served before.
\<close>

datatype demand =
    Use_Action Action | Use_Clipboard | Use_File_Transfer | Use_Audio
  | Last_Seconds u64 | Show_Resolution u32 u32

fun permits :: "ActionSet \<Rightarrow> SessionRestrictions \<Rightarrow> demand \<Rightarrow> bool" where
  "permits as r (Use_Action a) \<longleftrightarrow> a \<in> as"
| "permits as r Use_Clipboard \<longleftrightarrow> sr_clipboard_enabled r"
| "permits as r Use_File_Transfer \<longleftrightarrow> sr_file_transfer_enabled r"
| "permits as r Use_Audio \<longleftrightarrow> sr_audio_enabled r"
| "permits as r (Last_Seconds t) \<longleftrightarrow> t \<le> sr_max_duration_seconds r"
| "permits as r (Show_Resolution w h) \<longleftrightarrow>
     (case sr_max_resolution r of None \<Rightarrow> True | Some (mw, mh) \<Rightarrow> w \<le> mw \<and> h \<le> mh)"

lemma validate_policy_narrowing_Ok:
  "validate_policy_narrowing oa pa orig upd = Ok r \<longleftrightarrow>
     r = upd \<and> pa \<subseteq> oa
     \<and> (sr_clipboard_enabled upd \<longrightarrow> sr_clipboard_enabled orig)
     \<and> (sr_file_transfer_enabled upd \<longrightarrow> sr_file_transfer_enabled orig)
     \<and> (sr_audio_enabled upd \<longrightarrow> sr_audio_enabled orig)
     \<and> sr_max_duration_seconds upd \<le> sr_max_duration_seconds orig
     \<and> (case sr_max_resolution orig of None \<Rightarrow> True
        | Some (w, h) \<Rightarrow>
            (case sr_max_resolution upd of None \<Rightarrow> False
             | Some (w', h') \<Rightarrow> w' \<le> w \<and> h' \<le> h))"
  by (auto simp: validate_policy_narrowing_def ActionSet_defs not_less not_le split: option.splits)

lemma validate_policy_narrowing_permits:
  assumes "validate_policy_narrowing oa pa orig upd = Ok r" "permits pa upd d"
  shows "permits oa orig d"
  using assms
  by (cases d) (auto simp: validate_policy_narrowing_Ok split: option.splits dest: order_trans)

text \<open>The converse needs a resolution that an absent limit allows and a present one refuses.\<close>

lemma permits_resolution_limit:
  assumes "\<And>w' h'. permits pa upd (Show_Resolution w' h') \<Longrightarrow> permits oa orig (Show_Resolution w' h')"
    and "sr_max_resolution orig \<noteq> Some (- 1, - 1)"
  shows "case sr_max_resolution orig of None \<Rightarrow> True
      | Some (w, h) \<Rightarrow> (case sr_max_resolution upd of None \<Rightarrow> False
                       | Some (w', h') \<Rightarrow> w' \<le> w \<and> h' \<le> h)"
proof (cases "sr_max_resolution orig")
  case (Some wh)
  then obtain w h where wh: "sr_max_resolution orig = Some (w, h)"
    by (cases wh) simp
  show ?thesis
  proof (cases "sr_max_resolution upd")
    case None
    then have "w \<ge> - 1" "h \<ge> - 1"
      using assms(1) [of "- 1" "- 1"] wh by simp_all
    with assms(2) wh show ?thesis
      by (simp add: word_order.extremum_unique)
  next
    case (Some wh')
    then show ?thesis
      using assms(1) [of "fst wh'" "snd wh'"] wh by (cases wh') simp
  qed
qed simp

lemma permits_imp_validate_policy_narrowing:
  assumes "\<And>d. permits pa upd d \<Longrightarrow> permits oa orig d"
    and "sr_max_resolution orig \<noteq> Some (- 1, - 1)"
  shows "validate_policy_narrowing oa pa orig upd = Ok upd"
proof -
  have "pa \<subseteq> oa" using assms(1) [of "Use_Action _"] by auto
  moreover have "sr_clipboard_enabled upd \<longrightarrow> sr_clipboard_enabled orig"
    "sr_file_transfer_enabled upd \<longrightarrow> sr_file_transfer_enabled orig"
    "sr_audio_enabled upd \<longrightarrow> sr_audio_enabled orig"
    using assms(1) [of Use_Clipboard] assms(1) [of Use_File_Transfer] assms(1) [of Use_Audio]
    by simp_all
  moreover have "sr_max_duration_seconds upd \<le> sr_max_duration_seconds orig"
    using assms(1) [of "Last_Seconds (sr_max_duration_seconds upd)"] by simp
  moreover have "case sr_max_resolution orig of None \<Rightarrow> True
      | Some (w, h) \<Rightarrow> (case sr_max_resolution upd of None \<Rightarrow> False
                       | Some (w', h') \<Rightarrow> w' \<le> w \<and> h' \<le> h)"
    by (rule permits_resolution_limit [OF assms(1,2)])
  ultimately show ?thesis
    by (simp add: validate_policy_narrowing_Ok)
qed

lemma validate_policy_narrowing_trans:
  assumes "validate_policy_narrowing a1 a2 r1 r2 = Ok s2"
    and "validate_policy_narrowing a2 a3 s2 r3 = Ok s3"
  shows "validate_policy_narrowing a1 a3 r1 r3 = Ok s3"
  using assms by (auto simp: validate_policy_narrowing_Ok split: option.splits)

lemma matches_device_no_selectors: "device_label_selectors r = [] \<Longrightarrow> matches_device r labels"
  by (simp add: matches_device_def)

section \<open>Properties\<close>

text \<open>
  C22: the ADR-017 validator is exact.  It accepts an update if and only if every demand the updated
  session would serve (an action, a channel, a duration, a resolution) was already served by the
  session before the update.  (The one exception, a limit of \<open>u32::MAX\<close> by \<open>u32::MAX\<close> that limits
  nothing but must not be dropped, is excluded.)
\<close>

theorem policy_narrowing_exact:
  assumes "sr_max_resolution orig \<noteq> Some (- 1, - 1)"
  shows "validate_policy_narrowing oa pa orig upd = Ok upd \<longleftrightarrow>
    (\<forall>d. permits pa upd d \<longrightarrow> permits oa orig d)"
  using assms validate_policy_narrowing_permits permits_imp_validate_policy_narrowing by blast

theorem policy_narrowing_exact_witness:
  "validate_policy_narrowing {DesktopView, DesktopControl} {DesktopView}
     (SessionRestrictions_default\<lparr>sr_max_resolution := Some (1920, 1080)\<rparr>)
     (SessionRestrictions_default\<lparr>sr_max_resolution := Some (800, 600)\<rparr>)
   = Ok (SessionRestrictions_default\<lparr>sr_max_resolution := Some (800, 600)\<rparr>)"
proof (rule policy_narrowing_exact [THEN iffD2])
  have "w \<le> 1920" if "w \<le> 800" for w :: u32 using that by (rule order_trans) simp
  moreover have "h \<le> 1080" if "h \<le> 600" for h :: u32 using that by (rule order_trans) simp
  ultimately show "\<forall>d. permits {DesktopView} (SessionRestrictions_default\<lparr>sr_max_resolution := Some (800, 600)\<rparr>) d \<longrightarrow>
       permits {DesktopView, DesktopControl}
         (SessionRestrictions_default\<lparr>sr_max_resolution := Some (1920, 1080)\<rparr>) d"
    by (intro allI, case_tac d) (simp_all add: SessionRestrictions_default_def)
qed simp

end
