(* ===== verification/Policy_Ip.thy ===== *)
theory Policy_Ip
  imports Rust_Std
begin

text \<open>
  \<open>ip_matches_range\<close> of \<open>crates/nexus-policy/src/engine.rs\<close>, with the standard library's parser for
  \<open>IpAddr\<close>.  The parser functions consume a prefix of the input and return the rest; every one of
  them is atomic, that is, returns \<open>None\<close> without consuming when it fails.
\<close>

section \<open>Addresses and their parser\<close>

datatype IpAddr = V4 u32 | V6 u128

definition to_digit :: "nat \<Rightarrow> char \<Rightarrow> nat option" where
  "to_digit radix c =
     (let n = char_code c;
          d = (if 48 \<le> n \<and> n \<le> 57 then n - 48
               else if 97 \<le> n \<and> n \<le> 122 then n - 87
               else if 65 \<le> n \<and> n \<le> 90 then n - 55
               else 255)
      in if d < radix then Some d else None)"

fun read_digits :: "nat \<Rightarrow> nat \<Rightarrow> nat \<Rightarrow> string \<Rightarrow> (nat \<times> nat \<times> string)" where
  "read_digits radix acc cnt [] = (acc, cnt, [])"
| "read_digits radix acc cnt (c # cs) =
     (case to_digit radix c of
        Some d \<Rightarrow> read_digits radix (acc * radix + d) (cnt + 1) cs
      | None \<Rightarrow> (acc, cnt, c # cs))"

definition read_number :: "nat \<Rightarrow> nat \<Rightarrow> bool \<Rightarrow> nat \<Rightarrow> string \<Rightarrow> (nat \<times> string) option" where
  "read_number radix max_digits allow_zero_prefix mx s =
     (case read_digits radix 0 0 s of
        (n, cnt, rest) \<Rightarrow>
          if cnt > max_digits \<or> cnt = 0 \<or> n > mx then None
          else if \<not> allow_zero_prefix \<and> take 1 s = ''0'' \<and> cnt > 1 then None
          else Some (n, rest))"

definition read_given_char :: "char \<Rightarrow> string \<Rightarrow> string option" where
  "read_given_char c s = (case s of x # xs \<Rightarrow> if x = c then Some xs else None | [] \<Rightarrow> None)"

definition read_separator ::
  "char \<Rightarrow> nat \<Rightarrow> (string \<Rightarrow> ('a \<times> string) option) \<Rightarrow> string \<Rightarrow> ('a \<times> string) option" where
  "read_separator sep index inner s =
     (if index > 0 then (case read_given_char sep s of None \<Rightarrow> None | Some s' \<Rightarrow> inner s')
      else inner s)"

definition read_octet :: "nat \<Rightarrow> string \<Rightarrow> (nat \<times> string) option" where
  "read_octet i = read_separator (CHR ''.'') i (read_number 10 3 False 255)"

definition read_ipv4_addr :: "string \<Rightarrow> (u32 \<times> string) option" where
  "read_ipv4_addr s0 =
     (case read_octet 0 s0 of None \<Rightarrow> None | Some (a, s1) \<Rightarrow>
     (case read_octet 1 s1 of None \<Rightarrow> None | Some (b, s2) \<Rightarrow>
     (case read_octet 2 s2 of None \<Rightarrow> None | Some (c, s3) \<Rightarrow>
     (case read_octet 3 s3 of None \<Rightarrow> None | Some (d, s4) \<Rightarrow>
        Some (of_nat (((a * 256 + b) * 256 + c) * 256 + d), s4)))))"

text \<open>
  \<open>read_groups\<close>: \<open>i\<close> groups have been read of at most \<open>i + left\<close>; the result is the groups, whether the
  last two come from an embedded IPv4 address, and the rest.
\<close>

fun read_groups :: "nat \<Rightarrow> nat \<Rightarrow> string \<Rightarrow> nat list \<times> bool \<times> string" where
  "read_groups i 0 s = ([], False, s)"
| "read_groups i (Suc left) s =
     (case (if left > 0 then read_separator (CHR '':'') i read_ipv4_addr s else None) of
        Some (a, rest) \<Rightarrow> ([unat a div 65536, unat a mod 65536], True, rest)
      | None \<Rightarrow>
          (case read_separator (CHR '':'') i (read_number 16 4 True 65535) s of
             Some (g, rest) \<Rightarrow>
               (case read_groups (i + 1) left rest of (gs, v4, rest') \<Rightarrow> (g # gs, v4, rest'))
           | None \<Rightarrow> ([], False, s)))"

definition groups_u128 :: "nat list \<Rightarrow> u128" where
  "groups_u128 gs = of_nat (foldl (\<lambda>acc g. acc * 65536 + g) 0 gs)"

definition read_ipv6_addr :: "string \<Rightarrow> (u128 \<times> string) option" where
  "read_ipv6_addr s =
     (case read_groups 0 8 s of
        (head, head_ipv4, s1) \<Rightarrow>
          if length head = 8 then Some (groups_u128 head, s1)
          else if head_ipv4 then None
          else
            (case read_given_char (CHR '':'') s1 of None \<Rightarrow> None | Some s2 \<Rightarrow>
            (case read_given_char (CHR '':'') s2 of None \<Rightarrow> None | Some s3 \<Rightarrow>
            (case read_groups 0 (8 - (length head + 1)) s3 of
               (tail, _, s4) \<Rightarrow>
                 Some (groups_u128 (head @ replicate (8 - length head - length tail) 0 @ tail), s4)))))"

definition parse_ip :: "string \<Rightarrow> IpAddr option" where
  "parse_ip s =
     (case read_ipv4_addr s of
        Some (a, rest) \<Rightarrow> if rest = [] then Some (V4 a) else None
      | None \<Rightarrow>
          (case read_ipv6_addr s of
             Some (a, rest) \<Rightarrow> if rest = [] then Some (V6 a) else None
           | None \<Rightarrow> None))"

section \<open>\<open>ip_matches_range\<close>\<close>

definition ip_matches_range :: "IpAddr \<Rightarrow> string \<Rightarrow> bool" where
  "ip_matches_range ip range0 =
     (let range_str = trim range0 in
      case split_once (CHR ''/'') range_str of
        Some (cidr_ip_str, prefix_str) \<Rightarrow>
          (case parse_uint 255 prefix_str of
             Err _ \<Rightarrow> False
           | Ok prefix \<Rightarrow>
               (case (ip, parse_ip cidr_ip_str) of
                  (V4 client_v4, Some (V4 net_v4)) \<Rightarrow>
                    if prefix > 32 then False
                    else if prefix = 0 then True
                    else let mask = push_bit (32 - prefix) (NOT 0)
                         in client_v4 AND mask = net_v4 AND mask
                | (V6 client_v6, Some (V6 net_v6)) \<Rightarrow>
                    if prefix > 128 then False
                    else if prefix = 0 then True
                    else let mask = push_bit (128 - prefix) (NOT 0)
                         in client_v6 AND mask = net_v6 AND mask
                | _ \<Rightarrow> False))
      | None \<Rightarrow>
          (case parse_ip range_str of
             Some exact_ip \<Rightarrow> ip = exact_ip
           | None \<Rightarrow> False))"

declare to_digit_def [eval_simps] read_octet_def [eval_simps] read_number_def [eval_simps]
  read_separator_def [eval_simps] read_given_char_def [eval_simps] read_ipv4_addr_def [eval_simps]
  parse_ip_def [eval_simps]

section \<open>Laws\<close>

text \<open>The specification of a CIDR block: the first \<open>p\<close> bits of the two addresses agree.\<close>

fun in_cidr :: "IpAddr \<Rightarrow> IpAddr \<Rightarrow> nat \<Rightarrow> bool" where
  "in_cidr (V4 a) (V4 n) p \<longleftrightarrow> p \<le> 32 \<and> (\<forall>i < 32. 32 - p \<le> i \<longrightarrow> bit a i = bit n i)"
| "in_cidr (V6 a) (V6 n) p \<longleftrightarrow> p \<le> 128 \<and> (\<forall>i < 128. 128 - p \<le> i \<longrightarrow> bit a i = bit n i)"
| "in_cidr _ _ p \<longleftrightarrow> False"

lemma mask_eq_iff_bits:
  fixes a n :: "'a::len word"
  shows "a AND NOT (mask k) = n AND NOT (mask k) \<longleftrightarrow>
    (\<forall>i < LENGTH('a). k \<le> i \<longrightarrow> bit a i = bit n i)"
  by (fastforce simp: bit_eq_iff bit_and_iff bit_not_iff bit_mask_iff)

lemma ip_matches_range_cidr:
  assumes "trim r = s @ CHR ''/'' # show_nat p" "CHR ''/'' \<notin> set s" "parse_ip s = Some net" "p \<le> 255"
  shows "ip_matches_range ip r \<longleftrightarrow> in_cidr ip net p"
proof -
  have "split_once (CHR ''/'') (trim r) = Some (s, show_nat p)"
    using assms by (simp add: split_once_append)
  then show ?thesis
    using assms(3,4)
    by (cases ip; cases net)
       (simp_all add: ip_matches_range_def parse_uint_show_nat mask_eq_iff_bits Let_def not_less)
qed

lemma ip_matches_range_exact:
  assumes "CHR ''/'' \<notin> set (trim r)"
  shows "ip_matches_range ip r \<longleftrightarrow> parse_ip (trim r) = Some ip"
  using assms by (auto simp: ip_matches_range_def split_once_None [THEN iffD2] split: option.splits)

section \<open>Properties\<close>

text \<open>
  A range string that is, once trimmed, an address \<open>s\<close>, a slash and a decimal prefix length
  \<open>p\<close> matches exactly the addresses of the same family that agree with \<open>s\<close> on the first \<open>p\<close> bits;
  a prefix longer than the address, or an address of the other family, never matches.
\<close>

theorem cidr_match_correct:
  assumes "trim r = s @ CHR ''/'' # show_nat p" "CHR ''/'' \<notin> set s" "parse_ip s = Some net" "p \<le> 255"
  shows "ip_matches_range ip r \<longleftrightarrow> in_cidr ip net p"
  by (rule ip_matches_range_cidr [OF assms])

theorem cidr_match_correct_witness:
  "ip_matches_range (V4 0x0A0203FF) ''10.2.0.0/16'' = in_cidr (V4 0x0A0203FF) (V4 0x0A020000) 16"
proof (rule cidr_match_correct)
  show "trim ''10.2.0.0/16'' = ''10.2.0.0'' @ CHR ''/'' # show_nat 16"
    by (subst trim_ident) (simp_all add: eval_simps is_whitespace_def show_nat.simps)
qed (simp_all add: eval_simps)

end
