(* ===== verification/Policy_Engine.thy ===== *)
theory Policy_Engine
  imports Policy_Model Policy_Ip Common_Ids
begin

text \<open>
  \<open>crates/nexus-policy/src/engine.rs\<close>: the evaluation of a request against the subject's roles
  (role lookup, action, device labels, attribute conditions) with the exclusivity of desktop control
  (ADR-015), and the merge of several matching roles.
\<close>

section \<open>Contexts and decisions\<close>

record SubjectContext =
  subj_user_id :: string
  subj_roles :: "string list"
  mfa_authenticated :: bool
  client_device_managed :: bool
  client_ip :: "IpAddr option"

definition SubjectContext_new :: "string \<Rightarrow> SubjectContext" where
  "SubjectContext_new user_id =
     \<lparr>subj_user_id = user_id, subj_roles = [], mfa_authenticated = False,
      client_device_managed = False, client_ip = None\<rparr>"

record ActiveSessionSummary =
  as_session_id :: string
  as_target_device_id :: string
  as_granted_actions :: ActionSet
  is_active :: bool

record ResourceContext =
  res_target_device_id :: string
  device_labels :: labels
  active_sessions_on_device :: "ActiveSessionSummary list"

definition ResourceContext_new :: "string \<Rightarrow> ResourceContext" where
  "ResourceContext_new device =
     \<lparr>res_target_device_id = device, device_labels = [], active_sessions_on_device = []\<rparr>"

definition ResourceContext_with_labels :: "(string \<times> string) list \<Rightarrow> ResourceContext \<Rightarrow> ResourceContext" where
  "ResourceContext_with_labels ls r =
     r\<lparr>device_labels := foldl (\<lambda>m (k, v). hm_insert k v m) (device_labels r) ls\<rparr>"

datatype DenialReason =
    NoMatchingRole | ActionNotAllowed | DeviceNotMatched | MfaRequired
  | ManagedClientDeviceRequired | IpAddressNotAllowed
  | ConcurrentControlConflict string        \<comment> \<open>\<open>active_session_id\<close>\<close>

fun DenialReason_to_string :: "DenialReason \<Rightarrow> string" where
  "DenialReason_to_string NoMatchingRole = ''no matching role found for subject''"
| "DenialReason_to_string ActionNotAllowed = ''action is not allowed by assigned roles''"
| "DenialReason_to_string DeviceNotMatched = ''target device does not match role label selectors''"
| "DenialReason_to_string MfaRequired = ''multi-factor authentication is required''"
| "DenialReason_to_string ManagedClientDeviceRequired = ''managed client device is required''"
| "DenialReason_to_string IpAddressNotAllowed = ''client IP address is not allowed''"
| "DenialReason_to_string (ConcurrentControlConflict active_session_id) =
     ''concurrent control conflict with active session '' @ active_session_id"

datatype EvaluationDecision =
    Allowed ActionSet SessionRestrictions string
  | Denied DenialReason

fun is_allowed :: "EvaluationDecision \<Rightarrow> bool" where
  "is_allowed (Allowed _ _ _) = True"
| "is_allowed (Denied _) = False"

fun granted_actions :: "EvaluationDecision \<Rightarrow> ActionSet option" where
  "granted_actions (Allowed g _ _) = Some g"
| "granted_actions (Denied _) = None"

fun denial_reason :: "EvaluationDecision \<Rightarrow> DenialReason option" where
  "denial_reason (Denied r) = Some r"
| "denial_reason (Allowed _ _ _) = None"

section \<open>The engine\<close>

record PolicyEngine =
  pe_roles :: "(string, Role) hashmap"

definition add_role :: "Role \<Rightarrow> PolicyEngine \<Rightarrow> PolicyEngine" where
  "add_role role e = e\<lparr>pe_roles := hm_insert (role_name role) role (pe_roles e)\<rparr>"

definition PolicyEngine_new :: "Role list \<Rightarrow> PolicyEngine" where
  "PolicyEngine_new roles = \<lparr>pe_roles = foldl (\<lambda>m role. hm_insert (role_name role) role m) [] roles\<rparr>"

definition get_role :: "PolicyEngine \<Rightarrow> string \<Rightarrow> Role option" where
  "get_role e name = hm_get (pe_roles e) name"

definition evaluate_role_abac :: "Role \<Rightarrow> SubjectContext \<Rightarrow> (unit, DenialReason) result" where
  "evaluate_role_abac role subject =
     (if require_mfa (role_conditions role) \<and> \<not> mfa_authenticated subject then Err MfaRequired
      else if managed_client_device (role_conditions role) \<and> \<not> client_device_managed subject then
        Err ManagedClientDeviceRequired
      else if allowed_ip_ranges (role_conditions role) \<noteq> [] then
        (case client_ip subject of
           Some ip \<Rightarrow>
             if \<not> list_ex (\<lambda>range. ip_matches_range ip range) (allowed_ip_ranges (role_conditions role))
             then Err IpAddressNotAllowed
             else Ok ()
         | None \<Rightarrow> Err IpAddressNotAllowed)
      else Ok ())"

text \<open>Step 1: the first active session that holds desktop control.\<close>

fun control_conflict :: "ActiveSessionSummary list \<Rightarrow> DenialReason option" where
  "control_conflict [] = None"
| "control_conflict (session # rest) =
     (if is_active session \<and> ActionSet_contains (as_granted_actions session) DesktopControl
      then Some (ConcurrentControlConflict (as_session_id session))
      else control_conflict rest)"

text \<open>Step 5: the roles whose conditions hold, and the first failure.\<close>

fun abac_loop ::
  "SubjectContext \<Rightarrow> Role list \<Rightarrow> Role list \<Rightarrow> DenialReason option \<Rightarrow> Role list \<times> DenialReason option" where
  "abac_loop subject [] matching first_failure = (matching, first_failure)"
| "abac_loop subject (role # rest) matching first_failure =
     (case evaluate_role_abac role subject of
        Ok _ \<Rightarrow> abac_loop subject rest (matching @ [role]) first_failure
      | Err reason \<Rightarrow>
          abac_loop subject rest matching
            (if first_failure = None then Some reason else first_failure))"

text \<open>\<open>Iterator::max\<close> and \<open>[&str]::join(",")\<close>.\<close>

fun iter_max :: "'a::linorder list \<Rightarrow> 'a option" where
  "iter_max [] = None"
| "iter_max (x # xs) = (case iter_max xs of None \<Rightarrow> Some x | Some y \<Rightarrow> Some (max x y))"

fun join_comma :: "string list \<Rightarrow> string" where
  "join_comma [] = []"
| "join_comma [x] = x"
| "join_comma (x # y # ys) = x @ '','' @ join_comma (y # ys)"

text \<open>Step 6, the branch for several matching roles.\<close>

definition merge_roles :: "Role list \<Rightarrow> EvaluationDecision" where
  "merge_roles matching =
     (let union_actions = foldl (\<lambda>u role. ActionSet_union u (allowed_actions role)) ActionSet_new matching;
          clipboard = list_ex (\<lambda>r. pc_clipboard_enabled (role_conditions r)) matching;
          file_transfer = list_ex (\<lambda>r. pc_file_transfer_enabled (role_conditions r)) matching;
          audio = list_ex (\<lambda>r. pc_audio_enabled (role_conditions r)) matching;
          max_duration = unwrap_or
            (iter_max (map (\<lambda>r. unwrap_or (pc_max_duration_seconds (role_conditions r))
                                  DEFAULT_MAX_DURATION_SECONDS) matching))
            DEFAULT_MAX_DURATION_SECONDS;
          has_unrestricted_res = list_ex (\<lambda>r. pc_max_resolution (role_conditions r) = None) matching;
          max_res =
            (if has_unrestricted_res then None
             else let max_w = iter_max (List.map_filter (\<lambda>r. max_resolution_width (role_conditions r)) matching);
                      max_h = iter_max (List.map_filter (\<lambda>r. max_resolution_height (role_conditions r)) matching)
                  in (case (max_w, max_h) of (Some w, Some h) \<Rightarrow> Some (w, h) | _ \<Rightarrow> None))
      in Allowed union_actions
           (SessionRestrictions_new clipboard file_transfer audio max_duration max_res)
           (join_comma (map role_name matching)))"

definition evaluate :: "PolicyEngine \<Rightarrow> SubjectContext \<Rightarrow> ResourceContext \<Rightarrow> Action \<Rightarrow> EvaluationDecision" where
  "evaluate engine subject resource requested_action =
     (case (if requested_action = DesktopControl
            then control_conflict (active_sessions_on_device resource) else None) of
        Some conflict \<Rightarrow> Denied conflict
      | None \<Rightarrow>
     (let assigned_roles = List.map_filter (\<lambda>name. hm_get (pe_roles engine) name) (subj_roles subject) in
      if assigned_roles = [] then Denied NoMatchingRole
      else
     (let action_roles = filter (\<lambda>role. allows_action role requested_action) assigned_roles in
      if action_roles = [] then Denied ActionNotAllowed
      else
     (let device_roles = filter (\<lambda>role. matches_device role (device_labels resource)) action_roles in
      if device_roles = [] then Denied DeviceNotMatched
      else
     (let (matching, first_failure) = abac_loop subject device_roles [] None in
      if matching = [] then Denied (unwrap_or first_failure NoMatchingRole)
      else if length matching = 1 then
        (let role = matching ! 0 in
         Allowed (allowed_actions role)
           (SessionRestrictions_from_conditions (role_conditions role) DEFAULT_MAX_DURATION_SECONDS)
           (role_name role))
      else merge_roles matching)))))"

section \<open>Laws\<close>

lemma abac_loop_eq:
  "abac_loop subject roles matching ff =
     (matching @ filter (\<lambda>r. evaluate_role_abac r subject = Ok ()) roles,
      if ff \<noteq> None then ff
      else List.find (\<lambda>_. True)
             (List.map_filter (\<lambda>r. case evaluate_role_abac r subject of Ok _ \<Rightarrow> None | Err e \<Rightarrow> Some e) roles))"
  by (induction subject roles matching ff rule: abac_loop.induct)
     (auto simp: List.map_filter_simps split: result.splits)

lemma control_conflict_eq:
  "control_conflict ss =
     map_option (\<lambda>s. ConcurrentControlConflict (as_session_id s))
       (find (\<lambda>s. is_active s \<and> DesktopControl \<in> as_granted_actions s) ss)"
  by (induction ss) (auto simp: ActionSet_defs)

lemma control_conflict_None:
  "control_conflict ss = None \<longleftrightarrow>
     (\<forall>s \<in> set ss. \<not> (is_active s \<and> DesktopControl \<in> as_granted_actions s))"
  by (auto simp: control_conflict_eq find_None_iff)

lemma iter_max_eq: "iter_max xs = (if xs = [] then None else Some (Max (set xs)))"
  by (induction xs) (auto simp: max_def Max.insert_not_elem split: option.splits)

lemma foldl_union_actions:
  "foldl (\<lambda>u role. ActionSet_union u (allowed_actions role)) acc roles =
     acc \<union> (\<Union>r \<in> set roles. allowed_actions r)"
  by (induction roles arbitrary: acc) (auto simp: ActionSet_defs)

text \<open>The roles that authorise a request.\<close>

definition matching_roles :: "PolicyEngine \<Rightarrow> SubjectContext \<Rightarrow> ResourceContext \<Rightarrow> Action \<Rightarrow> Role list" where
  "matching_roles engine subject resource a =
     filter (\<lambda>r. allows_action r a \<and> matches_device r (device_labels resource)
                 \<and> evaluate_role_abac r subject = Ok ())
       (List.map_filter (hm_get (pe_roles engine)) (subj_roles subject))"

text \<open>The branch for a single role is the merge of that one role.\<close>

lemma merge_roles_single:
  "merge_roles [role] =
     Allowed (allowed_actions role)
       (SessionRestrictions_from_conditions (role_conditions role) DEFAULT_MAX_DURATION_SECONDS)
       (role_name role)"
  by (auto simp: merge_roles_def SessionRestrictions_from_conditions_def SessionRestrictions_new_def
        ActionSet_defs unwrap_or_def pc_max_resolution_def List.map_filter_simps split: option.splits)

lemma allowed_single_or_merge:
  "rs \<noteq> [] \<Longrightarrow>
   (if length rs = 1 then
      (let role = rs ! 0 in
       Allowed (allowed_actions role)
         (SessionRestrictions_from_conditions (role_conditions role) DEFAULT_MAX_DURATION_SECONDS)
         (role_name role))
    else merge_roles rs) = merge_roles rs"
  by (cases rs) (auto simp: merge_roles_single)

lemma matching_roles_filters:
  "filter (\<lambda>r. evaluate_role_abac r subject = Ok ())
     (filter (\<lambda>role. matches_device role (device_labels resource))
       (filter (\<lambda>role. allows_action role a)
         (List.map_filter (hm_get (pe_roles engine)) (subj_roles subject)))) =
   matching_roles engine subject resource a"
  by (simp add: matching_roles_def conj_ac)

text \<open>\<open>evaluate\<close> with the loops replaced by what they compute.\<close>

lemma evaluate_eq:
  "evaluate engine subject resource a =
     (let as = List.map_filter (hm_get (pe_roles engine)) (subj_roles subject);
          bs = filter (\<lambda>role. allows_action role a) as;
          ds = filter (\<lambda>role. matches_device role (device_labels resource)) bs
      in case (if a = DesktopControl then control_conflict (active_sessions_on_device resource) else None) of
           Some c \<Rightarrow> Denied c
         | None \<Rightarrow>
             if as = [] then Denied NoMatchingRole
             else if bs = [] then Denied ActionNotAllowed
             else if ds = [] then Denied DeviceNotMatched
             else if matching_roles engine subject resource a = []
               then Denied (unwrap_or (snd (abac_loop subject ds [] None)) NoMatchingRole)
             else merge_roles (matching_roles engine subject resource a))"
proof -
  let ?ds = "filter (\<lambda>role. matches_device role (device_labels resource))
      (filter (\<lambda>role. allows_action role a)
        (List.map_filter (hm_get (pe_roles engine)) (subj_roles subject)))"
  have "fst (abac_loop subject ?ds [] None) = matching_roles engine subject resource a"
    by (simp only: abac_loop_eq append_Nil fst_conv matching_roles_filters)
  then show ?thesis
    unfolding evaluate_def Let_def case_prod_beta
    by (cases "matching_roles engine subject resource a = []")
       (simp_all only: allowed_single_or_merge [unfolded Let_def] simp_thms if_True if_False)
qed

lemma matching_roles_nonempty:
  assumes "matching_roles engine subject resource a \<noteq> []"
  shows "filter (\<lambda>role. matches_device role (device_labels resource))
      (filter (\<lambda>role. allows_action role a)
        (List.map_filter (hm_get (pe_roles engine)) (subj_roles subject))) \<noteq> []"
    and "filter (\<lambda>role. allows_action role a)
        (List.map_filter (hm_get (pe_roles engine)) (subj_roles subject)) \<noteq> []"
    and "List.map_filter (hm_get (pe_roles engine)) (subj_roles subject) \<noteq> []"
  using assms matching_roles_filters [of subject resource a engine] by (metis filter.simps(1))+

lemma evaluate_spec:
  assumes "a = DesktopControl \<Longrightarrow> control_conflict (active_sessions_on_device resource) = None"
    and "matching_roles engine subject resource a \<noteq> []"
  shows "evaluate engine subject resource a = merge_roles (matching_roles engine subject resource a)"
proof -
  have "(if a = DesktopControl then control_conflict (active_sessions_on_device resource) else None) = None"
    using assms(1) by simp
  then show ?thesis
    by (simp only: evaluate_eq Let_def option.case assms(2) matching_roles_nonempty [OF assms(2)]
          simp_thms if_False)
qed

lemma is_allowed_merge_roles: "is_allowed (merge_roles rs)"
  by (simp add: merge_roles_def Let_def)

lemma evaluate_not_allowed:
  assumes "matching_roles engine subject resource a = []"
  shows "\<not> is_allowed (evaluate engine subject resource a)"
  using assms by (simp add: evaluate_eq Let_def split: option.split)

lemma evaluate_allowed_iff:
  "is_allowed (evaluate engine subject resource a) \<longleftrightarrow>
     matching_roles engine subject resource a \<noteq> [] \<and>
     (a = DesktopControl \<longrightarrow> control_conflict (active_sessions_on_device resource) = None)"
proof (cases "a = DesktopControl \<and> control_conflict (active_sessions_on_device resource) \<noteq> None")
  case True
  then show ?thesis by (auto simp: evaluate_def)
next
  case False
  then show ?thesis
    using evaluate_not_allowed [of engine subject resource a] evaluate_spec [of a resource engine subject]
      is_allowed_merge_roles by (cases "matching_roles engine subject resource a = []") auto
qed

lemma evaluate_Allowed_merge:
  assumes "evaluate engine subject resource a = Allowed g r m"
  shows "merge_roles (matching_roles engine subject resource a) = Allowed g r m"
proof -
  have "is_allowed (evaluate engine subject resource a)"
    using assms by simp
  then show ?thesis
    using assms evaluate_spec [of a resource engine subject] by (metis evaluate_allowed_iff)
qed

lemma merge_roles_granted: "granted_actions (merge_roles rs) = Some (\<Union>r \<in> set rs. allowed_actions r)"
  by (simp add: merge_roles_def Let_def foldl_union_actions) (simp add: ActionSet_new_def)

lemma Max_ge_ex: "finite A \<Longrightarrow> A \<noteq> {} \<Longrightarrow> t \<le> Max A \<longleftrightarrow> (\<exists>x \<in> A. t \<le> x)"
  for t :: "'a::linorder"
  by (rule Max_ge_iff)

definition role_restrictions :: "Role \<Rightarrow> SessionRestrictions" where
  "role_restrictions r =
     SessionRestrictions_from_conditions (role_conditions r) DEFAULT_MAX_DURATION_SECONDS"

lemma role_restrictions_sel [simp]:
  "sr_clipboard_enabled (role_restrictions r) = pc_clipboard_enabled (role_conditions r)"
  "sr_file_transfer_enabled (role_restrictions r) = pc_file_transfer_enabled (role_conditions r)"
  "sr_audio_enabled (role_restrictions r) = pc_audio_enabled (role_conditions r)"
  "sr_max_duration_seconds (role_restrictions r) =
     unwrap_or (pc_max_duration_seconds (role_conditions r)) DEFAULT_MAX_DURATION_SECONDS"
  "sr_max_resolution (role_restrictions r) = pc_max_resolution (role_conditions r)"
  by (simp_all add: role_restrictions_def SessionRestrictions_from_conditions_def unwrap_or_def)

lemma merge_roles_permits:
  assumes "merge_roles rs = Allowed g restr m" "rs \<noteq> []" "\<forall>w h. d \<noteq> Show_Resolution w h"
  shows "permits g restr d \<longleftrightarrow> (\<exists>r \<in> set rs. permits (allowed_actions r) (role_restrictions r) d)"
proof -
  have *: "g = (\<Union>r \<in> set rs. allowed_actions r)"
    using merge_roles_granted [of rs] assms(1) by simp
  have **: "restr = SessionRestrictions_new
      (\<exists>r \<in> set rs. pc_clipboard_enabled (role_conditions r))
      (\<exists>r \<in> set rs. pc_file_transfer_enabled (role_conditions r))
      (\<exists>r \<in> set rs. pc_audio_enabled (role_conditions r))
      (Max ((\<lambda>r. sr_max_duration_seconds (role_restrictions r)) ` set rs))
      (sr_max_resolution restr)"
    using assms(1,2)
    by (auto simp: merge_roles_def Let_def iter_max_eq list_ex_iff SessionRestrictions_new_def unwrap_or_def)
  show ?thesis
    using assms(2,3)
    by (cases d; subst **) (auto simp: * SessionRestrictions_new_def Max_ge_ex)
qed

lemma merge_roles_resolution:
  assumes "merge_roles rs = Allowed g restr m" "r \<in> set rs"
    and "permits (allowed_actions r) (role_restrictions r) (Show_Resolution w h)"
  shows "permits g restr (Show_Resolution w h)"
proof (cases "\<exists>r \<in> set rs. pc_max_resolution (role_conditions r) = None")
  case True
  then have "sr_max_resolution restr = None"
    using assms(1) by (auto simp: merge_roles_def Let_def list_ex_iff SessionRestrictions_new_def)
  then show ?thesis by simp
next
  case False
  let ?ws = "List.map_filter (\<lambda>r. max_resolution_width (role_conditions r)) rs"
  let ?hs = "List.map_filter (\<lambda>r. max_resolution_height (role_conditions r)) rs"
  from False assms(2) obtain rw rh where res: "max_resolution_width (role_conditions r) = Some rw"
      "max_resolution_height (role_conditions r) = Some rh"
    by (auto simp: pc_max_resolution_def split: option.splits)
  then have in_ws: "rw \<in> set ?ws" "rh \<in> set ?hs"
    using assms(2) by (auto simp: List.map_filter_def image_iff)
  then have ne: "?ws \<noteq> []" "?hs \<noteq> []" by auto
  have "w \<le> rw" "h \<le> rh"
    using assms(3) res by (auto simp: pc_max_resolution_def)
  moreover have "rw \<le> Max (set ?ws)" "rh \<le> Max (set ?hs)"
    using in_ws by auto
  moreover have "sr_max_resolution restr = Some (Max (set ?ws), Max (set ?hs))"
    using assms(1) False ne
    by (auto simp: merge_roles_def Let_def list_ex_iff SessionRestrictions_new_def iter_max_eq)
  ultimately show ?thesis by auto
qed

lemma find_True_map_filter_Err:
  assumes "\<forall>r \<in> set rs. \<not> is_ok (f r)" "rs \<noteq> []"
  shows "List.find (\<lambda>_. True) (List.map_filter (\<lambda>r. case f r of Ok _ \<Rightarrow> None | Err e \<Rightarrow> Some e) rs)
       = (case f (hd rs) of Ok _ \<Rightarrow> None | Err e \<Rightarrow> Some e)"
  using assms by (cases rs) (auto simp: List.map_filter_simps split: result.splits)

text \<open>When the attribute conditions leave no role, the reason is that of the first candidate.\<close>

lemma abac_first_failure:
  assumes "\<forall>r \<in> set rs. evaluate_role_abac r subject \<noteq> Ok ()" "rs \<noteq> []"
  shows "evaluate_role_abac (hd rs) subject =
    Err (unwrap_or (snd (abac_loop subject rs [] None)) NoMatchingRole)"
proof -
  have all: "\<forall>r \<in> set rs. \<not> is_ok (evaluate_role_abac r subject)"
    using assms(1) by (auto simp: is_ok_iff)
  then obtain e where "evaluate_role_abac (hd rs) subject = Err e"
    using assms(2) by (meson hd_in_set not_is_ok_iff)
  then show ?thesis
    by (simp add: abac_loop_eq find_True_map_filter_Err [OF all assms(2)] unwrap_or_def)
qed

lemma evaluate_role_abac_Err:
  "evaluate_role_abac r subject = Err e \<Longrightarrow>
     e \<in> {MfaRequired, ManagedClientDeviceRequired, IpAddressNotAllowed}"
  by (auto simp: evaluate_role_abac_def split: if_splits option.splits)

text \<open>The candidates after each filter, and the five ways to a denial.\<close>

definition assigned_roles :: "PolicyEngine \<Rightarrow> SubjectContext \<Rightarrow> Role list" where
  "assigned_roles engine subject = List.map_filter (get_role engine) (subj_roles subject)"

definition candidate_roles :: "PolicyEngine \<Rightarrow> SubjectContext \<Rightarrow> ResourceContext \<Rightarrow> Action \<Rightarrow> Role list" where
  "candidate_roles engine subject resource a =
     filter (\<lambda>r. a \<in> allowed_actions r \<and> matches_device r (device_labels resource))
       (assigned_roles engine subject)"

lemma candidate_roles_filters:
  "filter (\<lambda>r. matches_device r (device_labels resource))
     (filter (\<lambda>r. a \<in> allowed_actions r) (assigned_roles engine subject))
   = candidate_roles engine subject resource a"
  by (simp add: candidate_roles_def conj_ac)

lemma matching_roles_candidates:
  "matching_roles engine subject resource a =
     filter (\<lambda>r. evaluate_role_abac r subject = Ok ()) (candidate_roles engine subject resource a)"
  by (simp add: matching_roles_def candidate_roles_def assigned_roles_def get_role_def [abs_def]
      allows_action_def ActionSet_defs conj_ac)

lemma evaluate_Denied_cases:
  assumes "evaluate engine subject resource a = Denied reason"
  obtains (conflict) "a = DesktopControl" "control_conflict (active_sessions_on_device resource) = Some reason"
    | (no_role) "assigned_roles engine subject = []" "reason = NoMatchingRole"
    | (no_action) "assigned_roles engine subject \<noteq> []"
        "\<forall>r \<in> set (assigned_roles engine subject). a \<notin> allowed_actions r" "reason = ActionNotAllowed"
    | (no_device) "\<exists>r \<in> set (assigned_roles engine subject). a \<in> allowed_actions r"
        "candidate_roles engine subject resource a = []" "reason = DeviceNotMatched"
    | (abac) "candidate_roles engine subject resource a \<noteq> []" "matching_roles engine subject resource a = []"
        "reason = unwrap_or (snd (abac_loop subject (candidate_roles engine subject resource a) [] None)) NoMatchingRole"
proof -
  let ?ms = "matching_roles engine subject resource a"
  have ev: "evaluate engine subject resource a =
      (case (if a = DesktopControl then control_conflict (active_sessions_on_device resource) else None) of
           Some c \<Rightarrow> Denied c
         | None \<Rightarrow>
             if assigned_roles engine subject = [] then Denied NoMatchingRole
             else if filter (\<lambda>r. a \<in> allowed_actions r) (assigned_roles engine subject) = []
               then Denied ActionNotAllowed
             else if candidate_roles engine subject resource a = [] then Denied DeviceNotMatched
             else if ?ms = [] then
               Denied (unwrap_or (snd (abac_loop subject (candidate_roles engine subject resource a) [] None))
                         NoMatchingRole)
             else merge_roles ?ms)"
    unfolding evaluate_eq Let_def candidate_roles_filters [symmetric] assigned_roles_def
      get_role_def [abs_def] allows_action_def ActionSet_contains_def by (rule refl)
  have "merge_roles ?ms \<noteq> Denied reason"
    using is_allowed_merge_roles [of ?ms] by auto
  then show ?thesis
    using assms unfolding ev
    by (auto intro: that split: option.splits if_splits simp: filter_empty_conv)
qed

section \<open>Properties\<close>

text \<open>
  C3: a request is allowed if and only if some role assigned to the subject exists, permits the
  requested action, selects the device and has its attribute conditions met, and, when desktop
  control is requested, no active session on the device holds desktop control (ADR-015).
\<close>

theorem evaluate_sound_and_complete:
  "is_allowed (evaluate engine subject resource a) \<longleftrightarrow>
     (\<exists>name r. name \<in> set (subj_roles subject) \<and> get_role engine name = Some r
        \<and> a \<in> allowed_actions r \<and> matches_device r (device_labels resource)
        \<and> evaluate_role_abac r subject = Ok ())
     \<and> \<not> (a = DesktopControl \<and>
          (\<exists>s. s \<in> set (active_sessions_on_device resource) \<and> is_active s
             \<and> DesktopControl \<in> as_granted_actions s))"
proof -
  have "matching_roles engine subject resource a \<noteq> [] \<longleftrightarrow>
     (\<exists>name r. name \<in> set (subj_roles subject) \<and> get_role engine name = Some r
        \<and> a \<in> allowed_actions r \<and> matches_device r (device_labels resource)
        \<and> evaluate_role_abac r subject = Ok ())"
    by (auto simp: matching_roles_def List.map_filter_def filter_empty_conv get_role_def
          allows_action_def ActionSet_defs)
  then show ?thesis
    unfolding evaluate_allowed_iff control_conflict_None by blast
qed

text \<open>
  What an allowed request is granted.  The requested action is among the granted ones, and the
  session may use an action, a channel or a duration exactly when one of the matching roles alone
  allows it; every resolution a matching role allows stays allowed.
\<close>

theorem evaluate_grants_union_of_roles:
  assumes "evaluate engine subject resource a = Allowed g restr m"
  shows "a \<in> g
    \<and> (\<forall>d. (\<forall>w h. d \<noteq> Show_Resolution w h) \<longrightarrow>
          permits g restr d = (\<exists>r \<in> set (matching_roles engine subject resource a).
            permits (allowed_actions r) (role_restrictions r) d))
    \<and> (\<forall>r \<in> set (matching_roles engine subject resource a). \<forall>w h.
          permits (allowed_actions r) (role_restrictions r) (Show_Resolution w h) \<longrightarrow>
          permits g restr (Show_Resolution w h))"
proof -
  let ?rs = "matching_roles engine subject resource a"
  have m: "merge_roles ?rs = Allowed g restr m"
    by (rule evaluate_Allowed_merge [OF assms])
  have ne: "?rs \<noteq> []"
    using evaluate_allowed_iff [of engine subject resource a] assms by simp
  moreover have "\<forall>r \<in> set ?rs. a \<in> allowed_actions r"
    by (simp add: matching_roles_def allows_action_def ActionSet_defs)
  ultimately have "a \<in> (\<Union>r \<in> set ?rs. allowed_actions r)"
    by (metis UN_iff hd_in_set)
  then have "a \<in> g"
    using merge_roles_granted [of ?rs] m by simp
  then show ?thesis
    using merge_roles_permits [OF m ne] merge_roles_resolution [OF m] by blast
qed

definition operator_role :: Role where
  "operator_role = Role_with_actions {DesktopView, DesktopControl} (Role_new ''operator'')"

definition operator_engine :: PolicyEngine where
  "operator_engine = PolicyEngine_new [operator_role]"

definition operator_subject :: SubjectContext where
  "operator_subject = (SubjectContext_new ''alice'')\<lparr>subj_roles := [''operator'']\<rparr>"

lemma operator_matching:
  "a \<in> {DesktopView, DesktopControl} \<Longrightarrow>
   matching_roles operator_engine operator_subject resource a = [operator_role]"
  by (auto simp: matching_roles_def operator_engine_def operator_subject_def operator_role_def
     PolicyEngine_new_def SubjectContext_new_def Role_with_actions_def Role_new_def hm_insert_def
     hm_remove_def hm_get_def List.map_filter_simps allows_action_def matches_device_def
     evaluate_role_abac_def PolicyConditions_default_def ActionSet_defs)

theorem evaluate_grants_union_of_roles_witness:
  "DesktopView \<in> {DesktopView, DesktopControl} \<and>
   (\<exists>restr m. evaluate operator_engine operator_subject (ResourceContext_new ''pc'') DesktopView
      = Allowed {DesktopView, DesktopControl} restr m)"
proof -
  have e: "evaluate operator_engine operator_subject (ResourceContext_new ''pc'') DesktopView
      = merge_roles [operator_role]"
    using evaluate_spec [of DesktopView "ResourceContext_new ''pc''" operator_engine operator_subject]
    by (simp add: operator_matching)
  have g: "allowed_actions operator_role = {DesktopView, DesktopControl}"
    by (simp add: operator_role_def Role_with_actions_def Role_new_def)
  show ?thesis
    using evaluate_grants_union_of_roles [OF e [unfolded merge_roles_single]]
    by (simp add: e merge_roles_single g)
qed

text \<open>
  C13: every denial names the right cause.  A conflict names the first active session that holds
  desktop control; \<open>NoMatchingRole\<close> means that none of the subject's role names is configured,
  \<open>ActionNotAllowed\<close> that no configured role of the subject permits the action, \<open>DeviceNotMatched\<close>
  that no role permitting it selects the device, and otherwise the reason is the failed attribute
  condition of the first role that remained.
\<close>

theorem evaluate_denial_names_cause:
  assumes "evaluate engine subject resource a = Denied reason"
  shows "case reason of
      ConcurrentControlConflict sid \<Rightarrow>
        a = DesktopControl \<and>
        map_option as_session_id (find (\<lambda>s. is_active s \<and> DesktopControl \<in> as_granted_actions s)
               (active_sessions_on_device resource)) = Some sid
    | NoMatchingRole \<Rightarrow> assigned_roles engine subject = []
    | ActionNotAllowed \<Rightarrow>
        assigned_roles engine subject \<noteq> [] \<and>
        (\<forall>r \<in> set (assigned_roles engine subject). a \<notin> allowed_actions r)
    | DeviceNotMatched \<Rightarrow>
        (\<exists>r \<in> set (assigned_roles engine subject). a \<in> allowed_actions r) \<and>
        candidate_roles engine subject resource a = []
    | _ \<Rightarrow>
        candidate_roles engine subject resource a \<noteq> [] \<and>
        evaluate_role_abac (hd (candidate_roles engine subject resource a)) subject = Err reason \<and>
        (\<forall>r \<in> set (candidate_roles engine subject resource a). \<not> is_ok (evaluate_role_abac r subject))"
  using assms
proof (cases rule: evaluate_Denied_cases)
  case abac
  then have no: "\<forall>r \<in> set (candidate_roles engine subject resource a). evaluate_role_abac r subject \<noteq> Ok ()"
    by (simp add: matching_roles_candidates filter_empty_conv)
  then have e: "evaluate_role_abac (hd (candidate_roles engine subject resource a)) subject = Err reason"
    using abac_first_failure [of "candidate_roles engine subject resource a" subject] abac by simp
  with no abac(1) show ?thesis
    using evaluate_role_abac_Err [OF e] by (auto simp: is_ok_iff)
qed (auto simp: control_conflict_eq)

theorem evaluate_denial_names_cause_witness:
  "assigned_roles operator_engine (SubjectContext_new ''bob'') = []"
proof -
  have "evaluate operator_engine (SubjectContext_new ''bob'') (ResourceContext_new ''pc'') DesktopView
      = Denied NoMatchingRole"
    by (simp add: evaluate_def SubjectContext_new_def List.map_filter_simps)
  from evaluate_denial_names_cause [OF this] show ?thesis
    by simp
qed

text \<open>
  Exclusivity is checked only for requests that name desktop control.  A request for another
  action is granted the whole action set of the matching roles, desktop control included, whatever
  sessions are active on the device; ADR-015 is therefore not enforced for such a request.
\<close>

theorem desktop_control_granted_without_exclusivity_check:
  assumes "a \<noteq> DesktopControl" "r \<in> set (matching_roles engine subject resource a)"
    and "DesktopControl \<in> allowed_actions r"
  shows "\<exists>g restr m.
    evaluate engine subject (resource\<lparr>active_sessions_on_device := sessions\<rparr>) a = Allowed g restr m
    \<and> DesktopControl \<in> g"
proof -
  let ?res = "resource\<lparr>active_sessions_on_device := sessions\<rparr>"
  have same: "matching_roles engine subject ?res a = matching_roles engine subject resource a"
    by (simp add: matching_roles_def)
  moreover have "matching_roles engine subject resource a \<noteq> []"
    using assms(2) by auto
  ultimately have "evaluate engine subject ?res a = merge_roles (matching_roles engine subject resource a)"
    using evaluate_spec [of a ?res engine subject] assms(1) by simp
  moreover have "granted_actions (merge_roles (matching_roles engine subject resource a)) =
      Some (\<Union>r \<in> set (matching_roles engine subject resource a). allowed_actions r)"
    by (rule merge_roles_granted)
  ultimately show ?thesis
    using assms(2,3) by (cases "merge_roles (matching_roles engine subject resource a)") auto
qed

theorem desktop_control_granted_without_exclusivity_check_witness:
  "\<exists>g restr m.
    evaluate operator_engine operator_subject
      ((ResourceContext_new ''pc'')\<lparr>active_sessions_on_device :=
         [\<lparr>as_session_id = ''s1'', as_target_device_id = ''pc'',
           as_granted_actions = {DesktopControl}, is_active = True\<rparr>]\<rparr>) DesktopView = Allowed g restr m
    \<and> DesktopControl \<in> g"
  by (rule desktop_control_granted_without_exclusivity_check [of DesktopView operator_role])
     (simp_all add: operator_matching, simp add: operator_role_def Role_with_actions_def Role_new_def)

end
