(* ===== verification/Session_State.thy ===== *)
theory Session_State
  imports Rust_Std
begin

text \<open>
  \<open>crates/nexus-session/src/state.rs\<close>: the lifecycle of a session.  An \<open>Instant\<close> and the sum of an
  \<open>Instant\<close> and a \<open>Duration\<close> are natural numbers of nanoseconds.
\<close>

section \<open>Identifiers and policies\<close>

definition DEFAULT_RECONNECT_WINDOW :: Duration where
  "DEFAULT_RECONNECT_WINDOW = dur_from_secs 60"

datatype SessionIdError = SessionId_InvalidLength

definition SessionId_new :: "string \<Rightarrow> (string, SessionIdError) result" where
  "SessionId_new value0 =
     (if value0 = [] \<or> length value0 > 128 then Err SessionId_InvalidLength else Ok value0)"

datatype SessionPolicyError = ZeroReconnectWindow | ZeroSessionDuration

record ReconnectPolicy =
  rp_window :: Duration

definition ReconnectPolicy_new :: "Duration \<Rightarrow> (ReconnectPolicy, SessionPolicyError) result" where
  "ReconnectPolicy_new w = (if w = 0 then Err ZeroReconnectWindow else Ok \<lparr>rp_window = w\<rparr>)"

record SessionDurationPolicy =
  sdp_max_duration :: Duration

definition SessionDurationPolicy_new :: "Duration \<Rightarrow> (SessionDurationPolicy, SessionPolicyError) result" where
  "SessionDurationPolicy_new d =
     (if d = 0 then Err ZeroSessionDuration else Ok \<lparr>sdp_max_duration = d\<rparr>)"

section \<open>The state machine\<close>

datatype SessionState =
  St_Requested | St_Authorized | St_Connecting | St_Established | St_Active | St_Disconnected
| St_Ended | St_Denied | St_Expired | St_Failed | St_Revoked

datatype InvalidTransition = InvalidTransition SessionState SessionState   \<comment> \<open>\<open>from\<close>, \<open>to\<close>\<close>

fun can_transition_to :: "SessionState \<Rightarrow> SessionState \<Rightarrow> bool" where
  "can_transition_to St_Requested next = (next \<in> {St_Authorized, St_Denied, St_Expired, St_Failed})"
| "can_transition_to St_Authorized next = (next \<in> {St_Connecting, St_Denied, St_Expired, St_Revoked})"
| "can_transition_to St_Connecting next = (next \<in> {St_Established, St_Failed, St_Expired, St_Revoked})"
| "can_transition_to St_Established next = (next \<in> {St_Active, St_Failed, St_Revoked})"
| "can_transition_to St_Active next = (next \<in> {St_Disconnected, St_Revoked, St_Ended, St_Expired})"
| "can_transition_to St_Disconnected next = (next \<in> {St_Connecting, St_Ended})"
| "can_transition_to _ next = False"

record SessionStateMachine =
  ssm_state :: SessionState
  reconnect_deadline :: "Instant option"
  established_at :: "Instant option"
  max_duration :: "Duration option"

definition SessionStateMachine_new :: SessionStateMachine where
  "SessionStateMachine_new =
     \<lparr>ssm_state = St_Requested, reconnect_deadline = None, established_at = None, max_duration = None\<rparr>"

definition transition ::
  "SessionStateMachine \<Rightarrow> SessionState \<Rightarrow> SessionStateMachine \<times> (unit, InvalidTransition) result" where
  "transition m next =
     (if next = ssm_state m \<or> can_transition_to (ssm_state m) next then
        (let m' = m\<lparr>ssm_state := next\<rparr> in
         (if next \<noteq> St_Disconnected then m'\<lparr>reconnect_deadline := None\<rparr> else m', Ok ()))
      else (m, Err (InvalidTransition (ssm_state m) next)))"

definition mark_disconnected ::
  "SessionStateMachine \<Rightarrow> ReconnectPolicy \<Rightarrow> Instant \<Rightarrow> SessionStateMachine \<times> (unit, InvalidTransition) result" where
  "mark_disconnected m policy now =
     (case transition m St_Disconnected of
        (m', Err e) \<Rightarrow> (m', Err e)
      | (m', Ok _) \<Rightarrow> (m'\<lparr>reconnect_deadline := Some (now + rp_window policy)\<rparr>, Ok ()))"

definition reconnect_allowed :: "SessionStateMachine \<Rightarrow> Instant \<Rightarrow> bool" where
  "reconnect_allowed m now \<longleftrightarrow>
     ssm_state m = St_Disconnected \<and>
     (case reconnect_deadline m of Some deadline \<Rightarrow> now \<le> deadline | None \<Rightarrow> False)"

definition mark_established_at ::
  "SessionStateMachine \<Rightarrow> Instant \<Rightarrow> SessionDurationPolicy \<Rightarrow> SessionStateMachine \<times> (unit, InvalidTransition) result" where
  "mark_established_at m now policy =
     (case transition m St_Established of
        (m', Err e) \<Rightarrow> (m', Err e)
      | (m', Ok _) \<Rightarrow>
          (if established_at m' = None
           then m'\<lparr>established_at := Some now, max_duration := Some (sdp_max_duration policy)\<rparr>
           else m', Ok ()))"

definition duration_expired :: "SessionStateMachine \<Rightarrow> Instant \<Rightarrow> bool" where
  "duration_expired m now \<longleftrightarrow>
     ssm_state m \<in> {St_Established, St_Active} \<and>
     (case (established_at m, max_duration m) of
        (Some at, Some mx) \<Rightarrow> now - at \<ge> mx
      | _ \<Rightarrow> False)"

record Session =
  session_id :: string
  sess_machine :: SessionStateMachine

definition Session_new :: "string \<Rightarrow> Session" where
  "Session_new sid = \<lparr>session_id = sid, sess_machine = SessionStateMachine_new\<rparr>"

definition Session_transition :: "Session \<Rightarrow> SessionState \<Rightarrow> Session \<times> (unit, InvalidTransition) result" where
  "Session_transition s next =
     (case transition (sess_machine s) next of (m, r) \<Rightarrow> (s\<lparr>sess_machine := m\<rparr>, r))"

definition Session_mark_disconnected ::
  "Session \<Rightarrow> ReconnectPolicy \<Rightarrow> Instant \<Rightarrow> Session \<times> (unit, InvalidTransition) result" where
  "Session_mark_disconnected s policy now =
     (case mark_disconnected (sess_machine s) policy now of (m, r) \<Rightarrow> (s\<lparr>sess_machine := m\<rparr>, r))"

definition Session_mark_established_at ::
  "Session \<Rightarrow> Instant \<Rightarrow> SessionDurationPolicy \<Rightarrow> Session \<times> (unit, InvalidTransition) result" where
  "Session_mark_established_at s now policy =
     (case mark_established_at (sess_machine s) now policy of (m, r) \<Rightarrow> (s\<lparr>sess_machine := m\<rparr>, r))"

section \<open>Sequences of calls\<close>

text \<open>The calls that change a session, as operations of one step function.\<close>

datatype session_op =
    Op_Transition SessionState
  | Op_Disconnect ReconnectPolicy Instant
  | Op_Establish Instant SessionDurationPolicy

fun session_step :: "Session \<Rightarrow> session_op \<Rightarrow> Session \<times> (unit, InvalidTransition) result" where
  "session_step s (Op_Transition next) = Session_transition s next"
| "session_step s (Op_Disconnect policy now) = Session_mark_disconnected s policy now"
| "session_step s (Op_Establish now policy) = Session_mark_established_at s now policy"

lemmas session_defs =
  Session_transition_def Session_mark_disconnected_def Session_mark_established_at_def
  mark_disconnected_def mark_established_at_def transition_def Let_def

definition terminal :: "SessionState \<Rightarrow> bool" where
  "terminal st \<longleftrightarrow> st \<in> {St_Ended, St_Denied, St_Expired, St_Failed, St_Revoked}"

lemma terminal_stuck: "terminal st \<Longrightarrow> \<not> can_transition_to st next"
  by (auto simp: terminal_def)

text \<open>
  The invariant: the duration clock and its limit are set together, a reconnect deadline exists only
  while disconnected, and a session that was never connecting has no clock.
\<close>

definition session_inv :: "Session \<Rightarrow> bool" where
  "session_inv s \<longleftrightarrow>
     (let m = sess_machine s in
      (established_at m = None \<longleftrightarrow> max_duration m = None) \<and>
      (reconnect_deadline m \<noteq> None \<longrightarrow> ssm_state m = St_Disconnected) \<and>
      (ssm_state m \<in> {St_Requested, St_Authorized, St_Denied} \<longrightarrow> established_at m = None))"

lemma session_inv_new: "session_inv (Session_new sid)"
  by (simp add: session_inv_def Session_new_def SessionStateMachine_new_def)

lemma session_step_inv: "session_inv s \<Longrightarrow> session_inv (fst (session_step s op))"
  by (cases op; cases "ssm_state (sess_machine s)")
     (auto simp: session_inv_def session_defs split: if_splits)

interpretation session: machine session_step session_inv
  by unfold_locales (rule session_step_inv)

text \<open>A terminal session rejects every call but the repetition of its own state.\<close>

lemma session_step_terminal:
  assumes "session_inv s" "terminal (ssm_state (sess_machine s))"
  shows "fst (session_step s op) = s"
  using assms terminal_stuck [OF assms(2)]
  by (cases op) (auto simp: session_inv_def session_defs terminal_def)

lemma session_run_terminal:
  assumes "session_inv s" "terminal (ssm_state (sess_machine s))"
  shows "fst (run_ops session_step s ops) = s"
  using assms by (induction ops) (simp_all add: session_step_terminal del: run_ops.simps(2))

lemma session_step_clock:
  assumes "established_at (sess_machine s) = Some t"
  shows "established_at (sess_machine (fst (session_step s op))) = Some t"
    and "max_duration (sess_machine (fst (session_step s op))) = max_duration (sess_machine s)"
  using assms by (cases op; auto simp: session_defs)+

lemma session_run_clock:
  assumes "established_at (sess_machine s) = Some t"
  shows "established_at (sess_machine (fst (run_ops session_step s ops))) = Some t \<and>
    max_duration (sess_machine (fst (run_ops session_step s ops))) = max_duration (sess_machine s)"
  using assms
  by (induction ops arbitrary: s) (simp_all add: session_step_clock del: run_ops.simps(2))

text \<open>The states a session must have gone through to be in a given state.\<close>

fun needs :: "SessionState \<Rightarrow> SessionState set" where
  "needs St_Authorized = {St_Authorized}"
| "needs St_Connecting = {St_Authorized, St_Connecting}"
| "needs St_Established = {St_Authorized, St_Connecting, St_Established}"
| "needs St_Active = {St_Authorized, St_Connecting, St_Established, St_Active}"
| "needs St_Disconnected = {St_Authorized, St_Connecting, St_Established, St_Active, St_Disconnected}"
| "needs St_Ended = {St_Authorized, St_Connecting, St_Established, St_Active, St_Ended}"
| "needs _ = {}"

lemma needs_step: "can_transition_to st next \<Longrightarrow> needs next \<subseteq> insert next (needs st)"
  by (cases st) auto

fun session_states :: "Session \<Rightarrow> session_op list \<Rightarrow> SessionState list" where
  "session_states s [] = [ssm_state (sess_machine s)]"
| "session_states s (op # ops) = ssm_state (sess_machine s) # session_states (fst (session_step s op)) ops"

lemma session_step_edge:
  "ssm_state (sess_machine (fst (session_step s op))) = ssm_state (sess_machine s) \<or>
   can_transition_to (ssm_state (sess_machine s)) (ssm_state (sess_machine (fst (session_step s op))))"
  by (cases op) (auto simp: session_defs)

lemma session_states_needs:
  assumes "needs (ssm_state (sess_machine s)) \<subseteq> insert (ssm_state (sess_machine s)) V"
  shows "needs (ssm_state (sess_machine (fst (run_ops session_step s ops)))) \<subseteq> V \<union> set (session_states s ops)"
  using assms
proof (induction ops arbitrary: s V)
  case (Cons op ops)
  let ?s = "fst (session_step s op)"
  have "needs (ssm_state (sess_machine ?s)) \<subseteq>
      insert (ssm_state (sess_machine ?s)) (insert (ssm_state (sess_machine s)) V)"
    using Cons.prems session_step_edge [of s op] needs_step by fastforce
  from Cons.IH [OF this] show ?case
    by (simp del: run_ops.simps(2))
qed auto

section \<open>Properties\<close>

text \<open>
  A session that is established, active, disconnected or ended went through authorization:
  whatever calls are made on a new session, the states it took include every state of the path
  \<open>Authorized\<close>, \<open>Connecting\<close>, \<open>Established\<close>, \<open>Active\<close> that leads to the one it is in.
\<close>

theorem session_path_goes_through_authorization:
  "needs (ssm_state (sess_machine (fst (run_ops session_step (Session_new sid) ops))))
     \<subseteq> set (session_states (Session_new sid) ops)"
  using session_states_needs [of "Session_new sid" "{}" ops]
  by (simp add: Session_new_def SessionStateMachine_new_def)

text \<open>
  Terminal states are final.  Once a session reached by any calls from a new one is ended,
  denied, expired, failed or revoked, no further sequence of calls changes anything in it.
\<close>

theorem session_terminal_is_final:
  assumes "terminal (ssm_state (sess_machine (fst (run_ops session_step (Session_new sid) ops))))"
  shows "fst (run_ops session_step (Session_new sid) (ops @ later)) =
    fst (run_ops session_step (Session_new sid) ops)"
  using session_run_terminal [OF session.run_inv [OF session_inv_new] assms, of later]
  by (simp add: run_ops_append case_prod_beta Let_def)

theorem session_terminal_is_final_witness:
  "fst (run_ops session_step (Session_new ''s'')
     ([Op_Transition St_Denied] @ [Op_Transition St_Authorized, Op_Disconnect \<lparr>rp_window = 60\<rparr> 5])) =
   fst (run_ops session_step (Session_new ''s'') [Op_Transition St_Denied])"
  by (rule session_terminal_is_final)
     (simp add: session_defs Session_new_def SessionStateMachine_new_def terminal_def)

text \<open>
  C23: the duration limit of a session is a single budget.  Once the session has been established at
  \<open>t\<close> with limit \<open>d\<close>, then after any calls at all (disconnections, reconnections and further calls of
  \<open>mark_established_at\<close> with other policies included), whenever it is established or active the
  session counts as expired exactly from \<open>t + d\<close> on.
\<close>

theorem session_duration_budget_not_reset:
  assumes "established_at (sess_machine s) = Some t" "max_duration (sess_machine s) = Some d"
    and "ssm_state (sess_machine (fst (run_ops session_step s ops))) \<in> {St_Established, St_Active}"
    and "t \<le> now"
  shows "duration_expired (sess_machine (fst (run_ops session_step s ops))) now \<longleftrightarrow> t + d \<le> now"
  using session_run_clock [OF assms(1), of ops] assms by (auto simp: duration_expired_def)

definition established_session :: Session where
  "established_session =
     fst (run_ops session_step (Session_new ''s'')
       [Op_Transition St_Authorized, Op_Transition St_Connecting,
        Op_Establish 100 \<lparr>sdp_max_duration = 50\<rparr>])"

lemma established_session_eq:
  "established_session = \<lparr>session_id = ''s'', sess_machine = \<lparr>ssm_state = St_Established,
     reconnect_deadline = None, established_at = Some 100, max_duration = Some 50\<rparr>\<rparr>"
  by (simp add: established_session_def session_defs Session_new_def SessionStateMachine_new_def)

theorem session_duration_budget_not_reset_witness:
  "duration_expired (sess_machine (fst (run_ops session_step established_session
     [Op_Transition St_Active, Op_Disconnect \<lparr>rp_window = 60\<rparr> 120, Op_Transition St_Connecting,
      Op_Establish 140 \<lparr>sdp_max_duration = 900\<rparr>]))) 150 \<longleftrightarrow> (100 + 50 \<le> (150 :: nat))"
  by (rule session_duration_budget_not_reset) (simp_all add: established_session_eq session_defs)

text \<open>
  The reconnect window is advisory.  A disconnected session accepts the transition to
  \<open>Connecting\<close> even when \<open>reconnect_allowed\<close> is false, and a further \<open>mark_disconnected\<close> moves its
  deadline to a later time.
\<close>

theorem session_reconnect_window_not_enforced:
  assumes "ssm_state (sess_machine s) = St_Disconnected" "reconnect_deadline (sess_machine s) = Some deadline"
    and "deadline < now"
  shows "\<not> reconnect_allowed (sess_machine s) now
    \<and> snd (Session_transition s St_Connecting) = Ok ()
    \<and> ssm_state (sess_machine (fst (Session_transition s St_Connecting))) = St_Connecting
    \<and> reconnect_allowed (sess_machine (fst (Session_mark_disconnected s policy now))) (now + rp_window policy)"
  using assms by (simp add: reconnect_allowed_def session_defs)

theorem session_reconnect_window_not_enforced_witness:
  "\<not> reconnect_allowed \<lparr>ssm_state = St_Disconnected, reconnect_deadline = Some 60,
       established_at = Some 1, max_duration = Some 500\<rparr> 61"
  using session_reconnect_window_not_enforced
    [of "\<lparr>session_id = ''s'', sess_machine = \<lparr>ssm_state = St_Disconnected, reconnect_deadline = Some 60,
       established_at = Some 1, max_duration = Some 500\<rparr>\<rparr>" 60 61 "\<lparr>rp_window = 60\<rparr>"]
  by simp

end
