(* ===== verification/Protocol_Messages.thy ===== *)
theory Protocol_Messages
  imports Nexus_Prelude
begin

text \<open>
  \<open>crates/nexus-protocol/src/lib.rs\<close>: the messages of \<open>proto/nexus.proto\<close> that the code inspects and
  their validation.  The Protobuf encoding is generated code; \<open>signing_bytes\<close> takes it as an argument.
  A \<open>float\<close> is its IEEE 754 bit pattern.
\<close>

section \<open>Messages\<close>

definition CURRENT_PROTOCOL_VERSION :: u32 where "CURRENT_PROTOCOL_VERSION = 1"
definition MAX_SESSION_ID_LEN :: nat where "MAX_SESSION_ID_LEN = 128"
definition MAX_DEVICE_ID_LEN :: nat where "MAX_DEVICE_ID_LEN = 128"
definition MAX_CAPABILITY_LEN :: nat where "MAX_CAPABILITY_LEN = 16 * 1024"
definition MAX_EPHEMERAL_KEY_LEN :: nat where "MAX_EPHEMERAL_KEY_LEN = 128"
definition MAX_CAPABILITY_PERMISSIONS :: nat where "MAX_CAPABILITY_PERMISSIONS = 32"
definition MAX_NONCE_LEN :: nat where "MAX_NONCE_LEN = 64"

record SessionHello =
  hello_protocol_version :: u32
  hello_session_id :: string
  hello_device_id :: string
  hello_capability :: bytes
  hello_ephemeral_public_key :: bytes

record MonitorInfo =
  mon_id :: u32
  origin_x :: "32 word"
  origin_y :: "32 word"
  mon_width :: u32
  mon_height :: u32
  mon_scale :: u32

record CursorShape =
  cur_id :: u32
  cur_width :: u32
  cur_height :: u32
  hotspot_x :: u32
  hotspot_y :: u32
  pixel_format :: u32
  cur_data :: bytes

record SessionCapability =
  cap_version :: u32
  cap_issuer :: string
  cap_session_id :: string
  cap_subject_user_id :: string
  cap_client_device_id :: string
  cap_target_device_id :: string
  cap_permissions :: "string list"
  cap_restrictions :: bytes
  cap_not_before :: u64
  cap_expires_at :: u64
  cap_nonce :: bytes
  cap_agent_min_protocol :: u32
  cap_agent_max_protocol :: u32
  cap_client_ephemeral_public_key :: bytes
  cap_signature :: bytes

section \<open>Validation\<close>

datatype SessionHelloError =
    Hello_UnsupportedVersion u32 u32        \<comment> \<open>\<open>expected\<close>, \<open>actual\<close>\<close>
  | Hello_InvalidSessionId nat
  | Hello_InvalidDeviceId nat
  | Hello_CapabilityTooLarge nat
  | Hello_EphemeralKeyTooLarge nat

datatype MonitorInfoError = Mon_InvalidDimensions | Mon_InvalidScale | Mon_ScaleTooLarge

datatype CursorShapeError =
  Cur_InvalidDimensions | Cur_InvalidHotspot | Cur_DataTooLarge nat | Cur_InvalidPayloadLength

datatype SessionCapabilityError =
  Cap_UnsupportedVersion | Cap_InvalidIdentity | Cap_InvalidValidityWindow
| Cap_TooManyPermissions | Cap_InvalidNonce | Cap_InvalidProtocolRange

definition MAX_DATA_LEN :: nat where "MAX_DATA_LEN = 1024 * 1024"

definition usize_saturating_mul :: "nat \<Rightarrow> nat \<Rightarrow> nat" where
  "usize_saturating_mul a b = min (a * b) usize_max"

definition CursorShape_validate :: "CursorShape \<Rightarrow> (unit, CursorShapeError) result" where
  "CursorShape_validate c =
     (if cur_width c = 0 \<or> cur_height c = 0 then Err Cur_InvalidDimensions
      else if hotspot_x c \<ge> cur_width c \<or> hotspot_y c \<ge> cur_height c then Err Cur_InvalidHotspot
      else if length (cur_data c) > MAX_DATA_LEN then Err (Cur_DataTooLarge MAX_DATA_LEN)
      else if pixel_format c = 1 \<and>
              length (cur_data c) \<noteq>
                usize_saturating_mul (usize_saturating_mul (unat (cur_width c)) (unat (cur_height c))) 4
        then Err Cur_InvalidPayloadLength
      else Ok ())"

text \<open>
  Comparisons of an IEEE 754 single with constants, on its bits: the exponent of a finite number is
  not all ones, and non-negative finite numbers are ordered like their bit patterns.  The pattern of
  \<open>100.0\<close> is \<open>0x42C80000\<close>.
\<close>

definition f32_is_finite :: "u32 \<Rightarrow> bool" where
  "f32_is_finite x \<longleftrightarrow> x AND 0x7F800000 \<noteq> 0x7F800000"

definition f32_le_zero :: "u32 \<Rightarrow> bool" where
  "f32_le_zero x \<longleftrightarrow> bit x 31 \<or> x = 0"

definition f32_gt_100 :: "u32 \<Rightarrow> bool" where
  "f32_gt_100 x \<longleftrightarrow> \<not> bit x 31 \<and> x > 0x42C80000"

definition MonitorInfo_validate :: "MonitorInfo \<Rightarrow> (unit, MonitorInfoError) result" where
  "MonitorInfo_validate m =
     (if mon_width m = 0 \<or> mon_height m = 0 then Err Mon_InvalidDimensions
      else if \<not> f32_is_finite (mon_scale m) \<or> f32_le_zero (mon_scale m) then Err Mon_InvalidScale
      else if f32_gt_100 (mon_scale m) then Err Mon_ScaleTooLarge
      else Ok ())"

definition SessionHello_validate :: "SessionHello \<Rightarrow> (unit, SessionHelloError) result" where
  "SessionHello_validate h =
     (if hello_protocol_version h \<noteq> CURRENT_PROTOCOL_VERSION then
        Err (Hello_UnsupportedVersion CURRENT_PROTOCOL_VERSION (hello_protocol_version h))
      else if hello_session_id h = [] \<or> length (hello_session_id h) > MAX_SESSION_ID_LEN then
        Err (Hello_InvalidSessionId MAX_SESSION_ID_LEN)
      else if hello_device_id h = [] \<or> length (hello_device_id h) > MAX_DEVICE_ID_LEN then
        Err (Hello_InvalidDeviceId MAX_DEVICE_ID_LEN)
      else if length (hello_capability h) > MAX_CAPABILITY_LEN then
        Err (Hello_CapabilityTooLarge MAX_CAPABILITY_LEN)
      else if length (hello_ephemeral_public_key h) > MAX_EPHEMERAL_KEY_LEN then
        Err (Hello_EphemeralKeyTooLarge MAX_EPHEMERAL_KEY_LEN)
      else Ok ())"

definition SessionCapability_validate :: "SessionCapability \<Rightarrow> (unit, SessionCapabilityError) result" where
  "SessionCapability_validate c =
     (if cap_version c \<noteq> 1 then Err Cap_UnsupportedVersion
      else if list_ex (\<lambda>v. v = [] \<or> length v > MAX_SESSION_ID_LEN)
                [cap_issuer c, cap_session_id c, cap_subject_user_id c, cap_client_device_id c,
                 cap_target_device_id c]
        then Err Cap_InvalidIdentity
      else if cap_not_before c \<ge> cap_expires_at c then Err Cap_InvalidValidityWindow
      else if cap_permissions c = [] \<or> length (cap_permissions c) > MAX_CAPABILITY_PERMISSIONS
        then Err Cap_TooManyPermissions
      else if cap_nonce c = [] \<or> length (cap_nonce c) > MAX_NONCE_LEN then Err Cap_InvalidNonce
      else if cap_agent_min_protocol c > cap_agent_max_protocol c then Err Cap_InvalidProtocolRange
      else Ok ())"

text \<open>\<open>signing_bytes\<close>: the Protobuf encoding of the capability with an empty signature.\<close>

definition SessionCapability_signing_bytes ::
  "(SessionCapability \<Rightarrow> bytes) \<Rightarrow> SessionCapability \<Rightarrow> bytes" where
  "SessionCapability_signing_bytes proto_encode c = proto_encode (c\<lparr>cap_signature := []\<rparr>)"

lemma SessionCapability_validate_Ok:
  "SessionCapability_validate c = Ok u \<longleftrightarrow>
     cap_version c = 1
     \<and> (\<forall>v \<in> {cap_issuer c, cap_session_id c, cap_subject_user_id c, cap_client_device_id c,
              cap_target_device_id c}. v \<noteq> [] \<and> length v \<le> MAX_SESSION_ID_LEN)
     \<and> cap_not_before c < cap_expires_at c
     \<and> cap_permissions c \<noteq> [] \<and> length (cap_permissions c) \<le> MAX_CAPABILITY_PERMISSIONS
     \<and> cap_nonce c \<noteq> [] \<and> length (cap_nonce c) \<le> MAX_NONCE_LEN
     \<and> cap_agent_min_protocol c \<le> cap_agent_max_protocol c"
  by (simp add: SessionCapability_validate_def not_le not_less)

lemma CursorShape_validate_Ok:
  assumes "CursorShape_validate c = Ok u"
  shows "hotspot_x c < cur_width c" "hotspot_y c < cur_height c" "length (cur_data c) \<le> MAX_DATA_LEN"
    and "pixel_format c = 1 \<Longrightarrow> length (cur_data c) = unat (cur_width c) * unat (cur_height c) * 4"
proof -
  show "hotspot_x c < cur_width c" "hotspot_y c < cur_height c" "length (cur_data c) \<le> MAX_DATA_LEN"
    using assms by (auto simp: CursorShape_validate_def split: if_splits)
  then show "length (cur_data c) = unat (cur_width c) * unat (cur_height c) * 4" if "pixel_format c = 1"
    using assms that
    by (auto simp: CursorShape_validate_def usize_saturating_mul_def MAX_DATA_LEN_def min_def split: if_splits)
qed

lemma SessionCapability_signing_bytes_signature [simp]:
  "SessionCapability_signing_bytes enc (c\<lparr>cap_signature := s\<rparr>) = SessionCapability_signing_bytes enc c"
  by (simp add: SessionCapability_signing_bytes_def)

end
