(* ===== verification/Video_Packet.thy ===== *)
theory Video_Packet
  imports Nexus_Prelude
begin

text \<open>
  \<open>crates/nexus-protocol/src/video_packet.rs\<close>: the 30-byte big-endian header of a video packet.
  Multi-byte fields are read with \<open>from_be\<close> and written with \<open>to_be\<close>.  In builds with debug
  assertions \<open>encode\<close> also asserts that the payload is at most \<open>MAX_PAYLOAD_LEN\<close> bytes; the only
  caller is shown to respect that bound.
\<close>

section \<open>The contract of a self-delimiting encoding\<close>

locale framed_codec =
  fixes enc :: "'a \<Rightarrow> bytes"
    and dec :: "bytes \<Rightarrow> ('a \<times> bytes, 'e) result"
    and ok :: "'a \<Rightarrow> bool"
  assumes dec_enc: "ok x \<Longrightarrow> dec (enc x @ rest) = Ok (x, rest)"
begin

lemma enc_unique_prefix:
  assumes "ok x" "ok y" "enc x @ r = enc y @ s"
  shows "x = y \<and> r = s"
proof -
  have "Ok (x, r) = (Ok (y, s) :: ('a \<times> bytes, 'e) result)"
    using dec_enc [OF assms(1), of r] dec_enc [OF assms(2), of s] unfolding assms(3) by (rule trans [OF sym])
  then show ?thesis by simp
qed

lemma enc_inj: "\<lbrakk>ok x; ok y; enc x = enc y\<rbrakk> \<Longrightarrow> x = y"
  using enc_unique_prefix [of x y "[]" "[]"] by simp

lemma concat_inj:
  assumes "list_all ok xs" "list_all ok ys" "length xs = length ys"
    and "concat (map enc xs) = concat (map enc ys)"
  shows "xs = ys"
  using assms(3,1,2,4)
proof (induction xs ys rule: list_induct2)
  case (Cons x xs y ys)
  then have "x = y \<and> concat (map enc xs) = concat (map enc ys)"
    by (intro enc_unique_prefix) simp_all
  with Cons show ?case by simp
qed simp

end

section \<open>The header\<close>

definition HEADER_LEN :: nat where "HEADER_LEN = 30"
definition CURRENT_VERSION :: u8 where "CURRENT_VERSION = 2"
definition MAX_PAYLOAD_LEN :: nat where "MAX_PAYLOAD_LEN = 1200"

definition KEYFRAME :: u8 where "KEYFRAME = 1"
definition FRAME_START :: u8 where "FRAME_START = 2"
definition FRAME_END :: u8 where "FRAME_END = 4"
definition FEC :: u8 where "FEC = 8"
definition CONFIG :: u8 where "CONFIG = 16"

record VideoPacketHeader =
  vh_version :: u8
  vh_flags :: u8
  stream_id :: u16
  frame_id :: u32
  packet_id :: u16
  packet_count :: u16
  timestamp_us :: u64
  nonce_sequence :: u64
  payload_len :: u16

datatype VideoPacketError =
    UnsupportedVersion u8 u8        \<comment> \<open>\<open>expected\<close>, \<open>actual\<close>\<close>
  | HeaderTooShort nat              \<comment> \<open>\<open>got\<close>\<close>
  | PayloadTooShort nat nat         \<comment> \<open>\<open>declared\<close>, \<open>got\<close>\<close>
  | PayloadTooLarge nat nat         \<comment> \<open>\<open>max\<close>, \<open>actual\<close>\<close>

definition encode_header :: "VideoPacketHeader \<Rightarrow> bytes" where
  "encode_header h =
     [vh_version h, vh_flags h] @ to_be 2 (stream_id h) @ to_be 4 (frame_id h)
     @ to_be 2 (packet_id h) @ to_be 2 (packet_count h) @ to_be 8 (timestamp_us h)
     @ to_be 8 (nonce_sequence h) @ to_be 2 (payload_len h)"

definition encode :: "VideoPacketHeader \<Rightarrow> bytes \<Rightarrow> bytes \<Rightarrow> bytes" where
  "encode h payload out = out @ encode_header h @ payload"

definition read_header :: "bytes \<Rightarrow> VideoPacketHeader" where
  "read_header buf =
     \<lparr>vh_version = buf ! 0,
      vh_flags = buf ! 1,
      stream_id = from_be [buf ! 2, buf ! 3],
      frame_id = from_be [buf ! 4, buf ! 5, buf ! 6, buf ! 7],
      packet_id = from_be [buf ! 8, buf ! 9],
      packet_count = from_be [buf ! 10, buf ! 11],
      timestamp_us = from_be [buf ! 12, buf ! 13, buf ! 14, buf ! 15, buf ! 16, buf ! 17, buf ! 18, buf ! 19],
      nonce_sequence = from_be [buf ! 20, buf ! 21, buf ! 22, buf ! 23, buf ! 24, buf ! 25, buf ! 26, buf ! 27],
      payload_len = from_be [buf ! 28, buf ! 29]\<rparr>"

definition decode :: "bytes \<Rightarrow> (VideoPacketHeader \<times> bytes, VideoPacketError) result" where
  "decode buf =
     (if length buf < HEADER_LEN then Err (HeaderTooShort (length buf))
      else if buf ! 0 \<noteq> CURRENT_VERSION then Err (UnsupportedVersion CURRENT_VERSION (buf ! 0))
      else
        (let h = read_header buf; declared = unat (payload_len h) in
         if declared > MAX_PAYLOAD_LEN then Err (PayloadTooLarge MAX_PAYLOAD_LEN declared)
         else if length buf < HEADER_LEN + declared then
           Err (PayloadTooShort declared (length buf - HEADER_LEN))
         else Ok (h, take declared (drop HEADER_LEN buf))))"

section \<open>Laws\<close>

lemma length_encode_header [simp]: "length (encode_header h) = HEADER_LEN"
  by (simp add: encode_header_def HEADER_LEN_def)

lemma read_header_encode: "read_header (encode_header h @ rest) = h"
  by (cases h) (simp add: read_header_def encode_header_def from_be_bytes)

text \<open>The header is the first thirty bytes, with nothing lost.\<close>

lemma encode_header_read:
  assumes "HEADER_LEN \<le> length buf"
  shows "encode_header (read_header buf) = take HEADER_LEN buf"
proof -
  have "[0..<30] = [0, 1, 2, 3, 4, 5, 6, 7, 8, 9, 10, 11, 12, 13, 14, 15, 16, 17, 18, 19,
      20, 21, 22, 23, 24, 25, 26, 27, 28, 29]"
    by (simp add: upt_rec)
  then have "take HEADER_LEN buf = map (nth buf) [0, 1, 2, 3, 4, 5, 6, 7, 8, 9, 10, 11, 12, 13, 14,
      15, 16, 17, 18, 19, 20, 21, 22, 23, 24, 25, 26, 27, 28, 29]"
    using assms by (simp add: HEADER_LEN_def take_eq_map_nth del: upt.simps)
  then show ?thesis
    unfolding encode_header_def read_header_def
    by (simp only: VideoPacketHeader.select_convs to_be_from_be_bytes append.simps list.map)
qed

definition packet_ok :: "VideoPacketHeader \<times> bytes \<Rightarrow> bool" where
  "packet_ok hp \<longleftrightarrow>
     vh_version (fst hp) = CURRENT_VERSION \<and> unat (payload_len (fst hp)) = length (snd hp)
     \<and> length (snd hp) \<le> MAX_PAYLOAD_LEN"

lemma decode_encode:
  assumes "packet_ok (h, payload)"
  shows "decode (encode h payload [] @ rest) = Ok (h, payload)"
proof -
  have "(encode_header h @ payload @ rest) ! 0 = vh_version h"
    by (simp add: encode_header_def)
  with assms show ?thesis
    by (simp add: decode_def encode_def read_header_encode packet_ok_def Let_def)
qed

lemma decode_Ok:
  assumes "decode buf = Ok (h, payload)"
  shows "packet_ok (h, payload)" and "encode h payload [] = take (HEADER_LEN + length payload) buf"
proof -
  from assms have len: "HEADER_LEN \<le> length buf" and h: "h = read_header buf"
    and v: "buf ! 0 = CURRENT_VERSION" and d: "unat (payload_len h) \<le> MAX_PAYLOAD_LEN"
    and l: "HEADER_LEN + unat (payload_len h) \<le> length buf"
    and p: "payload = take (unat (payload_len h)) (drop HEADER_LEN buf)"
    by (auto simp: decode_def Let_def not_less split: if_splits)
  then have pl: "length payload = unat (payload_len h)" by simp
  with v d h show "packet_ok (h, payload)"
    by (simp add: packet_ok_def read_header_def)
  show "encode h payload [] = take (HEADER_LEN + length payload) buf"
    unfolding encode_def h encode_header_read [OF len] take_add
    using p pl h by simp
qed

text \<open>A packet with its remaining bytes, as a self-delimiting encoding.\<close>

definition decode_packet :: "bytes \<Rightarrow> ((VideoPacketHeader \<times> bytes) \<times> bytes, VideoPacketError) result" where
  "decode_packet buf =
     map_ok (\<lambda>(h, payload). ((h, payload), drop (HEADER_LEN + length payload) buf)) (decode buf)"

interpretation video_packet: framed_codec "\<lambda>(h, payload). encode h payload []" decode_packet packet_ok
proof unfold_locales
  fix x :: "VideoPacketHeader \<times> bytes" and rest :: bytes
  assume "packet_ok x"
  then show "decode_packet ((case x of (h, payload) \<Rightarrow> encode h payload []) @ rest) = Ok (x, rest)"
    using decode_encode [of "fst x" "snd x" rest]
    by (cases x) (simp add: decode_packet_def, simp add: encode_def)
qed

section \<open>Properties\<close>

text \<open>
  Decoding inverts encoding and accepts nothing else.  A packet decodes to a header and a
  payload if and only if its first bytes are the encoding of that header and payload, the version is
  current, the declared length is that of the payload, and it is at most \<open>MAX_PAYLOAD_LEN\<close>; bytes
  after the payload are ignored.
\<close>

theorem video_packet_decode_iff:
  "decode buf = Ok (h, payload) \<longleftrightarrow>
     vh_version h = CURRENT_VERSION \<and> unat (payload_len h) = length payload
     \<and> length payload \<le> MAX_PAYLOAD_LEN \<and> (\<exists>rest. buf = encode h payload [] @ rest)"
proof
  assume ok: "decode buf = Ok (h, payload)"
  have "buf = encode h payload [] @ drop (HEADER_LEN + length payload) buf"
    by (simp add: decode_Ok(2) [OF ok])
  with decode_Ok(1) [OF ok] show "vh_version h = CURRENT_VERSION \<and> unat (payload_len h) = length payload
     \<and> length payload \<le> MAX_PAYLOAD_LEN \<and> (\<exists>rest. buf = encode h payload [] @ rest)"
    by (auto simp: packet_ok_def)
qed (auto simp: decode_encode packet_ok_def)

end
