(* ===== verification/Crypto_Core.thy ===== *)
theory Crypto_Core
  imports Nexus_Prelude
begin

text \<open>
  \<open>crates/nexus-crypto/src/lib.rs\<close>: the nonce allocator, the authenticated metadata of a frame, and
  the wrappers around the AEAD, X25519, HKDF and Ed25519 packages.  Those packages are arguments:
  \<open>enc\<close> and \<open>dec\<close> are ChaCha20-Poly1305 (key, nonce, associated data, message), \<open>dh\<close> is X25519,
  \<open>hkdf\<close> is HKDF-SHA256 (salt, input, info), \<open>ed_sign\<close> and \<open>ed_verify\<close> are Ed25519 and
  \<open>ed_pub\<close> its map from a seed to the public key.  Keys, nonces and signatures are byte lists.
\<close>

type_synonym aead = "bytes \<Rightarrow> bytes \<Rightarrow> bytes \<Rightarrow> bytes \<Rightarrow> bytes option"

text \<open>
  What the callers rely on: decryption under the same key, nonce and associated data returns the
  plaintext, and decryption accepts only what encryption produces.
\<close>

definition aead_correct :: "aead \<Rightarrow> aead \<Rightarrow> bool" where
  "aead_correct enc dec \<longleftrightarrow> (\<forall>k n a p c. enc k n a p = Some c \<longrightarrow> dec k n a c = Some p)"

section \<open>Errors\<close>

datatype SignatureError = InvalidSigningKey | InvalidVerifyingKey | InvalidSignature | VerificationFailed
datatype KeyDerivationError = InvalidSharedSecret | ExpansionFailed
datatype AeadError = EncryptionFailed | AuthenticationFailed
datatype NonceSequenceError = Exhausted
datatype FrameSealError = Seal_Nonce NonceSequenceError | Seal_Aead AeadError

section \<open>Frame metadata and nonces\<close>

record EncodedFrameMetadata =
  md_protocol_version :: u32
  md_channel :: u32
  md_frame_id :: u32
  md_codec_config_id :: u32
  md_timestamp_us :: u64
  md_keyframe :: bool

definition aad :: "EncodedFrameMetadata \<Rightarrow> bytes" where
  "aad m =
     to_be 4 (md_protocol_version m) @ to_be 4 (md_channel m) @ to_be 4 (md_frame_id m)
     @ to_be 4 (md_codec_config_id m) @ to_be 8 (md_timestamp_us m)
     @ [if md_keyframe m then 1 else 0]"

definition nonce_from_sequence :: "u32 \<Rightarrow> u64 \<Rightarrow> bytes" where
  "nonce_from_sequence domain sequence = to_be 4 domain @ to_be 8 sequence"

record NonceSequence =
  ns_domain :: u32
  ns_next :: u64
  ns_exhausted :: bool

definition NonceSequence_new :: "u32 \<Rightarrow> NonceSequence" where
  "NonceSequence_new domain = \<lparr>ns_domain = domain, ns_next = 0, ns_exhausted = False\<rparr>"

definition next_nonce :: "NonceSequence \<Rightarrow> NonceSequence \<times> (bytes, NonceSequenceError) result" where
  "next_nonce s =
     (if ns_exhausted s then (s, Err Exhausted)
      else
        (let sequence = ns_next s;
             s' = (if sequence = u64_max then s\<lparr>ns_exhausted := True\<rparr>
                   else s\<lparr>ns_next := ns_next s + 1\<rparr>)
         in (s', Ok (nonce_from_sequence (ns_domain s) sequence))))"

section \<open>Sealing and opening\<close>

definition seal_session_payload :: "aead \<Rightarrow> bytes \<Rightarrow> bytes \<Rightarrow> bytes \<Rightarrow> bytes \<Rightarrow> (bytes, AeadError) result" where
  "seal_session_payload enc key nonce associated_data plaintext =
     ok_or EncryptionFailed (enc key nonce associated_data plaintext)"

definition open_session_payload :: "aead \<Rightarrow> bytes \<Rightarrow> bytes \<Rightarrow> bytes \<Rightarrow> bytes \<Rightarrow> (bytes, AeadError) result" where
  "open_session_payload dec key nonce associated_data ciphertext =
     ok_or AuthenticationFailed (dec key nonce associated_data ciphertext)"

record EncryptedFrame =
  ef_nonce :: bytes
  ef_ciphertext :: bytes

definition seal_encoded_frame ::
  "aead \<Rightarrow> bytes \<Rightarrow> NonceSequence \<Rightarrow> EncodedFrameMetadata \<Rightarrow> bytes
     \<Rightarrow> NonceSequence \<times> (EncryptedFrame, FrameSealError) result" where
  "seal_encoded_frame enc key sequence metadata plaintext =
     (case next_nonce sequence of
        (sequence', Err e) \<Rightarrow> (sequence', Err (Seal_Nonce e))
      | (sequence', Ok nonce) \<Rightarrow>
          (case seal_session_payload enc key nonce (aad metadata) plaintext of
             Err e \<Rightarrow> (sequence', Err (Seal_Aead e))
           | Ok ciphertext \<Rightarrow> (sequence', Ok \<lparr>ef_nonce = nonce, ef_ciphertext = ciphertext\<rparr>)))"

definition open_encoded_frame ::
  "aead \<Rightarrow> bytes \<Rightarrow> EncodedFrameMetadata \<Rightarrow> EncryptedFrame \<Rightarrow> (bytes, AeadError) result" where
  "open_encoded_frame dec key metadata encrypted =
     open_session_payload dec key (ef_nonce encrypted) (aad metadata) (ef_ciphertext encrypted)"

section \<open>Keys and signatures\<close>

definition session_key_salt :: bytes where
  "session_key_salt = as_bytes ''nexus/session-key/v1''"

definition derive_session_key ::
  "(bytes \<Rightarrow> bytes \<Rightarrow> bytes) \<Rightarrow> (bytes \<Rightarrow> bytes \<Rightarrow> bytes \<Rightarrow> bytes option) \<Rightarrow> bytes \<Rightarrow> bytes \<Rightarrow> bytes
     \<Rightarrow> (bytes, KeyDerivationError) result" where
  "derive_session_key dh hkdf local_secret peer_public transcript_context =
     (let shared = dh local_secret peer_public in
      if list_all (\<lambda>byte. byte = 0) shared then Err InvalidSharedSecret
      else ok_or ExpansionFailed (hkdf session_key_salt shared transcript_context))"

text \<open>
  \<open>ed_verify\<close> returns \<open>None\<close> when the public key is not a valid point and otherwise whether the
  signature is accepted.
\<close>

type_synonym ed_verify = "bytes \<Rightarrow> bytes \<Rightarrow> bytes \<Rightarrow> bool option"
type_synonym ed_sign = "bytes \<Rightarrow> bytes \<Rightarrow> bytes"

definition verify_ed25519 :: "ed_verify \<Rightarrow> bytes \<Rightarrow> bytes \<Rightarrow> bytes \<Rightarrow> (unit, SignatureError) result" where
  "verify_ed25519 ed_verify public_key payload signature =
     (case ed_verify public_key payload signature of
        None \<Rightarrow> Err InvalidVerifyingKey
      | Some ok \<Rightarrow> if ok then Ok () else Err VerificationFailed)"

definition sign_ed25519 :: "ed_sign \<Rightarrow> bytes \<Rightarrow> bytes \<Rightarrow> bytes" where
  "sign_ed25519 ed_sign secret_key payload = ed_sign secret_key payload"

record DeviceKeypair =
  signing_key :: bytes

definition DeviceKeypair_from_seed :: "bytes \<Rightarrow> DeviceKeypair" where
  "DeviceKeypair_from_seed seed = \<lparr>signing_key = seed\<rparr>"

definition DeviceKeypair_public_key :: "(bytes \<Rightarrow> bytes) \<Rightarrow> DeviceKeypair \<Rightarrow> bytes" where
  "DeviceKeypair_public_key ed_pub k = ed_pub (signing_key k)"

definition DeviceKeypair_sign :: "ed_sign \<Rightarrow> DeviceKeypair \<Rightarrow> bytes \<Rightarrow> bytes" where
  "DeviceKeypair_sign ed_sign k payload = ed_sign (signing_key k) payload"

definition DeviceKeypair_verify ::
  "ed_verify \<Rightarrow> (bytes \<Rightarrow> bytes) \<Rightarrow> DeviceKeypair \<Rightarrow> bytes \<Rightarrow> bytes \<Rightarrow> (unit, SignatureError) result" where
  "DeviceKeypair_verify ed_verify ed_pub k payload signature =
     verify_ed25519 ed_verify (DeviceKeypair_public_key ed_pub k) payload signature"

record SignedPayload =
  sp_payload :: bytes
  sp_signature :: bytes

definition SignedPayload_sign :: "ed_sign \<Rightarrow> bytes \<Rightarrow> bytes \<Rightarrow> SignedPayload" where
  "SignedPayload_sign ed_sign secret_key payload =
     \<lparr>sp_payload = payload, sp_signature = sign_ed25519 ed_sign secret_key payload\<rparr>"

definition SignedPayload_verify :: "ed_verify \<Rightarrow> bytes \<Rightarrow> SignedPayload \<Rightarrow> (bytes, SignatureError) result" where
  "SignedPayload_verify ed_verify public_key sp =
     and_then (verify_ed25519 ed_verify public_key (sp_payload sp) (sp_signature sp))
       (\<lambda>_. Ok (sp_payload sp))"

text \<open>What signing promises: a signature made with a seed is accepted under its public key.\<close>

definition signature_correct :: "ed_sign \<Rightarrow> ed_verify \<Rightarrow> (bytes \<Rightarrow> bytes) \<Rightarrow> bool" where
  "signature_correct ed_sign ed_verify ed_pub \<longleftrightarrow>
     (\<forall>seed payload. ed_verify (ed_pub seed) payload (ed_sign seed payload) = Some True)"

section \<open>Laws\<close>

lemma verify_ed25519_Ok [res_simps]:
  "verify_ed25519 v pk payload sig = Ok u \<longleftrightarrow> v pk payload sig = Some True"
  by (auto simp: verify_ed25519_def split: option.splits)

lemma verify_sign_ed25519:
  "signature_correct s v pub \<Longrightarrow> verify_ed25519 v (pub seed) payload (sign_ed25519 s seed payload) = Ok ()"
  by (simp add: res_simps signature_correct_def sign_ed25519_def)

lemma append_eq_same_length: "length a = length b \<Longrightarrow> a @ r = b @ s \<longleftrightarrow> a = b \<and> r = s"
  by simp

lemma to_be_inject_width:
  "to_be 2 x16 = to_be 2 y16 \<longleftrightarrow> x16 = (y16 :: u16)"
  "to_be 4 x32 = to_be 4 y32 \<longleftrightarrow> x32 = (y32 :: u32)"
  "to_be 8 x64 = to_be 8 y64 \<longleftrightarrow> x64 = (y64 :: u64)"
  using from_be_to_be_width by (metis, metis, metis)

lemma nonce_from_sequence_inject [simp]:
  "nonce_from_sequence d s = nonce_from_sequence d' s' \<longleftrightarrow> d = d' \<and> s = s'"
  unfolding nonce_from_sequence_def
  by (subst append_eq_same_length) (simp_all only: to_be_inject_width length_to_be)

lemma length_nonce [simp]: "length (nonce_from_sequence d s) = 12"
  by (simp add: nonce_from_sequence_def)

lemma aad_inject: "aad m = aad m' \<longleftrightarrow> m = m'"
proof
  assume "aad m = aad m'"
  then have "md_protocol_version m = md_protocol_version m' \<and> md_channel m = md_channel m'
      \<and> md_frame_id m = md_frame_id m' \<and> md_codec_config_id m = md_codec_config_id m'
      \<and> md_timestamp_us m = md_timestamp_us m' \<and> md_keyframe m = md_keyframe m'"
    unfolding aad_def
    by (simp only: append_eq_same_length length_to_be to_be_inject_width) (auto split: if_splits)
  then show "m = m'" by (simp add: EncodedFrameMetadata.equality)
qed simp

lemma length_aad [simp]: "length (aad m) = 25"
  by (simp add: aad_def)

text \<open>The allocator as a component that hands out ever larger sequence numbers.\<close>

definition ns_inv :: "NonceSequence \<Rightarrow> bool" where
  "ns_inv s \<longleftrightarrow> (ns_exhausted s \<longrightarrow> ns_next s = u64_max)"

definition ns_rank :: "NonceSequence \<Rightarrow> nat" where
  "ns_rank s = unat (ns_next s) + (if ns_exhausted s then 1 else 0)"

definition nonce_number :: "(bytes, NonceSequenceError) result \<Rightarrow> nat option" where
  "nonce_number r = (case r of Ok n \<Rightarrow> Some (unat (from_be (drop 4 n) :: u64)) | Err _ \<Rightarrow> None)"

lemma nonce_number_Ok [simp]: "nonce_number (Ok (nonce_from_sequence d s)) = Some (unat s)"
  by (simp add: nonce_number_def nonce_from_sequence_def del: to_be_numeral)

lemma nonce_number_Err [simp]: "nonce_number (Err e) = None"
  by (simp add: nonce_number_def)

lemma unat_succ: "w \<noteq> u64_max \<Longrightarrow> unat (w + 1) = Suc (unat w)"
  by (metis add.commute unatSuc word_neq_0_conv add_eq_0_iff) 

interpretation nonces: emitting_machine "\<lambda>s (u::unit). next_nonce s" ns_inv ns_rank nonce_number
  by unfold_locales
     (auto simp: next_nonce_def ns_inv_def ns_rank_def Let_def unat_succ split: if_splits)

text \<open>The state of a new allocator after \<open>k\<close> calls, and the result of each call.\<close>

abbreviation allocate :: "NonceSequence \<Rightarrow> unit \<Rightarrow> NonceSequence \<times> (bytes, NonceSequenceError) result" where
  "allocate \<equiv> \<lambda>s u. next_nonce s"

definition ns_after :: "u32 \<Rightarrow> nat \<Rightarrow> NonceSequence" where
  "ns_after d k =
     (if k < 2 ^ 64 then \<lparr>ns_domain = d, ns_next = of_nat k, ns_exhausted = False\<rparr>
      else \<lparr>ns_domain = d, ns_next = u64_max, ns_exhausted = True\<rparr>)"

lemma of_nat_eq_max: "k < 2 ^ 64 \<Longrightarrow> (of_nat k :: u64) = u64_max \<longleftrightarrow> k = 2 ^ 64 - 1"
  by (subst word_unat_eq_iff) (simp add: unat_of_nat unat_max_word)

lemma next_nonce_after:
  "next_nonce (ns_after d k) =
     (ns_after d (Suc k),
      if k < 2 ^ 64 then Ok (nonce_from_sequence d (of_nat k)) else Err Exhausted)"
  using of_nat_eq_max [of k]
  by (auto simp: next_nonce_def ns_after_def Let_def add.commute)

lemma run_allocate:
  "run_ops allocate (ns_after d j) (replicate n ()) =
     (ns_after d (j + n),
      map (\<lambda>k. if k < 2 ^ 64 then Ok (nonce_from_sequence d (of_nat k)) else Err Exhausted) [j..<j + n])"
proof (induction n arbitrary: j)
  case (Suc n)
  show ?case
    by (simp add: next_nonce_after Suc Let_def upt_conv_Cons del: upt_Suc)
qed simp

lemma allocate_nth:
  assumes "k < n"
  shows "snd (run_ops allocate (NonceSequence_new d) (replicate n ())) ! k =
    (if k < 2 ^ 64 then Ok (nonce_from_sequence d (of_nat k)) else Err Exhausted)"
proof -
  have "NonceSequence_new d = ns_after d 0"
    by (simp add: NonceSequence_new_def ns_after_def)
  with assms show ?thesis
    by (simp add: run_allocate)
qed

lemma open_seal_encoded_frame:
  assumes "aead_correct enc dec" "snd (seal_encoded_frame enc key sequence md p) = Ok ef"
  shows "open_encoded_frame dec key md ef = Ok p"
  using assms
  by (auto simp: seal_encoded_frame_def open_encoded_frame_def seal_session_payload_def
      open_session_payload_def aead_correct_def res_simps split: prod.splits result.splits)

section \<open>Properties\<close>

text \<open>
  C4: a nonce allocator never repeats a nonce, and allocators of different domains never share one.  If the \<open>i\<close>-th call on a new allocator of domain \<open>d1\<close> and the
  \<open>j\<close>-th call on a new allocator of domain \<open>d2\<close> return the same nonce, then the domains are the same
  and \<open>i = j\<close>: nonces repeat neither within one direction, however many calls are made, nor across
  two directions.  Two allocators of one domain do return the same nonces, so that a key must have one allocator
  for each direction; the host's worker, which makes a new streamer for each run under the same key, does not keep to this.
\<close>

theorem nonces_never_reused:
  assumes "i < m" "snd (run_ops allocate (NonceSequence_new d1) (replicate m ())) ! i = Ok nonce"
    and "j < n" "snd (run_ops allocate (NonceSequence_new d2) (replicate n ())) ! j = Ok nonce"
  shows "d1 = d2 \<and> i = j"
proof -
  have "i < 2 ^ 64" "nonce = nonce_from_sequence d1 (of_nat i)"
    using assms(1,2) by (auto simp: allocate_nth split: if_splits)
  moreover have "j < 2 ^ 64" "nonce = nonce_from_sequence d2 (of_nat j)"
    using assms(3,4) by (auto simp: allocate_nth split: if_splits)
  ultimately show ?thesis
    by (auto simp: word_unat_eq_iff unat_of_nat)
qed

theorem nonces_never_reused_witness:
  "snd (run_ops allocate (NonceSequence_new 7) (replicate 3 ())) ! 1 = Ok (nonce_from_sequence 7 1)
   \<and> (7 :: u32) = 7 \<and> (1 :: nat) = 1"
  using nonces_never_reused [of 1 3 7 "nonce_from_sequence 7 1" 1 2 7] by (simp add: allocate_nth)

end
