(* ===== verification/Transport_Video.thy ===== *)
theory Transport_Video
  imports Video_Packet Crypto_Core Nexus_Maps
begin

text \<open>
  \<open>crates/nexus-transport/src/video.rs\<close>: sealing of encoded frames, the datagram format, the
  packetizer and the bounded reassembler.  The in-flight table is the \<open>BTreeMap\<close> of
  \<open>Nexus_Maps\<close>.
\<close>

section \<open>Sealing and datagrams\<close>

definition MAX_VIDEO_DATAGRAM_SIZE :: nat where "MAX_VIDEO_DATAGRAM_SIZE = 64 * 1024"
definition MAX_FRAME_PAYLOAD_SIZE :: nat where "MAX_FRAME_PAYLOAD_SIZE = 16 * 1024 * 1024"
definition MAX_PACKETS_PER_FRAME :: nat where "MAX_PACKETS_PER_FRAME = 16384"
definition MAX_IN_FLIGHT_FRAMES :: nat where "MAX_IN_FLIGHT_FRAMES = 8"

definition frame_metadata :: "VideoPacketHeader \<Rightarrow> u32 \<Rightarrow> EncodedFrameMetadata" where
  "frame_metadata header codec_config_id =
     \<lparr>md_protocol_version = ucast (vh_version header), md_channel = ucast (stream_id header),
      md_frame_id = frame_id header, md_codec_config_id = codec_config_id,
      md_timestamp_us = timestamp_us header, md_keyframe = (vh_flags header AND KEYFRAME \<noteq> 0)\<rparr>"

definition seal_video_frame ::
  "aead \<Rightarrow> bytes \<Rightarrow> NonceSequence \<Rightarrow> VideoPacketHeader \<Rightarrow> u32 \<Rightarrow> bytes
     \<Rightarrow> NonceSequence \<times> (EncryptedFrame, FrameSealError) result" where
  "seal_video_frame enc key sequence header codec_config_id encoded_frame =
     seal_encoded_frame enc key sequence (frame_metadata header codec_config_id) encoded_frame"

definition open_video_frame ::
  "aead \<Rightarrow> bytes \<Rightarrow> VideoPacketHeader \<Rightarrow> u32 \<Rightarrow> EncryptedFrame \<Rightarrow> (bytes, AeadError) result" where
  "open_video_frame dec key header codec_config_id encrypted =
     open_encoded_frame dec key (frame_metadata header codec_config_id) encrypted"

datatype VideoDatagramError =
    Dgram_TooLarge nat nat                  \<comment> \<open>\<open>actual\<close>, \<open>limit\<close>\<close>
  | Dgram_Packet VideoPacketError
  | Dgram_PayloadLengthMismatch

definition encode_video_datagram :: "VideoPacketHeader \<Rightarrow> bytes \<Rightarrow> (bytes, VideoDatagramError) result" where
  "encode_video_datagram header payload =
     (if length payload > MAX_PAYLOAD_LEN then Err (Dgram_TooLarge (length payload) MAX_PAYLOAD_LEN)
      else if unat (payload_len header) \<noteq> length payload then Err Dgram_PayloadLengthMismatch
      else
        (let total = HEADER_LEN + length payload in
         if total > MAX_VIDEO_DATAGRAM_SIZE then Err (Dgram_TooLarge total MAX_VIDEO_DATAGRAM_SIZE)
         else Ok (encode header payload [])))"

definition decode_video_datagram :: "bytes \<Rightarrow> (VideoPacketHeader \<times> bytes, VideoDatagramError) result" where
  "decode_video_datagram bs =
     (if length bs > MAX_VIDEO_DATAGRAM_SIZE then
        Err (Dgram_TooLarge (length bs) MAX_VIDEO_DATAGRAM_SIZE)
      else map_err Dgram_Packet (decode bs))"

section \<open>Packetizer\<close>

datatype PacketizeError =
    FrameTooLarge nat nat                   \<comment> \<open>\<open>actual\<close>, \<open>limit\<close>\<close>
  | InvalidChunkSize nat
  | Pkt_TooManyPackets nat nat              \<comment> \<open>\<open>count\<close>, \<open>max\<close>\<close>

text \<open>\<open>slice::chunks\<close>.\<close>

function chunks :: "nat \<Rightarrow> 'a list \<Rightarrow> 'a list list" where
  "chunks n xs = (if n = 0 \<or> xs = [] then [] else take n xs # chunks n (drop n xs))"
  by auto
termination by (relation "measure (\<lambda>(n, xs). length xs)") (auto simp: diff_less)

declare chunks.simps [simp del]

definition fragment_header :: "VideoPacketHeader \<Rightarrow> nat \<Rightarrow> nat \<Rightarrow> bytes \<Rightarrow> VideoPacketHeader" where
  "fragment_header base count i chunk =
     (let h = base\<lparr>packet_id := of_nat i, packet_count := of_nat count,
                   payload_len := of_nat (length chunk)\<rparr>;
          h = (if i = 0 then h\<lparr>vh_flags := vh_flags h OR FRAME_START\<rparr> else h)
      in if i = count - 1 then h\<lparr>vh_flags := vh_flags h OR FRAME_END\<rparr> else h)"

definition packetize_video_frame ::
  "VideoPacketHeader \<Rightarrow> bytes \<Rightarrow> nat \<Rightarrow> ((VideoPacketHeader \<times> bytes) list, PacketizeError) result" where
  "packetize_video_frame base_header payload chunk_size =
     (if chunk_size = 0 \<or> chunk_size > MAX_PAYLOAD_LEN then Err (InvalidChunkSize MAX_PAYLOAD_LEN)
      else if length payload > MAX_FRAME_PAYLOAD_SIZE then
        Err (FrameTooLarge (length payload) MAX_FRAME_PAYLOAD_SIZE)
      else if payload = [] then
        Ok [(base_header\<lparr>vh_flags := vh_flags base_header OR (FRAME_START OR FRAME_END),
                         packet_id := 0, packet_count := 1, payload_len := 0\<rparr>, [])]
      else
        (let chs = chunks chunk_size payload; count = length chs in
         if count > 65535 \<or> count > MAX_PACKETS_PER_FRAME then
           Err (Pkt_TooManyPackets count MAX_PACKETS_PER_FRAME)
         else Ok (map (\<lambda>(i, chunk). (fragment_header base_header count i chunk, chunk))
                    (List.enumerate 0 chs))))"

section \<open>Reassembler\<close>

record AssembledFrame =
  af_header :: VideoPacketHeader
  af_payload :: bytes
  assembled_len :: nat

datatype ReassemblyError =
    InvalidPacketId u16 u16                 \<comment> \<open>\<open>packet_id\<close>, \<open>packet_count\<close>\<close>
  | TooManyPackets u16 nat                  \<comment> \<open>\<open>count\<close>, \<open>max\<close>\<close>
  | PayloadLengthMismatch u16 nat           \<comment> \<open>\<open>declared\<close>, \<open>actual\<close>\<close>
  | InvalidBoundaryFlags
  | InconsistentFragmentMetadata

record InFlightFrame =
  base_header :: VideoPacketHeader
  packets :: "bytes option list"
  received_count :: nat
  total_bytes :: nat

record VideoFrameReassembler =
  frames :: "(u32, InFlightFrame) btree"
  max_in_flight :: nat
  max_frame_bytes :: nat
  last_authenticated_frame_id :: "u32 option"

definition VideoFrameReassembler_new :: "nat \<Rightarrow> nat \<Rightarrow> VideoFrameReassembler" where
  "VideoFrameReassembler_new max_in_flight0 max_frame_bytes0 =
     \<lparr>frames = [], max_in_flight = max max_in_flight0 1, max_frame_bytes = max_frame_bytes0,
      last_authenticated_frame_id = None\<rparr>"

definition VideoFrameReassembler_default :: VideoFrameReassembler where
  "VideoFrameReassembler_default = VideoFrameReassembler_new MAX_IN_FLIGHT_FRAMES MAX_FRAME_PAYLOAD_SIZE"

text \<open>The checks on a single packet, lines 232 to 259.\<close>

definition check_fragment :: "VideoPacketHeader \<Rightarrow> bytes \<Rightarrow> (unit, ReassemblyError) result" where
  "check_fragment header payload =
     (if packet_count header = 0 \<or> unat (packet_count header) > MAX_PACKETS_PER_FRAME then
        Err (TooManyPackets (packet_count header) MAX_PACKETS_PER_FRAME)
      else if packet_id header \<ge> packet_count header then
        Err (InvalidPacketId (packet_id header) (packet_count header))
      else if unat (payload_len header) \<noteq> length payload then
        Err (PayloadLengthMismatch (payload_len header) (length payload))
      else if packet_id header = 0 \<and> vh_flags header AND FRAME_START = 0 then Err InvalidBoundaryFlags
      else if packet_id header = packet_count header - 1 \<and> vh_flags header AND FRAME_END = 0 then
        Err InvalidBoundaryFlags
      else Ok ())"

definition evict_oldest :: "VideoFrameReassembler \<Rightarrow> u32 \<Rightarrow> VideoFrameReassembler" where
  "evict_oldest r fid =
     (if length (frames r) \<ge> max_in_flight r \<and> bt_get (frames r) fid = None then
        (case bt_first (frames r) of
           Some (oldest_key, _) \<Rightarrow> r\<lparr>frames := bt_remove oldest_key (frames r)\<rparr>
         | None \<Rightarrow> r)
      else r)"

definition entry_or_insert :: "VideoPacketHeader \<Rightarrow> VideoFrameReassembler \<Rightarrow> InFlightFrame" where
  "entry_or_insert header r =
     (case bt_get (frames r) (frame_id header) of
        Some f \<Rightarrow> f
      | None \<Rightarrow> \<lparr>base_header = header, packets = replicate (unat (packet_count header)) None,
                 received_count = 0, total_bytes = 0\<rparr>)"

definition consistent_fragment :: "InFlightFrame \<Rightarrow> VideoPacketHeader \<Rightarrow> bool" where
  "consistent_fragment f header \<longleftrightarrow>
     \<not> (length (packets f) \<noteq> unat (packet_count header)
        \<or> stream_id (base_header f) \<noteq> stream_id header
        \<or> vh_version (base_header f) \<noteq> vh_version header
        \<or> timestamp_us (base_header f) \<noteq> timestamp_us header
        \<or> nonce_sequence (base_header f) \<noteq> nonce_sequence header
        \<or> vh_flags (base_header f) AND KEYFRAME \<noteq> vh_flags header AND KEYFRAME)"

definition put_frame :: "u32 \<Rightarrow> InFlightFrame \<Rightarrow> VideoFrameReassembler \<Rightarrow> VideoFrameReassembler" where
  "put_frame fid f r = r\<lparr>frames := bt_insert fid f (frames r)\<rparr>"

definition remove_frame :: "u32 \<Rightarrow> VideoFrameReassembler \<Rightarrow> VideoFrameReassembler" where
  "remove_frame fid r = r\<lparr>frames := bt_remove fid (frames r)\<rparr>"

definition assemble :: "InFlightFrame \<Rightarrow> AssembledFrame" where
  "assemble f =
     (let full_payload = concat (List.map_filter (\<lambda>x. x) (packets f));
          h = base_header f
      in \<lparr>af_header = h\<lparr>vh_flags := vh_flags h OR (FRAME_START OR FRAME_END)\<rparr>,
          af_payload = full_payload, assembled_len = length full_payload\<rparr>)"

text \<open>The slot of a fragment is filled once; \<open>None\<close> when the frame outgrows its byte limit.\<close>

definition store_fragment :: "nat \<Rightarrow> InFlightFrame \<Rightarrow> nat \<Rightarrow> bytes \<Rightarrow> InFlightFrame option" where
  "store_fragment limit f idx payload =
     (if packets f ! idx = None then
        (let total = total_bytes f + length payload in
         if total > limit then None
         else Some (f\<lparr>packets := (packets f)[idx := Some payload],
                      received_count := received_count f + 1, total_bytes := total\<rparr>))
      else Some f)"

definition process_packet ::
  "VideoFrameReassembler \<Rightarrow> VideoPacketHeader \<Rightarrow> bytes
     \<Rightarrow> VideoFrameReassembler \<times> (AssembledFrame option, ReassemblyError) result" where
  "process_packet r header payload =
     (case check_fragment header payload of
        Err e \<Rightarrow> (r, Err e)
      | Ok _ \<Rightarrow>
          if (case last_authenticated_frame_id r of Some last_id \<Rightarrow> frame_id header \<le> last_id | None \<Rightarrow> False)
          then (r, Ok None)
          else if packet_count header = 1 then
            (if length payload > max_frame_bytes r then (r, Ok None)
             else (r, Ok (Some \<lparr>af_header = header, af_payload = payload, assembled_len = length payload\<rparr>)))
          else
            (let fid = frame_id header;
                 r1 = evict_oldest r fid;
                 f = entry_or_insert header r1
             in if \<not> consistent_fragment f header then (put_frame fid f r1, Err InconsistentFragmentMetadata)
                else
                  (case store_fragment (max_frame_bytes r) f (unat (packet_id header)) payload of
                     None \<Rightarrow> (remove_frame fid (put_frame fid f r1), Ok None)
                   | Some f' \<Rightarrow>
                       if received_count f' = length (packets f')
                       then (remove_frame fid (put_frame fid f' r1), Ok (Some (assemble f')))
                       else (put_frame fid f' r1, Ok None))))"

definition prune_stale_before :: "u32 \<Rightarrow> VideoFrameReassembler \<Rightarrow> VideoFrameReassembler" where
  "prune_stale_before fid r =
     (let stale_keys = filter (\<lambda>k. k < fid) (map fst (frames r))
      in r\<lparr>frames := foldl (\<lambda>m key. bt_remove key m) (frames r) stale_keys\<rparr>)"

definition commit_authenticated_frame :: "VideoFrameReassembler \<Rightarrow> u32 \<Rightarrow> VideoFrameReassembler \<times> bool" where
  "commit_authenticated_frame r fid =
     (if (case last_authenticated_frame_id r of Some last_id \<Rightarrow> fid \<le> last_id | None \<Rightarrow> False)
      then (r, False)
      else (prune_stale_before fid (r\<lparr>last_authenticated_frame_id := Some fid\<rparr>), True))"

section \<open>Laws of the packetizer\<close>

lemma concat_chunks: "0 < n \<Longrightarrow> concat (chunks n xs) = xs"
  by (induction n xs rule: chunks.induct) (subst chunks.simps, simp)

lemma chunks_bounds: "c \<in> set (chunks n xs) \<Longrightarrow> c \<noteq> [] \<and> length c \<le> n"
proof (induction n xs rule: chunks.induct)
  case (1 n xs)
  then show ?case
    by (subst (asm) (2) chunks.simps) (auto split: if_splits)
qed

lemma chunks_not_Nil: "\<lbrakk>0 < n; xs \<noteq> []\<rbrakk> \<Longrightarrow> chunks n xs \<noteq> []"
  by (subst chunks.simps) simp

text \<open>What the fragments of a frame look like.\<close>

definition fragment_of :: "VideoPacketHeader \<Rightarrow> nat \<Rightarrow> nat \<Rightarrow> bytes \<Rightarrow> VideoPacketHeader" where
  "fragment_of base n i chunk =
     base\<lparr>packet_id := of_nat i, packet_count := of_nat n, payload_len := of_nat (length chunk),
          vh_flags := vh_flags base OR (if i = 0 then FRAME_START else 0) OR (if i = n - 1 then FRAME_END else 0)\<rparr>"

definition fragments :: "VideoPacketHeader \<Rightarrow> bytes \<Rightarrow> (VideoPacketHeader \<times> bytes) list \<Rightarrow> bool" where
  "fragments base payload pkts \<longleftrightarrow>
     pkts \<noteq> [] \<and> length pkts \<le> MAX_PACKETS_PER_FRAME \<and> concat (map snd pkts) = payload \<and>
     (\<forall>i < length pkts. length (snd (pkts ! i)) \<le> MAX_PAYLOAD_LEN \<and>
        fst (pkts ! i) = fragment_of base (length pkts) i (snd (pkts ! i)))"

lemma fragment_header_eq: "fragment_header base n i chunk = fragment_of base n i chunk"
  by (cases base) (simp add: fragment_header_def fragment_of_def Let_def or.assoc)

lemma packetize_fragments:
  assumes "packetize_video_frame base payload chunk_size = Ok pkts"
  shows "fragments base payload pkts"
proof (cases "payload = []")
  case True
  with assms show ?thesis
    by (cases base)
       (auto simp: packetize_video_frame_def fragments_def fragment_of_def MAX_PACKETS_PER_FRAME_def
          MAX_PAYLOAD_LEN_def or.assoc split: if_splits)
next
  case False
  let ?chs = "chunks chunk_size payload"
  from assms False have c: "0 < chunk_size" "chunk_size \<le> MAX_PAYLOAD_LEN"
    and n: "length ?chs \<le> MAX_PACKETS_PER_FRAME"
    and p: "pkts = map (\<lambda>(i, chunk). (fragment_header base (length ?chs) i chunk, chunk)) (List.enumerate 0 ?chs)"
    by (simp_all add: packetize_video_frame_def Let_def split: if_splits)
  have "map snd pkts = ?chs"
    unfolding p by (rule nth_equalityI) (simp_all add: nth_enumerate_eq)
  moreover have "pkts ! i = (fragment_of base (length ?chs) i (?chs ! i), ?chs ! i)" if "i < length ?chs" for i
    using that unfolding p by (simp add: nth_enumerate_eq fragment_header_eq)
  moreover have "length (?chs ! i) \<le> MAX_PAYLOAD_LEN" if "i < length ?chs" for i
    using chunks_bounds [OF nth_mem [OF that]] c(2) by simp
  moreover have "length pkts = length ?chs" unfolding p by simp
  ultimately show ?thesis
    using n concat_chunks [OF c(1), of payload] chunks_not_Nil [OF c(1) False] by (auto simp: fragments_def)
qed

lemma fragment_start: "vh_flags (fragment_of base n 0 c) AND FRAME_START \<noteq> 0"
proof -
  have "bit (vh_flags (fragment_of base n 0 c) AND FRAME_START) 1"
    by (simp add: fragment_of_def bit_and_iff bit_or_iff FRAME_START_def)
  then show ?thesis by auto
qed

lemma fragment_end: "vh_flags (fragment_of base n (n - 1) c) AND FRAME_END \<noteq> 0"
proof -
  have "bit (vh_flags (fragment_of base n (n - 1) c) AND FRAME_END) 2"
    by (simp add: fragment_of_def bit_and_iff bit_or_iff FRAME_END_def)
  then show ?thesis by auto
qed

lemma fragment_keyframe: "vh_flags (fragment_of base n i c) AND KEYFRAME = vh_flags base AND KEYFRAME"
  by (simp add: fragment_of_def bit.conj_disj_distrib2 FRAME_START_def FRAME_END_def KEYFRAME_def)

lemma fragments_check:
  assumes "fragments base payload pkts" "i < length pkts"
  shows "check_fragment (fst (pkts ! i)) (snd (pkts ! i)) = Ok ()"
proof -
  let ?n = "length pkts" and ?p = "snd (pkts ! i)"
  have n: "0 < ?n" "?n \<le> 16384" and l: "length ?p \<le> 1200"
    and h: "fst (pkts ! i) = fragment_of base ?n i ?p"
    using assms by (auto simp: fragments_def MAX_PACKETS_PER_FRAME_def MAX_PAYLOAD_LEN_def)
  have b: "?n < 2 ^ LENGTH(16)" "i < 2 ^ LENGTH(16)" "?n - 1 < 2 ^ LENGTH(16)"
      "length ?p < 2 ^ LENGTH(16)" "0 < (2 :: nat) ^ LENGTH(16)"
    using n l assms(2) by simp_all
  note u = of_nat_small(1) [OF b(1,1)] of_nat_small(1) [OF b(2,2)] of_nat_small(1) [OF b(4,4)]
  have "(of_nat i :: u16) < of_nat ?n"
    using assms(2) by (simp only: of_nat_small(3) [OF b(2,1)])
  moreover have "(of_nat ?n :: u16) \<noteq> 0"
    using n(1) of_nat_small(2) [OF b(1,5)] by simp
  moreover have "(of_nat i :: u16) = 0 \<longleftrightarrow> i = 0"
    using of_nat_small(2) [OF b(2,5)] by simp
  moreover have "(of_nat i :: u16) = of_nat ?n - 1 \<longleftrightarrow> i = ?n - 1"
    using of_nat_small(2) [OF b(2,3)] n(1) by (simp add: of_nat_diff)
  moreover have "packet_id (fst (pkts ! i)) = of_nat i" "packet_count (fst (pkts ! i)) = of_nat ?n"
    "payload_len (fst (pkts ! i)) = of_nat (length ?p)"
    by (simp_all add: h fragment_of_def)
  ultimately show ?thesis
    using u n fragment_start [of base ?n ?p] fragment_end [of base ?n ?p]
    by (auto simp: check_fragment_def h MAX_PACKETS_PER_FRAME_def not_le)
qed

end
