(* ===== verification/Transport_Reassembly.thy ===== *)
theory Transport_Reassembly
  imports Transport_Video
begin

text \<open>
  The laws of the reassembler: its invariant and memory bound under arbitrary packets, the freshness
  of what it delivers, and the round trip with the packetizer in any order of arrival.
\<close>

section \<open>Slots\<close>

definition filled :: "bytes option list \<Rightarrow> nat" where
  "filled xs = length (filter (\<lambda>x. x \<noteq> None) xs)"

definition slot_bytes :: "bytes option list \<Rightarrow> nat" where
  "slot_bytes xs = length (concat (List.map_filter (\<lambda>x. x) xs))"

lemma filled_update:
  "\<lbrakk>i < length xs; xs ! i = None\<rbrakk> \<Longrightarrow> filled (xs[i := Some p]) = Suc (filled xs)"
  by (induction xs arbitrary: i) (auto simp: filled_def nth_Cons split: nat.splits)

lemma slot_bytes_update:
  "\<lbrakk>i < length xs; xs ! i = None\<rbrakk> \<Longrightarrow> slot_bytes (xs[i := Some p]) = slot_bytes xs + length p"
  by (induction xs arbitrary: i)
     (auto simp: slot_bytes_def List.map_filter_simps nth_Cons split: nat.splits option.splits)

lemma filled_le: "filled xs \<le> length xs"
  by (simp add: filled_def)

lemma filled_replicate [simp]: "filled (replicate n None) = 0"
  by (simp add: filled_def)

lemma map_filter_replicate_None: "List.map_filter (\<lambda>x. x) (replicate n None) = []"
  by (induction n) (simp_all add: List.map_filter_simps)

lemma slot_bytes_replicate [simp]: "slot_bytes (replicate n None) = 0"
  by (simp add: slot_bytes_def map_filter_replicate_None)

section \<open>The invariant\<close>

text \<open>
  A frame in flight has at least two slots and at most \<open>MAX_PACKETS_PER_FRAME\<close>, not all of them
  filled; its counters are those of its slots, and its bytes are within the limit.
\<close>

definition in_flight_ok :: "nat \<Rightarrow> u32 \<Rightarrow> InFlightFrame \<Rightarrow> bool" where
  "in_flight_ok limit fid f \<longleftrightarrow>
     frame_id (base_header f) = fid
     \<and> length (packets f) \<le> MAX_PACKETS_PER_FRAME
     \<and> received_count f = filled (packets f)
     \<and> total_bytes f = slot_bytes (packets f) \<and> total_bytes f \<le> limit"

definition reasm_inv :: "VideoFrameReassembler \<Rightarrow> bool" where
  "reasm_inv r \<longleftrightarrow>
     bt_invar (frames r) \<and> 1 \<le> max_in_flight r \<and> length (frames r) \<le> max_in_flight r
     \<and> (\<forall>fid f. bt_get (frames r) fid = Some f \<longrightarrow>
          in_flight_ok (max_frame_bytes r) fid f \<and> received_count f < length (packets f))
     \<and> (\<forall>fid f lst. bt_get (frames r) fid = Some f \<longrightarrow>
          last_authenticated_frame_id r = Some lst \<longrightarrow> lst \<le> fid)"

lemma reasm_invI [intro?]:
  assumes "bt_invar (frames r)" "1 \<le> max_in_flight r" "length (frames r) \<le> max_in_flight r"
    and "\<And>fid f. bt_get (frames r) fid = Some f \<Longrightarrow> in_flight_ok (max_frame_bytes r) fid f"
    and "\<And>fid f. bt_get (frames r) fid = Some f \<Longrightarrow> received_count f < length (packets f)"
    and "\<And>fid f lst. \<lbrakk>bt_get (frames r) fid = Some f; last_authenticated_frame_id r = Some lst\<rbrakk>
      \<Longrightarrow> lst \<le> fid"
  shows "reasm_inv r"
  using assms by (auto simp: reasm_inv_def)

lemma reasm_invD:
  assumes "reasm_inv r"
  shows "bt_invar (frames r)" "1 \<le> max_in_flight r" "length (frames r) \<le> max_in_flight r"
    and "bt_get (frames r) fid = Some f \<Longrightarrow> in_flight_ok (max_frame_bytes r) fid f"
    and "bt_get (frames r) fid = Some f \<Longrightarrow> received_count f < length (packets f)"
    and "\<lbrakk>bt_get (frames r) fid = Some f; last_authenticated_frame_id r = Some lst\<rbrakk> \<Longrightarrow> lst \<le> fid"
  using assms by (auto simp: reasm_inv_def)

lemma reasm_inv_new: "reasm_inv (VideoFrameReassembler_new n limit)"
  by (simp add: reasm_inv_def VideoFrameReassembler_new_def bt_get_Nil bt.invar_empty)

lemma evict_oldest_sel [simp]:
  "max_in_flight (evict_oldest r fid) = max_in_flight r"
  "max_frame_bytes (evict_oldest r fid) = max_frame_bytes r"
  "last_authenticated_frame_id (evict_oldest r fid) = last_authenticated_frame_id r"
  by (simp_all add: evict_oldest_def split: option.splits)

lemma evict_oldest_get:
  assumes "bt_invar (frames r)" "bt_get (frames (evict_oldest r fid)) k = Some f"
  shows "bt_get (frames r) k = Some f"
  using assms by (auto simp: evict_oldest_def bt_get_remove split: option.splits if_splits)

lemma evict_oldest_get_same:
  "bt_get (frames (evict_oldest r fid)) fid = bt_get (frames r) fid"
  by (auto simp: evict_oldest_def bt_get_remove split: option.splits)

lemma evict_oldest_invar: "bt_invar (frames r) \<Longrightarrow> bt_invar (frames (evict_oldest r fid))"
  by (auto simp: evict_oldest_def bt.invar_remove split: option.splits)

lemma evict_oldest_room:
  assumes "reasm_inv r"
  shows "length (bt_insert fid f (frames (evict_oldest r fid))) \<le> max_in_flight r"
proof -
  have inv: "bt_invar (frames r)" and len: "1 \<le> max_in_flight r" "length (frames r) \<le> max_in_flight r"
    using assms by (simp_all add: reasm_inv_def)
  consider (present) "bt_get (frames r) fid \<noteq> None"
    | (room) "bt_get (frames r) fid = None" "length (frames r) < max_in_flight r"
    | (full) "bt_get (frames r) fid = None" "max_in_flight r \<le> length (frames r)"
    by fastforce
  then show ?thesis
  proof cases
    case present
    then show ?thesis
      using len by (auto simp: evict_oldest_def bt.len_insert [OF inv])
  next
    case room
    then show ?thesis
      by (auto simp: evict_oldest_def bt.len_insert [OF inv])
  next
    case full
    then obtain k v where kv: "bt_first (frames r) = Some (k, v)"
      using len(1) bt_first_None [of "frames r"] by (cases "bt_first (frames r)") auto
    then have "frames (evict_oldest r fid) = bt_remove k (frames r)"
      using full by (simp add: evict_oldest_def)
    then show ?thesis
      using bt_remove_length_first [OF inv kv] len bt.len_insert [OF bt.invar_remove [OF inv], of fid f k]
      by (auto split: if_splits)
  qed
qed

lemma entry_or_insert_ok:
  assumes "reasm_inv r" "check_fragment header payload = Ok ()" "packet_count header \<noteq> 1"
  defines "f \<equiv> entry_or_insert header (evict_oldest r (frame_id header))"
  shows "in_flight_ok (max_frame_bytes r) (frame_id header) f \<and> received_count f < length (packets f)"
proof (cases "bt_get (frames r) (frame_id header)")
  case None
  then have "f = \<lparr>base_header = header, packets = replicate (unat (packet_count header)) None,
      received_count = 0, total_bytes = 0\<rparr>"
    by (simp add: f_def entry_or_insert_def evict_oldest_get_same)
  moreover have "0 < unat (packet_count header)" "unat (packet_count header) \<le> MAX_PACKETS_PER_FRAME"
    using assms(2) by (auto simp: check_fragment_def unat_gt_0 split: if_splits)
  ultimately show ?thesis
    by (simp add: in_flight_ok_def)
next
  case (Some g)
  then have "f = g"
    by (simp add: f_def entry_or_insert_def evict_oldest_get_same)
  with Some assms(1) show ?thesis
    by (simp add: reasm_inv_def)
qed

lemma store_fragment_ok:
  assumes "in_flight_ok limit fid f" "idx < length (packets f)" "store_fragment limit f idx payload = Some f'"
  shows "in_flight_ok limit fid f'"
  using assms
  by (auto simp: store_fragment_def in_flight_ok_def Let_def filled_update slot_bytes_update split: if_splits)

lemma put_frame_inv:
  assumes "reasm_inv r" "in_flight_ok (max_frame_bytes r) fid f" "received_count f < length (packets f)"
    and "\<And>lst. last_authenticated_frame_id r = Some lst \<Longrightarrow> lst \<le> fid"
  shows "reasm_inv (put_frame fid f (evict_oldest r fid))"
proof -
  have inv: "bt_invar (frames r)"
    using assms(1) by (simp add: reasm_inv_def)
  note inv' = evict_oldest_invar [OF inv, of fid]
  note get = evict_oldest_get [OF inv, of fid]
  show ?thesis
  proof
    show "bt_invar (frames (put_frame fid f (evict_oldest r fid)))"
      by (simp add: put_frame_def bt_invar_insert [OF inv'])
    show "length (frames (put_frame fid f (evict_oldest r fid))) \<le> max_in_flight (put_frame fid f (evict_oldest r fid))"
      using evict_oldest_room [OF assms(1)] by (simp add: put_frame_def)
  qed (use assms(2-4) reasm_invD(2) [OF assms(1)] in
        \<open>auto simp: put_frame_def bt_get_insert [OF inv'] split: if_splits
          dest!: get intro: reasm_invD [OF assms(1)]\<close>)
qed

lemma remove_put_frame:
  assumes "bt_invar (frames r)"
  shows "bt_get (frames (remove_frame fid (put_frame fid f r))) = (bt_get (frames r))(fid := None)"
    and "bt_invar (frames (remove_frame fid (put_frame fid f r)))"
    and "length (frames (remove_frame fid (put_frame fid f r))) \<le> length (frames r)"
proof -
  note inv = bt_invar_insert [OF assms, of fid f]
  show "bt_get (frames (remove_frame fid (put_frame fid f r))) = (bt_get (frames r))(fid := None)"
    by (simp add: remove_frame_def put_frame_def bt_get_remove bt_get_insert [OF assms])
  show "bt_invar (frames (remove_frame fid (put_frame fid f r)))"
    by (simp add: remove_frame_def put_frame_def bt.invar_remove [OF inv])
  have "fid \<in> dom (bt_get (bt_insert fid f (frames r)))"
    by (simp add: bt_get_insert [OF assms])
  then show "length (frames (remove_frame fid (put_frame fid f r))) \<le> length (frames r)"
    using bt.len_remove [OF inv, of fid] bt.len_insert [OF assms, of fid f]
    by (simp add: remove_frame_def put_frame_def split: if_splits)
qed

lemma remove_frame_sel:
  "max_in_flight (remove_frame fid (put_frame fid f r)) = max_in_flight r"
  "max_frame_bytes (remove_frame fid (put_frame fid f r)) = max_frame_bytes r"
  "last_authenticated_frame_id (remove_frame fid (put_frame fid f r)) = last_authenticated_frame_id r"
  by (simp_all add: remove_frame_def put_frame_def)

lemma remove_frame_inv:
  assumes "reasm_inv r"
  shows "reasm_inv (remove_frame fid (put_frame fid f (evict_oldest r fid)))"
proof -
  have inv: "bt_invar (frames r)" using assms by (simp add: reasm_inv_def)
  note get = evict_oldest_get [OF inv, of fid]
  note R = remove_put_frame [OF evict_oldest_invar [OF inv, of fid], of fid f]
  have "length (frames (evict_oldest r fid)) \<le> length (frames r)"
    using bt.len_remove_le [OF inv] by (auto simp: evict_oldest_def split: option.split)
  then have len: "length (frames (remove_frame fid (put_frame fid f (evict_oldest r fid)))) \<le> max_in_flight r"
    using R(3) reasm_invD(3) [OF assms] by linarith
  show ?thesis
  proof (rule reasm_invI [OF R(2)])
    show "length (frames (remove_frame fid (put_frame fid f (evict_oldest r fid)))) \<le>
        max_in_flight (remove_frame fid (put_frame fid f (evict_oldest r fid)))"
      using len by (simp add: remove_frame_def put_frame_def)
  qed (use reasm_invD(2) [OF assms] in
        \<open>auto simp: R(1) remove_frame_sel split: if_splits dest!: get intro: reasm_invD [OF assms]\<close>)
qed

lemma consistent_fragment_idx:
  assumes "check_fragment header payload = Ok ()" "consistent_fragment f header"
  shows "unat (packet_id header) < length (packets f)"
  using assms by (auto simp: check_fragment_def consistent_fragment_def word_le_nat_alt split: if_splits)

lemma process_packet_inv: "reasm_inv r \<Longrightarrow> reasm_inv (fst (process_packet r header payload))"
proof -
  assume r: "reasm_inv r"
  let ?fid = "frame_id header"
  let ?f = "entry_or_insert header (evict_oldest r ?fid)"
  show ?thesis
  proof (cases "check_fragment header payload = Ok () \<and> packet_count header \<noteq> 1
      \<and> \<not> (\<exists>lst. last_authenticated_frame_id r = Some lst \<and> ?fid \<le> lst)")
    case True
    then have fresh: "\<And>lst. last_authenticated_frame_id r = Some lst \<Longrightarrow> lst \<le> ?fid"
      by force
    have f: "in_flight_ok (max_frame_bytes r) ?fid ?f" "received_count ?f < length (packets ?f)"
      using entry_or_insert_ok [OF r] True by blast+
    have put: "reasm_inv (put_frame ?fid f' (evict_oldest r ?fid))"
      if "consistent_fragment ?f header" "received_count f' \<noteq> length (packets f')"
        "store_fragment (max_frame_bytes r) ?f (unat (packet_id header)) payload = Some f'" for f'
    proof -
      have ok: "in_flight_ok (max_frame_bytes r) ?fid f'"
        using store_fragment_ok [OF f(1) consistent_fragment_idx that(3)] True that(1) by blast
      with that(2) filled_le [of "packets f'"] have "received_count f' < length (packets f')"
        by (simp add: in_flight_ok_def)
      with ok show ?thesis
        using put_frame_inv [OF r _ _ fresh] by blast
    qed
    from True show ?thesis
      using put put_frame_inv [OF r f fresh] remove_frame_inv [OF r]
      by (auto simp: process_packet_def Let_def split: option.splits)
  next
    case False
    with r show ?thesis
      by (auto simp: process_packet_def split: result.splits option.splits)
  qed
qed

lemma bt_remove_keys:
  "bt_invar m \<Longrightarrow> bt_invar (foldl (\<lambda>m key. bt_remove key m) m ks) \<and>
     bt_get (foldl (\<lambda>m key. bt_remove key m) m ks) k = (if k \<in> set ks then None else bt_get m k) \<and>
     length (foldl (\<lambda>m key. bt_remove key m) m ks) \<le> length m"
proof (induction ks arbitrary: m)
  case (Cons a ks)
  from Cons.IH [OF bt.invar_remove [OF Cons.prems, of a]] bt.len_remove_le [OF Cons.prems, of a]
  show ?case by (simp add: bt_get_remove)
qed simp

lemma prune_stale_before_get:
  assumes "bt_invar (frames r)"
  shows "bt_invar (frames (prune_stale_before fid r))"
    and "bt_get (frames (prune_stale_before fid r)) k = (if k < fid then None else bt_get (frames r) k)"
    and "length (frames (prune_stale_before fid r)) \<le> length (frames r)"
proof -
  let ?ks = "filter (\<lambda>k. k < fid) (map fst (frames r))"
  note R = bt_remove_keys [OF assms, of ?ks]
  show "bt_invar (frames (prune_stale_before fid r))"
    "length (frames (prune_stale_before fid r)) \<le> length (frames r)"
    using R by (simp_all add: prune_stale_before_def Let_def)
  have "bt_get (frames r) k = None" if "k \<notin> fst ` set (frames r)"
    using that by (simp add: bt_get_def map_of_eq_None_iff)
  then show "bt_get (frames (prune_stale_before fid r)) k = (if k < fid then None else bt_get (frames r) k)"
    using R [of k] by (auto simp: prune_stale_before_def Let_def)
qed

lemma commit_inv: "reasm_inv r \<Longrightarrow> reasm_inv (fst (commit_authenticated_frame r fid))"
proof -
  assume r: "reasm_inv r"
  let ?r = "r\<lparr>last_authenticated_frame_id := Some fid\<rparr>"
  have "bt_invar (frames ?r)" using r by (simp add: reasm_inv_def)
  note P = prune_stale_before_get [OF this, of fid]
  have sel: "max_in_flight (prune_stale_before fid ?r) = max_in_flight r"
    "max_frame_bytes (prune_stale_before fid ?r) = max_frame_bytes r"
    "last_authenticated_frame_id (prune_stale_before fid ?r) = Some fid"
    by (simp_all add: prune_stale_before_def Let_def)
  have "reasm_inv (prune_stale_before fid ?r)"
    by (rule reasm_invI [OF P(1)])
       (use P(2,3) reasm_invD(2,3) [OF r] sel in
         \<open>auto split: if_splits intro: reasm_invD(4-5) [OF r] dest: order_trans\<close>)
  with r show ?thesis
    by (auto simp: commit_authenticated_frame_def split: option.splits)
qed

section \<open>What a packet delivers\<close>

lemma length_assemble [simp]:
  "length (af_payload (assemble f)) = slot_bytes (packets f)" "assembled_len (assemble f) = slot_bytes (packets f)"
  "frame_id (af_header (assemble f)) = frame_id (base_header f)"
  by (simp_all add: assemble_def slot_bytes_def Let_def)

lemma process_packet_delivers:
  assumes "reasm_inv r" "snd (process_packet r header payload) = Ok (Some af)"
  shows "frame_id (af_header af) = frame_id header"
    and "last_authenticated_frame_id r = Some lst \<Longrightarrow> lst < frame_id header"
    and "length (af_payload af) \<le> max_frame_bytes r" and "assembled_len af = length (af_payload af)"
proof -
  let ?fid = "frame_id header"
  let ?f = "entry_or_insert header (evict_oldest r ?fid)"
  have ck: "check_fragment header payload = Ok ()"
    using assms(2) by (auto simp: process_packet_def split: result.splits)
  show "last_authenticated_frame_id r = Some lst \<Longrightarrow> lst < ?fid"
    using assms(2) ck by (auto simp: process_packet_def not_le split: if_splits)
  have "frame_id (af_header af) = ?fid \<and> length (af_payload af) \<le> max_frame_bytes r
      \<and> assembled_len af = length (af_payload af)"
  proof (cases "packet_count header = 1")
    case True
    with assms(2) ck show ?thesis
      by (auto simp: process_packet_def not_less split: if_splits option.splits)
  next
    case False
    then obtain f' where f': "consistent_fragment ?f header"
        "store_fragment (max_frame_bytes r) ?f (unat (packet_id header)) payload = Some f'" "af = assemble f'"
      using assms(2) ck by (auto simp: process_packet_def Let_def split: if_splits option.splits)
    have "in_flight_ok (max_frame_bytes r) ?fid f'"
      using store_fragment_ok [OF _ consistent_fragment_idx [OF ck f'(1)] f'(2)]
        entry_or_insert_ok [OF assms(1) ck False] by blast
    then show ?thesis
      by (simp add: f'(3) in_flight_ok_def)
  qed
  then show "frame_id (af_header af) = ?fid" "length (af_payload af) \<le> max_frame_bytes r"
    "assembled_len af = length (af_payload af)" by auto
qed

section \<open>The reassembler under arbitrary input\<close>

datatype reasm_op = Op_Packet VideoPacketHeader bytes | Op_Commit u32

datatype reasm_out = Out_Packet "(AssembledFrame option, ReassemblyError) result" | Out_Commit u32 bool

fun reasm_step :: "VideoFrameReassembler \<Rightarrow> reasm_op \<Rightarrow> VideoFrameReassembler \<times> reasm_out" where
  "reasm_step r (Op_Packet header payload) =
     (case process_packet r header payload of (r', out) \<Rightarrow> (r', Out_Packet out))"
| "reasm_step r (Op_Commit fid) =
     (case commit_authenticated_frame r fid of (r', ok) \<Rightarrow> (r', Out_Commit fid ok))"

definition reasm_rank :: "VideoFrameReassembler \<Rightarrow> nat" where
  "reasm_rank r = (case last_authenticated_frame_id r of None \<Rightarrow> 0 | Some fid \<Rightarrow> Suc (unat fid))"

fun committed :: "reasm_out \<Rightarrow> nat option" where
  "committed (Out_Commit fid ok) = (if ok then Some (unat fid) else None)"
| "committed (Out_Packet out) = None"

definition reasm_cfg :: "nat \<Rightarrow> nat \<Rightarrow> VideoFrameReassembler \<Rightarrow> bool" where
  "reasm_cfg n limit r \<longleftrightarrow> reasm_inv r \<and> max_in_flight r = n \<and> max_frame_bytes r = limit"

lemma process_packet_sel:
  "max_in_flight (fst (process_packet r h p)) = max_in_flight r"
  "max_frame_bytes (fst (process_packet r h p)) = max_frame_bytes r"
  "last_authenticated_frame_id (fst (process_packet r h p)) = last_authenticated_frame_id r"
  by (auto simp: process_packet_def Let_def put_frame_def remove_frame_def split: result.splits option.splits)

lemma commit_sel:
  "max_in_flight (fst (commit_authenticated_frame r fid)) = max_in_flight r"
  "max_frame_bytes (fst (commit_authenticated_frame r fid)) = max_frame_bytes r"
  "last_authenticated_frame_id (fst (commit_authenticated_frame r fid)) =
     (if snd (commit_authenticated_frame r fid) then Some fid else last_authenticated_frame_id r)"
  "snd (commit_authenticated_frame r fid) \<longleftrightarrow> reasm_rank r \<le> unat fid"
  by (auto simp: commit_authenticated_frame_def prune_stale_before_def reasm_rank_def Let_def
      word_le_nat_alt split: option.splits)

interpretation reasm: emitting_machine reasm_step "reasm_cfg n limit" reasm_rank committed
  for n limit
proof unfold_locales
  fix s :: VideoFrameReassembler and op assume s: "reasm_cfg n limit s"
  show "reasm_cfg n limit (fst (reasm_step s op))"
    using s by (cases op)
      (auto simp: reasm_cfg_def process_packet_inv commit_inv process_packet_sel commit_sel case_prod_beta)
  show "reasm_rank s \<le> reasm_rank (fst (reasm_step s op))"
    by (cases op) (auto simp: case_prod_beta reasm_rank_def process_packet_sel commit_sel split: option.splits)
  fix k assume "committed (snd (reasm_step s op)) = Some k"
  then obtain fid where fid: "op = Op_Commit fid" "snd (commit_authenticated_frame s fid)" "k = unat fid"
    by (cases op) (auto simp: case_prod_beta split: if_splits)
  then show "reasm_rank s \<le> k"
    by (simp add: commit_sel)
  show "k < reasm_rank (fst (reasm_step s op))"
    using fid by (simp add: case_prod_beta commit_sel reasm_rank_def [of "fst _"])
qed

lemma reasm_cfg_new: "reasm_cfg (max n 1) limit (VideoFrameReassembler_new n limit)"
  by (simp add: reasm_cfg_def reasm_inv_new) (simp add: VideoFrameReassembler_new_def)

text \<open>The number below which packets are stale is the last one that was committed.\<close>

lemma map_filter_snoc:
  "List.map_filter f (xs @ [x]) = List.map_filter f xs @ (case f x of None \<Rightarrow> [] | Some y \<Rightarrow> [y])"
  by (simp add: List.map_filter_def split: option.splits)

lemma watermark_last:
  "map_option unat (last_authenticated_frame_id (fst (run_ops reasm_step (VideoFrameReassembler_new n limit) ops))) =
     (let numbers = List.map_filter committed (snd (run_ops reasm_step (VideoFrameReassembler_new n limit) ops))
      in if numbers = [] then None else Some (last numbers))"
proof (induction ops rule: rev_induct)
  case (snoc op ops)
  let ?r = "fst (run_ops reasm_step (VideoFrameReassembler_new n limit) ops)"
  show ?case
  proof (cases op)
    case (Op_Packet header payload)
    with snoc show ?thesis
      by (simp add: run_ops_append split_beta Let_def map_filter_snoc process_packet_sel)
  next
    case (Op_Commit fid)
    with snoc show ?thesis
      by (cases "snd (commit_authenticated_frame ?r fid)")
        (simp_all add: run_ops_append split_beta Let_def map_filter_snoc commit_sel(3))
  qed
qed (simp add: VideoFrameReassembler_new_def List.map_filter_simps)

section \<open>Reassembly of the fragments of one frame\<close>

text \<open>
  The frame in flight after the fragments with the indices in \<open>S\<close> have arrived, the first of them
  with header \<open>hdr\<close>.
\<close>

definition partial_frame :: "(VideoPacketHeader \<times> bytes) list \<Rightarrow> VideoPacketHeader \<Rightarrow> nat set \<Rightarrow> InFlightFrame" where
  "partial_frame pkts hdr S =
     (let slots = map (\<lambda>i. if i \<in> S then Some (snd (pkts ! i)) else None) [0..<length pkts]
      in \<lparr>base_header = hdr, packets = slots, received_count = filled slots, total_bytes = slot_bytes slots\<rparr>)"

lemma partial_frame_sel [simp]:
  "length (packets (partial_frame pkts hdr S)) = length pkts"
  "base_header (partial_frame pkts hdr S) = hdr"
  "i < length pkts \<Longrightarrow> packets (partial_frame pkts hdr S) ! i = (if i \<in> S then Some (snd (pkts ! i)) else None)"
  by (simp_all add: partial_frame_def Let_def)

lemma partial_frame_counts:
  "received_count (partial_frame pkts hdr S) = filled (packets (partial_frame pkts hdr S))"
  "total_bytes (partial_frame pkts hdr S) = slot_bytes (packets (partial_frame pkts hdr S))"
  by (simp_all add: partial_frame_def Let_def)

lemma filled_partial: "filled (map (\<lambda>i. if i \<in> S then Some (f i) else None) [0..<n]) = card (S \<inter> {..<n})"
proof -
  have "filter (\<lambda>x. x \<noteq> None) (map (\<lambda>i. if i \<in> S then Some (f i) else None) [0..<n]) =
      map (\<lambda>i. Some (f i)) (filter (\<lambda>i. i \<in> S) [0..<n])"
    by (induction n) simp_all
  moreover have "length (filter (\<lambda>i. i \<in> S) [0..<n]) = card (S \<inter> {..<n})"
    by (simp add: distinct_length_filter lessThan_atLeast0)
  ultimately show ?thesis by (simp add: filled_def)
qed

lemma received_partial: "S \<subseteq> {..<length pkts} \<Longrightarrow> received_count (partial_frame pkts hdr S) = card S"
  by (simp add: partial_frame_def Let_def filled_partial Int_absorb2)

lemma partial_all: "packets (partial_frame pkts hdr {..<length pkts}) = map Some (map snd pkts)"
  by (rule nth_equalityI) simp_all

lemma map_filter_id_Some: "List.map_filter (\<lambda>x. x) (map Some xs) = xs"
  by (induction xs) (simp_all add: List.map_filter_simps)

lemma slot_bytes_mono:
  "slot_bytes (map (\<lambda>i. if i \<in> S then Some (f i) else None) [0..<n]) \<le> length (concat (map f [0..<n]))"
  by (induction n)
     (simp_all add: slot_bytes_def List.map_filter_def)

lemma slot_bytes_partial:
  assumes "fragments base payload pkts"
  shows "slot_bytes (packets (partial_frame pkts hdr S)) \<le> length payload"
proof -
  have "map (\<lambda>i. snd (pkts ! i)) [0..<length pkts] = map snd pkts"
    by (rule nth_equalityI) simp_all
  then show ?thesis
    using slot_bytes_mono [of S "\<lambda>i. snd (pkts ! i)" "length pkts"] assms
    by (simp add: partial_frame_def Let_def fragments_def)
qed

text \<open>One more fragment arrives.\<close>

lemma partial_insert:
  assumes "i < length pkts" "i \<notin> S"
  shows "(packets (partial_frame pkts hdr S))[i := Some (snd (pkts ! i))] = packets (partial_frame pkts hdr (insert i S))"
  using assms by (intro nth_equalityI) (auto simp: nth_list_update)

lemma store_fragment_partial:
  assumes "fragments base payload pkts" "i < length pkts" "length payload \<le> limit"
  shows "store_fragment limit (partial_frame pkts hdr S) i (snd (pkts ! i)) = Some (partial_frame pkts hdr (insert i S))"
proof (cases "i \<in> S")
  case True
  then show ?thesis
    using assms(2) by (simp add: store_fragment_def insert_absorb)
next
  case False
  let ?f = "partial_frame pkts hdr S" and ?g = "partial_frame pkts hdr (insert i S)"
  note upd = partial_insert [OF assms(2) False, of hdr]
  have none: "packets ?f ! i = None" "i < length (packets ?f)"
    using False assms(2) by simp_all
  have t: "total_bytes ?f + length (snd (pkts ! i)) = slot_bytes (packets ?g)"
    using slot_bytes_update [OF none(2,1), of "snd (pkts ! i)"] by (simp add: upd partial_frame_counts)
  have c: "received_count ?f + 1 = filled (packets ?g)"
    using filled_update [OF none(2,1), of "snd (pkts ! i)"] by (simp add: upd partial_frame_counts)
  have "?f\<lparr>packets := packets ?g, received_count := filled (packets ?g), total_bytes := slot_bytes (packets ?g)\<rparr> = ?g"
    by (simp add: partial_frame_def Let_def)
  then show ?thesis
    using none t c slot_bytes_partial [OF assms(1), of hdr "insert i S"] assms(3)
    by (simp add: store_fragment_def Let_def upd)
qed

lemma fragments_consistent:
  assumes "fragments base payload pkts" "i < length pkts" "j < length pkts"
  shows "consistent_fragment (partial_frame pkts (fst (pkts ! j)) S) (fst (pkts ! i))"
proof -
  have "fst (pkts ! i) = fragment_of base (length pkts) i (snd (pkts ! i))"
    "fst (pkts ! j) = fragment_of base (length pkts) j (snd (pkts ! j))"
    "length pkts < 2 ^ LENGTH(16)"
    using assms by (auto simp: fragments_def MAX_PACKETS_PER_FRAME_def)
  then show ?thesis
    using fragment_keyframe [of base "length pkts"]
    by (simp add: consistent_fragment_def) (simp add: fragment_of_def unat_of_nat)
qed

definition not_stale :: "VideoFrameReassembler \<Rightarrow> u32 \<Rightarrow> bool" where
  "not_stale r fid \<longleftrightarrow> (case last_authenticated_frame_id r of Some lst \<Rightarrow> lst < fid | None \<Rightarrow> True)"

definition feed ::
  "(VideoPacketHeader \<times> bytes) list \<Rightarrow> VideoFrameReassembler \<Rightarrow> nat
     \<Rightarrow> VideoFrameReassembler \<times> (AssembledFrame option, ReassemblyError) result" where
  "feed pkts r i = process_packet r (fst (pkts ! i)) (snd (pkts ! i))"

lemma fragments_frame_id:
  "\<lbrakk>fragments base payload pkts; i < length pkts\<rbrakk> \<Longrightarrow> frame_id (fst (pkts ! i)) = frame_id base"
  by (simp add: fragments_def fragment_of_def)

lemma fragments_packet_index:
  assumes "fragments base payload pkts" "i < length pkts"
  shows "unat (packet_id (fst (pkts ! i))) = i" "unat (packet_count (fst (pkts ! i))) = length pkts"
  using assms by (auto simp: fragments_def fragment_of_def MAX_PACKETS_PER_FRAME_def unat_of_nat)

lemma feed_step:
  assumes "fragments base payload pkts" "2 \<le> length pkts" "i < length pkts" "j < length pkts"
    and "S \<subseteq> {..<length pkts}" "length payload \<le> max_frame_bytes r" "not_stale r (frame_id base)"
    and "entry_or_insert (fst (pkts ! i)) (evict_oldest r (frame_id base)) = partial_frame pkts (fst (pkts ! j)) S"
  defines "g \<equiv> partial_frame pkts (fst (pkts ! j)) (insert i S)"
  shows "feed pkts r i =
    (if insert i S = {..<length pkts}
     then (remove_frame (frame_id base) (put_frame (frame_id base) g (evict_oldest r (frame_id base))), Ok (Some (assemble g)))
     else (put_frame (frame_id base) g (evict_oldest r (frame_id base)), Ok None))"
proof -
  note fr = assms(1) and i = assms(3)
  have sub: "insert i S \<subseteq> {..<length pkts}" using assms(3,5) by auto
  have full: "received_count g = length (packets g) \<longleftrightarrow> insert i S = {..<length pkts}"
    unfolding g_def received_partial [OF sub] partial_frame_sel(1)
    using card_subset_eq [OF finite_lessThan sub] by (metis card_lessThan)
  have pc: "packet_count (fst (pkts ! i)) = 1 \<longleftrightarrow> False"
    using fragments_packet_index(2) [OF fr i] assms(2) by auto
  note fid = fragments_frame_id [OF fr i]
  have fresh: "(case last_authenticated_frame_id r of Some lst \<Rightarrow> frame_id base \<le> lst | None \<Rightarrow> False) = False"
    using assms(7) by (auto simp: not_stale_def split: option.splits)
  show ?thesis
    unfolding feed_def process_packet_def Let_def fragments_check [OF fr i] result.case fid fresh pc if_False
      assms(8) fragments_packet_index(1) [OF fr i] store_fragment_partial [OF fr i assms(6)] option.case
      g_def [symmetric] full
    using fragments_consistent [OF fr i assms(4), of S] by simp
qed

lemma partial_frame_empty:
  "partial_frame pkts hdr {} =
     \<lparr>base_header = hdr, packets = replicate (length pkts) None, received_count = 0, total_bytes = 0\<rparr>"
proof -
  have "map (\<lambda>i. None) [0..<length pkts] = replicate (length pkts) (None :: bytes option)"
    by (rule nth_equalityI) simp_all
  then show ?thesis by (simp add: partial_frame_def)
qed

lemma feed_sel:
  "max_frame_bytes (fst (feed pkts r i)) = max_frame_bytes r"
  "not_stale (fst (feed pkts r i)) fid = not_stale r fid"
  by (simp_all add: feed_def process_packet_sel not_stale_def)

lemma run_feed_sel:
  "max_frame_bytes (fst (run_ops (feed pkts) r is)) = max_frame_bytes r"
  "not_stale (fst (run_ops (feed pkts) r is)) fid = not_stale r fid"
  by (induction "is" arbitrary: r) (simp_all add: feed_sel del: run_ops.simps(2))

text \<open>The entry that the next fragment finds: empty before the first, partial afterwards.\<close>

lemma next_entry:
  assumes "fragments base payload pkts" "k < length pkts"
    and "if order = [] then bt_get (frames r) (frame_id base) = None
         else bt_get (frames r) (frame_id base) = Some (partial_frame pkts (fst (pkts ! hd order)) (set order))"
  shows "entry_or_insert (fst (pkts ! k)) (evict_oldest r (frame_id base)) =
    partial_frame pkts (fst (pkts ! hd (order @ [k]))) (set order)"
  using assms fragments_frame_id [OF assms(1,2)] fragments_packet_index(2) [OF assms(1,2)]
  by (cases order)
     (simp_all add: entry_or_insert_def evict_oldest_get_same partial_frame_empty)

lemma run_feed_partial:
  assumes "fragments base payload pkts" "2 \<le> length pkts" "bt_invar (frames r)"
    and "bt_get (frames r) (frame_id base) = None"
    and "length payload \<le> max_frame_bytes r" "not_stale r (frame_id base)"
    and "set order \<subset> {..<length pkts}"
  shows "snd (run_ops (feed pkts) r order) = replicate (length order) (Ok None)
    \<and> bt_invar (frames (fst (run_ops (feed pkts) r order)))
    \<and> (if order = [] then bt_get (frames (fst (run_ops (feed pkts) r order))) (frame_id base) = None
       else bt_get (frames (fst (run_ops (feed pkts) r order))) (frame_id base) =
         Some (partial_frame pkts (fst (pkts ! hd order)) (set order)))"
  using assms(7)
proof (induction order rule: rev_induct)
  case (snoc k order)
  let ?r = "fst (run_ops (feed pkts) r order)"
  have sub: "set order \<subset> {..<length pkts}" "set order \<subseteq> {..<length pkts}" and k: "k < length pkts"
    using snoc.prems by auto
  have "hd (order @ [k]) \<in> set (order @ [k])"
    by (rule hd_in_set) simp
  then have hd: "hd (order @ [k]) < length pkts"
    using snoc.prems by blast
  note IH = snoc.IH [OF sub(1)]
  have entry: "entry_or_insert (fst (pkts ! k)) (evict_oldest ?r (frame_id base)) =
      partial_frame pkts (fst (pkts ! hd (order @ [k]))) (set order)"
    using next_entry [OF assms(1) k, of order ?r] IH by blast
  have "feed pkts ?r k = (put_frame (frame_id base)
      (partial_frame pkts (fst (pkts ! hd (order @ [k]))) (insert k (set order))) (evict_oldest ?r (frame_id base)), Ok None)"
    using feed_step [OF assms(1,2) k hd sub(2) _ _ entry] snoc.prems assms(5,6) by (auto simp: run_feed_sel)
  moreover have "bt_invar (frames (evict_oldest ?r (frame_id base)))"
    using IH evict_oldest_invar by blast
  ultimately show ?case
    using IH
    by (simp add: run_ops_append case_prod_beta Let_def put_frame_def bt_get_insert bt_invar_insert
        replicate_append_same)
qed (use assms in simp)

lemma assemble_all:
  assumes "fragments base payload pkts" "j < length pkts"
  shows "af_payload (assemble (partial_frame pkts (fst (pkts ! j)) {..<length pkts})) = payload"
    and "af_header (assemble (partial_frame pkts (fst (pkts ! j)) {..<length pkts})) =
      (fst (pkts ! j))\<lparr>vh_flags := vh_flags base OR (FRAME_START OR FRAME_END)\<rparr>"
proof -
  show "af_payload (assemble (partial_frame pkts (fst (pkts ! j)) {..<length pkts})) = payload"
    using assms(1) by (simp add: assemble_def Let_def partial_all map_filter_id_Some fragments_def del: map_map)
  have "(x OR (if p then FRAME_START else 0) OR (if q then FRAME_END else 0)) OR (FRAME_START OR FRAME_END)
      = x OR (FRAME_START OR FRAME_END)" for x :: u8 and p q
    by (rule bit_word_eqI) (simp add: bit_or_iff, blast)
  then have "vh_flags (fragment_of base n i c) OR (FRAME_START OR FRAME_END) =
      vh_flags base OR (FRAME_START OR FRAME_END)" for n i c
    by (simp add: fragment_of_def)
  moreover have "fst (pkts ! j) = fragment_of base (length pkts) j (snd (pkts ! j))"
    using assms by (simp add: fragments_def)
  ultimately have "vh_flags (fst (pkts ! j)) OR (FRAME_START OR FRAME_END) =
      vh_flags base OR (FRAME_START OR FRAME_END)"
    by metis
  then show "af_header (assemble (partial_frame pkts (fst (pkts ! j)) {..<length pkts})) =
      (fst (pkts ! j))\<lparr>vh_flags := vh_flags base OR (FRAME_START OR FRAME_END)\<rparr>"
    unfolding assemble_def Let_def AssembledFrame.select_convs partial_frame_sel(2) by (rule arg_cong)
qed

text \<open>The fragment that completes the frame.\<close>

lemma feed_last:
  assumes "fragments base payload pkts" "bt_invar (frames r)" "bt_get (frames r) (frame_id base) = None"
    and "length payload \<le> max_frame_bytes r" "not_stale r (frame_id base)"
    and "set order \<union> {k} = {..<length pkts}" "k \<notin> set order"
  shows "snd (run_ops (feed pkts) r order) = replicate (length order) (Ok None)
    \<and> (\<exists>j < length pkts. snd (feed pkts (fst (run_ops (feed pkts) r order)) k) =
         Ok (Some \<lparr>af_header = (fst (pkts ! j))\<lparr>vh_flags := vh_flags base OR (FRAME_START OR FRAME_END)\<rparr>,
                  af_payload = payload, assembled_len = length payload\<rparr>))
    \<and> bt_get (frames (fst (feed pkts (fst (run_ops (feed pkts) r order)) k))) (frame_id base) = None"
proof (cases "length pkts = 1")
  case True
  then have "set order \<union> {k} = {0}" using assms(6) by (simp add: lessThan_Suc)
  then have k0: "k = 0" and "set order \<subseteq> {0}" by blast+
  with assms(7) have "set order = {}" by (metis subset_singletonD insertI1)
  then have "k = 0" "order = []" using k0 by simp_all
  moreover have "fst (pkts ! 0) = fragment_of base 1 0 payload" "snd (pkts ! 0) = payload"
    using assms(1) True by (auto simp: fragments_def length_Suc_conv)
  ultimately show ?thesis
    using fragments_check [OF assms(1), of 0] assms(3,4,5) True
    by (auto simp: feed_def process_packet_def not_stale_def fragment_of_def or.assoc
        split: option.splits intro!: exI [of _ 0])
next
  case False
  have k: "k < length pkts" and sub: "set order \<subset> {..<length pkts}" "set order \<subseteq> {..<length pkts}"
    using assms(6,7) by auto
  then have two: "2 \<le> length pkts" using False by linarith
  let ?r = "fst (run_ops (feed pkts) r order)" and ?j = "hd (order @ [k])"
  have "?j \<in> set (order @ [k])" by (rule hd_in_set) simp
  then have j: "?j < length pkts" using assms(6) by auto
  note R = run_feed_partial [OF assms(1) two assms(2-5) sub(1)]
  have entry: "entry_or_insert (fst (pkts ! k)) (evict_oldest ?r (frame_id base)) =
      partial_frame pkts (fst (pkts ! ?j)) (set order)"
    using next_entry [OF assms(1) k, of order ?r] R by blast
  let ?g = "partial_frame pkts (fst (pkts ! ?j)) {..<length pkts}"
  have step: "feed pkts ?r k = (remove_frame (frame_id base) (put_frame (frame_id base) ?g (evict_oldest ?r (frame_id base))),
      Ok (Some (assemble ?g)))"
    using feed_step [OF assms(1) two k j sub(2) _ _ entry] assms(4-6) by (simp add: run_feed_sel)
  have "assembled_len (assemble ?g) = length payload"
    using assemble_all(1) [OF assms(1) j] by (metis length_assemble(1,2))
  then have "assemble ?g = \<lparr>af_header = (fst (pkts ! ?j))\<lparr>vh_flags := vh_flags base OR (FRAME_START OR FRAME_END)\<rparr>,
      af_payload = payload, assembled_len = length payload\<rparr>"
    using assemble_all [OF assms(1) j] by (intro AssembledFrame.equality) simp_all
  moreover have "bt_get (frames (fst (feed pkts ?r k))) (frame_id base) = None"
    unfolding step using R remove_put_frame(1) [OF evict_oldest_invar] by (metis fst_conv fun_upd_same)
  ultimately show ?thesis
    using R j step by (metis snd_conv)
qed

section \<open>Properties\<close>

text \<open>
  C2: fragmentation round trip.  When a frame has been cut into fragments by the packetizer, the
  reassembler returns the frame whatever the order of arrival and whatever fragments are repeated:
  every packet before the one that completes the set yields nothing, the one that completes it
  yields exactly the payload that was cut, with the frame's identity, timestamp and nonce and both
  boundary flags, and the frame is no longer held.
\<close>

theorem reassembly_any_order:
  assumes "packetize_video_frame base payload chunk_size = Ok pkts"
    and "reasm_inv r" "bt_get (frames r) (frame_id base) = None" "not_stale r (frame_id base)"
    and "length payload \<le> max_frame_bytes r"
    and "set order \<union> {k} = {..<length pkts}" "k \<notin> set order"
  shows "\<exists>af. snd (run_ops (feed pkts) r (order @ [k])) = replicate (length order) (Ok None) @ [Ok (Some af)]
    \<and> af_payload af = payload \<and> assembled_len af = length payload
    \<and> frame_id (af_header af) = frame_id base \<and> stream_id (af_header af) = stream_id base
    \<and> vh_version (af_header af) = vh_version base \<and> timestamp_us (af_header af) = timestamp_us base
    \<and> nonce_sequence (af_header af) = nonce_sequence base
    \<and> vh_flags (af_header af) = vh_flags base OR (FRAME_START OR FRAME_END)
    \<and> bt_get (frames (fst (run_ops (feed pkts) r (order @ [k])))) (frame_id base) = None"
proof -
  have fr: "fragments base payload pkts" by (rule packetize_fragments [OF assms(1)])
  note L = feed_last [OF fr reasm_invD(1) [OF assms(2)] assms(3,5,4,6,7)]
  then obtain j where j: "j < length pkts" "snd (feed pkts (fst (run_ops (feed pkts) r order)) k) =
      Ok (Some \<lparr>af_header = (fst (pkts ! j))\<lparr>vh_flags := vh_flags base OR (FRAME_START OR FRAME_END)\<rparr>,
               af_payload = payload, assembled_len = length payload\<rparr>)" by blast
  have "fst (pkts ! j) = fragment_of base (length pkts) j (snd (pkts ! j))"
    using fr j(1) by (simp add: fragments_def)
  with L j show ?thesis
    by (simp add: run_ops_append case_prod_beta Let_def fragment_of_def)
qed

definition demo_header :: VideoPacketHeader where
  "demo_header = \<lparr>vh_version = 2, vh_flags = 1, stream_id = 3, frame_id = 9, packet_id = 0, packet_count = 0,
     timestamp_us = 77, nonce_sequence = 5, payload_len = 0\<rparr>"

definition demo_packets :: "(VideoPacketHeader \<times> bytes) list" where
  "demo_packets = map (\<lambda>(i, c). (fragment_header demo_header 3 i c, c)) (List.enumerate 0 [[1, 2], [3, 4], [5]])"

lemma demo_packetize: "packetize_video_frame demo_header [1, 2, 3, 4, 5] 2 = Ok demo_packets"
proof -
  have "chunks 2 [1, 2, 3, 4, 5] = [[1, 2], [3, 4], [5 :: u8]]"
    by (simp add: chunks.simps)
  then show ?thesis
    by (simp add: packetize_video_frame_def MAX_PAYLOAD_LEN_def MAX_FRAME_PAYLOAD_SIZE_def
        MAX_PACKETS_PER_FRAME_def demo_packets_def numeral_3_eq_3)
qed

theorem reassembly_any_order_witness:
  "\<exists>af. snd (run_ops (feed demo_packets) (VideoFrameReassembler_new 8 100) ([2, 0, 2] @ [1])) =
      replicate 3 (Ok None) @ [Ok (Some af)] \<and> af_payload af = [1, 2, 3, 4, 5]"
proof -
  have "bt_get (frames (VideoFrameReassembler_new 8 100)) (frame_id demo_header) = None"
    "not_stale (VideoFrameReassembler_new 8 100) (frame_id demo_header)"
    "length [1, 2, 3, 4, 5 :: u8] \<le> max_frame_bytes (VideoFrameReassembler_new 8 100)"
    "set [2, 0, 2] \<union> {1} = {..<length demo_packets}" "1 \<notin> set [2, 0, 2 :: nat]"
    by (auto simp: VideoFrameReassembler_new_def not_stale_def bt_get_def demo_packets_def)
  from reassembly_any_order [OF demo_packetize reasm_inv_new this] show ?thesis
    by (auto simp: numeral_3_eq_3 simp del: append.simps run_ops.simps)
qed

text \<open>
  C9: bounded memory under hostile input.  After any sequence of packets and commits on a new
  reassembler, the number of frames in flight is at most the configured maximum (at least one) and
  the bytes buffered for them are at most that number times the configured frame size.  For every
  frame in flight the byte counter is the number of bytes really held and the packet counter the number
  of slots really filled, so that the limit is enforced on what is held; and the frame still lacks a
  packet and has at most \<open>MAX_PACKETS_PER_FRAME\<close> slots.
\<close>

theorem reassembler_memory_bounded:
  "length (frames (fst (run_ops reasm_step (VideoFrameReassembler_new n limit) ops))) \<le> max n 1
   \<and> sum_list (map (\<lambda>(fid, f). slot_bytes (packets f))
       (frames (fst (run_ops reasm_step (VideoFrameReassembler_new n limit) ops)))) \<le> max n 1 * limit
   \<and> list_all (\<lambda>(fid, f). total_bytes f = slot_bytes (packets f) \<and> received_count f = filled (packets f)
         \<and> total_bytes f \<le> limit \<and> received_count f < length (packets f) \<and> length (packets f) \<le> MAX_PACKETS_PER_FRAME)
       (frames (fst (run_ops reasm_step (VideoFrameReassembler_new n limit) ops)))"
proof -
  let ?r = "fst (run_ops reasm_step (VideoFrameReassembler_new n limit) ops)"
  have cfg: "reasm_cfg (max n 1) limit ?r"
    by (rule reasm.run_inv [OF reasm_cfg_new])
  then have inv: "reasm_inv ?r" "max_in_flight ?r = max n 1" "max_frame_bytes ?r = limit"
    by (simp_all add: reasm_cfg_def)
  have held: "total_bytes f = slot_bytes (packets f)" "received_count f = filled (packets f)" "slot_bytes (packets f) \<le> limit"
      "filled (packets f) < length (packets f)" "length (packets f) \<le> MAX_PACKETS_PER_FRAME" if "(fid, f) \<in> set (frames ?r)" for fid f
    using reasm_invD(4,5) [OF inv(1), of fid f] that inv(3)
    by (simp_all add: bt_get_in_set [OF reasm_invD(1) [OF inv(1)]] in_flight_ok_def)
  then have "sum_list (map (\<lambda>(fid, f). slot_bytes (packets f)) (frames ?r)) \<le> sum_list (map (\<lambda>_. limit) (frames ?r))"
    by (intro sum_list_mono) auto
  also have "\<dots> = length (frames ?r) * limit"
    by (simp add: sum_list_triv)
  also have "\<dots> \<le> max n 1 * limit"
    using reasm_invD(3) [OF inv(1)] inv(2) by simp
  finally show ?thesis
    using reasm_invD(3) [OF inv(1)] inv(2) held by (auto simp: list_all_iff)
qed

text \<open>
  C10: frames are delivered fresh.  After any packets and commits on a new reassembler, the frame numbers
  that were committed as authenticated are strictly increasing and the number below which a packet is stale
  is the last of them, or none if there was none.  No further packet, forged or not, whether it completes
  a frame or not, changes that number; and a packet completes only the frame whose number it carries,
  which is larger than every number committed so far.
\<close>

theorem reassembler_freshness:
  "case run_ops reasm_step (VideoFrameReassembler_new n limit) ops of (r, outs) \<Rightarrow>
     (let numbers = List.map_filter committed outs in
      sorted_wrt (<) numbers
      \<and> map_option unat (last_authenticated_frame_id r) = (if numbers = [] then None else Some (last numbers))
      \<and> (case process_packet r header payload of (r', out) \<Rightarrow>
           last_authenticated_frame_id r' = last_authenticated_frame_id r
           \<and> (case out of
                Ok (Some af) \<Rightarrow> frame_id (af_header af) = frame_id header \<and> list_all (\<lambda>k. k < unat (frame_id header)) numbers
              | _ \<Rightarrow> True)))"
proof -
  define r where "r = fst (run_ops reasm_step (VideoFrameReassembler_new n limit) ops)"
  define numbers where "numbers = List.map_filter committed (snd (run_ops reasm_step (VideoFrameReassembler_new n limit) ops))"
  have inv: "reasm_inv r"
    using reasm.run_inv [OF reasm_cfg_new] by (simp add: reasm_cfg_def r_def)
  have "reasm_rank r \<le> unat (frame_id header)" if "snd (process_packet r header payload) = Ok (Some af)" for af
    using process_packet_delivers(2) [OF inv that] by (auto simp: reasm_rank_def word_less_nat_alt split: option.splits)
  moreover have "k < reasm_rank r" if "k \<in> set numbers" for k
    using reasm.emitted_lt_rank [OF reasm_cfg_new, of _ n limit ops] that by (auto simp: numbers_def r_def)
  ultimately have "case snd (process_packet r header payload) of
      Ok (Some af) \<Rightarrow> frame_id (af_header af) = frame_id header \<and> list_all (\<lambda>k. k < unat (frame_id header)) numbers
    | _ \<Rightarrow> True"
    using process_packet_delivers(1) [OF inv, of header payload]
    by (auto simp: list_all_iff split: result.splits option.splits intro: less_le_trans)
  moreover have "sorted_wrt (<) numbers"
    using reasm.emitted_strictly_increasing [OF reasm_cfg_new, of n limit ops] by (simp add: numbers_def)
  ultimately show ?thesis
    using watermark_last [of n limit ops]
    by (simp only: split_beta Let_def process_packet_sel r_def [symmetric] numbers_def [symmetric])
qed

text \<open>A commit of frame 5, a packet that is stale, and one that completes frame 9.\<close>

theorem reassembler_freshness_witness:
  "case run_ops reasm_step (VideoFrameReassembler_new 8 100) [Op_Commit 5] of (r, outs) \<Rightarrow>
     last_authenticated_frame_id (fst (process_packet r (fragment_header (demo_header\<lparr>frame_id := 5\<rparr>) 1 0 [42]) [42])) = Some 5
     \<and> snd (process_packet r (fragment_header (demo_header\<lparr>frame_id := 5\<rparr>) 1 0 [42]) [42]) = Ok None
     \<and> snd (process_packet r (fragment_header demo_header 1 0 [42]) [42]) \<noteq> Ok None
     \<and> list_all (\<lambda>k. k < unat (frame_id demo_header)) (List.map_filter committed outs)"
  using reassembler_freshness [where n = 8 and limit = 100 and ops = "[Op_Commit 5]" and header = "fragment_header (demo_header\<lparr>frame_id := 5\<rparr>) 1 0 [42]" and payload = "[42]"]
    reassembler_freshness [where n = 8 and limit = 100 and ops = "[Op_Commit 5]" and header = "fragment_header demo_header 1 0 [42]" and payload = "[42]"]
  by (simp add: commit_authenticated_frame_def VideoFrameReassembler_new_def prune_stale_before_def List.map_filter_simps
      process_packet_def check_fragment_def fragment_header_def demo_header_def MAX_PACKETS_PER_FRAME_def
      FRAME_START_def FRAME_END_def)

text \<open>
  What the packetizer emits.  The fragments of a frame, in order, concatenate to the payload;
  there are at most \<open>MAX_PACKETS_PER_FRAME\<close> of them; and each one is accepted by the datagram encoder,
  decodes to itself, and passes the checks of the reassembler.
\<close>

theorem packetizer_fragments_valid:
  assumes "packetize_video_frame base payload chunk_size = Ok pkts" "vh_version base = CURRENT_VERSION"
  shows "concat (map snd pkts) = payload \<and> pkts \<noteq> [] \<and> length pkts \<le> MAX_PACKETS_PER_FRAME
    \<and> (\<forall>i < length pkts. \<exists>dgram.
         encode_video_datagram (fst (pkts ! i)) (snd (pkts ! i)) = Ok dgram
         \<and> length dgram \<le> HEADER_LEN + MAX_PAYLOAD_LEN
         \<and> decode_video_datagram dgram = Ok (pkts ! i)
         \<and> check_fragment (fst (pkts ! i)) (snd (pkts ! i)) = Ok ())"
proof -
  have fr: "fragments base payload pkts" by (rule packetize_fragments [OF assms(1)])
  have "\<exists>dgram. encode_video_datagram (fst (pkts ! i)) (snd (pkts ! i)) = Ok dgram
         \<and> length dgram \<le> HEADER_LEN + MAX_PAYLOAD_LEN \<and> decode_video_datagram dgram = Ok (pkts ! i)
         \<and> check_fragment (fst (pkts ! i)) (snd (pkts ! i)) = Ok ()" if i: "i < length pkts" for i
  proof -
    let ?h = "fst (pkts ! i)" and ?p = "snd (pkts ! i)"
    have ck: "check_fragment ?h ?p = Ok ()" by (rule fragments_check [OF fr i])
    then have len: "unat (payload_len ?h) = length ?p"
      by (auto simp: check_fragment_def split: if_splits)
    have le: "length ?p \<le> MAX_PAYLOAD_LEN" and v: "vh_version ?h = CURRENT_VERSION"
      using fr i assms(2) by (simp_all add: fragments_def fragment_of_def)
    have "decode (encode ?h ?p []) = Ok (?h, ?p)"
      using decode_encode [of ?h ?p "[]"] len le v by (simp add: packet_ok_def)
    then show ?thesis
      using len le ck
      by (auto simp: encode_video_datagram_def decode_video_datagram_def Let_def encode_def
          MAX_VIDEO_DATAGRAM_SIZE_def HEADER_LEN_def MAX_PAYLOAD_LEN_def)
  qed
  with fr show ?thesis by (auto simp: fragments_def)
qed

theorem packetizer_fragments_valid_witness:
  "concat (map snd demo_packets) = [1, 2, 3, 4, 5] \<and> length demo_packets \<le> MAX_PACKETS_PER_FRAME"
  using packetizer_fragments_valid [OF demo_packetize] by (simp add: demo_header_def CURRENT_VERSION_def)

end
