(* ===== verification/Transport_Control.thy ===== *)
theory Transport_Control
  imports Nexus_Prelude
begin

text \<open>
  \<open>crates/nexus-transport/src/control.rs\<close>: length-prefixed control messages and the typed envelope of
  the cursor channel.  The Protobuf codec of a message is generated code: \<open>proto_encode\<close> and
  \<open>proto_decode\<close> are arguments.
\<close>

definition MAX_CONTROL_MESSAGE_SIZE :: nat where "MAX_CONTROL_MESSAGE_SIZE = 64 * 1024"
definition CONTROL_FRAME_PREFIX_SIZE :: nat where "CONTROL_FRAME_PREFIX_SIZE = 4"
definition CONTROL_KIND_PREFIX_SIZE :: nat where "CONTROL_KIND_PREFIX_SIZE = 1"

datatype ControlMessageKind = Kind_CursorPosition | Kind_CursorShape

datatype 'd ControlMessageError =
    Ctl_TooLarge nat nat                    \<comment> \<open>\<open>actual\<close>, \<open>limit\<close>\<close>
  | Ctl_Decode 'd
  | Ctl_TruncatedFrame
  | Ctl_UnknownKind u8

fun kind_byte :: "ControlMessageKind \<Rightarrow> u8" where
  "kind_byte Kind_CursorPosition = 1"
| "kind_byte Kind_CursorShape = 2"

definition ControlMessageKind_try_from :: "u8 \<Rightarrow> (ControlMessageKind, 'd ControlMessageError) result" where
  "ControlMessageKind_try_from value0 =
     (if value0 = 1 then Ok Kind_CursorPosition
      else if value0 = 2 then Ok Kind_CursorShape
      else Err (Ctl_UnknownKind value0))"

definition encode_control :: "('m \<Rightarrow> bytes) \<Rightarrow> 'm \<Rightarrow> (bytes, 'd ControlMessageError) result" where
  "encode_control proto_encode message =
     (let size = length (proto_encode message) in
      if size > MAX_CONTROL_MESSAGE_SIZE then Err (Ctl_TooLarge size MAX_CONTROL_MESSAGE_SIZE)
      else Ok (proto_encode message))"

definition decode_control ::
  "(bytes \<Rightarrow> ('m, 'd) result) \<Rightarrow> bytes \<Rightarrow> ('m, 'd ControlMessageError) result" where
  "decode_control proto_decode bs =
     (if length bs > MAX_CONTROL_MESSAGE_SIZE then
        Err (Ctl_TooLarge (length bs) MAX_CONTROL_MESSAGE_SIZE)
      else map_err Ctl_Decode (proto_decode bs))"

definition encode_framed_control :: "('m \<Rightarrow> bytes) \<Rightarrow> 'm \<Rightarrow> (bytes, 'd ControlMessageError) result" where
  "encode_framed_control proto_encode message =
     and_then (encode_control proto_encode message) (\<lambda>payload.
       let len = (of_nat (length payload) :: u32) in
       Ok (to_be 4 len @ payload))"

definition decode_framed_control ::
  "(bytes \<Rightarrow> ('m, 'd) result) \<Rightarrow> bytes \<Rightarrow> ('m, 'd ControlMessageError) result" where
  "decode_framed_control proto_decode bs =
     (if length bs < CONTROL_FRAME_PREFIX_SIZE then Err Ctl_TruncatedFrame
      else
        (let declared = unat (from_be (take CONTROL_FRAME_PREFIX_SIZE bs) :: u32) in
         if declared > MAX_CONTROL_MESSAGE_SIZE then Err (Ctl_TooLarge declared MAX_CONTROL_MESSAGE_SIZE)
         else if length bs \<noteq> CONTROL_FRAME_PREFIX_SIZE + declared then Err Ctl_TruncatedFrame
         else decode_control proto_decode (drop CONTROL_FRAME_PREFIX_SIZE bs)))"

definition encode_framed_control_envelope ::
  "('m \<Rightarrow> bytes) \<Rightarrow> ControlMessageKind \<Rightarrow> 'm \<Rightarrow> (bytes, 'd ControlMessageError) result" where
  "encode_framed_control_envelope proto_encode kind message =
     and_then (encode_control proto_encode message) (\<lambda>payload.
       let declared = CONTROL_KIND_PREFIX_SIZE + length payload in
       if declared > usize_max then Err (Ctl_TooLarge usize_max MAX_CONTROL_MESSAGE_SIZE)
       else if declared > MAX_CONTROL_MESSAGE_SIZE then Err (Ctl_TooLarge declared MAX_CONTROL_MESSAGE_SIZE)
       else Ok (to_be 4 (of_nat declared :: u32) @ [kind_byte kind] @ payload))"

definition decode_framed_control_envelope ::
  "bytes \<Rightarrow> (ControlMessageKind \<times> bytes, 'd ControlMessageError) result" where
  "decode_framed_control_envelope bs =
     (if length bs < CONTROL_FRAME_PREFIX_SIZE + CONTROL_KIND_PREFIX_SIZE then Err Ctl_TruncatedFrame
      else
        (let declared = unat (from_be (take CONTROL_FRAME_PREFIX_SIZE bs) :: u32) in
         if declared > MAX_CONTROL_MESSAGE_SIZE then Err (Ctl_TooLarge declared MAX_CONTROL_MESSAGE_SIZE)
         else if length bs \<noteq> CONTROL_FRAME_PREFIX_SIZE + declared \<or> declared < CONTROL_KIND_PREFIX_SIZE
           then Err Ctl_TruncatedFrame
         else
           (let payload = drop CONTROL_FRAME_PREFIX_SIZE bs in
            and_then (ControlMessageKind_try_from (payload ! 0))
              (\<lambda>kind. Ok (kind, drop CONTROL_KIND_PREFIX_SIZE payload)))))"

section \<open>Laws\<close>

lemmas control_sizes = MAX_CONTROL_MESSAGE_SIZE_def CONTROL_FRAME_PREFIX_SIZE_def CONTROL_KIND_PREFIX_SIZE_def

lemma try_from_kind_byte [simp]: "ControlMessageKind_try_from (kind_byte k) = Ok k"
  by (cases k) (simp_all add: ControlMessageKind_try_from_def)

lemma try_from_Ok [res_simps]: "ControlMessageKind_try_from b = Ok k \<longleftrightarrow> b = kind_byte k"
  by (cases k) (auto simp: ControlMessageKind_try_from_def)

lemma length_prefix_round_trip:
  assumes "n \<le> MAX_CONTROL_MESSAGE_SIZE"
  shows "unat (of_nat n :: u32) = n"
  using assms by (simp add: unat_of_nat control_sizes)

lemma decode_encode_framed_control:
  assumes "encode_framed_control proto_encode m = (Ok bs :: (bytes, 'd ControlMessageError) result)"
    and "proto_decode (proto_encode m) = (Ok m :: ('m, 'd) result)"
  shows "decode_framed_control proto_decode bs = Ok m"
proof -
  have len: "length (proto_encode m) \<le> MAX_CONTROL_MESSAGE_SIZE"
    and bs: "bs = to_be 4 (of_nat (length (proto_encode m)) :: u32) @ proto_encode m"
    using assms(1) by (auto simp: encode_framed_control_def encode_control_def res_simps Let_def split: if_splits)
  have "take CONTROL_FRAME_PREFIX_SIZE bs = to_be 4 (of_nat (length (proto_encode m)) :: u32)"
    "drop CONTROL_FRAME_PREFIX_SIZE bs = proto_encode m" "length bs = CONTROL_FRAME_PREFIX_SIZE + length (proto_encode m)"
    by (simp_all add: bs CONTROL_FRAME_PREFIX_SIZE_def del: to_be_numeral)
  then show ?thesis
    using len assms(2)
    by (simp add: decode_framed_control_def decode_control_def length_prefix_round_trip Let_def del: to_be_numeral)
qed

lemma decode_encode_envelope:
  assumes "encode_framed_control_envelope proto_encode k m = (Ok bs :: (bytes, 'd ControlMessageError) result)"
  shows "decode_framed_control_envelope bs = (Ok (k, proto_encode m) :: (_, 'd ControlMessageError) result)"
proof -
  let ?n = "Suc (length (proto_encode m))"
  have len: "?n \<le> MAX_CONTROL_MESSAGE_SIZE" and bs: "bs = to_be 4 (of_nat ?n :: u32) @ kind_byte k # proto_encode m"
    using assms by (auto simp: encode_framed_control_envelope_def encode_control_def res_simps Let_def
        CONTROL_KIND_PREFIX_SIZE_def split: if_splits)
  have "take CONTROL_FRAME_PREFIX_SIZE bs = to_be 4 (of_nat ?n :: u32)"
    "drop CONTROL_FRAME_PREFIX_SIZE bs = kind_byte k # proto_encode m" "length bs = CONTROL_FRAME_PREFIX_SIZE + ?n"
    by (simp_all add: bs CONTROL_FRAME_PREFIX_SIZE_def del: to_be_numeral)
  then show ?thesis
    using len
    by (simp add: decode_framed_control_envelope_def length_prefix_round_trip Let_def CONTROL_KIND_PREFIX_SIZE_def
        del: to_be_numeral of_nat_Suc)
qed

section \<open>Properties\<close>

text \<open>
  Control framing round trip.  Provided the message codec decodes what it encodes, a framed
  control message decodes to the message, and a typed envelope to its kind and payload; the two
  encoders refuse exactly the messages whose declared size would exceed the limit.
\<close>

theorem control_framing_round_trip:
  assumes "proto_decode (proto_encode m) = (Ok m :: ('m, 'd) result)"
  shows "(case (encode_framed_control proto_encode m :: (bytes, 'd ControlMessageError) result) of
            Ok bs \<Rightarrow> decode_framed_control proto_decode bs = Ok m
          | Err e \<Rightarrow> length (proto_encode m) > MAX_CONTROL_MESSAGE_SIZE)
    \<and> (case (encode_framed_control_envelope proto_encode k m :: (bytes, 'd ControlMessageError) result) of
            Ok bs \<Rightarrow> decode_framed_control_envelope bs =
                       (Ok (k, proto_encode m) :: (_, 'd ControlMessageError) result)
          | Err e \<Rightarrow> length (proto_encode m) + 1 > MAX_CONTROL_MESSAGE_SIZE)"
proof (intro conjI)
  show "case (encode_framed_control proto_encode m :: (bytes, 'd ControlMessageError) result) of
            Ok bs \<Rightarrow> decode_framed_control proto_decode bs = Ok m
          | Err e \<Rightarrow> length (proto_encode m) > MAX_CONTROL_MESSAGE_SIZE"
    using decode_encode_framed_control [of proto_encode m _ proto_decode] assms
    by (auto simp: encode_framed_control_def encode_control_def Let_def split: result.split)
  show "case (encode_framed_control_envelope proto_encode k m :: (bytes, 'd ControlMessageError) result) of
            Ok bs \<Rightarrow> decode_framed_control_envelope bs =
                       (Ok (k, proto_encode m) :: (_, 'd ControlMessageError) result)
          | Err e \<Rightarrow> length (proto_encode m) + 1 > MAX_CONTROL_MESSAGE_SIZE"
    using decode_encode_envelope [of proto_encode k m]
    by (auto simp: encode_framed_control_envelope_def encode_control_def Let_def control_sizes split: result.split)
qed

theorem control_framing_round_trip_witness:
  "decode_framed_control (\<lambda>bs. Ok bs) [0, 0, 0, 2, 7, 8] = (Ok [7, 8] :: (_, unit ControlMessageError) result)"
  using control_framing_round_trip [of "\<lambda>bs. Ok bs :: (bytes, unit) result" "\<lambda>bs. bs" "[7, 8]" Kind_CursorShape]
  by (simp add: encode_framed_control_def encode_control_def control_sizes)

end
