(* ===== verification/Auth_Replay.thy ===== *)
theory Auth_Replay
  imports Nexus_Maps Rust_Std
begin

text \<open>
  \<open>crates/nexus-auth/src/replay.rs\<close>: the bounded cache of recently seen nonces, and the contract of a
  component that accepts a value at most once.
\<close>

section \<open>The contract of a guard that grants a key once\<close>

text \<open>
  A guard answers queries, and some answers grant a key.  Over the admissible queries it remembers every
  key it grants, so that it grants no key twice.
\<close>

definition granted :: "('q \<Rightarrow> 'out \<Rightarrow> 'k option) \<Rightarrow> 'q list \<Rightarrow> 'out list \<Rightarrow> 'k list" where
  "granted grants qs outs = List.map_filter (\<lambda>(q, out). grants q out) (zip qs outs)"

lemma granted_simps [simp]:
  "granted g [] outs = []"
  "granted g (q # qs) (out # outs) = (case g q out of None \<Rightarrow> granted g qs outs | Some k \<Rightarrow> k # granted g qs outs)"
  by (simp_all add: granted_def List.map_filter_simps split: option.splits)

locale once_guard =
  fixes step :: "'s \<Rightarrow> 'q \<Rightarrow> 's \<times> 'out"
    and grants :: "'q \<Rightarrow> 'out \<Rightarrow> 'k option"
    and seen :: "'s \<Rightarrow> 'k set"
    and ok :: "'q \<Rightarrow> bool"
    and inv :: "'s \<Rightarrow> bool"
  assumes guard_inv: "\<lbrakk>inv s; ok q\<rbrakk> \<Longrightarrow> inv (fst (step s q))"
    and grant_fresh: "\<lbrakk>inv s; ok q; grants q (snd (step s q)) = Some k\<rbrakk> \<Longrightarrow> k \<notin> seen s"
    and grant_seen: "\<lbrakk>inv s; ok q; grants q (snd (step s q)) = Some k\<rbrakk> \<Longrightarrow> k \<in> seen (fst (step s q))"
    and grant_mono: "\<lbrakk>inv s; ok q\<rbrakk> \<Longrightarrow> seen s \<subseteq> seen (fst (step s q))"
begin

lemma granted_unseen:
  assumes "inv s" "list_all ok qs"
  shows "set (granted grants qs (snd (run_ops step s qs))) \<inter> seen s = {}"
  using assms
proof (induction qs arbitrary: s)
  case (Cons q qs)
  then have q: "inv s" "ok q" and qs: "list_all ok qs" by simp_all
  have "seen s \<subseteq> seen (fst (step s q))"
    by (rule grant_mono [OF q])
  with Cons.IH [OF guard_inv [OF q] qs] grant_fresh [OF q] show ?case
    by (auto simp del: run_ops.simps(2) split: option.splits)
qed simp

theorem granted_once:
  assumes "inv s" "list_all ok qs"
  shows "distinct (granted grants qs (snd (run_ops step s qs)))"
  using assms
proof (induction qs arbitrary: s)
  case (Cons q qs)
  then have q: "inv s" "ok q" and qs: "list_all ok qs" by simp_all
  note inv' = guard_inv [OF q]
  have "k \<notin> set (granted grants qs (snd (run_ops step (fst (step s q)) qs)))"
    if "grants q (snd (step s q)) = Some k" for k
    using granted_unseen [OF inv' qs] grant_seen [OF q that] by blast
  with Cons.IH [OF inv' qs] show ?case
    by (auto simp del: run_ops.simps(2) split: option.splits)
qed simp

end

text \<open>A replay guard: the answer is whether the query is accepted, and its key is then granted.\<close>

definition accepted :: "'q list \<Rightarrow> bool list \<Rightarrow> 'q list" where
  "accepted qs outs = map fst (filter snd (zip qs outs))"

lemma accepted_Cons [simp]:
  "accepted (q # qs) (b # outs) = (if b then q # accepted qs outs else accepted qs outs)"
  "accepted [] outs = []"
  by (simp_all add: accepted_def)

lemma map_accepted: "length outs = length qs \<Longrightarrow> map key (accepted qs outs) = granted (\<lambda>q b. if b then Some (key q) else None) qs outs"
proof (induction qs arbitrary: outs)
  case (Cons q qs)
  then show ?case by (cases outs) auto
qed simp

locale replay_guard =
  fixes acc :: "'s \<Rightarrow> 'q \<Rightarrow> 's \<times> bool"
    and key :: "'q \<Rightarrow> 'k"
    and seen :: "'s \<Rightarrow> 'k set"
    and ok :: "'q \<Rightarrow> bool"
    and inv :: "'s \<Rightarrow> bool"
  assumes acc_inv: "\<lbrakk>inv s; ok q\<rbrakk> \<Longrightarrow> inv (fst (acc s q))"
    and acc_fresh: "\<lbrakk>inv s; ok q; snd (acc s q)\<rbrakk> \<Longrightarrow> key q \<notin> seen s"
    and acc_seen: "\<lbrakk>inv s; ok q; snd (acc s q)\<rbrakk> \<Longrightarrow> key q \<in> seen (fst (acc s q))"
    and seen_mono: "\<lbrakk>inv s; ok q\<rbrakk> \<Longrightarrow> seen s \<subseteq> seen (fst (acc s q))"

sublocale replay_guard \<subseteq> once_guard acc "\<lambda>q b. if b then Some (key q) else None" seen ok inv
  by unfold_locales (auto simp: acc_inv dest: acc_fresh acc_seen seen_mono [THEN subsetD] split: if_splits)

context replay_guard begin

theorem accepted_once:
  "\<lbrakk>inv s; list_all ok qs\<rbrakk> \<Longrightarrow> distinct (map key (accepted qs (snd (run_ops acc s qs))))"
  by (simp only: map_accepted length_run_ops granted_once)

end

section \<open>\<open>NonceReplayCache\<close>\<close>

record NonceReplayCache =
  rc_entries :: "(bytes, Instant) hashmap"
  rc_ttl :: Duration
  rc_capacity :: nat

definition NonceReplayCache_new :: "Duration \<Rightarrow> nat \<Rightarrow> NonceReplayCache" where
  "NonceReplayCache_new ttl capacity =
     \<lparr>rc_entries = [], rc_ttl = ttl, rc_capacity = max capacity 1\<rparr>"

definition rc_prune :: "NonceReplayCache \<Rightarrow> Instant \<Rightarrow> NonceReplayCache" where
  "rc_prune c now = c\<lparr>rc_entries := hm_retain (\<lambda>_ seen. now - seen < rc_ttl c) (rc_entries c)\<rparr>"

definition rc_accept :: "NonceReplayCache \<Rightarrow> bytes \<Rightarrow> Instant \<Rightarrow> NonceReplayCache \<times> bool" where
  "rc_accept c0 nonce now =
     (let c = rc_prune c0 now in
      if hm_contains (rc_entries c) nonce then (c, False)
      else if length (rc_entries c) \<ge> rc_capacity c then (c, False)
      else (c\<lparr>rc_entries := hm_insert nonce now (rc_entries c)\<rparr>, True))"

section \<open>Laws\<close>

definition rc_inv :: "NonceReplayCache \<Rightarrow> bool" where
  "rc_inv c \<longleftrightarrow> hm_invar (rc_entries c) \<and> length (rc_entries c) \<le> rc_capacity c \<and> 1 \<le> rc_capacity c"

lemma rc_inv_new: "rc_inv (NonceReplayCache_new ttl n)"
  by (simp add: rc_inv_def NonceReplayCache_new_def hm.invar_empty)

lemma rc_prune_sel [simp]: "rc_ttl (rc_prune c now) = rc_ttl c" "rc_capacity (rc_prune c now) = rc_capacity c"
  by (simp_all add: rc_prune_def)

lemma rc_prune_inv: "rc_inv c \<Longrightarrow> rc_inv (rc_prune c now)"
  using hm_len_retain [of _ "rc_entries c"]
  by (auto simp: rc_inv_def rc_prune_def hm_invar_retain intro: order_trans)

lemma rc_prune_get:
  "rc_inv c \<Longrightarrow> hm_get (rc_entries (rc_prune c now)) n =
     (case hm_get (rc_entries c) n of Some t \<Rightarrow> if now - t < rc_ttl c then Some t else None | None \<Rightarrow> None)"
  by (simp add: rc_inv_def rc_prune_def hm_get_retain)

lemma rc_accept_sel [simp]:
  "rc_ttl (fst (rc_accept c n now)) = rc_ttl c" "rc_capacity (fst (rc_accept c n now)) = rc_capacity c"
  by (simp_all add: rc_accept_def Let_def)

lemma rc_accept_inv: "rc_inv c \<Longrightarrow> rc_inv (fst (rc_accept c nonce now))"
proof -
  assume "rc_inv c"
  then have p: "rc_inv (rc_prune c now)" by (rule rc_prune_inv)
  then have "hm_invar (rc_entries (rc_prune c now))" by (simp add: rc_inv_def)
  note I = hm_invar_insert [OF this, of nonce now] hm.len_insert [OF this, of nonce now]
  show ?thesis
    using p I by (auto simp: rc_accept_def Let_def rc_inv_def split: if_splits)
qed

text \<open>A live entry: one whose age is below the time to live.\<close>

lemma rc_accept_iff:
  assumes "rc_inv c"
  shows "snd (rc_accept c nonce now) \<longleftrightarrow>
    (\<forall>t. hm_get (rc_entries c) nonce = Some t \<longrightarrow> rc_ttl c \<le> now - t)
    \<and> length (filter (\<lambda>(n, t). now - t < rc_ttl c) (rc_entries c)) < rc_capacity c"
  using rc_prune_get [OF assms, of now nonce]
  by (auto simp: rc_accept_def Let_def hm_contains_def hm_retain_def rc_prune_def split: option.splits if_splits)

text \<open>The keys a cache remembers throughout the window of one time to live that starts at \<open>t0\<close>.\<close>

definition rc_seen_since :: "Instant \<Rightarrow> NonceReplayCache \<Rightarrow> bytes set" where
  "rc_seen_since t0 c = {n. \<exists>t. hm_get (rc_entries c) n = Some t \<and> t0 \<le> t}"

lemma rc_accept_get:
  assumes "rc_inv c"
  shows "hm_get (rc_entries (fst (rc_accept c nonce now))) =
    (if snd (rc_accept c nonce now) then (hm_get (rc_entries (rc_prune c now)))(nonce \<mapsto> now)
     else hm_get (rc_entries (rc_prune c now)))"
  by (simp add: rc_accept_def Let_def hm_get_insert)

lemma rc_accept_guard:
  assumes "rc_inv c" "t0 \<le> now" "now < t0 + rc_ttl c"
  shows "snd (rc_accept c nonce now) \<Longrightarrow> nonce \<notin> rc_seen_since t0 c"
    and "snd (rc_accept c nonce now) \<Longrightarrow> nonce \<in> rc_seen_since t0 (fst (rc_accept c nonce now))"
    and "rc_seen_since t0 c \<subseteq> rc_seen_since t0 (fst (rc_accept c nonce now))"
proof -
  have live: "now - t < rc_ttl c" if "t0 \<le> t" for t using assms(2,3) that by linarith
  show "snd (rc_accept c nonce now) \<Longrightarrow> nonce \<notin> rc_seen_since t0 c"
    using live by (fastforce simp: rc_accept_iff [OF assms(1)] rc_seen_since_def)
  show "snd (rc_accept c nonce now) \<Longrightarrow> nonce \<in> rc_seen_since t0 (fst (rc_accept c nonce now))"
    using assms(2) by (simp add: rc_seen_since_def rc_accept_get [OF assms(1)])
  show "rc_seen_since t0 c \<subseteq> rc_seen_since t0 (fst (rc_accept c nonce now))"
    using live assms(2) by (auto simp: rc_seen_since_def rc_accept_get [OF assms(1)] rc_prune_get [OF assms(1)])
qed

definition rc_step :: "NonceReplayCache \<Rightarrow> bytes \<times> Instant \<Rightarrow> NonceReplayCache \<times> bool" where
  "rc_step c q = rc_accept c (fst q) (snd q)"

interpretation rc: replay_guard rc_step fst "rc_seen_since t0" "\<lambda>(n, now). t0 \<le> now \<and> now < t0 + ttl"
    "\<lambda>c. rc_inv c \<and> rc_ttl c = ttl"
  for t0 :: Instant and ttl :: Duration
  by unfold_locales
    (auto simp: rc_step_def rc_accept_inv dest: rc_accept_guard(1,2) [where ?t0.0 = t0]
      intro: rc_accept_guard(3) [THEN subsetD])

section \<open>Properties\<close>

text \<open>
  A nonce is accepted at most once in any window of one time to live.  After any history of calls, for
  any sequence of calls whose instants all lie in a window of length \<open>ttl\<close>, in whatever order, the nonces
  of the calls that were accepted are pairwise different; and the cache never holds more than its
  capacity.
\<close>

theorem replay_cache_accepts_once:
  fixes calls history capacity t0 ttl
  assumes "\<forall>(nonce, now) \<in> set calls. t0 \<le> now \<and> now < t0 + ttl"
  defines "cache \<equiv> fst (run_ops rc_step (NonceReplayCache_new ttl capacity) history)"
  shows "distinct (map fst (accepted calls (snd (run_ops rc_step cache calls))))
    \<and> length (rc_entries (fst (run_ops rc_step cache calls))) \<le> max capacity 1"
proof
  have keeps: "rc_inv (fst (run_ops rc_step c qs)) \<and> rc_capacity (fst (run_ops rc_step c qs)) = rc_capacity c
      \<and> rc_ttl (fst (run_ops rc_step c qs)) = rc_ttl c" if "rc_inv c" for c qs
    using that by (induction qs arbitrary: c) (simp_all add: rc_step_def rc_accept_inv del: run_ops.simps(2))
  have cfg: "rc_inv cache \<and> rc_ttl cache = ttl" "rc_capacity cache = max capacity 1"
    unfolding cache_def using keeps [OF rc_inv_new, of ttl capacity history] by (simp_all add: NonceReplayCache_new_def)
  show "distinct (map fst (accepted calls (snd (run_ops rc_step cache calls))))"
    using assms(1) by (intro rc.accepted_once [where ?t0.0 = t0, OF cfg(1)]) (auto simp: list_all_iff)
  show "length (rc_entries (fst (run_ops rc_step cache calls))) \<le> max capacity 1"
    using keeps [of cache calls] cfg by (auto simp: rc_inv_def)
qed

theorem replay_cache_accepts_once_witness:
  "accepted [([1], 5), ([1], 9), ([2], 9)]
     (snd (run_ops rc_step (NonceReplayCache_new 10 4) [([1], 5), ([1], 9), ([2], 9)])) = [([1 :: u8], 5), ([2], 9)]
   \<and> distinct (map fst (accepted [([1 :: u8], 5), ([1], 9), ([2], 9)]
     (snd (run_ops rc_step (NonceReplayCache_new 10 4) [([1], 5), ([1], 9), ([2], 9)]))))"
  using replay_cache_accepts_once [where calls = "[([1], 5), ([1], 9), ([2], 9)]" and ?t0.0 = 0 and ttl = 10 and capacity = 4 and history = "[]"]
  by (simp add: rc_step_def rc_accept_def NonceReplayCache_new_def rc_prune_def hm_retain_def hm_contains_def
      hm_get_def hm_insert_def hm_remove_def)

end
