(* ===== verification/Auth_Tokens.thy ===== *)
theory Auth_Tokens
  imports Common_Time Common_Ids Crypto_Core
begin

text \<open>
  \<open>crates/nexus-auth/src/enrollment.rs\<close> and \<open>credential.rs\<close>: enrollment tokens, the registration
  request with its proof of possession, device credentials and their builders.  \<open>serde_json\<close> is an
  argument: \<open>to_json\<close> maps a canonical payload to its bytes, or to \<open>None\<close> when it reports an error.
\<close>

section \<open>The contract of a signed document with a validity period\<close>

text \<open>
  Enrollment tokens, device credentials and relay tokens are checked against a clock and a key: each
  is accepted exactly when the clock is inside its period and it is authentic.
\<close>

locale signed_document =
  fixes verify :: "'d \<Rightarrow> UnixTimestamp \<Rightarrow> (unit, 'e) result"
    and within :: "'d \<Rightarrow> UnixTimestamp \<Rightarrow> bool"
    and expiry :: "'d \<Rightarrow> UnixTimestamp"
    and authentic :: "'d \<Rightarrow> bool"
  assumes verify_iff: "verify d now = Ok () \<longleftrightarrow> within d now \<and> authentic d"
    and within_convex: "\<lbrakk>within d a; within d c; a \<le> b; b \<le> c\<rbrakk> \<Longrightarrow> within d b"
    and within_expiry: "within d now \<Longrightarrow> now \<le> expiry d"
begin

lemma verify_convex:
  "\<lbrakk>verify d a = Ok (); verify d c = Ok (); a \<le> b; b \<le> c\<rbrakk> \<Longrightarrow> verify d b = Ok ()"
  by (auto simp: verify_iff intro: within_convex [of d a c b])

lemma verify_not_after_expiry: "expiry d < now \<Longrightarrow> \<exists>e. verify d now = Err e"
  using verify_iff [of d now] within_expiry [of d now] by (cases "verify d now") auto

lemma forged_never_verifies: "\<not> authentic d \<Longrightarrow> \<exists>e. verify d now = Err e"
  using verify_iff [of d now] by (cases "verify d now") auto

end

text \<open>The signature rule the documents share: 64 bytes that the key accepts for the payload.\<close>

definition sig_accepted :: "ed_verify \<Rightarrow> bytes \<Rightarrow> bytes \<Rightarrow> bytes \<Rightarrow> bool" where
  "sig_accepted v key payload signature \<longleftrightarrow> length signature = 64 \<and> v key payload signature = Some True"

definition sig_length_64 :: "ed_sign \<Rightarrow> bool" where
  "sig_length_64 s \<longleftrightarrow> (\<forall>seed payload. length (s seed payload) = 64)"

lemma sig_accepted_sign:
  "\<lbrakk>signature_correct s v pub; sig_length_64 s\<rbrakk> \<Longrightarrow> sig_accepted v (pub seed) payload (s seed payload)"
  by (simp add: sig_accepted_def signature_correct_def sig_length_64_def)

text \<open>What the callers rely on of a canonical encoding: it distinguishes the values it encodes.\<close>

definition encoding_injective :: "('a \<Rightarrow> bytes option) \<Rightarrow> bool" where
  "encoding_injective encode \<longleftrightarrow> (\<forall>x y bytes. encode x = Some bytes \<and> encode y = Some bytes \<longrightarrow> x = y)"

lemma encoding_injectiveD: "\<lbrakk>encoding_injective J; J x = Some b; J y = Some b\<rbrakk> \<Longrightarrow> x = y"
  by (auto simp: encoding_injective_def)

text \<open>
  The message inside an error value: a literal of the source, or a literal followed by the text of
  another error, which is not modelled.
\<close>

datatype ErrText = Text string | PackageText string

section \<open>Enrollment tokens\<close>

datatype DeviceType = Host | Client | Relay

fun DeviceType_as_str :: "DeviceType \<Rightarrow> string" where
  "DeviceType_as_str Host = ''host''"
| "DeviceType_as_str Client = ''client''"
| "DeviceType_as_str Relay = ''relay''"

datatype EnrollmentTokenError =
    Enr_Expired UnixTimestamp UnixTimestamp       \<comment> \<open>\<open>expired_at\<close>, \<open>current_time\<close>\<close>
  | Enr_NotYetActive UnixTimestamp UnixTimestamp  \<comment> \<open>\<open>not_before\<close>, \<open>current_time\<close>\<close>
  | Enr_InvalidSignature ErrText
  | Enr_MissingField string
  | Enr_Serialization ErrText

record EnrollmentToken =
  et_token_id :: string
  et_organization_id :: Id
  et_device_type :: DeviceType
  et_not_before :: UnixTimestamp
  et_expires_at :: UnixTimestamp
  et_max_uses :: u32
  et_signature :: bytes

record CanonicalEnrollmentPayload =
  cep_token_id :: string
  cep_organization_id :: string
  cep_device_type :: string
  cep_not_before :: u64
  cep_expires_at :: u64
  cep_max_uses :: u32

definition EnrollmentToken_payload :: "EnrollmentToken \<Rightarrow> CanonicalEnrollmentPayload" where
  "EnrollmentToken_payload t =
     \<lparr>cep_token_id = et_token_id t,
      cep_organization_id = id_as_str (et_organization_id t),
      cep_device_type = DeviceType_as_str (et_device_type t),
      cep_not_before = as_secs (et_not_before t),
      cep_expires_at = as_secs (et_expires_at t),
      cep_max_uses = et_max_uses t\<rparr>"

definition EnrollmentToken_signing_bytes ::
  "(CanonicalEnrollmentPayload \<Rightarrow> bytes option) \<Rightarrow> EnrollmentToken \<Rightarrow> (bytes, EnrollmentTokenError) result" where
  "EnrollmentToken_signing_bytes to_json t =
     ok_or (Enr_Serialization (PackageText [])) (to_json (EnrollmentToken_payload t))"

definition EnrollmentToken_sign ::
  "(CanonicalEnrollmentPayload \<Rightarrow> bytes option) \<Rightarrow> ed_sign \<Rightarrow> EnrollmentToken \<Rightarrow> bytes
     \<Rightarrow> (EnrollmentToken, EnrollmentTokenError) result" where
  "EnrollmentToken_sign to_json s t sk =
     (case EnrollmentToken_signing_bytes to_json t of
        Err e \<Rightarrow> Err e
      | Ok bytes \<Rightarrow> Ok (t\<lparr>et_signature := s sk bytes\<rparr>))"

definition EnrollmentToken_verify ::
  "(CanonicalEnrollmentPayload \<Rightarrow> bytes option) \<Rightarrow> ed_verify \<Rightarrow> bytes \<Rightarrow> EnrollmentToken \<Rightarrow> UnixTimestamp
     \<Rightarrow> (unit, EnrollmentTokenError) result" where
  "EnrollmentToken_verify to_json v verifying_key t now =
     (if now < et_not_before t then Err (Enr_NotYetActive (et_not_before t) now)
      else if now > et_expires_at t then Err (Enr_Expired (et_expires_at t) now)
      else if length (et_signature t) \<noteq> 64
        then Err (Enr_InvalidSignature (Text ''signature length must be 64 bytes''))
      else
        (case EnrollmentToken_signing_bytes to_json t of
           Err e \<Rightarrow> Err e
         | Ok signing_bytes \<Rightarrow>
             if v verifying_key signing_bytes (et_signature t) = Some True then Ok ()
             else Err (Enr_InvalidSignature (PackageText []))))"

record EnrollmentTokenBuilder =
  etb_token_id :: "string option"
  etb_organization_id :: "Id option"
  etb_device_type :: "DeviceType option"
  etb_not_before :: "UnixTimestamp option"
  etb_expires_at :: "UnixTimestamp option"
  etb_max_uses :: "u32 option"

definition EnrollmentToken_builder :: EnrollmentTokenBuilder where
  "EnrollmentToken_builder =
     \<lparr>etb_token_id = None, etb_organization_id = None, etb_device_type = None, etb_not_before = None,
      etb_expires_at = None, etb_max_uses = None\<rparr>"

text \<open>Each setter of the builder stores its argument as \<open>Some\<close> in its own field.\<close>

definition etb_set_token_id where "etb_set_token_id v b = b\<lparr>etb_token_id := Some v\<rparr>"
definition etb_set_organization_id where "etb_set_organization_id v b = b\<lparr>etb_organization_id := Some v\<rparr>"
definition etb_set_device_type where "etb_set_device_type v b = b\<lparr>etb_device_type := Some v\<rparr>"
definition etb_set_not_before where "etb_set_not_before v b = b\<lparr>etb_not_before := Some v\<rparr>"
definition etb_set_expires_at where "etb_set_expires_at v b = b\<lparr>etb_expires_at := Some v\<rparr>"
definition etb_set_max_uses where "etb_set_max_uses v b = b\<lparr>etb_max_uses := Some v\<rparr>"

lemmas etb_setters = etb_set_token_id_def etb_set_organization_id_def etb_set_device_type_def
  etb_set_not_before_def etb_set_expires_at_def etb_set_max_uses_def

definition EnrollmentTokenBuilder_build ::
  "EnrollmentTokenBuilder \<Rightarrow> (EnrollmentToken, EnrollmentTokenError) result" where
  "EnrollmentTokenBuilder_build b =
     (case etb_token_id b of
        None \<Rightarrow> Err (Enr_MissingField ''token_id'')
      | Some token_id \<Rightarrow>
     (case etb_organization_id b of
        None \<Rightarrow> Err (Enr_MissingField ''organization_id'')
      | Some organization_id \<Rightarrow>
     (case etb_device_type b of
        None \<Rightarrow> Err (Enr_MissingField ''device_type'')
      | Some device_type \<Rightarrow>
     (case etb_expires_at b of
        None \<Rightarrow> Err (Enr_MissingField ''expires_at'')
      | Some expires_at \<Rightarrow>
          Ok \<lparr>et_token_id = token_id, et_organization_id = organization_id,
              et_device_type = device_type,
              et_not_before = unwrap_or (etb_not_before b) (from_secs 0),
              et_expires_at = expires_at,
              et_max_uses = unwrap_or (etb_max_uses b) 1,
              et_signature = []\<rparr>))))"

section \<open>Registration requests\<close>

datatype DeviceCredentialError =
    Cred_Expired UnixTimestamp UnixTimestamp
  | Cred_NotYetActive UnixTimestamp UnixTimestamp
  | Cred_InvalidSignature ErrText
  | Cred_InvalidProofOfPossession ErrText
  | Cred_Enrollment EnrollmentTokenError
  | Cred_MissingField string
  | Cred_Serialization ErrText

record DeviceRegistrationRequest =
  rr_enrollment_token :: EnrollmentToken
  rr_device_public_key :: bytes
  rr_os :: string
  rr_architecture :: string
  rr_hostname :: string
  rr_agent_version :: string
  rr_requested_at :: UnixTimestamp
  rr_proof_signature :: bytes

definition proof_bytes :: "DeviceRegistrationRequest \<Rightarrow> bytes" where
  "proof_bytes r = as_bytes (et_token_id (rr_enrollment_token r)) @ to_be 8 (as_secs (rr_requested_at r))"

definition sign_proof :: "ed_sign \<Rightarrow> DeviceRegistrationRequest \<Rightarrow> bytes \<Rightarrow> DeviceRegistrationRequest" where
  "sign_proof s r device_signing_key = r\<lparr>rr_proof_signature := s device_signing_key (proof_bytes r)\<rparr>"

text \<open>
  \<open>verify_proof\<close> decodes the key before it looks at the signature; \<open>v\<close> reports a key that is not a
  valid point as \<open>None\<close> whatever the signature, so the decoding is a call with an empty signature.
\<close>

definition key_decodes :: "ed_verify \<Rightarrow> bytes \<Rightarrow> bool" where
  "key_decodes v key \<longleftrightarrow> v key [] [] \<noteq> None"

definition verify_proof :: "ed_verify \<Rightarrow> DeviceRegistrationRequest \<Rightarrow> (unit, DeviceCredentialError) result" where
  "verify_proof v r =
     (if length (rr_device_public_key r) \<noteq> 32
        then Err (Cred_InvalidProofOfPossession (Text ''device public key must be 32 bytes''))
      else if \<not> key_decodes v (rr_device_public_key r)
        then Err (Cred_InvalidProofOfPossession (PackageText ''invalid public key encoding: ''))
      else if length (rr_proof_signature r) \<noteq> 64
        then Err (Cred_InvalidProofOfPossession (Text ''proof signature must be 64 bytes''))
      else if v (rr_device_public_key r) (proof_bytes r) (rr_proof_signature r) = Some True then Ok ()
      else Err (Cred_InvalidProofOfPossession (PackageText [])))"

section \<open>Device credentials\<close>

record DeviceCredential =
  dc_device_id :: Id
  dc_organization_id :: Id
  dc_public_key :: bytes
  dc_device_type :: DeviceType
  dc_os :: string
  dc_architecture :: string
  dc_capabilities :: "string list"
  dc_issued_at :: UnixTimestamp
  dc_expires_at :: UnixTimestamp
  dc_signature :: bytes

record CanonicalCredentialPayload =
  ccp_device_id :: string
  ccp_organization_id :: string
  ccp_public_key :: bytes
  ccp_device_type :: string
  ccp_os :: string
  ccp_architecture :: string
  ccp_capabilities :: "string list"
  ccp_issued_at :: u64
  ccp_expires_at :: u64

definition DeviceCredential_payload :: "DeviceCredential \<Rightarrow> CanonicalCredentialPayload" where
  "DeviceCredential_payload c =
     \<lparr>ccp_device_id = id_as_str (dc_device_id c),
      ccp_organization_id = id_as_str (dc_organization_id c),
      ccp_public_key = dc_public_key c,
      ccp_device_type = DeviceType_as_str (dc_device_type c),
      ccp_os = dc_os c,
      ccp_architecture = dc_architecture c,
      ccp_capabilities = dc_capabilities c,
      ccp_issued_at = as_secs (dc_issued_at c),
      ccp_expires_at = as_secs (dc_expires_at c)\<rparr>"

definition DeviceCredential_signing_bytes ::
  "(CanonicalCredentialPayload \<Rightarrow> bytes option) \<Rightarrow> DeviceCredential \<Rightarrow> (bytes, DeviceCredentialError) result" where
  "DeviceCredential_signing_bytes to_json c =
     ok_or (Cred_Serialization (PackageText [])) (to_json (DeviceCredential_payload c))"

definition DeviceCredential_sign ::
  "(CanonicalCredentialPayload \<Rightarrow> bytes option) \<Rightarrow> ed_sign \<Rightarrow> DeviceCredential \<Rightarrow> bytes
     \<Rightarrow> (DeviceCredential, DeviceCredentialError) result" where
  "DeviceCredential_sign to_json s c cp_signing_key =
     (case DeviceCredential_signing_bytes to_json c of
        Err e \<Rightarrow> Err e
      | Ok bytes \<Rightarrow> Ok (c\<lparr>dc_signature := s cp_signing_key bytes\<rparr>))"

definition DeviceCredential_verify ::
  "(CanonicalCredentialPayload \<Rightarrow> bytes option) \<Rightarrow> ed_verify \<Rightarrow> bytes \<Rightarrow> DeviceCredential \<Rightarrow> UnixTimestamp
     \<Rightarrow> (unit, DeviceCredentialError) result" where
  "DeviceCredential_verify to_json v cp_verifying_key c now =
     (if now < dc_issued_at c then Err (Cred_NotYetActive (dc_issued_at c) now)
      else if now > dc_expires_at c then Err (Cred_Expired (dc_expires_at c) now)
      else if length (dc_signature c) \<noteq> 64
        then Err (Cred_InvalidSignature (Text ''signature length must be 64 bytes''))
      else
        (case DeviceCredential_signing_bytes to_json c of
           Err e \<Rightarrow> Err e
         | Ok signing_bytes \<Rightarrow>
             if v cp_verifying_key signing_bytes (dc_signature c) = Some True then Ok ()
             else Err (Cred_InvalidSignature (PackageText []))))"

record DeviceCredentialBuilder =
  dcb_device_id :: "Id option"
  dcb_organization_id :: "Id option"
  dcb_public_key :: "bytes option"
  dcb_device_type :: "DeviceType option"
  dcb_os :: "string option"
  dcb_architecture :: "string option"
  dcb_capabilities :: "string list"
  dcb_issued_at :: "UnixTimestamp option"
  dcb_expires_at :: "UnixTimestamp option"

definition DeviceCredential_builder :: DeviceCredentialBuilder where
  "DeviceCredential_builder =
     \<lparr>dcb_device_id = None, dcb_organization_id = None, dcb_public_key = None, dcb_device_type = None,
      dcb_os = None, dcb_architecture = None, dcb_capabilities = [], dcb_issued_at = None,
      dcb_expires_at = None\<rparr>"

definition dcb_set_device_id where "dcb_set_device_id v b = b\<lparr>dcb_device_id := Some v\<rparr>"
definition dcb_set_organization_id where "dcb_set_organization_id v b = b\<lparr>dcb_organization_id := Some v\<rparr>"
definition dcb_set_public_key where "dcb_set_public_key v b = b\<lparr>dcb_public_key := Some v\<rparr>"
definition dcb_set_device_type where "dcb_set_device_type v b = b\<lparr>dcb_device_type := Some v\<rparr>"
definition dcb_set_os where "dcb_set_os v b = b\<lparr>dcb_os := Some v\<rparr>"
definition dcb_set_architecture where "dcb_set_architecture v b = b\<lparr>dcb_architecture := Some v\<rparr>"
definition dcb_set_capabilities where "dcb_set_capabilities v b = b\<lparr>dcb_capabilities := v\<rparr>"
definition dcb_set_issued_at where "dcb_set_issued_at v b = b\<lparr>dcb_issued_at := Some v\<rparr>"
definition dcb_set_expires_at where "dcb_set_expires_at v b = b\<lparr>dcb_expires_at := Some v\<rparr>"

lemmas dcb_setters = dcb_set_device_id_def dcb_set_organization_id_def dcb_set_public_key_def
  dcb_set_device_type_def dcb_set_os_def dcb_set_architecture_def dcb_set_capabilities_def
  dcb_set_issued_at_def dcb_set_expires_at_def

definition DeviceCredentialBuilder_build ::
  "DeviceCredentialBuilder \<Rightarrow> (DeviceCredential, DeviceCredentialError) result" where
  "DeviceCredentialBuilder_build b =
     (case dcb_device_id b of
        None \<Rightarrow> Err (Cred_MissingField ''device_id'')
      | Some device_id \<Rightarrow>
     (case dcb_organization_id b of
        None \<Rightarrow> Err (Cred_MissingField ''organization_id'')
      | Some organization_id \<Rightarrow>
     (case dcb_public_key b of
        None \<Rightarrow> Err (Cred_MissingField ''public_key'')
      | Some public_key \<Rightarrow>
     (case dcb_device_type b of
        None \<Rightarrow> Err (Cred_MissingField ''device_type'')
      | Some device_type \<Rightarrow>
     (case dcb_expires_at b of
        None \<Rightarrow> Err (Cred_MissingField ''expires_at'')
      | Some expires_at \<Rightarrow>
          Ok \<lparr>dc_device_id = device_id, dc_organization_id = organization_id,
              dc_public_key = public_key, dc_device_type = device_type,
              dc_os = unwrap_or (dcb_os b) ''windows'',
              dc_architecture = unwrap_or (dcb_architecture b) ''x86_64'',
              dc_capabilities = dcb_capabilities b,
              dc_issued_at = unwrap_or (dcb_issued_at b) (from_secs 0),
              dc_expires_at = expires_at,
              dc_signature = []\<rparr>)))))"

section \<open>Laws\<close>

definition EnrollmentToken_authentic where
  "EnrollmentToken_authentic to_json v key t \<longleftrightarrow>
     (\<exists>bytes. to_json (EnrollmentToken_payload t) = Some bytes \<and> sig_accepted v key bytes (et_signature t))"

definition DeviceCredential_authentic where
  "DeviceCredential_authentic to_json v key c \<longleftrightarrow>
     (\<exists>bytes. to_json (DeviceCredential_payload c) = Some bytes \<and> sig_accepted v key bytes (dc_signature c))"

lemma EnrollmentToken_verify_iff:
  "EnrollmentToken_verify to_json v key t now = Ok () \<longleftrightarrow>
     (et_not_before t \<le> now \<and> now \<le> et_expires_at t) \<and> EnrollmentToken_authentic to_json v key t"
  by (cases "to_json (EnrollmentToken_payload t)")
    (auto simp: EnrollmentToken_verify_def EnrollmentToken_authentic_def EnrollmentToken_signing_bytes_def
      sig_accepted_def)

lemma DeviceCredential_verify_iff:
  "DeviceCredential_verify to_json v key c now = Ok () \<longleftrightarrow>
     (dc_issued_at c \<le> now \<and> now \<le> dc_expires_at c) \<and> DeviceCredential_authentic to_json v key c"
  by (cases "to_json (DeviceCredential_payload c)")
    (auto simp: DeviceCredential_verify_def DeviceCredential_authentic_def DeviceCredential_signing_bytes_def
      sig_accepted_def)

interpretation enr: signed_document "EnrollmentToken_verify to_json v key"
    "\<lambda>t now. et_not_before t \<le> now \<and> now \<le> et_expires_at t" et_expires_at
    "EnrollmentToken_authentic to_json v key"
  for to_json v key
  by unfold_locales (auto simp: EnrollmentToken_verify_iff)

interpretation cred: signed_document "DeviceCredential_verify to_json v key"
    "\<lambda>c now. dc_issued_at c \<le> now \<and> now \<le> dc_expires_at c" dc_expires_at
    "DeviceCredential_authentic to_json v key"
  for to_json v key
  by unfold_locales (auto simp: DeviceCredential_verify_iff)

lemma EnrollmentToken_payload_signature [simp]:
  "EnrollmentToken_payload (t\<lparr>et_signature := s\<rparr>) = EnrollmentToken_payload t"
  by (simp add: EnrollmentToken_payload_def)

lemma DeviceCredential_payload_signature [simp]:
  "DeviceCredential_payload (c\<lparr>dc_signature := s\<rparr>) = DeviceCredential_payload c"
  by (simp add: DeviceCredential_payload_def)

lemma EnrollmentToken_sign_authentic:
  assumes "signature_correct s v pub" "sig_length_64 s" "EnrollmentToken_sign to_json s t seed = Ok t'"
  shows "EnrollmentToken_authentic to_json v (pub seed) t'"
    and "\<exists>sig. t' = t\<lparr>et_signature := sig\<rparr>"
  using assms(3) sig_accepted_sign [OF assms(1,2)]
  by (cases "to_json (EnrollmentToken_payload t)";
      auto simp: EnrollmentToken_sign_def EnrollmentToken_signing_bytes_def EnrollmentToken_authentic_def)+

lemma DeviceCredential_sign_authentic:
  assumes "signature_correct s v pub" "sig_length_64 s" "DeviceCredential_sign to_json s c seed = Ok c'"
  shows "DeviceCredential_authentic to_json v (pub seed) c'"
    and "\<exists>sig. c' = c\<lparr>dc_signature := sig\<rparr>"
  using assms(3) sig_accepted_sign [OF assms(1,2)]
  by (cases "to_json (DeviceCredential_payload c)";
      auto simp: DeviceCredential_sign_def DeviceCredential_signing_bytes_def DeviceCredential_authentic_def)+

lemma DeviceType_as_str_inject [simp]: "DeviceType_as_str a = DeviceType_as_str b \<longleftrightarrow> a = b"
  by (cases a; cases b) simp_all

text \<open>The canonical payload determines the token up to its signature.\<close>

lemma EnrollmentToken_payload_inject:
  "EnrollmentToken_payload t = EnrollmentToken_payload t' \<longleftrightarrow> t\<lparr>et_signature := []\<rparr> = t'\<lparr>et_signature := []\<rparr>"
  by (cases t; cases t')
    (auto simp: EnrollmentToken_payload_def Id.expand UnixTimestamp.expand)

lemma DeviceCredential_payload_inject:
  "DeviceCredential_payload c = DeviceCredential_payload c' \<longleftrightarrow> c\<lparr>dc_signature := []\<rparr> = c'\<lparr>dc_signature := []\<rparr>"
  by (cases c; cases c')
    (auto simp: DeviceCredential_payload_def Id.expand UnixTimestamp.expand)

lemma verify_proof_iff:
  "verify_proof v r = Ok () \<longleftrightarrow>
     length (rr_device_public_key r) = 32 \<and> key_decodes v (rr_device_public_key r)
     \<and> sig_accepted v (rr_device_public_key r) (proof_bytes r) (rr_proof_signature r)"
  by (auto simp: verify_proof_def sig_accepted_def)

lemma proof_bytes_sign [simp]: "proof_bytes (r\<lparr>rr_proof_signature := s\<rparr>) = proof_bytes r"
  by (simp add: proof_bytes_def)

text \<open>The proof covers the token identifier and the time of the request, and nothing else.\<close>

lemma proof_bytes_inject:
  "proof_bytes r = proof_bytes r' \<longleftrightarrow>
     et_token_id (rr_enrollment_token r) = et_token_id (rr_enrollment_token r')
     \<and> rr_requested_at r = rr_requested_at r'"
  by (auto simp: proof_bytes_def to_be_inject_width simp del: to_be_numeral intro: UnixTimestamp.expand)

section \<open>Properties\<close>

text \<open>
  An enrollment token that was built and signed by the control plane is accepted under its public
  key exactly from \<open>not_before\<close> to \<open>expires_at\<close>, both ends included; the token keeps the fields given
  to the builder, with \<open>not_before\<close> 0 and one use by default.
\<close>

theorem enrollment_token_issue_verify:
  assumes "signature_correct s v pub" "sig_length_64 s"
    and "EnrollmentTokenBuilder_build b = Ok t" "EnrollmentToken_sign to_json s t seed = Ok t'"
  shows "(EnrollmentToken_verify to_json v (pub seed) t' now = Ok () \<longleftrightarrow>
      unwrap_or (etb_not_before b) (from_secs 0) \<le> now \<and> now \<le> the (etb_expires_at b))
    \<and> etb_token_id b = Some (et_token_id t') \<and> etb_organization_id b = Some (et_organization_id t')
    \<and> etb_device_type b = Some (et_device_type t') \<and> et_max_uses t' = unwrap_or (etb_max_uses b) 1"
proof -
  note auth = EnrollmentToken_sign_authentic [OF assms(1,2,4)]
  obtain sig where t': "t' = t\<lparr>et_signature := sig\<rparr>" using auth(2) ..
  have t: "et_not_before t = unwrap_or (etb_not_before b) (from_secs 0)" "Some (et_expires_at t) = etb_expires_at b"
    "etb_token_id b = Some (et_token_id t)" "etb_organization_id b = Some (et_organization_id t)"
    "etb_device_type b = Some (et_device_type t)" "et_max_uses t = unwrap_or (etb_max_uses b) 1"
    using assms(3) by (auto simp: EnrollmentTokenBuilder_build_def split: option.splits)
  from t(2) [symmetric] t(1,3-) auth(1) show ?thesis
    by (simp add: EnrollmentToken_verify_iff t')
qed

theorem enrollment_token_issue_verify_witness:
  "let b = etb_set_token_id ''tok'' (etb_set_organization_id (Id ''org'') (etb_set_device_type Host
             (etb_set_expires_at (from_secs 100) EnrollmentToken_builder)));
       s = (\<lambda>seed payload. replicate 64 7) :: ed_sign;
       v = (\<lambda>key payload sig. Some (sig = replicate 64 7));
       t' = \<lparr>et_token_id = ''tok'', et_organization_id = Id ''org'', et_device_type = Host,
             et_not_before = from_secs 0, et_expires_at = from_secs 100, et_max_uses = 1,
             et_signature = replicate 64 7\<rparr>
   in EnrollmentToken_verify (\<lambda>p. Some (as_bytes (cep_token_id p))) v [1] t' (from_secs 100) = Ok ()
      \<and> EnrollmentToken_verify (\<lambda>p. Some (as_bytes (cep_token_id p))) v [1] t' (from_secs 101) \<noteq> Ok ()"
  using enrollment_token_issue_verify
    [of "\<lambda>seed payload. replicate 64 7" "\<lambda>key payload sig. Some (sig = replicate 64 7)" "\<lambda>_. [1]"
       "etb_set_token_id ''tok'' (etb_set_organization_id (Id ''org'') (etb_set_device_type Host
             (etb_set_expires_at (from_secs 100) EnrollmentToken_builder)))"
       "\<lparr>et_token_id = ''tok'', et_organization_id = Id ''org'', et_device_type = Host,
             et_not_before = from_secs 0, et_expires_at = from_secs 100, et_max_uses = 1, et_signature = []\<rparr>"
       "\<lambda>p. Some (as_bytes (cep_token_id p))" "[]"
       "\<lparr>et_token_id = ''tok'', et_organization_id = Id ''org'', et_device_type = Host,
             et_not_before = from_secs 0, et_expires_at = from_secs 100, et_max_uses = 1,
             et_signature = replicate 64 7\<rparr>"]
  by (simp add: Let_def signature_correct_def sig_length_64_def EnrollmentTokenBuilder_build_def etb_setters
      EnrollmentToken_builder_def EnrollmentToken_sign_def EnrollmentToken_signing_bytes_def
      from_secs_def less_eq_UnixTimestamp_def)

definition example_credential :: DeviceCredential where
  "example_credential =
     \<lparr>dc_device_id = Id ''dev'', dc_organization_id = Id ''org'', dc_public_key = replicate 32 9,
      dc_device_type = Host, dc_os = ''windows'', dc_architecture = ''x86_64'', dc_capabilities = [],
      dc_issued_at = from_secs 10, dc_expires_at = from_secs 20, dc_signature = replicate 64 7\<rparr>"

end
