(* ===== verification/Auth_Verifier.thy ===== *)
theory Auth_Verifier
  imports Auth_Replay Auth_Tokens Protocol_Messages
begin

text \<open>
  \<open>crates/nexus-auth/src/verifier.rs\<close>: the check a host makes of a session capability.  \<open>proto_encode\<close>
  is the protobuf encoding of the capability; encoding into a growing buffer does not fail.
\<close>

section \<open>Model\<close>

datatype CapabilityVerificationError =
    Ver_Expired UnixTimestamp UnixTimestamp
  | Ver_NotYetActive UnixTimestamp UnixTimestamp
  | Ver_InvalidSignature ErrText
  | Ver_ReplayDetected
  | Ver_ProtocolRangeViolation u32 u32 u32          \<comment> \<open>\<open>negotiated\<close>, \<open>min\<close>, \<open>max\<close>\<close>
  | Ver_TargetDeviceMismatch string string          \<comment> \<open>\<open>expected\<close>, \<open>actual\<close>\<close>
  | Ver_ClientDeviceMismatch string string
  | Ver_ProtocolValidation SessionCapabilityError

record CapabilityVerifier =
  cv_control_plane_verifying_key :: bytes
  cv_replay_cache :: NonceReplayCache
  cv_target_device_id :: "string option"

definition CapabilityVerifier_new :: "bytes \<Rightarrow> Duration \<Rightarrow> nat \<Rightarrow> CapabilityVerifier" where
  "CapabilityVerifier_new control_plane_verifying_key replay_ttl replay_capacity =
     \<lparr>cv_control_plane_verifying_key = control_plane_verifying_key,
      cv_replay_cache = NonceReplayCache_new replay_ttl replay_capacity,
      cv_target_device_id = None\<rparr>"

definition with_target_device_id :: "string \<Rightarrow> CapabilityVerifier \<Rightarrow> CapabilityVerifier" where
  "with_target_device_id target cv = cv\<lparr>cv_target_device_id := Some target\<rparr>"

text \<open>The checks that come before the nonce is looked up; they do not change the verifier.\<close>

definition CapabilityVerifier_precheck ::
  "CapabilityVerifier \<Rightarrow> SessionCapability \<Rightarrow> u32 \<Rightarrow> UnixTimestamp \<Rightarrow> (unit, CapabilityVerificationError) result" where
  "CapabilityVerifier_precheck cv c negotiated now =
     (case SessionCapability_validate c of
        Err e \<Rightarrow> Err (Ver_ProtocolValidation e)
      | Ok _ \<Rightarrow>
     (case (case cv_target_device_id cv of
              None \<Rightarrow> Ok ()
            | Some expected \<Rightarrow>
                if cap_target_device_id c \<noteq> expected
                then Err (Ver_TargetDeviceMismatch expected (cap_target_device_id c)) else Ok ()) of
        Err e \<Rightarrow> Err e
      | Ok _ \<Rightarrow>
          if as_secs now < cap_not_before c then Err (Ver_NotYetActive (from_secs (cap_not_before c)) now)
          else if as_secs now > cap_expires_at c then Err (Ver_Expired (from_secs (cap_expires_at c)) now)
          else if negotiated < cap_agent_min_protocol c \<or> negotiated > cap_agent_max_protocol c
            then Err (Ver_ProtocolRangeViolation negotiated (cap_agent_min_protocol c) (cap_agent_max_protocol c))
          else Ok ()))"

definition CapabilityVerifier_verify ::
  "(SessionCapability \<Rightarrow> bytes) \<Rightarrow> ed_verify \<Rightarrow> CapabilityVerifier \<Rightarrow> SessionCapability \<Rightarrow> u32
     \<Rightarrow> UnixTimestamp \<Rightarrow> Instant \<Rightarrow> CapabilityVerifier \<times> (unit, CapabilityVerificationError) result" where
  "CapabilityVerifier_verify proto_encode v cv c negotiated now instant_now =
     (case CapabilityVerifier_precheck cv c negotiated now of
        Err e \<Rightarrow> (cv, Err e)
      | Ok _ \<Rightarrow>
     (case rc_accept (cv_replay_cache cv) (cap_nonce c) instant_now of
        (cache, fresh) \<Rightarrow>
          (let cv' = cv\<lparr>cv_replay_cache := cache\<rparr> in
           if \<not> fresh then (cv', Err Ver_ReplayDetected)
           else
             (let raw_bytes = SessionCapability_signing_bytes proto_encode c in
              if length (cap_signature c) \<noteq> 64
                then (cv', Err (Ver_InvalidSignature (Text ''signature must be 64 bytes'')))
              else if v (cv_control_plane_verifying_key cv) raw_bytes (cap_signature c) = Some True
                then (cv', Ok ())
              else (cv', Err (Ver_InvalidSignature (PackageText [])))))))"

section \<open>Laws\<close>

text \<open>What a capability must satisfy, independently of the replay cache and of the signature.\<close>

definition cap_admissible :: "string option \<Rightarrow> SessionCapability \<Rightarrow> u32 \<Rightarrow> UnixTimestamp \<Rightarrow> bool" where
  "cap_admissible target c negotiated now \<longleftrightarrow>
     SessionCapability_validate c = Ok ()
     \<and> (\<forall>expected. target = Some expected \<longrightarrow> cap_target_device_id c = expected)
     \<and> cap_not_before c \<le> as_secs now \<and> as_secs now \<le> cap_expires_at c
     \<and> cap_agent_min_protocol c \<le> negotiated \<and> negotiated \<le> cap_agent_max_protocol c"

lemma precheck_Ok [res_simps]:
  "CapabilityVerifier_precheck cv c negotiated now = Ok u \<longleftrightarrow>
     cap_admissible (cv_target_device_id cv) c negotiated now"
  by (cases "SessionCapability_validate c")
    (auto simp: CapabilityVerifier_precheck_def cap_admissible_def split: option.splits)

lemma precheck_admissible:
  "cap_admissible (cv_target_device_id cv) c negotiated now \<Longrightarrow> CapabilityVerifier_precheck cv c negotiated now = Ok ()"
  by (simp add: precheck_Ok)

lemma precheck_cases:
  obtains (fail) e where "CapabilityVerifier_precheck cv c negotiated now = Err e"
      "\<not> cap_admissible (cv_target_device_id cv) c negotiated now"
  | (ok) "CapabilityVerifier_precheck cv c negotiated now = Ok ()"
      "cap_admissible (cv_target_device_id cv) c negotiated now"
  using precheck_Ok [of cv c negotiated now "()"]
  by (cases "CapabilityVerifier_precheck cv c negotiated now") auto

lemma verify_state:
  "fst (CapabilityVerifier_verify enc v cv c negotiated now t) =
     (if cap_admissible (cv_target_device_id cv) c negotiated now
      then cv\<lparr>cv_replay_cache := fst (rc_accept (cv_replay_cache cv) (cap_nonce c) t)\<rparr> else cv)"
  by (cases cv c negotiated now rule: precheck_cases)
    (simp_all add: CapabilityVerifier_verify_def Let_def split_beta)

lemma verify_Ok [res_simps]:
  "snd (CapabilityVerifier_verify enc v cv c negotiated now t) = Ok u \<longleftrightarrow>
     cap_admissible (cv_target_device_id cv) c negotiated now
     \<and> snd (rc_accept (cv_replay_cache cv) (cap_nonce c) t)
     \<and> sig_accepted v (cv_control_plane_verifying_key cv) (SessionCapability_signing_bytes enc c) (cap_signature c)"
  by (cases cv c negotiated now rule: precheck_cases)
    (simp_all add: CapabilityVerifier_verify_def Let_def split_beta sig_accepted_def)

lemma verify_config [simp]:
  "cv_target_device_id (fst (CapabilityVerifier_verify enc v cv c negotiated now t)) = cv_target_device_id cv"
  "cv_control_plane_verifying_key (fst (CapabilityVerifier_verify enc v cv c negotiated now t)) =
     cv_control_plane_verifying_key cv"
  "rc_ttl (cv_replay_cache (fst (CapabilityVerifier_verify enc v cv c negotiated now t))) = rc_ttl (cv_replay_cache cv)"
  by (simp_all add: verify_state)

text \<open>A sequence of checks: capability, negotiated version, wall clock and monotonic clock.\<close>

type_synonym verify_call = "SessionCapability \<times> u32 \<times> UnixTimestamp \<times> Instant"

definition verify_step ::
  "(SessionCapability \<Rightarrow> bytes) \<Rightarrow> ed_verify \<Rightarrow> CapabilityVerifier \<Rightarrow> verify_call \<Rightarrow> CapabilityVerifier \<times> bool" where
  "verify_step enc v cv q =
     (case q of (c, negotiated, now, t) \<Rightarrow>
        (case CapabilityVerifier_verify enc v cv c negotiated now t of (cv', r) \<Rightarrow> (cv', is_ok r)))"

definition call_nonce :: "verify_call \<Rightarrow> bytes" where
  "call_nonce q = cap_nonce (fst q)"

definition call_instant :: "verify_call \<Rightarrow> Instant" where
  "call_instant q = snd (snd (snd q))"

interpretation cv: replay_guard "verify_step enc v" call_nonce "\<lambda>cv. rc_seen_since t0 (cv_replay_cache cv)"
    "\<lambda>q. t0 \<le> call_instant q \<and> call_instant q < t0 + ttl"
    "\<lambda>cv. rc_inv (cv_replay_cache cv) \<and> rc_ttl (cv_replay_cache cv) = ttl"
  for enc v t0 ttl
proof unfold_locales
  fix cv :: CapabilityVerifier and q :: verify_call
  obtain c negotiated now t where q: "q = (c, negotiated, now, t)" by (metis prod_cases4)
  assume inv: "rc_inv (cv_replay_cache cv) \<and> rc_ttl (cv_replay_cache cv) = ttl"
  assume "t0 \<le> call_instant q \<and> call_instant q < t0 + ttl"
  then have t: "t0 \<le> t" "t < t0 + rc_ttl (cv_replay_cache cv)" using inv by (simp_all add: q call_instant_def)
  note guard = rc_accept_guard [OF conjunct1 [OF inv] t, of "cap_nonce c"]
  show "rc_inv (cv_replay_cache (fst (verify_step enc v cv q))) \<and> rc_ttl (cv_replay_cache (fst (verify_step enc v cv q))) = ttl"
    using inv by (simp add: q verify_step_def split_beta verify_state rc_accept_inv)
  show "rc_seen_since t0 (cv_replay_cache cv) \<subseteq> rc_seen_since t0 (cv_replay_cache (fst (verify_step enc v cv q)))"
    using guard(3) by (simp add: q verify_step_def split_beta verify_state)
  assume "snd (verify_step enc v cv q)"
  then have "cap_admissible (cv_target_device_id cv) c negotiated now"
      "snd (rc_accept (cv_replay_cache cv) (cap_nonce c) t)"
    by (auto simp: q verify_step_def split_beta is_ok_iff res_simps)
  then show "call_nonce q \<notin> rc_seen_since t0 (cv_replay_cache cv)"
      "call_nonce q \<in> rc_seen_since t0 (cv_replay_cache (fst (verify_step enc v cv q)))"
    using guard(1,2) by (simp_all add: q verify_step_def split_beta verify_state call_nonce_def)
qed

text \<open>What a run of checks keeps: the well-formedness of the cache and the configuration.\<close>

lemma verify_run_keeps:
  "rc_inv (cv_replay_cache cv) \<Longrightarrow> rc_inv (cv_replay_cache (fst (run_ops (verify_step enc v) cv qs)))"
  "rc_ttl (cv_replay_cache (fst (run_ops (verify_step enc v) cv qs))) = rc_ttl (cv_replay_cache cv)"
  "cv_target_device_id (fst (run_ops (verify_step enc v) cv qs)) = cv_target_device_id cv"
  "cv_control_plane_verifying_key (fst (run_ops (verify_step enc v) cv qs)) = cv_control_plane_verifying_key cv"
  by (induction qs arbitrary: cv)
    (auto simp: verify_step_def split_beta verify_state rc_accept_inv simp del: run_ops.simps(2))

lemma verify_step_accepts:
  assumes "q \<in> set (accepted calls (snd (run_ops (verify_step enc v) cv calls)))"
  shows "cap_admissible (cv_target_device_id cv) (fst q) (fst (snd q)) (fst (snd (snd q)))
    \<and> sig_accepted v (cv_control_plane_verifying_key cv) (SessionCapability_signing_bytes enc (fst q)) (cap_signature (fst q))"
  using assms
proof (induction calls arbitrary: cv)
  case (Cons q0 calls)
  obtain c negotiated now t where q0: "q0 = (c, negotiated, now, t)" by (metis prod_cases4)
  let ?s = "verify_step enc v cv q0"
  have cfg: "cv_target_device_id (fst ?s) = cv_target_device_id cv"
      "cv_control_plane_verifying_key (fst ?s) = cv_control_plane_verifying_key cv"
    by (simp_all add: q0 verify_step_def split_beta)
  from Cons.prems consider "q = q0" "snd ?s" | "q \<in> set (accepted calls (snd (run_ops (verify_step enc v) (fst ?s) calls)))"
    by (auto simp: split_beta split: if_splits)
  then show ?case
  proof cases
    case 1
    then show ?thesis by (auto simp: q0 verify_step_def split_beta is_ok_iff res_simps)
  next
    case 2
    from Cons.IH [OF this] show ?thesis by (simp add: cfg)
  qed
qed simp

section \<open>Properties\<close>

definition example_capability :: "bytes \<Rightarrow> SessionCapability" where
  "example_capability sig =
     \<lparr>cap_version = 1, cap_issuer = ''cp'', cap_session_id = ''s1'', cap_subject_user_id = ''u1'',
      cap_client_device_id = ''c1'', cap_target_device_id = ''h1'', cap_permissions = [''desktop.view''],
      cap_restrictions = [], cap_not_before = 10, cap_expires_at = 20, cap_nonce = [5],
      cap_agent_min_protocol = 1, cap_agent_max_protocol = 1, cap_client_ephemeral_public_key = [],
      cap_signature = sig\<rparr>"

lemma example_capability_admissible:
  "cap_admissible (Some ''h1'') (example_capability sig) 1 (from_secs 15)"
  "cap_admissible None (example_capability sig) 1 (from_secs 15)"
  by (simp_all add: cap_admissible_def example_capability_def SessionCapability_validate_Ok from_secs_def
      MAX_SESSION_ID_LEN_def MAX_CAPABILITY_PERMISSIONS_def MAX_NONCE_LEN_def)

text \<open>
  C24: what a host accepts.  Take a new verifier and any history of checks before, at whatever times, which
  may have filled its cache with entries that expire at any moment.  Then in a window of one replay time to
  live, however many capabilities are presented and in whatever order, no nonce is accepted twice; and each
  accepted capability is well formed, names this host, is presented inside its signed establishment window
  with a protocol version inside its signed range, and carries 64 signature bytes that the control plane's
  key accepts for the unsigned capability.
\<close>

theorem capability_accepted_once:
  assumes "\<forall>q \<in> set window. t0 \<le> call_instant q \<and> call_instant q < t0 + ttl"
  shows "let cv0 = with_target_device_id target (CapabilityVerifier_new key ttl capacity);
             cv = fst (run_ops (verify_step enc v) cv0 history);
             ok = accepted window (snd (run_ops (verify_step enc v) cv window))
    in distinct (map call_nonce ok)
       \<and> (\<forall>(c, negotiated, now, t) \<in> set ok.
            cap_admissible (Some target) c negotiated now
            \<and> sig_accepted v key (SessionCapability_signing_bytes enc c) (cap_signature c))"
proof -
  let ?new = "with_target_device_id target (CapabilityVerifier_new key ttl capacity)"
  let ?cv = "fst (run_ops (verify_step enc v) ?new history)"
  have "rc_inv (cv_replay_cache ?new) \<and> rc_ttl (cv_replay_cache ?new) = ttl"
    by (simp add: with_target_device_id_def CapabilityVerifier_new_def rc_inv_new) (simp add: NonceReplayCache_new_def)
  then have inv: "rc_inv (cv_replay_cache ?cv) \<and> rc_ttl (cv_replay_cache ?cv) = ttl"
    by (metis verify_run_keeps(1,2))
  have cfg: "cv_target_device_id ?cv = Some target" "cv_control_plane_verifying_key ?cv = key"
    unfolding verify_run_keeps(3,4) by (simp_all add: with_target_device_id_def CapabilityVerifier_new_def)
  have "distinct (map call_nonce (accepted window (snd (run_ops (verify_step enc v) ?cv window))))"
    using assms by (intro cv.accepted_once [where ?t0.0 = t0, OF inv]) (simp add: list_all_iff)
  then show ?thesis
    using verify_step_accepts [of _ window enc v ?cv] by (fastforce simp: Let_def cfg)
qed

text \<open>
  The first acceptance is forgotten after its time to live; in the window that follows, the second
  acceptance keeps its nonce although the older entries expire in between.
\<close>

theorem capability_accepted_once_witness:
  "let cap = example_capability (replicate 64 0); other = cap\<lparr>cap_nonce := [6]\<rparr>;
       history = [(cap, 1, from_secs 15, 100), (other, 1, from_secs 15, 190)];
       window = [(cap, 1, from_secs 15, 250), (cap, 1, from_secs 15, 320), (other, 1, from_secs 15, 330)];
       cv = fst (run_ops (verify_step (\<lambda>_. []) (\<lambda>k p s. Some True)) (with_target_device_id ''h1'' (CapabilityVerifier_new [] 120 8)) history);
       outs = snd (run_ops (verify_step (\<lambda>_. []) (\<lambda>k p s. Some True)) cv window)
   in outs = [True, False, True] \<and> distinct (map call_nonce (accepted window outs))"
proof -
  have adm: "cap_admissible (Some ''h1'') ((example_capability (replicate 64 0))\<lparr>cap_nonce := [6]\<rparr>) 1 (from_secs 15)"
    by (simp add: cap_admissible_def example_capability_def SessionCapability_validate_Ok from_secs_def
        MAX_SESSION_ID_LEN_def MAX_CAPABILITY_PERMISSIONS_def MAX_NONCE_LEN_def)
  have nonce: "cap_nonce (example_capability sig) = [5]" "cap_signature (example_capability sig) = sig" for sig
    by (simp_all add: example_capability_def)
  show ?thesis
    using capability_accepted_once
      [where window = "[(example_capability (replicate 64 0), 1, from_secs 15, 250), (example_capability (replicate 64 0), 1, from_secs 15, 320),
            ((example_capability (replicate 64 0))\<lparr>cap_nonce := [6]\<rparr>, 1, from_secs 15, 330)]" and ?t0.0 = 230 and ttl = 120 and enc = "\<lambda>_. []" and v = "\<lambda>k p s. Some True"
          and target = "''h1''" and key = "[]" and capacity = 8 and history = "[(example_capability (replicate 64 0), 1, from_secs 15, 100),
            ((example_capability (replicate 64 0))\<lparr>cap_nonce := [6]\<rparr>, 1, from_secs 15, 190)]"]
    by (simp add: Let_def call_instant_def verify_step_def CapabilityVerifier_verify_def precheck_admissible
        example_capability_admissible adm nonce with_target_device_id_def CapabilityVerifier_new_def NonceReplayCache_new_def
        rc_accept_def rc_prune_def hm_retain_def hm_contains_def hm_get_def hm_insert_def hm_remove_def split_beta is_ok_iff
        del: run_ops.simps(2))
qed

text \<open>
  C25: the verifier's decision in full.  A capability is accepted exactly when it is admissible, its
  signature is accepted, its nonce was not recorded within the time to live, and fewer than \<open>capacity\<close>
  nonces are live; so a genuine capability with a fresh nonce is refused only when the cache is
  saturated.
\<close>

theorem capability_verify_exact:
  assumes "rc_inv (cv_replay_cache cv)"
  shows "snd (CapabilityVerifier_verify enc v cv c negotiated now t) = Ok () \<longleftrightarrow>
     cap_admissible (cv_target_device_id cv) c negotiated now
     \<and> sig_accepted v (cv_control_plane_verifying_key cv) (SessionCapability_signing_bytes enc c) (cap_signature c)
     \<and> (\<forall>t'. hm_get (rc_entries (cv_replay_cache cv)) (cap_nonce c) = Some t' \<longrightarrow> rc_ttl (cv_replay_cache cv) \<le> t - t')
     \<and> length (filter (\<lambda>(n, t'). t - t' < rc_ttl (cv_replay_cache cv)) (rc_entries (cv_replay_cache cv)))
         < rc_capacity (cv_replay_cache cv)"
  by (auto simp: res_simps rc_accept_iff [OF assms])

theorem capability_verify_exact_witness:
  "snd (CapabilityVerifier_verify (\<lambda>_. []) (\<lambda>k p s. Some True) (CapabilityVerifier_new [] 120 8)
     (example_capability (replicate 64 0)) 1 (from_secs 15) 100) = Ok ()"
  using capability_verify_exact [of "CapabilityVerifier_new [] 120 8" "\<lambda>_. []" "\<lambda>k p s. Some True"
      "example_capability (replicate 64 0)" 1 "from_secs 15" 100] example_capability_admissible(2)
  by (simp add: CapabilityVerifier_new_def rc_inv_new sig_accepted_def example_capability_def)
    (simp add: NonceReplayCache_new_def hm_get_def)

text \<open>
  The nonce is recorded before the signature is checked.  A forged capability that is admissible
  but whose signature is rejected makes the verifier refuse a genuine capability with the same nonce
  as a replay until the time to live has passed, although the genuine one is accepted by a verifier
  that has not seen the forgery.
\<close>

theorem forged_capability_burns_nonce:
  assumes "cap_admissible None forged negotiated now" "cap_admissible None genuine negotiated' now'"
    and "cap_nonce forged = cap_nonce genuine"
    and "\<not> sig_accepted v key (SessionCapability_signing_bytes enc forged) (cap_signature forged)"
    and "sig_accepted v key (SessionCapability_signing_bytes enc genuine) (cap_signature genuine)"
    and "t \<le> t'" "t' < t + ttl"
  shows "let cv = CapabilityVerifier_new key ttl capacity;
             (cv', r) = CapabilityVerifier_verify enc v cv forged negotiated now t
    in (\<exists>msg. r = Err (Ver_InvalidSignature msg))
       \<and> snd (CapabilityVerifier_verify enc v cv' genuine negotiated' now' t') = Err Ver_ReplayDetected
       \<and> snd (CapabilityVerifier_verify enc v cv genuine negotiated' now' t') = Ok ()"
proof -
  let ?cv = "CapabilityVerifier_new key ttl capacity"
  let ?r = "CapabilityVerifier_verify enc v ?cv forged negotiated now t"
  have cfg: "cv_target_device_id ?cv = None" "cv_control_plane_verifying_key ?cv = key"
      "cv_replay_cache ?cv = NonceReplayCache_new ttl capacity"
    by (simp_all add: CapabilityVerifier_new_def)
  have acc: "rc_accept (NonceReplayCache_new ttl capacity) n i =
      ((NonceReplayCache_new ttl capacity)\<lparr>rc_entries := [(n, i)]\<rparr>, True)" for n i
    by (simp add: rc_accept_def NonceReplayCache_new_def rc_prune_def hm_retain_def hm_contains_def hm_get_def
        hm_insert_def hm_remove_def)
  have pre: "CapabilityVerifier_precheck cv c neg i = Ok ()"
    if "cv_target_device_id cv = None" "cap_admissible None c neg i" for cv c neg i
    using that precheck_Ok [of cv c neg i "()"] by simp
  have state: "cv_replay_cache (fst ?r) = (NonceReplayCache_new ttl capacity)\<lparr>rc_entries := [(cap_nonce genuine, t)]\<rparr>"
    by (simp add: verify_state cfg assms(1) acc assms(3))
  have "\<exists>msg. snd ?r = Err (Ver_InvalidSignature msg)"
    using assms(4) by (simp add: CapabilityVerifier_verify_def pre cfg assms(1) acc Let_def sig_accepted_def)
  moreover have "snd (CapabilityVerifier_verify enc v (fst ?r) genuine negotiated' now' t') = Err Ver_ReplayDetected"
    using assms(6,7)
    by (simp add: CapabilityVerifier_verify_def [of _ _ "fst ?r"] pre cfg assms(2) state rc_accept_def rc_prune_def
        hm_retain_def hm_contains_def hm_get_def Let_def NonceReplayCache_new_def)
  moreover have "snd (CapabilityVerifier_verify enc v ?cv genuine negotiated' now' t') = Ok ()"
    by (simp add: res_simps cfg assms(2,5) acc)
  ultimately show ?thesis by (simp add: Let_def split_beta)
qed

theorem forged_capability_burns_nonce_witness:
  "let v = (\<lambda>k p s. Some (s = replicate 64 0));
       cv = CapabilityVerifier_new [] 120 8;
       (cv', r) = CapabilityVerifier_verify (\<lambda>_. []) v cv (example_capability []) 1 (from_secs 15) 100
   in (\<exists>msg. r = Err (Ver_InvalidSignature msg))
      \<and> snd (CapabilityVerifier_verify (\<lambda>_. []) v cv' (example_capability (replicate 64 0)) 1 (from_secs 15) 130)
          = Err Ver_ReplayDetected
      \<and> snd (CapabilityVerifier_verify (\<lambda>_. []) v cv (example_capability (replicate 64 0)) 1 (from_secs 15) 130) = Ok ()"
  unfolding Let_def
  by (rule forged_capability_burns_nonce [unfolded Let_def])
    (simp_all add: example_capability_admissible, simp_all add: example_capability_def sig_accepted_def)

end
