(* ===== verification/Audit_Log.thy ===== *)
theory Audit_Log
  imports Auth_Tokens
begin

text \<open>
  \<open>crates/nexus-audit/src\<close>: audit events (\<open>event.rs\<close>), the hash chain over them (\<open>chain.rs\<close>) and the
  sinks that receive the chained events (\<open>sink.rs\<close>).  BLAKE3 with hexadecimal output is the argument
  \<open>blake3\<close>, \<open>serde_json\<close> is the argument \<open>to_json\<close>, and the type of its values is the type variable
  \<open>'j\<close> with the value \<open>null\<close>.
\<close>

section \<open>Events\<close>

datatype AuditEventType =
    UserLogin | UserMfa | DeviceEnroll | DeviceRevoke | SessionRequest | SessionAuthorize | SessionDeny
  | SessionStart | SessionDisconnect | SessionEnd | ClipboardRead | ClipboardWrite | FileUpload
  | FileDownload | AccessRequest | AccessApprove | PolicyUpdate

definition AuditEventType_ALL :: "AuditEventType list" where
  "AuditEventType_ALL =
     [UserLogin, UserMfa, DeviceEnroll, DeviceRevoke, SessionRequest, SessionAuthorize, SessionDeny,
      SessionStart, SessionDisconnect, SessionEnd, ClipboardRead, ClipboardWrite, FileUpload,
      FileDownload, AccessRequest, AccessApprove, PolicyUpdate]"

fun AuditEventType_as_str :: "AuditEventType \<Rightarrow> string" where
  "AuditEventType_as_str UserLogin = ''user.login''"
| "AuditEventType_as_str UserMfa = ''user.mfa''"
| "AuditEventType_as_str DeviceEnroll = ''device.enroll''"
| "AuditEventType_as_str DeviceRevoke = ''device.revoke''"
| "AuditEventType_as_str SessionRequest = ''session.request''"
| "AuditEventType_as_str SessionAuthorize = ''session.authorize''"
| "AuditEventType_as_str SessionDeny = ''session.deny''"
| "AuditEventType_as_str SessionStart = ''session.start''"
| "AuditEventType_as_str SessionDisconnect = ''session.disconnect''"
| "AuditEventType_as_str SessionEnd = ''session.end''"
| "AuditEventType_as_str ClipboardRead = ''clipboard.read''"
| "AuditEventType_as_str ClipboardWrite = ''clipboard.write''"
| "AuditEventType_as_str FileUpload = ''file.upload''"
| "AuditEventType_as_str FileDownload = ''file.download''"
| "AuditEventType_as_str AccessRequest = ''access.request''"
| "AuditEventType_as_str AccessApprove = ''access.approve''"
| "AuditEventType_as_str PolicyUpdate = ''policy.update''"

definition AuditEventType_from_str :: "string \<Rightarrow> (AuditEventType, string) result" where
  "AuditEventType_from_str s =
     (if s = ''user.login'' then Ok UserLogin
      else if s = ''user.mfa'' then Ok UserMfa
      else if s = ''device.enroll'' then Ok DeviceEnroll
      else if s = ''device.revoke'' then Ok DeviceRevoke
      else if s = ''session.request'' then Ok SessionRequest
      else if s = ''session.authorize'' then Ok SessionAuthorize
      else if s = ''session.deny'' then Ok SessionDeny
      else if s = ''session.start'' then Ok SessionStart
      else if s = ''session.disconnect'' then Ok SessionDisconnect
      else if s = ''session.end'' then Ok SessionEnd
      else if s = ''clipboard.read'' then Ok ClipboardRead
      else if s = ''clipboard.write'' then Ok ClipboardWrite
      else if s = ''file.upload'' then Ok FileUpload
      else if s = ''file.download'' then Ok FileDownload
      else if s = ''access.request'' then Ok AccessRequest
      else if s = ''access.approve'' then Ok AccessApprove
      else if s = ''policy.update'' then Ok PolicyUpdate
      else Err s)"

record 'j AuditEvent =
  ae_event_id :: string
  ae_timestamp :: UnixTimestamp
  ae_organization_id :: Id
  ae_user_id :: "Id option"
  ae_device_id :: "Id option"
  ae_session_id :: "Id option"
  ae_event_type :: AuditEventType
  ae_metadata :: 'j

definition AuditEvent_new :: "'j \<Rightarrow> string \<Rightarrow> UnixTimestamp \<Rightarrow> Id \<Rightarrow> AuditEventType \<Rightarrow> 'j AuditEvent" where
  "AuditEvent_new null event_id timestamp organization_id event_type =
     \<lparr>ae_event_id = event_id, ae_timestamp = timestamp, ae_organization_id = organization_id,
      ae_user_id = None, ae_device_id = None, ae_session_id = None, ae_event_type = event_type,
      ae_metadata = null\<rparr>"

definition with_user_id :: "Id option \<Rightarrow> 'j AuditEvent \<Rightarrow> 'j AuditEvent" where
  "with_user_id v e = e\<lparr>ae_user_id := v\<rparr>"

definition with_device_id :: "Id option \<Rightarrow> 'j AuditEvent \<Rightarrow> 'j AuditEvent" where
  "with_device_id v e = e\<lparr>ae_device_id := v\<rparr>"

definition with_session_id :: "Id option \<Rightarrow> 'j AuditEvent \<Rightarrow> 'j AuditEvent" where
  "with_session_id v e = e\<lparr>ae_session_id := v\<rparr>"

definition with_metadata :: "'j \<Rightarrow> 'j AuditEvent \<Rightarrow> 'j AuditEvent" where
  "with_metadata v e = e\<lparr>ae_metadata := v\<rparr>"

record 'j AuditEventBuilder =
  aeb_event_id :: "string option"
  aeb_timestamp :: "UnixTimestamp option"
  aeb_organization_id :: "Id option"
  aeb_user_id :: "Id option"
  aeb_device_id :: "Id option"
  aeb_session_id :: "Id option"
  aeb_event_type :: "AuditEventType option"
  aeb_metadata :: "'j option"

definition AuditEventBuilder_new :: "'j AuditEventBuilder" where
  "AuditEventBuilder_new =
     \<lparr>aeb_event_id = None, aeb_timestamp = None, aeb_organization_id = None, aeb_user_id = None,
      aeb_device_id = None, aeb_session_id = None, aeb_event_type = None, aeb_metadata = None\<rparr>"

definition aeb_set_event_id where "aeb_set_event_id v b = b\<lparr>aeb_event_id := Some v\<rparr>"
definition aeb_set_timestamp where "aeb_set_timestamp v b = b\<lparr>aeb_timestamp := Some v\<rparr>"
definition aeb_set_organization_id where "aeb_set_organization_id v b = b\<lparr>aeb_organization_id := Some v\<rparr>"
definition aeb_set_user_id where "aeb_set_user_id v b = b\<lparr>aeb_user_id := v\<rparr>"
definition aeb_set_device_id where "aeb_set_device_id v b = b\<lparr>aeb_device_id := v\<rparr>"
definition aeb_set_session_id where "aeb_set_session_id v b = b\<lparr>aeb_session_id := v\<rparr>"
definition aeb_set_event_type where "aeb_set_event_type v b = b\<lparr>aeb_event_type := Some v\<rparr>"
definition aeb_set_metadata where "aeb_set_metadata v b = b\<lparr>aeb_metadata := Some v\<rparr>"

definition AuditEventBuilder_build :: "'j \<Rightarrow> 'j AuditEventBuilder \<Rightarrow> ('j AuditEvent, string) result" where
  "AuditEventBuilder_build null b =
     (case aeb_event_id b of
        None \<Rightarrow> Err ''event_id''
      | Some event_id \<Rightarrow>
     (case aeb_timestamp b of
        None \<Rightarrow> Err ''timestamp''
      | Some timestamp \<Rightarrow>
     (case aeb_organization_id b of
        None \<Rightarrow> Err ''organization_id''
      | Some organization_id \<Rightarrow>
     (case aeb_event_type b of
        None \<Rightarrow> Err ''event_type''
      | Some event_type \<Rightarrow>
          Ok \<lparr>ae_event_id = event_id, ae_timestamp = timestamp, ae_organization_id = organization_id,
              ae_user_id = aeb_user_id b, ae_device_id = aeb_device_id b, ae_session_id = aeb_session_id b,
              ae_event_type = event_type, ae_metadata = unwrap_or (aeb_metadata b) null\<rparr>))))"

section \<open>The hash chain\<close>

definition GENESIS_HASH :: string where
  "GENESIS_HASH = replicate 64 (CHR ''0'')"

datatype ChainError =
    NonMonotonicSequence u64 u64                 \<comment> \<open>\<open>expected\<close>, \<open>actual\<close>\<close>
  | HashMismatch u64 string string               \<comment> \<open>\<open>sequence\<close>, \<open>expected\<close>, \<open>actual\<close>\<close>
  | PreviousHashMismatch u64 string string
  | SerializationError

record 'j ChainedAuditEvent =
  ce_sequence :: u64
  ce_event :: "'j AuditEvent"
  ce_previous_hash :: string
  ce_hash :: string

definition hash_input :: "u64 \<Rightarrow> bytes \<Rightarrow> string \<Rightarrow> bytes" where
  "hash_input sequence canonical_bytes previous_hash = to_be 8 sequence @ canonical_bytes @ as_bytes previous_hash"

definition compute_hash :: "(bytes \<Rightarrow> string) \<Rightarrow> u64 \<Rightarrow> bytes \<Rightarrow> string \<Rightarrow> string" where
  "compute_hash blake3 sequence canonical_bytes previous_hash =
     blake3 (hash_input sequence canonical_bytes previous_hash)"

definition compute_event_hash ::
  "(bytes \<Rightarrow> string) \<Rightarrow> ('j AuditEvent \<Rightarrow> bytes option) \<Rightarrow> u64 \<Rightarrow> 'j AuditEvent \<Rightarrow> string
     \<Rightarrow> (string, ChainError) result" where
  "compute_event_hash blake3 to_json sequence event previous_hash =
     (case to_json event of
        None \<Rightarrow> Err SerializationError
      | Some canonical_bytes \<Rightarrow> Ok (compute_hash blake3 sequence canonical_bytes previous_hash))"

record 'j AuditChain =
  ac_genesis_seed :: string
  ac_last_hash :: string
  ac_sequence :: u64
  ac_events :: "'j ChainedAuditEvent list"

definition AuditChain_new :: "string option \<Rightarrow> 'j AuditChain" where
  "AuditChain_new genesis_seed =
     (let initial = unwrap_or genesis_seed GENESIS_HASH in
      \<lparr>ac_genesis_seed = initial, ac_last_hash = initial, ac_sequence = 0, ac_events = []\<rparr>)"

definition AuditChain_append ::
  "(bytes \<Rightarrow> string) \<Rightarrow> ('j AuditEvent \<Rightarrow> bytes option) \<Rightarrow> 'j AuditChain \<Rightarrow> 'j AuditEvent
     \<Rightarrow> 'j AuditChain \<times> ('j ChainedAuditEvent, ChainError) result" where
  "AuditChain_append blake3 to_json ch event =
     (let next_seq = ac_sequence ch + 1; prev_hash = ac_last_hash ch in
      case compute_event_hash blake3 to_json next_seq event prev_hash of
        Err e \<Rightarrow> (ch, Err e)
      | Ok hash \<Rightarrow>
          (let chained = \<lparr>ce_sequence = next_seq, ce_event = event, ce_previous_hash = prev_hash, ce_hash = hash\<rparr> in
           (ch\<lparr>ac_sequence := next_seq, ac_last_hash := hash, ac_events := ac_events ch @ [chained]\<rparr>,
            Ok chained)))"

text \<open>The loop of \<open>verify_chain\<close>: \<open>i\<close> is the index of the first event of the rest, \<open>expected_prev\<close> the
  genesis seed or the hash of the event before it.\<close>

fun verify_chain_from ::
  "(bytes \<Rightarrow> string) \<Rightarrow> ('j AuditEvent \<Rightarrow> bytes option) \<Rightarrow> nat \<Rightarrow> string \<Rightarrow> 'j ChainedAuditEvent list
     \<Rightarrow> (unit, ChainError) result" where
  "verify_chain_from blake3 to_json i expected_prev [] = Ok ()"
| "verify_chain_from blake3 to_json i expected_prev (chained # rest) =
     (let expected_seq = of_nat i + 1 in
      if ce_sequence chained \<noteq> expected_seq
        then Err (NonMonotonicSequence expected_seq (ce_sequence chained))
      else if ce_previous_hash chained \<noteq> expected_prev
        then Err (PreviousHashMismatch (ce_sequence chained) expected_prev (ce_previous_hash chained))
      else
        (case compute_event_hash blake3 to_json (ce_sequence chained) (ce_event chained) (ce_previous_hash chained) of
           Err e \<Rightarrow> Err e
         | Ok recomputed_hash \<Rightarrow>
             if ce_hash chained \<noteq> recomputed_hash
             then Err (HashMismatch (ce_sequence chained) recomputed_hash (ce_hash chained))
             else verify_chain_from blake3 to_json (Suc i) (ce_hash chained) rest))"

definition verify_chain ::
  "(bytes \<Rightarrow> string) \<Rightarrow> ('j AuditEvent \<Rightarrow> bytes option) \<Rightarrow> 'j ChainedAuditEvent list \<Rightarrow> string option
     \<Rightarrow> (unit, ChainError) result" where
  "verify_chain blake3 to_json events genesis_seed =
     verify_chain_from blake3 to_json 0 (unwrap_or genesis_seed GENESIS_HASH) events"

section \<open>Sinks\<close>

datatype SinkError = Sink_IoError string | Sink_ChannelClosed | Sink_StorageError string | Sink_Custom string

record 'j MemoryAuditSink =
  ms_events :: "'j ChainedAuditEvent list"

definition MemoryAuditSink_new :: "'j MemoryAuditSink" where
  "MemoryAuditSink_new = \<lparr>ms_events = []\<rparr>"

definition MemoryAuditSink_clear :: "'j MemoryAuditSink \<Rightarrow> 'j MemoryAuditSink" where
  "MemoryAuditSink_clear m = m\<lparr>ms_events := []\<rparr>"

definition MemoryAuditSink_record ::
  "'j MemoryAuditSink \<Rightarrow> 'j ChainedAuditEvent \<Rightarrow> 'j MemoryAuditSink \<times> (unit, SinkError) result" where
  "MemoryAuditSink_record m event = (m\<lparr>ms_events := ms_events m @ [event]\<rparr>, Ok ())"

definition MemoryAuditSink_flush :: "'j MemoryAuditSink \<Rightarrow> 'j MemoryAuditSink \<times> (unit, SinkError) result" where
  "MemoryAuditSink_flush m = (m, Ok ())"

text \<open>
  A broadcast sink holds its children's states; \<open>op\<close> is the operation of a child, recording an event
  or flushing.  Both loops of the broadcast sink have the same body: every child is called, and the
  first error is returned at the end.
\<close>

fun broadcast_loop ::
  "('s \<Rightarrow> 's \<times> (unit, SinkError) result) \<Rightarrow> SinkError option \<Rightarrow> 's list \<Rightarrow> 's list \<times> SinkError option" where
  "broadcast_loop op first_error [] = ([], first_error)"
| "broadcast_loop op first_error (sink # sinks) =
     (case op sink of
        (sink', r) \<Rightarrow>
          (case broadcast_loop op
                  (case r of
                     Err err \<Rightarrow> if first_error = None then Some err else first_error
                   | Ok _ \<Rightarrow> first_error) sinks of
             (sinks', e) \<Rightarrow> (sink' # sinks', e)))"

definition broadcast_result :: "'s list \<times> SinkError option \<Rightarrow> 's list \<times> (unit, SinkError) result" where
  "broadcast_result x = (fst x, case snd x of Some err \<Rightarrow> Err err | None \<Rightarrow> Ok ())"

definition BroadcastAuditSink_record ::
  "('s \<Rightarrow> 'e \<Rightarrow> 's \<times> (unit, SinkError) result) \<Rightarrow> 's list \<Rightarrow> 'e \<Rightarrow> 's list \<times> (unit, SinkError) result" where
  "BroadcastAuditSink_record op sinks event = broadcast_result (broadcast_loop (\<lambda>s. op s event) None sinks)"

definition BroadcastAuditSink_flush ::
  "('s \<Rightarrow> 's \<times> (unit, SinkError) result) \<Rightarrow> 's list \<Rightarrow> 's list \<times> (unit, SinkError) result" where
  "BroadcastAuditSink_flush op sinks = broadcast_result (broadcast_loop op None sinks)"

definition BroadcastAuditSink_add_sink :: "'s list \<Rightarrow> 's \<Rightarrow> 's list" where
  "BroadcastAuditSink_add_sink sinks sink = sinks @ [sink]"

section \<open>Laws\<close>

lemma AuditEventType_round_trip: "AuditEventType_from_str (AuditEventType_as_str t) = Ok t"
  by (cases t) (simp_all add: AuditEventType_from_str_def)

lemma AuditEventType_from_str_Ok:
  "AuditEventType_from_str s = Ok t \<Longrightarrow> s = AuditEventType_as_str t"
  by (auto simp: AuditEventType_from_str_def split: if_splits)

lemma AuditEventType_ALL_complete: "t \<in> set AuditEventType_ALL" "distinct AuditEventType_ALL" "length AuditEventType_ALL = 17"
  by (cases t) (simp_all add: AuditEventType_ALL_def)

lemma AuditEventBuilder_build_Ok:
  "(\<exists>e. AuditEventBuilder_build null b = Ok e) \<longleftrightarrow>
     aeb_event_id b \<noteq> None \<and> aeb_timestamp b \<noteq> None \<and> aeb_organization_id b \<noteq> None \<and> aeb_event_type b \<noteq> None"
  by (auto simp: AuditEventBuilder_build_def split: option.splits)

text \<open>One link of a chain: the event at an index against the hash before it.\<close>

definition chain_link where
  "chain_link blake3 to_json i expected_prev ce \<longleftrightarrow>
     ce_sequence ce = of_nat i + 1 \<and> ce_previous_hash ce = expected_prev
     \<and> compute_event_hash blake3 to_json (of_nat i + 1) (ce_event ce) expected_prev = Ok (ce_hash ce)"

definition last_hash_of :: "string \<Rightarrow> 'j ChainedAuditEvent list \<Rightarrow> string" where
  "last_hash_of g es = (if es = [] then g else ce_hash (last es))"

lemma last_hash_of_simps [simp]:
  "last_hash_of g [] = g" "last_hash_of g (es @ [e]) = ce_hash e" "last_hash_of (ce_hash e) es = last_hash_of g (e # es)"
  by (simp_all add: last_hash_of_def)

lemma verify_chain_from_Cons:
  "verify_chain_from H J i p (e # es) = Ok () \<longleftrightarrow> chain_link H J i p e \<and> verify_chain_from H J (Suc i) (ce_hash e) es = Ok ()"
  by (cases "ce_sequence e = of_nat i + 1 \<and> ce_previous_hash e = p";
      cases "compute_event_hash H J (of_nat i + 1) (ce_event e) p")
    (auto simp: chain_link_def Let_def)

lemma verify_chain_from_append:
  "verify_chain_from H J i p (es @ fs) = Ok () \<longleftrightarrow>
     verify_chain_from H J i p es = Ok () \<and> verify_chain_from H J (i + length es) (last_hash_of p es) fs = Ok ()"
proof (induction es arbitrary: i p)
  case (Cons e es)
  show ?case
    by (simp add: verify_chain_from_Cons Cons.IH del: verify_chain_from.simps(2)) (simp add: last_hash_of_def)
qed simp

lemma verify_chain_from_snoc:
  "verify_chain_from H J i p (es @ [e]) = Ok () \<longleftrightarrow>
     verify_chain_from H J i p es = Ok () \<and> chain_link H J (i + length es) (last_hash_of p es) e"
  by (simp add: verify_chain_from_append verify_chain_from_Cons del: verify_chain_from.simps(2))

lemma verify_chain_from_iff:
  "verify_chain_from H J i p es = Ok () \<longleftrightarrow>
     (\<forall>k < length es. chain_link H J (i + k) (last_hash_of p (take k es)) (es ! k))"
proof (induction es rule: rev_induct)
  case (snoc e es)
  have "(\<forall>k < Suc n. P k) \<longleftrightarrow> (\<forall>k < n. P k) \<and> P n" for P n
    by (auto simp: less_Suc_eq)
  then show ?case
    by (simp add: verify_chain_from_snoc snoc.IH nth_append del: verify_chain_from.simps(2) cong: conj_cong)
qed simp

text \<open>The invariant of \<open>AuditChain\<close>.\<close>

definition chain_inv where
  "chain_inv blake3 to_json ch \<longleftrightarrow>
     verify_chain blake3 to_json (ac_events ch) (Some (ac_genesis_seed ch)) = Ok ()
     \<and> ac_last_hash ch = last_hash_of (ac_genesis_seed ch) (ac_events ch)
     \<and> ac_sequence ch = of_nat (length (ac_events ch))"

lemma chain_inv_new: "chain_inv H J (AuditChain_new g)"
  by (simp add: chain_inv_def AuditChain_new_def Let_def verify_chain_def)

lemma AuditChain_append_err: "J ev = None \<Longrightarrow> AuditChain_append H J ch ev = (ch, Err SerializationError)"
  by (simp add: AuditChain_append_def compute_event_hash_def Let_def)

lemma AuditChain_append_ok:
  assumes "J ev \<noteq> None"
  obtains ce where "AuditChain_append H J ch ev =
      (ch\<lparr>ac_sequence := ac_sequence ch + 1, ac_last_hash := ce_hash ce, ac_events := ac_events ch @ [ce]\<rparr>, Ok ce)"
    and "ac_sequence ch = of_nat n \<Longrightarrow> chain_link H J n (ac_last_hash ch) ce"
  using assms by (auto simp: AuditChain_append_def compute_event_hash_def chain_link_def Let_def)

lemma chain_inv_append:
  assumes "chain_inv H J ch"
  shows "chain_inv H J (fst (AuditChain_append H J ch ev))"
proof (cases "J ev = None")
  case False
  then obtain ce where "AuditChain_append H J ch ev =
      (ch\<lparr>ac_sequence := ac_sequence ch + 1, ac_last_hash := ce_hash ce, ac_events := ac_events ch @ [ce]\<rparr>, Ok ce)"
    "ac_sequence ch = of_nat (length (ac_events ch)) \<Longrightarrow> chain_link H J (length (ac_events ch)) (ac_last_hash ch) ce"
    by (blast intro: AuditChain_append_ok [of J ev H ch "length (ac_events ch)"])
  with assms show ?thesis
    by (simp add: chain_inv_def verify_chain_def verify_chain_from_snoc)
qed (simp add: AuditChain_append_err assms)

lemma AuditChain_append_seed [simp]:
  "ac_genesis_seed (fst (AuditChain_append H J ch ev)) = ac_genesis_seed ch"
  by (simp add: AuditChain_append_def Let_def split: result.splits)

interpretation chain: machine "AuditChain_append H J" "chain_inv H J" for H J
  by unfold_locales (rule chain_inv_append)

text \<open>
  The inputs that a verified chain feeds to the hash function, and the collision-freeness that tamper
  evidence needs of the hash function: none among those inputs.
\<close>

definition hash_inputs :: "('j AuditEvent \<Rightarrow> bytes option) \<Rightarrow> 'j ChainedAuditEvent list \<Rightarrow> bytes set" where
  "hash_inputs to_json es =
     {hash_input (ce_sequence ce) (the (to_json (ce_event ce))) (ce_previous_hash ce) | ce. ce \<in> set es}"

definition collision_free_on :: "(bytes \<Rightarrow> string) \<Rightarrow> bytes set \<Rightarrow> bool" where
  "collision_free_on blake3 A \<longleftrightarrow> inj_on blake3 A"

lemma hash_input_inject:
  "length p = length p' \<Longrightarrow> hash_input s b p = hash_input s' b' p' \<longleftrightarrow> s = s' \<and> b = b' \<and> p = p'"
proof
  assume len: "length p = length p'" and "hash_input s b p = hash_input s' b' p'"
  then have "to_be 8 s = to_be 8 s' \<and> b @ as_bytes p = b' @ as_bytes p'"
    unfolding hash_input_def by (subst (asm) append_eq_same_length) (simp_all only: length_to_be)
  then have "s = s' \<and> b = b' \<and> as_bytes p = as_bytes p'"
    using len by (simp add: to_be_inject_width del: to_be_numeral)
  then show "s = s' \<and> b = b' \<and> p = p'" by simp
qed simp

lemma chain_link_hash:
  "chain_link H J i p e \<Longrightarrow>
     \<exists>b. J (ce_event e) = Some b \<and> ce_hash e = H (hash_input (of_nat i + 1) b p) \<and> ce_sequence e = of_nat i + 1 \<and> ce_previous_hash e = p"
  by (auto simp: chain_link_def compute_event_hash_def compute_hash_def split: option.splits)

text \<open>Two links with the same index and hash, over previous hashes of the same length, are equal.\<close>

lemma chain_link_unique:
  assumes "chain_link H J i p e" "chain_link H J i q f" "ce_hash e = ce_hash f" "length p = length q"
    and "inj_on H A" "hash_inputs J [e] \<subseteq> A" "hash_inputs J [f] \<subseteq> A"
    and "encoding_injective J"
  shows "e = f \<and> p = q"
proof -
  obtain b where e: "J (ce_event e) = Some b" "ce_hash e = H (hash_input (of_nat i + 1) b p)"
      "ce_sequence e = of_nat i + 1" "ce_previous_hash e = p"
    using chain_link_hash [OF assms(1)] by blast
  obtain c where f: "J (ce_event f) = Some c" "ce_hash f = H (hash_input (of_nat i + 1) c q)"
      "ce_sequence f = of_nat i + 1" "ce_previous_hash f = q"
    using chain_link_hash [OF assms(2)] by blast
  have "hash_input (of_nat i + 1) b p \<in> A" "hash_input (of_nat i + 1) c q \<in> A"
    using assms(6,7) e f by (auto simp: hash_inputs_def)
  with assms(3,5) e(2) f(2) have "hash_input (of_nat i + 1) b p = hash_input (of_nat i + 1) c q"
    by (metis inj_onD)
  with assms(4) have "b = c" "p = q" by (simp_all add: hash_input_inject)
  moreover from this e(1) f(1) have "ce_event e = ce_event f" using encoding_injectiveD [OF assms(8)] by blast
  ultimately show ?thesis using e f assms(3) by (simp add: ChainedAuditEvent.equality)
qed

lemma hash_inputs_snoc: "hash_inputs J (es @ [e]) = hash_inputs J es \<union> hash_inputs J [e]"
  by (auto simp: hash_inputs_def)

lemma broadcast_loop_spec:
  "broadcast_loop op first sinks =
     (map (\<lambda>s. fst (op s)) sinks,
      case first of Some e \<Rightarrow> Some e
      | None \<Rightarrow> (case filter (\<lambda>r. \<not> is_ok r) (map (\<lambda>s. snd (op s)) sinks) of
                   Err e # _ \<Rightarrow> Some e | _ \<Rightarrow> None))"
proof (induction sinks arbitrary: first)
  case (Cons sink sinks)
  show ?case
    by (cases "op sink"; cases "snd (op sink)"; cases first) (auto simp: Cons.IH)
qed (simp split: option.splits)

section \<open>Properties\<close>

text \<open>
  Whatever events are appended, and whichever of them fail to serialise, the chain verifies against
  its own genesis seed, its sequence number is the number of its events, and its last hash is the hash
  of its last event.
\<close>

theorem audit_chain_always_verifies:
  "let ch = fst (run_ops (AuditChain_append blake3 to_json) (AuditChain_new genesis) evs)
   in verify_chain blake3 to_json (ac_events ch) (Some (ac_genesis_seed ch)) = Ok ()
      \<and> ac_sequence ch = of_nat (length (ac_events ch))
      \<and> ac_last_hash ch = last_hash_of (unwrap_or genesis GENESIS_HASH) (ac_events ch)"
proof -
  have seed: "ac_genesis_seed (fst (run_ops (AuditChain_append blake3 to_json) ch evs)) = ac_genesis_seed ch"
    for ch :: "'a AuditChain"
  proof (induction evs arbitrary: ch)
    case (Cons ev evs)
    show ?case by (simp add: Cons.IH del: run_ops.simps(2))
  qed simp
  have "chain_inv blake3 to_json (fst (run_ops (AuditChain_append blake3 to_json) (AuditChain_new genesis) evs))"
    by (rule chain.run_inv [OF chain_inv_new])
  then show ?thesis
    by (simp add: chain_inv_def seed Let_def) (simp add: AuditChain_new_def Let_def)
qed

text \<open>
  C27: the chain is tamper evident.  Two event logs of the same length that both verify against the same
  genesis seed and end in the same hash are equal, provided the hash function returns 64 characters, has
  no collision among the inputs of the two logs, and the canonical encoding of events is injective.
\<close>

theorem audit_chain_tamper_evident:
  assumes "verify_chain blake3 to_json es genesis = Ok ()" "verify_chain blake3 to_json fs genesis = Ok ()"
    and "length es = length fs" "last_hash_of seed es = last_hash_of seed fs" "seed = unwrap_or genesis GENESIS_HASH"
    and "\<And>x. length (blake3 x) = 64"
    and "collision_free_on blake3 (hash_inputs to_json es \<union> hash_inputs to_json fs)"
    and "encoding_injective to_json"
  shows "es = fs"
proof -
  let ?A = "hash_inputs to_json es \<union> hash_inputs to_json fs"
  let ?g = "unwrap_or genesis GENESIS_HASH"
  have len: "length (ce_hash e) = 64" if "chain_link blake3 to_json i p e" for i p e
    using chain_link_hash [OF that] assms(6) by auto
  have "xs = ys" if "length xs = length ys" "verify_chain_from blake3 to_json 0 ?g xs = Ok ()"
      "verify_chain_from blake3 to_json 0 ?g ys = Ok ()" "last_hash_of ?g xs = last_hash_of ?g ys"
      "hash_inputs to_json xs \<subseteq> ?A" "hash_inputs to_json ys \<subseteq> ?A" for xs ys
    using that
  proof (induction xs arbitrary: ys rule: rev_induct)
    case (snoc e xs)
    from snoc.prems(1) obtain f zs where ys: "ys = zs @ [f]" "length xs = length zs"
      by (cases ys rule: rev_cases) auto
    have links: "chain_link blake3 to_json (length xs) (last_hash_of ?g xs) e"
        "chain_link blake3 to_json (length xs) (last_hash_of ?g zs) f"
      and vs: "verify_chain_from blake3 to_json 0 ?g xs = Ok ()" "verify_chain_from blake3 to_json 0 ?g zs = Ok ()"
      using snoc.prems(2,3) ys by (simp_all add: verify_chain_from_snoc)
    have "length (last_hash_of ?g xs) = length (last_hash_of ?g zs)"
    proof (cases xs rule: rev_cases)
      case (snoc xs' x)
      with ys(2) obtain zs' z where "zs = zs' @ [z]" by (cases zs rule: rev_cases) auto
      with snoc vs show ?thesis by (auto simp: verify_chain_from_snoc dest!: len)
    qed (use ys(2) in simp)
    moreover have "ce_hash e = ce_hash f" using snoc.prems(4) ys(1) by simp
    moreover have "hash_inputs to_json [e] \<subseteq> ?A" "hash_inputs to_json [f] \<subseteq> ?A"
        "hash_inputs to_json xs \<subseteq> ?A" "hash_inputs to_json zs \<subseteq> ?A"
      using snoc.prems(5,6) by (simp_all add: ys(1) hash_inputs_snoc)
    ultimately have "e = f \<and> last_hash_of ?g xs = last_hash_of ?g zs"
      using chain_link_unique [OF links _ _ assms(7) [unfolded collision_free_on_def] _ _ assms(8)] by blast
    with snoc.IH [OF ys(2) vs] \<open>hash_inputs to_json xs \<subseteq> ?A\<close> \<open>hash_inputs to_json zs \<subseteq> ?A\<close> ys(1)
    show ?case by blast
  qed simp
  from this [of es fs] show ?thesis using assms(1-5) by (simp add: verify_chain_def)
qed

definition example_event :: "unit ChainedAuditEvent" where
  "example_event =
     \<lparr>ce_sequence = 1, ce_event = AuditEvent_new () ''e1'' (from_secs 1) (Id ''org'') UserLogin,
      ce_previous_hash = ''seed'', ce_hash = replicate 64 (CHR ''7'')\<rparr>"

theorem audit_chain_tamper_evident_witness:
  "[example_event] = [example_event\<lparr>ce_hash := replicate 64 (CHR ''7'')\<rparr>]"
  by (rule audit_chain_tamper_evident
      [where ?blake3.0 = "\<lambda>_. replicate 64 (CHR ''7'')" and genesis = "Some ''seed''" and seed = "''seed''"
        and to_json = "\<lambda>e. if e = AuditEvent_new () ''e1'' (from_secs 1) (Id ''org'') UserLogin then Some [1] else None"])
    (simp_all add: encoding_injective_def verify_chain_def example_event_def compute_event_hash_def compute_hash_def collision_free_on_def
      hash_inputs_def split: if_splits)

text \<open>
  C25: \<open>verify_chain\<close> accepts exactly the logs its documentation describes: for every index, the
  sequence number is the index plus one, the previous hash is the genesis seed or the hash of the event
  before, and the recorded hash is the one recomputed from the sequence number, the canonical bytes and
  the previous hash.
\<close>

theorem verify_chain_documented_conditions:
  "verify_chain blake3 to_json es genesis = Ok () \<longleftrightarrow>
     (\<forall>k < length es.
        ce_sequence (es ! k) = of_nat k + 1
        \<and> ce_previous_hash (es ! k) = (if k = 0 then unwrap_or genesis GENESIS_HASH else ce_hash (es ! (k - 1)))
        \<and> (\<exists>bytes. to_json (ce_event (es ! k)) = Some bytes
              \<and> ce_hash (es ! k) = compute_hash blake3 (of_nat k + 1) bytes (ce_previous_hash (es ! k))))"
proof -
  have prev: "last_hash_of g (take k es) = (if k = 0 then g else ce_hash (es ! (k - 1)))" if "k < length es" for k g
    using that by (cases k) (auto simp: last_hash_of_def take_Suc_conv_app_nth)
  have hash: "compute_event_hash blake3 to_json s e p = Ok h \<longleftrightarrow>
      (\<exists>bytes. to_json e = Some bytes \<and> h = compute_hash blake3 s bytes p)" for s e p h
    by (auto simp: compute_event_hash_def split: option.splits)
  have link: "chain_link blake3 to_json k g e \<longleftrightarrow> ce_sequence e = of_nat k + 1 \<and> ce_previous_hash e = g
      \<and> (\<exists>bytes. to_json (ce_event e) = Some bytes
            \<and> ce_hash e = compute_hash blake3 (of_nat k + 1) bytes (ce_previous_hash e))" for k g e
    unfolding chain_link_def hash by blast
  show ?thesis
    unfolding verify_chain_def verify_chain_from_iff
    by (intro all_cong1 imp_cong [OF refl]) (simp only: add_0 prev link)
qed

theorem verify_chain_documented_conditions_witness:
  "verify_chain (\<lambda>_. replicate 64 (CHR ''7'')) (\<lambda>_. Some []) [example_event] (Some ''seed'') = Ok ()"
  using verify_chain_documented_conditions
    [of "\<lambda>_. replicate 64 (CHR ''7'')" "\<lambda>_. Some []" "[example_event]" "Some ''seed''"]
  by (simp add: example_event_def compute_hash_def)

end
