(* ===== verification/Control_Storage.thy ===== *)
theory Control_Storage
  imports Audit_Log Auth_Replay
begin

text \<open>
  \<open>apps/nexusd/src/storage\<close>, \<open>config.rs\<close> and \<open>migrations/0001_control_plane_foundation.sql\<close>: the tables of
  the control plane and the transactions on them.  A table is a finite map from its primary key to its
  rows.  A statement fails when it violates a primary or foreign key, or when the database driver says so:
  \<open>f\<close> is the set of statements that the driver fails.  A transaction that does not commit leaves the
  database unchanged.  \<open>serde_json\<close> is the argument \<open>sj\<close>.
\<close>

section \<open>Configuration and errors\<close>

datatype DatabaseDriver = Sqlite | Postgres

record DatabaseConfig =
  dbc_driver :: DatabaseDriver
  dbc_url :: string
  dbc_max_connections :: u32

datatype StorageError =
    St_UnsupportedDriver string
  | St_InvalidConfig string
  | St_Database
  | St_Migration
  | St_CorruptRow ErrText
  | St_Serialization

definition DatabaseConfig_sqlite :: "string \<Rightarrow> DatabaseConfig" where
  "DatabaseConfig_sqlite url = \<lparr>dbc_driver = Sqlite, dbc_url = url, dbc_max_connections = 4\<rparr>"

definition DatabaseConfig_validate :: "DatabaseConfig \<Rightarrow> (unit, StorageError) result" where
  "DatabaseConfig_validate c =
     (if dbc_max_connections c = 0 then Err (St_InvalidConfig ''max_connections must be positive'')
      else if trim (dbc_url c) = [] then Err (St_InvalidConfig ''url must not be empty'')
      else Ok ())"

section \<open>Tables\<close>

record token_row =
  tr_organization_id :: string
  tr_token_json :: string
  tr_not_before :: int
  tr_expires_at :: int
  tr_max_uses :: int
  tr_uses_count :: int

record device_row =
  dr_organization_id :: string
  dr_hostname :: string
  dr_os :: string
  dr_os_version :: string
  dr_architecture :: string
  dr_agent_version :: string
  dr_public_key :: bytes
  dr_status :: string
  dr_capabilities_json :: string
  dr_created_at :: int

record credential_row =
  cr_organization_id :: string
  cr_credential_json :: string
  cr_issued_at :: int
  cr_expires_at :: int
  cr_public_key :: bytes

record session_row =
  sn_organization_id :: string
  sn_user_id :: string
  sn_client_device_id :: string
  sn_target_device_id :: string
  sn_status :: string
  sn_connection_mode :: string
  sn_relay_id :: string
  sn_created_at :: int
  sn_policy_snapshot_json :: string

record audit_row =
  ar_organization_id :: string
  ar_user_id :: "string option"
  ar_device_id :: "string option"
  ar_session_id :: "string option"
  ar_event_type :: string
  ar_sequence :: int
  ar_event_json :: string
  ar_previous_hash :: bytes
  ar_hash :: bytes
  ar_timestamp :: int

record Database =
  organizations :: "(string, int) hashmap"
  enrollment_tokens :: "(string, token_row) hashmap"
  devices :: "(string, device_row) hashmap"
  device_credentials :: "(string, credential_row) hashmap"
  sessions :: "(string, session_row) hashmap"
  audit_events :: "(string, audit_row) hashmap"

definition Database_empty :: Database where
  "Database_empty =
     \<lparr>organizations = [], enrollment_tokens = [], devices = [], device_credentials = [], sessions = [],
      audit_events = []\<rparr>"

text \<open>Opening the pool and running the migrations are calls of the database package.\<close>

definition SqliteStorage_connect ::
  "(string \<Rightarrow> u32 \<Rightarrow> Database option) \<Rightarrow> (Database \<Rightarrow> Database option) \<Rightarrow> DatabaseConfig \<Rightarrow> (Database, StorageError) result" where
  "SqliteStorage_connect open_pool migrate config =
     (case DatabaseConfig_validate config of
        Err e \<Rightarrow> Err e
      | Ok _ \<Rightarrow>
     (if dbc_driver config \<noteq> Sqlite then Err (St_UnsupportedDriver ''postgres'') else
     (case open_pool (dbc_url config) (dbc_max_connections config) of
        None \<Rightarrow> Err St_Database
      | Some pool \<Rightarrow> (case migrate pool of None \<Rightarrow> Err St_Migration | Some db \<Rightarrow> Ok db))))"

text \<open>The places where the driver can fail; \<open>S_busy\<close> is the error code 5 on the update.\<close>

datatype stmt =
    S_begin | S_select | S_organization | S_token | S_busy | S_update | S_device | S_credential
  | S_session | S_audit | S_commit

type_synonym faults = "stmt set"

record 'j serde =
  sj_token :: "EnrollmentToken \<Rightarrow> string option"
  sj_token_parse :: "string \<Rightarrow> EnrollmentToken option"
  sj_credential :: "DeviceCredential \<Rightarrow> string option"
  sj_credential_parse :: "string \<Rightarrow> DeviceCredential option"
  sj_strings :: "string list \<Rightarrow> string option"
  sj_strings_parse :: "string \<Rightarrow> string list option"
  sj_event :: "'j AuditEvent \<Rightarrow> string option"
  sj_event_parse :: "string \<Rightarrow> 'j AuditEvent option"

text \<open>\<open>INSERT INTO organizations .. ON CONFLICT(id) DO NOTHING\<close>, with its bound value.\<close>

definition insert_organization :: "faults \<Rightarrow> string \<Rightarrow> UnixTimestamp \<Rightarrow> string \<Rightarrow> Database \<Rightarrow> (Database, StorageError) result" where
  "insert_organization f org at field db =
     (case i64_try_from (as_secs at) of
        None \<Rightarrow> Err (St_CorruptRow (Text field))
      | Some t \<Rightarrow>
          if S_organization \<in> f then Err St_Database
          else Ok (if hm_contains (organizations db) org then db
                   else db\<lparr>organizations := hm_insert org t (organizations db)\<rparr>))"

section \<open>Enrollment\<close>

definition store_enrollment_token_body ::
  "'j serde \<Rightarrow> faults \<Rightarrow> EnrollmentToken \<Rightarrow> Database \<Rightarrow> (Database, StorageError) result" where
  "store_enrollment_token_body sj f token db =
     (case sj_token sj token of
        None \<Rightarrow> Err St_Serialization
      | Some json \<Rightarrow>
     (if S_begin \<in> f then Err St_Database else
     (case insert_organization f (id_as_str (et_organization_id token)) (et_not_before token) ''not_before'' db of
        Err e \<Rightarrow> Err e
      | Ok db1 \<Rightarrow>
     (case i64_try_from (as_secs (et_not_before token)) of
        None \<Rightarrow> Err (St_CorruptRow (Text ''not_before''))
      | Some nb \<Rightarrow>
     (case i64_try_from (as_secs (et_expires_at token)) of
        None \<Rightarrow> Err (St_CorruptRow (Text ''expires_at''))
      | Some ex \<Rightarrow>
          if S_token \<in> f \<or> S_commit \<in> f then Err St_Database
          else Ok (db1\<lparr>enrollment_tokens :=
                 hm_insert (et_token_id token)
                   \<lparr>tr_organization_id = id_as_str (et_organization_id token), tr_token_json = json,
                    tr_not_before = nb, tr_expires_at = ex, tr_max_uses = int (unat (et_max_uses token)),
                    tr_uses_count = 0\<rparr>
                   (enrollment_tokens db1)\<rparr>))))))"

definition commit :: "Database \<Rightarrow> (Database, 'e) result \<Rightarrow> Database \<times> (unit, 'e) result" where
  "commit db r = (case r of Ok db' \<Rightarrow> (db', Ok ()) | Err e \<Rightarrow> (db, Err e))"

definition store_enrollment_token ::
  "'j serde \<Rightarrow> faults \<Rightarrow> EnrollmentToken \<Rightarrow> Database \<Rightarrow> Database \<times> (unit, StorageError) result" where
  "store_enrollment_token sj f token db = commit db (store_enrollment_token_body sj f token db)"

datatype EnrollmentError =
    EnrErr_NotFound string
  | EnrErr_Expired UnixTimestamp UnixTimestamp
  | EnrErr_NotYetActive UnixTimestamp UnixTimestamp
  | EnrErr_Exhausted string u32 u32
  | EnrErr_Storage StorageError

record RegisteredDevice =
  rd_credential :: DeviceCredential
  rd_hostname :: string
  rd_agent_version :: string
  rd_enrolled_at :: UnixTimestamp
  rd_is_active :: bool

text \<open>The checks of \<open>enroll_device\<close> on the row of the token, up to its update.\<close>

definition check_token_row ::
  "'j serde \<Rightarrow> string \<Rightarrow> UnixTimestamp \<Rightarrow> token_row \<Rightarrow> (EnrollmentToken \<times> u32 \<times> u32, EnrollmentError) result" where
  "check_token_row sj token_id now row =
     (case sj_token_parse sj (tr_token_json row) of
        None \<Rightarrow> Err (EnrErr_Storage (St_CorruptRow (PackageText ''token_json: '')))
      | Some token \<Rightarrow>
     (case u64_try_from (tr_not_before row) of
        None \<Rightarrow> Err (EnrErr_Storage (St_CorruptRow (Text ''not_before'')))
      | Some nb \<Rightarrow>
     (case u64_try_from (tr_expires_at row) of
        None \<Rightarrow> Err (EnrErr_Storage (St_CorruptRow (Text ''expires_at'')))
      | Some ex \<Rightarrow>
     (case u32_try_from (tr_uses_count row) of
        None \<Rightarrow> Err (EnrErr_Storage (St_CorruptRow (Text ''uses_count'')))
      | Some uses \<Rightarrow>
     (case u32_try_from (tr_max_uses row) of
        None \<Rightarrow> Err (EnrErr_Storage (St_CorruptRow (Text ''max_uses'')))
      | Some mx \<Rightarrow>
          if now < from_secs nb then Err (EnrErr_NotYetActive (from_secs nb) now)
          else if now > from_secs ex then Err (EnrErr_Expired (from_secs ex) now)
          else if uses \<ge> mx then Err (EnrErr_Exhausted token_id uses mx)
          else Ok (token, uses, mx))))))"

text \<open>The rows that an enrollment inserts, with their keys.\<close>

definition insert_device ::
  "'j serde \<Rightarrow> faults \<Rightarrow> RegisteredDevice \<Rightarrow> Database \<Rightarrow> (Database, EnrollmentError) result" where
  "insert_device sj f device db =
     (let cred = rd_credential device; id = id_as_str (dc_device_id cred); org = id_as_str (dc_organization_id cred) in
      case sj_credential sj cred of
        None \<Rightarrow> Err (EnrErr_Storage St_Serialization)
      | Some cred_json \<Rightarrow>
     (case insert_organization f org (rd_enrolled_at device) ''enrolled_at'' db of
        Err e \<Rightarrow> Err (EnrErr_Storage e)
      | Ok db1 \<Rightarrow>
     (case sj_strings sj (dc_capabilities cred) of
        None \<Rightarrow> Err (EnrErr_Storage St_Serialization)
      | Some caps \<Rightarrow>
     (case i64_try_from (as_secs (rd_enrolled_at device)) of
        None \<Rightarrow> Err (EnrErr_Storage (St_CorruptRow (Text ''enrolled_at'')))
      | Some created \<Rightarrow>
          if S_device \<in> f \<or> hm_contains (devices db1) id then Err (EnrErr_Storage St_Database)
          else
     (case i64_try_from (as_secs (dc_issued_at cred)) of
        None \<Rightarrow> Err (EnrErr_Storage (St_CorruptRow (Text ''issued_at'')))
      | Some issued \<Rightarrow>
     (case i64_try_from (as_secs (dc_expires_at cred)) of
        None \<Rightarrow> Err (EnrErr_Storage (St_CorruptRow (Text ''expires_at'')))
      | Some expires \<Rightarrow>
          if S_credential \<in> f \<or> S_commit \<in> f \<or> hm_contains (device_credentials db1) id
          then Err (EnrErr_Storage St_Database)
          else Ok (db1\<lparr>devices := hm_insert id
                        \<lparr>dr_organization_id = org, dr_hostname = rd_hostname device, dr_os = dc_os cred,
                         dr_os_version = [], dr_architecture = dc_architecture cred,
                         dr_agent_version = rd_agent_version device, dr_public_key = dc_public_key cred,
                         dr_status = (if rd_is_active device then ''active'' else ''revoked''),
                         dr_capabilities_json = caps, dr_created_at = created\<rparr> (devices db1),
                      device_credentials := hm_insert id
                        \<lparr>cr_organization_id = org, cr_credential_json = cred_json, cr_issued_at = issued,
                         cr_expires_at = expires, cr_public_key = dc_public_key cred\<rparr>
                        (device_credentials db1)\<rparr>)))))))"

definition enroll_device_body ::
  "'j serde \<Rightarrow> faults \<Rightarrow> string \<Rightarrow> UnixTimestamp \<Rightarrow> RegisteredDevice \<Rightarrow> Database
     \<Rightarrow> (Database \<times> EnrollmentToken, EnrollmentError) result" where
  "enroll_device_body sj f token_id now device db =
     (if S_begin \<in> f \<or> S_select \<in> f then Err (EnrErr_Storage St_Database) else
     (case hm_get (enrollment_tokens db) token_id of
        None \<Rightarrow> Err (EnrErr_NotFound token_id)
      | Some row \<Rightarrow>
     (case check_token_row sj token_id now row of
        Err e \<Rightarrow> Err e
      | Ok (token, uses, mx) \<Rightarrow>
     (case i64_try_from (as_secs now) of
        None \<Rightarrow> Err (EnrErr_Storage (St_CorruptRow (Text ''current_time'')))
      | Some now_db \<Rightarrow>
          if S_busy \<in> f then Err (EnrErr_Exhausted token_id uses mx)
          else if S_update \<in> f then Err (EnrErr_Storage St_Database)
          else if \<not> (tr_uses_count row < tr_max_uses row \<and> tr_expires_at row \<ge> now_db)
            then Err (EnrErr_Exhausted token_id uses mx)
          else if dc_organization_id (rd_credential device) \<noteq> et_organization_id token
            then Err (EnrErr_Storage (St_CorruptRow (Text ''organization_id mismatch'')))
          else
            (let db1 = db\<lparr>enrollment_tokens :=
                           hm_insert token_id (row\<lparr>tr_uses_count := tr_uses_count row + 1\<rparr>) (enrollment_tokens db)\<rparr> in
             case insert_device sj f device db1 of
               Err e \<Rightarrow> Err e
             | Ok db2 \<Rightarrow> Ok (db2, token))))))"

definition enroll_device ::
  "'j serde \<Rightarrow> faults \<Rightarrow> string \<Rightarrow> UnixTimestamp \<Rightarrow> RegisteredDevice \<Rightarrow> Database
     \<Rightarrow> Database \<times> (EnrollmentToken, EnrollmentError) result" where
  "enroll_device sj f token_id now device db =
     (case enroll_device_body sj f token_id now device db of
        Ok (db', token) \<Rightarrow> (db', Ok token)
      | Err e \<Rightarrow> (db, Err e))"

section \<open>Devices\<close>

definition corrupt_id :: "string \<Rightarrow> (Id, IdError) result \<Rightarrow> (Id, StorageError) result" where
  "corrupt_id field r = (case r of Ok i \<Rightarrow> Ok i | Err _ \<Rightarrow> Err (St_CorruptRow (PackageText field)))"

definition device_from_row ::
  "'j serde \<Rightarrow> string \<Rightarrow> device_row \<Rightarrow> credential_row \<Rightarrow> (RegisteredDevice, StorageError) result" where
  "device_from_row sj row_id row crow =
     (case corrupt_id ''device_id: '' (Id_new row_id) of
        Err e \<Rightarrow> Err e
      | Ok device_id \<Rightarrow>
     (case corrupt_id ''organization_id: '' (Id_new (dr_organization_id row)) of
        Err e \<Rightarrow> Err e
      | Ok organization_id \<Rightarrow>
     (case sj_credential_parse sj (cr_credential_json crow) of
        None \<Rightarrow> Err (St_CorruptRow (PackageText ''credential_json: ''))
      | Some credential \<Rightarrow>
          if dc_device_id credential \<noteq> device_id then Err (St_CorruptRow (Text ''credential.device_id''))
          else if dc_organization_id credential \<noteq> organization_id
            then Err (St_CorruptRow (Text ''credential.organization_id''))
          else
     (case u64_try_from (dr_created_at row) of
        None \<Rightarrow> Err (St_CorruptRow (Text ''created_at''))
      | Some enrolled_at \<Rightarrow>
          if dr_status row \<noteq> ''active'' \<and> dr_status row \<noteq> ''revoked'' then Err (St_CorruptRow (Text ''status''))
          else Ok \<lparr>rd_credential = credential, rd_hostname = dr_hostname row,
                   rd_agent_version = dr_agent_version row, rd_enrolled_at = from_secs enrolled_at,
                   rd_is_active = (dr_status row = ''active'')\<rparr>))))"

text \<open>The join of \<open>devices\<close> and \<open>device_credentials\<close> on the device identifier.\<close>

definition get_device ::
  "'j serde \<Rightarrow> faults \<Rightarrow> Id \<Rightarrow> Database \<Rightarrow> (RegisteredDevice option, StorageError) result" where
  "get_device sj f device_id db =
     (if S_select \<in> f then Err St_Database
      else
        (case hm_get (devices db) (id_as_str device_id) of
           None \<Rightarrow> Ok None
         | Some row \<Rightarrow>
             (case hm_get (device_credentials db) (id_as_str device_id) of
                None \<Rightarrow> Ok None
              | Some crow \<Rightarrow>
                  (case device_from_row sj (id_as_str device_id) row crow of
                     Ok d \<Rightarrow> Ok (Some d) | Err e \<Rightarrow> Err e))))"

fun collect_ok :: "('a \<Rightarrow> ('b, 'e) result) \<Rightarrow> 'a list \<Rightarrow> ('b list, 'e) result" where
  "collect_ok g [] = Ok []"
| "collect_ok g (x # xs) =
     (case g x of Err e \<Rightarrow> Err e
      | Ok y \<Rightarrow> (case collect_ok g xs of Err e \<Rightarrow> Err e | Ok ys \<Rightarrow> Ok (y # ys)))"

text \<open>Rows in the order of a text key: the bytes of the key, compared from the left.\<close>

fun text_le :: "string \<Rightarrow> string \<Rightarrow> bool" where
  "text_le [] t = True"
| "text_le (c # s) [] = False"
| "text_le (c # s) (d # t) =
     ((of_char c :: nat) < of_char d \<or> ((of_char c :: nat) = of_char d \<and> text_le s t))"

fun insert_by :: "('a \<Rightarrow> 'a \<Rightarrow> bool) \<Rightarrow> 'a \<Rightarrow> 'a list \<Rightarrow> 'a list" where
  "insert_by le x [] = [x]"
| "insert_by le x (y # ys) = (if le x y then x # y # ys else y # insert_by le x ys)"

definition order_by :: "('a \<Rightarrow> 'a \<Rightarrow> bool) \<Rightarrow> 'a list \<Rightarrow> 'a list" where
  "order_by le xs = foldr (insert_by le) xs []"

definition list_devices ::
  "'j serde \<Rightarrow> faults \<Rightarrow> Id \<Rightarrow> Database \<Rightarrow> (RegisteredDevice list, StorageError) result" where
  "list_devices sj f organization_id db =
     (if S_select \<in> f then Err St_Database
      else
        collect_ok (\<lambda>(id, row, crow). device_from_row sj id row crow)
          (order_by (\<lambda>x y. text_le (fst x) (fst y))
            (List.map_filter
              (\<lambda>(id, row). if dr_organization_id row = id_as_str organization_id
                 then map_option (\<lambda>crow. (id, row, crow)) (hm_get (device_credentials db) id) else None)
              (devices db))))"

definition count_devices :: "faults \<Rightarrow> Database \<Rightarrow> (nat, StorageError) result" where
  "count_devices f db = (if S_select \<in> f then Err St_Database else Ok (length (devices db)))"

section \<open>Sessions\<close>

record AuthorizedSessionRecord =
  as_session :: Id
  as_organization_id :: Id
  as_user_id :: Id
  as_client_device_id :: Id
  as_target_device :: Id
  as_relay_id :: string
  as_permissions :: "string list"
  as_created_at :: UnixTimestamp
  as_status :: string

definition insert_session_body ::
  "'j serde \<Rightarrow> faults \<Rightarrow> AuthorizedSessionRecord \<Rightarrow> Database \<Rightarrow> (Database, StorageError) result" where
  "insert_session_body sj f r db =
     (if as_status r \<noteq> ''authorized'' then Err (St_CorruptRow (Text ''session status must be authorized'')) else
     (case sj_strings sj (as_permissions r) of
        None \<Rightarrow> Err St_Serialization
      | Some policy \<Rightarrow>
     (if S_begin \<in> f then Err St_Database else
     (case insert_organization f (id_as_str (as_organization_id r)) (as_created_at r) ''created_at'' db of
        Err e \<Rightarrow> Err e
      | Ok db1 \<Rightarrow>
     (case i64_try_from (as_secs (as_created_at r)) of
        None \<Rightarrow> Err (St_CorruptRow (Text ''created_at''))
      | Some created \<Rightarrow>
          if S_session \<in> f \<or> S_commit \<in> f \<or> hm_contains (sessions db1) (id_as_str (as_session r))
             \<or> \<not> hm_contains (devices db1) (id_as_str (as_target_device r))
          then Err St_Database
          else Ok (db1\<lparr>sessions := hm_insert (id_as_str (as_session r))
                 \<lparr>sn_organization_id = id_as_str (as_organization_id r), sn_user_id = id_as_str (as_user_id r),
                  sn_client_device_id = id_as_str (as_client_device_id r),
                  sn_target_device_id = id_as_str (as_target_device r), sn_status = ''authorized'',
                  sn_connection_mode = ''relay'', sn_relay_id = as_relay_id r, sn_created_at = created,
                  sn_policy_snapshot_json = policy\<rparr> (sessions db1)\<rparr>))))))"

definition insert_authorized_session ::
  "'j serde \<Rightarrow> faults \<Rightarrow> AuthorizedSessionRecord \<Rightarrow> Database \<Rightarrow> Database \<times> (unit, StorageError) result" where
  "insert_authorized_session sj f r db = commit db (insert_session_body sj f r db)"

definition get_session_record ::
  "'j serde \<Rightarrow> faults \<Rightarrow> Id \<Rightarrow> Database \<Rightarrow> (AuthorizedSessionRecord option, StorageError) result" where
  "get_session_record sj f session_id db =
     (if S_select \<in> f then Err St_Database else
     (case hm_get (sessions db) (id_as_str session_id) of
        None \<Rightarrow> Ok None
      | Some row \<Rightarrow>
     (case corrupt_id [] (Id_new (id_as_str session_id)) of
        Err e \<Rightarrow> Err e
      | Ok sid \<Rightarrow>
     (case corrupt_id [] (Id_new (sn_organization_id row)) of
        Err e \<Rightarrow> Err e
      | Ok org \<Rightarrow>
     (case corrupt_id [] (Id_new (sn_user_id row)) of
        Err e \<Rightarrow> Err e
      | Ok user \<Rightarrow>
     (case corrupt_id [] (Id_new (sn_client_device_id row)) of
        Err e \<Rightarrow> Err e
      | Ok client \<Rightarrow>
     (case corrupt_id [] (Id_new (sn_target_device_id row)) of
        Err e \<Rightarrow> Err e
      | Ok target \<Rightarrow>
          if sn_status row \<noteq> ''authorized'' then Err (St_CorruptRow (Text ''status''))
          else if sn_connection_mode row \<noteq> ''relay'' then Err (St_CorruptRow (Text ''connection_mode''))
          else
     (case u64_try_from (sn_created_at row) of
        None \<Rightarrow> Err (St_CorruptRow (Text ''created_at''))
      | Some created \<Rightarrow>
     (case sj_strings_parse sj (sn_policy_snapshot_json row) of
        None \<Rightarrow> Err (St_CorruptRow (PackageText ''permissions: ''))
      | Some permissions \<Rightarrow>
          Ok (Some \<lparr>as_session = sid, as_organization_id = org, as_user_id = user, as_client_device_id = client,
                    as_target_device = target, as_relay_id = sn_relay_id row, as_permissions = permissions,
                    as_created_at = from_secs created, as_status = sn_status row\<rparr>))))))))))"

section \<open>Audit events\<close>

definition insert_audit_body ::
  "'j serde \<Rightarrow> faults \<Rightarrow> 'j ChainedAuditEvent \<Rightarrow> Database \<Rightarrow> (Database, StorageError) result" where
  "insert_audit_body sj f chained db =
     (let event = ce_event chained in
      case sj_event sj event of
        None \<Rightarrow> Err St_Serialization
      | Some json \<Rightarrow>
     (if S_begin \<in> f then Err St_Database else
     (case insert_organization f (id_as_str (ae_organization_id event)) (ae_timestamp event) ''timestamp'' db of
        Err e \<Rightarrow> Err e
      | Ok db1 \<Rightarrow>
     (case i64_try_from (ce_sequence chained) of
        None \<Rightarrow> Err (St_CorruptRow (Text ''sequence''))
      | Some sequence \<Rightarrow>
     (case i64_try_from (as_secs (ae_timestamp event)) of
        None \<Rightarrow> Err (St_CorruptRow (Text ''timestamp''))
      | Some timestamp \<Rightarrow>
          if S_audit \<in> f \<or> S_commit \<in> f \<or> hm_contains (audit_events db1) (ae_event_id event)
             \<or> (case ae_device_id event of None \<Rightarrow> False | Some d \<Rightarrow> \<not> hm_contains (devices db1) (id_as_str d))
             \<or> (case ae_session_id event of None \<Rightarrow> False | Some d \<Rightarrow> \<not> hm_contains (sessions db1) (id_as_str d))
          then Err St_Database
          else Ok (db1\<lparr>audit_events := hm_insert (ae_event_id event)
                 \<lparr>ar_organization_id = id_as_str (ae_organization_id event),
                  ar_user_id = map_option id_as_str (ae_user_id event),
                  ar_device_id = map_option id_as_str (ae_device_id event),
                  ar_session_id = map_option id_as_str (ae_session_id event),
                  ar_event_type = AuditEventType_as_str (ae_event_type event), ar_sequence = sequence,
                  ar_event_json = json, ar_previous_hash = as_bytes (ce_previous_hash chained),
                  ar_hash = as_bytes (ce_hash chained), ar_timestamp = timestamp\<rparr>
                 (audit_events db1)\<rparr>))))))"

definition insert_audit_event ::
  "'j serde \<Rightarrow> faults \<Rightarrow> 'j ChainedAuditEvent \<Rightarrow> Database \<Rightarrow> Database \<times> (unit, StorageError) result" where
  "insert_audit_event sj f chained db = commit db (insert_audit_body sj f chained db)"

definition audit_from_row ::
  "'j serde \<Rightarrow> Id \<Rightarrow> string \<Rightarrow> audit_row \<Rightarrow> ('j ChainedAuditEvent, StorageError) result" where
  "audit_from_row sj organization_id event_id row =
     (case u64_try_from (ar_sequence row) of
        None \<Rightarrow> Err (St_CorruptRow (Text ''sequence''))
      | Some seq \<Rightarrow>
     (case sj_event_parse sj (ar_event_json row) of
        None \<Rightarrow> Err (St_CorruptRow (PackageText ''event_json: ''))
      | Some event \<Rightarrow>
          if ae_event_id event \<noteq> event_id \<or> ae_organization_id event \<noteq> organization_id
            then Err (St_CorruptRow (Text ''event columns inconsistent''))
          else
     (case u64_try_from (ar_timestamp row) of
        None \<Rightarrow> Err (St_CorruptRow (Text ''timestamp''))
      | Some stored_ts \<Rightarrow>
          if as_secs (ae_timestamp event) \<noteq> stored_ts then Err (St_CorruptRow (Text ''timestamp/organization_id''))
          else if ar_user_id row \<noteq> map_option id_as_str (ae_user_id event) then Err (St_CorruptRow (Text ''user_id''))
          else if ar_device_id row \<noteq> map_option id_as_str (ae_device_id event) then Err (St_CorruptRow (Text ''device_id''))
          else if ar_session_id row \<noteq> map_option id_as_str (ae_session_id event) then Err (St_CorruptRow (Text ''session_id''))
          else
     (case AuditEventType_from_str (ar_event_type row) of
        Err _ \<Rightarrow> Err (St_CorruptRow (PackageText []))
      | Ok et \<Rightarrow>
          if ae_event_type event \<noteq> et then Err (St_CorruptRow (Text ''event_type''))
          else
     (case from_utf8 (ar_previous_hash row) of
        None \<Rightarrow> Err (St_CorruptRow (PackageText []))
      | Some prev \<Rightarrow>
     (case from_utf8 (ar_hash row) of
        None \<Rightarrow> Err (St_CorruptRow (PackageText []))
      | Some hash \<Rightarrow> Ok \<lparr>ce_sequence = seq, ce_event = event, ce_previous_hash = prev, ce_hash = hash\<rparr>))))))"

definition list_audit_events ::
  "'j serde \<Rightarrow> faults \<Rightarrow> Id \<Rightarrow> Database \<Rightarrow> ('j ChainedAuditEvent list, StorageError) result" where
  "list_audit_events sj f organization_id db =
     (if S_select \<in> f then Err St_Database
      else
        collect_ok (\<lambda>(event_id, row). audit_from_row sj organization_id event_id row)
          (order_by (\<lambda>x y. ar_sequence (snd x) \<le> ar_sequence (snd y))
            (filter (\<lambda>(event_id, row). ar_organization_id row = id_as_str organization_id) (audit_events db))))"

section \<open>Laws\<close>

lemma from_utf8_as_bytes:
  assumes "utf8_valid (as_bytes s)"
  shows "from_utf8 (as_bytes s) = Some s"
proof -
  have "char_of (unat (of_char c :: u8)) = c" for c
    by (simp add: unat_of_nat flip: of_nat_of_char [where 'a = u8])
  then have "map (\<lambda>b. char_of (unat b)) (as_bytes s) = s" by (induction s) (simp_all add: as_bytes_def)
  with assms show ?thesis by (simp add: from_utf8_def)
qed

lemma commit_fail: "snd (commit db r) = Err e \<Longrightarrow> fst (commit db r) = db"
  by (cases r) (simp_all add: commit_def)

lemma insert_organization_Ok:
  assumes "insert_organization f org at field db = Ok db'"
  obtains orgs where "db' = db\<lparr>organizations := orgs\<rparr>"
proof -
  from assms have "db' = db \<or> (\<exists>orgs. db' = db\<lparr>organizations := orgs\<rparr>)"
    by (auto simp: insert_organization_def split: option.splits if_splits)
  then show ?thesis
  proof
    assume "db' = db"
    then show ?thesis by (intro that [of "organizations db"]) simp
  qed (auto intro: that)
qed

text \<open>What a successful insertion of a device changes: the device was not there, now it is.\<close>

lemma insert_device_Ok:
  assumes "insert_device sj f device db = Ok db'"
  shows "\<not> hm_contains (devices db) (id_as_str (dc_device_id (rd_credential device)))"
    and "hm_contains (devices db') (id_as_str (dc_device_id (rd_credential device)))"
    and "enrollment_tokens db' = enrollment_tokens db"
    and "\<And>id. hm_contains (devices db) id \<Longrightarrow> hm_contains (devices db') id"
proof (atomize (full), goal_cases)
  case 1
  show ?case
    using assms unfolding insert_device_def Let_def
    by (auto split: option.splits result.splits if_splits elim!: insert_organization_Ok simp: hm_contains_insert)
qed

lemma enroll_device_cases:
  obtains (err) e where "enroll_device sj f tid now device db = (db, Err e)"
  | (ok) row db' token where
      "enroll_device sj f tid now device db = (db', Ok token)"
      "hm_get (enrollment_tokens db) tid = Some row" "tr_uses_count row < tr_max_uses row"
      "enrollment_tokens db' = hm_insert tid (row\<lparr>tr_uses_count := tr_uses_count row + 1\<rparr>) (enrollment_tokens db)"
      "\<not> hm_contains (devices db) (id_as_str (dc_device_id (rd_credential device)))"
      "hm_contains (devices db') (id_as_str (dc_device_id (rd_credential device)))"
      "\<And>id. hm_contains (devices db) id \<Longrightarrow> hm_contains (devices db') id"
proof (cases "enroll_device_body sj f tid now device db")
  case (Err e)
  then show ?thesis by (intro err [of e]) (simp add: enroll_device_def)
next
  case (Ok x)
  obtain db' token where x: "x = (db', token)" by fastforce
  from Ok obtain row where row: "hm_get (enrollment_tokens db) tid = Some row"
      "tr_uses_count row < tr_max_uses row"
      "insert_device sj f device (db\<lparr>enrollment_tokens :=
         hm_insert tid (row\<lparr>tr_uses_count := tr_uses_count row + 1\<rparr>) (enrollment_tokens db)\<rparr>) = Ok db'"
    unfolding enroll_device_body_def x Let_def
    by (auto split: option.splits result.splits if_splits prod.splits)
  with insert_device_Ok [OF row(3)] show ?thesis
    by (intro ok [of db' token row]) (simp_all add: enroll_device_def Ok x)
qed

text \<open>A sequence of enrollments, each with the statements the driver fails in it.\<close>

type_synonym enroll_call = "faults \<times> string \<times> UnixTimestamp \<times> RegisteredDevice"

definition enroll_step ::
  "'j serde \<Rightarrow> Database \<Rightarrow> enroll_call \<Rightarrow> Database \<times> (EnrollmentToken, EnrollmentError) result" where
  "enroll_step sj db q = (case q of (f, tid, now, device) \<Rightarrow> enroll_device sj f tid now device db)"

fun enrolled_device :: "enroll_call \<Rightarrow> (EnrollmentToken, EnrollmentError) result \<Rightarrow> string option" where
  "enrolled_device (f, tid, now, device) (Ok token) = Some (id_as_str (dc_device_id (rd_credential device)))"
| "enrolled_device _ (Err e) = None"

fun enrolled_with :: "string \<Rightarrow> enroll_call \<Rightarrow> (EnrollmentToken, EnrollmentError) result \<Rightarrow> unit option" where
  "enrolled_with tid (f, tid', now, device) (Ok token) = (if tid' = tid then Some () else None)"
| "enrolled_with tid _ (Err e) = None"

interpretation enrollments: once_guard "enroll_step sj" enrolled_device "\<lambda>db. {id. hm_contains (devices db) id}"
    "\<lambda>_. True" "\<lambda>_. True"
  for sj
proof unfold_locales
  fix db :: Database and q :: enroll_call and k
  obtain f tid now device where q: "q = (f, tid, now, device)" by (metis prod_cases4)
  have "(enrolled_device q (snd (enroll_step sj db q)) = Some k \<longrightarrow>
        k \<notin> {id. hm_contains (devices db) id} \<and> k \<in> {id. hm_contains (devices (fst (enroll_step sj db q))) id})
      \<and> {id. hm_contains (devices db) id} \<subseteq> {id. hm_contains (devices (fst (enroll_step sj db q))) id}"
    by (cases sj f tid now device db rule: enroll_device_cases) (auto simp: q enroll_step_def)
  then show "enrolled_device q (snd (enroll_step sj db q)) = Some k \<Longrightarrow> k \<notin> {id. hm_contains (devices db) id}"
    and "enrolled_device q (snd (enroll_step sj db q)) = Some k \<Longrightarrow> k \<in> {id. hm_contains (devices (fst (enroll_step sj db q))) id}"
    and "{id. hm_contains (devices db) id} \<subseteq> {id. hm_contains (devices (fst (enroll_step sj db q))) id}"
    by auto
qed simp

lemma enroll_step_uses:
  assumes "hm_get (enrollment_tokens db) tid = Some row" "tr_uses_count row \<le> tr_max_uses row"
  shows "\<exists>row'. hm_get (enrollment_tokens (fst (enroll_step sj db q))) tid = Some row'
    \<and> tr_uses_count row' = tr_uses_count row + (if enrolled_with tid q (snd (enroll_step sj db q)) = None then 0 else 1)
    \<and> tr_uses_count row' \<le> tr_max_uses row' \<and> tr_max_uses row' = tr_max_uses row"
proof -
  obtain f tid' now device where q: "q = (f, tid', now, device)" by (metis prod_cases4)
  show ?thesis
    using assms
    by (cases sj f tid' now device db rule: enroll_device_cases) (auto simp: q enroll_step_def hm_get_insert)
qed

section \<open>Properties\<close>

text \<open>
  C39: the use budget of an enrollment token.  Over any sequence of enrollments, whichever statements the
  database fails, the use counter of a stored token grows by exactly the number of enrollments that
  succeeded with it and never passes \<open>max_uses\<close>; and no two successful enrollments register the same
  device.
\<close>

theorem enrollment_budget:
  assumes "hm_get (enrollment_tokens db) tid = Some row" "tr_uses_count row \<le> tr_max_uses row"
  shows "case run_ops (enroll_step sj) db calls of (db', outs) \<Rightarrow>
    (\<exists>row'. hm_get (enrollment_tokens db') tid = Some row'
       \<and> tr_uses_count row' = tr_uses_count row + int (length (granted (enrolled_with tid) calls outs))
       \<and> tr_uses_count row' \<le> tr_max_uses row)
    \<and> distinct (granted enrolled_device calls outs)"
proof -
  have "\<exists>row'. hm_get (enrollment_tokens (fst (run_ops (enroll_step sj) db calls))) tid = Some row'
      \<and> tr_uses_count row' = tr_uses_count row + int (length (granted (enrolled_with tid) calls (snd (run_ops (enroll_step sj) db calls))))
      \<and> tr_uses_count row' \<le> tr_max_uses row"
    using assms
  proof (induction calls arbitrary: db row)
    case (Cons q calls)
    obtain row1 where row1: "hm_get (enrollment_tokens (fst (enroll_step sj db q))) tid = Some row1"
        "tr_uses_count row1 = tr_uses_count row + (if enrolled_with tid q (snd (enroll_step sj db q)) = None then 0 else 1)"
        "tr_uses_count row1 \<le> tr_max_uses row1" "tr_max_uses row1 = tr_max_uses row"
      using enroll_step_uses [OF Cons.prems, of sj q] by blast
    show ?case
      using Cons.IH [OF row1(1,3)] row1(2,4) by (auto simp del: run_ops.simps(2) split: option.splits)
  qed simp
  moreover have "distinct (granted enrolled_device calls (snd (run_ops (enroll_step sj) db calls)))"
    by (rule enrollments.granted_once) (simp_all add: list_all_iff)
  ultimately show ?thesis by (simp add: split_beta)
qed

definition example_token_row :: token_row where
  "example_token_row =
     \<lparr>tr_organization_id = ''org'', tr_token_json = ''tok'', tr_not_before = 0, tr_expires_at = 100,
      tr_max_uses = 1, tr_uses_count = 0\<rparr>"

definition example_token :: EnrollmentToken where
  "example_token =
     \<lparr>et_token_id = ''t'', et_organization_id = Id ''org'', et_device_type = Host, et_not_before = from_secs 0,
      et_expires_at = from_secs 100, et_max_uses = 1, et_signature = []\<rparr>"

definition example_serde :: "unit serde" where
  "example_serde =
     \<lparr>sj_token = (\<lambda>_. Some ''tok''), sj_token_parse = (\<lambda>_. Some example_token),
      sj_credential = (\<lambda>_. Some ''cred''), sj_credential_parse = (\<lambda>_. Some example_credential),
      sj_strings = (\<lambda>_. Some ''caps''), sj_strings_parse = (\<lambda>_. Some []),
      sj_event = (\<lambda>_. Some ''event''), sj_event_parse = (\<lambda>_. None)\<rparr>"

definition example_device :: RegisteredDevice where
  "example_device =
     \<lparr>rd_credential = example_credential, rd_hostname = ''pc'', rd_agent_version = ''1'',
      rd_enrolled_at = from_secs 5, rd_is_active = True\<rparr>"

definition example_calls :: "enroll_call list" where
  "example_calls = [({S_commit}, ''t'', from_secs 5, example_device), ({}, ''t'', from_secs 6, example_device),
                    ({}, ''t'', from_secs 7, example_device)]"

lemmas enroll_eval = enroll_step_def enroll_device_def enroll_device_body_def check_token_row_def insert_device_def
  insert_organization_def u64_try_from_def u32_try_from_def i64_try_from_def hm_get_def hm_insert_def hm_remove_def
  hm_contains_def Let_def from_secs_def less_UnixTimestamp_def Database_empty_def example_token_row_def
  example_token_def example_serde_def example_device_def example_credential_def

theorem enrollment_budget_witness:
  "case run_ops (enroll_step example_serde) (Database_empty\<lparr>enrollment_tokens := [(''t'', example_token_row)]\<rparr>) example_calls of
     (db', outs) \<Rightarrow>
       map is_ok outs = [False, True, False]
       \<and> (\<exists>row'. hm_get (enrollment_tokens db') ''t'' = Some row' \<and> tr_uses_count row' \<le> 1)
       \<and> distinct (granted enrolled_device example_calls outs)"
proof -
  let ?db = "Database_empty\<lparr>enrollment_tokens := [(''t'', example_token_row)]\<rparr>"
  have "hm_get (enrollment_tokens ?db) ''t'' = Some example_token_row"
    "tr_uses_count example_token_row \<le> tr_max_uses example_token_row" "tr_max_uses example_token_row = 1"
    by (simp_all add: hm_get_def example_token_row_def)
  moreover have "map is_ok (snd (run_ops (enroll_step example_serde) ?db example_calls)) = [False, True, False]"
    unfolding example_calls_def by (simp add: enroll_eval)
  ultimately show ?thesis
    using enrollment_budget [where db = ?db and tid = "''t''" and row = example_token_row and sj = example_serde and calls = example_calls]
    by (auto simp: split_beta simp del: run_ops.simps)
qed

end
