(* ===== verification/Relay_Token.thy ===== *)
theory Relay_Token
  imports Auth_Tokens
begin

text \<open>
  \<open>apps/nexus-relay/src/token.rs\<close>: the tokens that admit an endpoint to a relay, their canonical bytes,
  builder and verifier.
\<close>

section \<open>Model\<close>

datatype EndpointRole = Role_Client | Role_Host

fun peer :: "EndpointRole \<Rightarrow> EndpointRole" where
  "peer Role_Client = Role_Host"
| "peer Role_Host = Role_Client"

record RelayToken =
  rt_session_id :: Id
  rt_relay_id :: string
  rt_client_device_id :: Id
  rt_target_device_id :: Id
  rt_role :: EndpointRole
  rt_expires_at :: UnixTimestamp
  rt_signature :: bytes

datatype RelayTokenError =
    Rt_InvalidSignature | Rt_Expired | Rt_WrongRelay | Rt_SignatureLength | Rt_InvalidRelayId
  | Rt_MissingField string | Rt_FieldTooLong string

text \<open>The length of a field is cast to 16 bits, so it is taken modulo 65536.\<close>

definition rt_put :: "string \<Rightarrow> bytes" where
  "rt_put s = to_be 2 (of_nat (length s) :: u16) @ as_bytes s"

definition RelayToken_signing_bytes :: "RelayToken \<Rightarrow> bytes" where
  "RelayToken_signing_bytes t =
     as_bytes ''nexus-relay-token/v1'' @ [0]
     @ rt_put (id_as_str (rt_session_id t)) @ rt_put (rt_relay_id t)
     @ rt_put (id_as_str (rt_client_device_id t)) @ rt_put (id_as_str (rt_target_device_id t))
     @ [case rt_role t of Role_Client \<Rightarrow> 0 | Role_Host \<Rightarrow> 1]
     @ to_be 8 (as_secs (rt_expires_at t))"

definition RelayToken_sign :: "ed_sign \<Rightarrow> RelayToken \<Rightarrow> bytes \<Rightarrow> RelayToken" where
  "RelayToken_sign s t key = t\<lparr>rt_signature := s key (RelayToken_signing_bytes t)\<rparr>"

record RelayTokenBuilder =
  rtb_session_id :: "Id option"
  rtb_relay_id :: "string option"
  rtb_client_device_id :: "Id option"
  rtb_target_device_id :: "Id option"
  rtb_role :: "EndpointRole option"
  rtb_expires_at :: "UnixTimestamp option"

definition RelayToken_builder :: RelayTokenBuilder where
  "RelayToken_builder =
     \<lparr>rtb_session_id = None, rtb_relay_id = None, rtb_client_device_id = None, rtb_target_device_id = None,
      rtb_role = None, rtb_expires_at = None\<rparr>"

definition rtb_set_session_id where "rtb_set_session_id v b = b\<lparr>rtb_session_id := Some v\<rparr>"
definition rtb_set_relay_id where "rtb_set_relay_id v b = b\<lparr>rtb_relay_id := Some v\<rparr>"
definition rtb_set_client_device_id where "rtb_set_client_device_id v b = b\<lparr>rtb_client_device_id := Some v\<rparr>"
definition rtb_set_target_device_id where "rtb_set_target_device_id v b = b\<lparr>rtb_target_device_id := Some v\<rparr>"
definition rtb_set_role where "rtb_set_role v b = b\<lparr>rtb_role := Some v\<rparr>"
definition rtb_set_expires_at where "rtb_set_expires_at v b = b\<lparr>rtb_expires_at := Some v\<rparr>"

lemmas rtb_setters = rtb_set_session_id_def rtb_set_relay_id_def rtb_set_client_device_id_def
  rtb_set_target_device_id_def rtb_set_role_def rtb_set_expires_at_def

definition RelayTokenBuilder_build :: "RelayTokenBuilder \<Rightarrow> (RelayToken, RelayTokenError) result" where
  "RelayTokenBuilder_build b =
     (case rtb_session_id b of
        None \<Rightarrow> Err (Rt_MissingField ''session_id'')
      | Some session_id \<Rightarrow>
     (case rtb_relay_id b of
        None \<Rightarrow> Err (Rt_MissingField ''relay_id'')
      | Some relay_id \<Rightarrow>
          if relay_id = [] then Err Rt_InvalidRelayId
          else if length relay_id > 65535 then Err (Rt_FieldTooLong ''relay_id'')
          else
     (case rtb_client_device_id b of
        None \<Rightarrow> Err (Rt_MissingField ''client_device_id'')
      | Some client_device_id \<Rightarrow>
     (case rtb_target_device_id b of
        None \<Rightarrow> Err (Rt_MissingField ''target_device_id'')
      | Some target_device_id \<Rightarrow>
     (case rtb_role b of
        None \<Rightarrow> Err (Rt_MissingField ''role'')
      | Some role \<Rightarrow>
     (case rtb_expires_at b of
        None \<Rightarrow> Err (Rt_MissingField ''expires_at'')
      | Some expires_at \<Rightarrow>
          Ok \<lparr>rt_session_id = session_id, rt_relay_id = relay_id, rt_client_device_id = client_device_id,
              rt_target_device_id = target_device_id, rt_role = role, rt_expires_at = expires_at,
              rt_signature = []\<rparr>))))))"

record RelayTokenVerifier =
  rv_key :: bytes
  rv_relay_id :: string

definition RelayTokenVerifier_verify ::
  "ed_verify \<Rightarrow> RelayTokenVerifier \<Rightarrow> RelayToken \<Rightarrow> UnixTimestamp \<Rightarrow> (unit, RelayTokenError) result" where
  "RelayTokenVerifier_verify v rv token now =
     (if rt_relay_id token \<noteq> rv_relay_id rv then Err Rt_WrongRelay
      else if rt_expires_at token \<le> now then Err Rt_Expired
      else if length (rt_signature token) \<noteq> 64 then Err Rt_SignatureLength
      else if v (rv_key rv) (RelayToken_signing_bytes token) (rt_signature token) = Some True then Ok ()
      else Err Rt_InvalidSignature)"

section \<open>Laws\<close>

definition RelayToken_authentic :: "ed_verify \<Rightarrow> RelayTokenVerifier \<Rightarrow> RelayToken \<Rightarrow> bool" where
  "RelayToken_authentic v rv t \<longleftrightarrow>
     rt_relay_id t = rv_relay_id rv \<and> sig_accepted v (rv_key rv) (RelayToken_signing_bytes t) (rt_signature t)"

lemma RelayTokenVerifier_verify_iff:
  "RelayTokenVerifier_verify v rv t now = Ok () \<longleftrightarrow> now < rt_expires_at t \<and> RelayToken_authentic v rv t"
  by (auto simp: RelayTokenVerifier_verify_def RelayToken_authentic_def sig_accepted_def)

interpretation rtok: signed_document "RelayTokenVerifier_verify v rv" "\<lambda>t now. now < rt_expires_at t"
    rt_expires_at "RelayToken_authentic v rv"
  for v rv
  by unfold_locales (auto simp: RelayTokenVerifier_verify_iff)

lemma peer_peer [simp]: "peer (peer r) = r" "peer r \<noteq> r"
  by (cases r; simp)+

text \<open>A length-prefixed field can be split off when its length fits the prefix.\<close>

lemma rt_put_inject:
  assumes "length s < 65536" "length s' < 65536"
  shows "rt_put s @ r = rt_put s' @ r' \<longleftrightarrow> s = s' \<and> r = r'"
proof
  assume "rt_put s @ r = rt_put s' @ r'"
  then have "to_be 2 (of_nat (length s) :: u16) @ as_bytes s @ r = to_be 2 (of_nat (length s') :: u16) @ as_bytes s' @ r'"
    by (simp add: rt_put_def del: to_be_numeral)
  then have len: "(of_nat (length s) :: u16) = of_nat (length s')" and rest: "as_bytes s @ r = as_bytes s' @ r'"
    by (simp_all only: append_eq_same_length length_to_be to_be_inject_width)
  from len assms have "length s = length s'"
    using of_nat_small [where 'a = 16, of "length s"] of_nat_small [where 'a = 16, of "length s'"] by simp
  with rest show "s = s' \<and> r = r'" by simp
qed simp

definition rt_fields_fit :: "RelayToken \<Rightarrow> bool" where
  "rt_fields_fit t \<longleftrightarrow> length (id_as_str (rt_session_id t)) < 65536 \<and> length (rt_relay_id t) < 65536
     \<and> length (id_as_str (rt_client_device_id t)) < 65536 \<and> length (id_as_str (rt_target_device_id t)) < 65536"

lemma RelayToken_signing_bytes_inject:
  assumes "rt_fields_fit t" "rt_fields_fit t'"
  shows "RelayToken_signing_bytes t = RelayToken_signing_bytes t' \<longleftrightarrow> t\<lparr>rt_signature := []\<rparr> = t'\<lparr>rt_signature := []\<rparr>"
proof
  assume eq: "RelayToken_signing_bytes t = RelayToken_signing_bytes t'"
  note fit = assms [unfolded rt_fields_fit_def]
  have "id_as_str (rt_session_id t) = id_as_str (rt_session_id t') \<and> rt_relay_id t = rt_relay_id t'
      \<and> id_as_str (rt_client_device_id t) = id_as_str (rt_client_device_id t')
      \<and> id_as_str (rt_target_device_id t) = id_as_str (rt_target_device_id t')
      \<and> [case rt_role t of Role_Client \<Rightarrow> 0 :: u8 | Role_Host \<Rightarrow> 1] @ to_be 8 (as_secs (rt_expires_at t))
        = [case rt_role t' of Role_Client \<Rightarrow> 0 | Role_Host \<Rightarrow> 1] @ to_be 8 (as_secs (rt_expires_at t'))"
    using eq fit unfolding RelayToken_signing_bytes_def
    by (simp only: same_append_eq rt_put_inject)
  then show "t\<lparr>rt_signature := []\<rparr> = t'\<lparr>rt_signature := []\<rparr>"
    by (cases "rt_role t"; cases "rt_role t'")
      (simp_all add: to_be_inject_width Id.expand UnixTimestamp.expand del: to_be_numeral)
next
  assume "t\<lparr>rt_signature := []\<rparr> = t'\<lparr>rt_signature := []\<rparr>"
  then show "RelayToken_signing_bytes t = RelayToken_signing_bytes t'"
    by (cases t; cases t') (simp add: RelayToken_signing_bytes_def)
qed

lemma RelayToken_signing_bytes_signature [simp]:
  "RelayToken_signing_bytes (t\<lparr>rt_signature := s\<rparr>) = RelayToken_signing_bytes t"
  by (simp add: RelayToken_signing_bytes_def)

section \<open>Example\<close>

definition example_relay_token :: "EndpointRole \<Rightarrow> RelayToken" where
  "example_relay_token role =
     \<lparr>rt_session_id = Id ''s1'', rt_relay_id = ''r1'', rt_client_device_id = Id ''c1'',
      rt_target_device_id = Id ''h1'', rt_role = role, rt_expires_at = from_secs 100,
      rt_signature = replicate 64 0\<rparr>"

end
