(* ===== verification/Control_Plane.thy ===== *)
theory Control_Plane
  imports Control_Storage Policy_Engine Auth_Verifier Relay_Token
begin

text \<open>
  \<open>apps/nexusd/src/state.rs\<close> and \<open>routes.rs\<close>: the state of the control plane and its HTTP handlers.  A
  handler takes the request, the time, the random bytes it draws and the database faults of its
  transactions, and returns the new state with the answer; an answer that is not a success is a status
  code with a message.  The third-party packages are the fields of \<open>externals\<close>.
\<close>

section \<open>State\<close>

record 'j externals =
  x_sign :: ed_sign
  x_verify :: ed_verify
  x_pub :: "bytes \<Rightarrow> bytes"
  x_enrollment_json :: "CanonicalEnrollmentPayload \<Rightarrow> bytes option"
  x_credential_json :: "CanonicalCredentialPayload \<Rightarrow> bytes option"
  x_blake3 :: "bytes \<Rightarrow> string"
  x_event_json :: "'j AuditEvent \<Rightarrow> bytes option"
  x_serde :: "'j serde"
  x_proto :: "SessionCapability \<Rightarrow> bytes"
  x_null :: 'j
  x_object :: "(string \<times> string) list \<Rightarrow> 'j"

datatype StateError =
    SE_DeviceNotFound Id
  | SE_EnrollmentTokenNotFound string
  | SE_EnrollmentTokenExhausted string u32 u32
  | SE_EnrollmentTokenExpired UnixTimestamp UnixTimestamp
  | SE_EnrollmentTokenNotYetActive UnixTimestamp UnixTimestamp
  | SE_SessionNotFound Id
  | SE_Storage StorageError
  | SE_AuditSink ErrText
  | SE_AuditChain ErrText

fun StateError_from_EnrollmentError :: "EnrollmentError \<Rightarrow> StateError" where
  "StateError_from_EnrollmentError (EnrErr_NotFound tid) = SE_EnrollmentTokenNotFound tid"
| "StateError_from_EnrollmentError (EnrErr_Expired a b) = SE_EnrollmentTokenExpired a b"
| "StateError_from_EnrollmentError (EnrErr_NotYetActive a b) = SE_EnrollmentTokenNotYetActive a b"
| "StateError_from_EnrollmentError (EnrErr_Exhausted tid uses mx) = SE_EnrollmentTokenExhausted tid uses mx"
| "StateError_from_EnrollmentError (EnrErr_Storage e) = SE_Storage e"

record ('j, 'k) AppState =
  ap_signing_key :: bytes
  ap_control_plane_id :: string
  ap_default_relay_id :: string
  ap_storage :: Database
  ap_policy_engine :: PolicyEngine
  ap_audit_chain :: "'j AuditChain"
  ap_audit_sink :: 'k

type_synonym ('j, 'k) sink_fn = "'k \<Rightarrow> 'j ChainedAuditEvent \<Rightarrow> 'k \<times> (unit, SinkError) result"

definition default_policy_engine :: PolicyEngine where
  "default_policy_engine =
     add_role (Role_with_conditions PolicyConditions_default
         (Role_with_action DesktopControl (Role_with_action DesktopView (Role_new ''operator''))))
       (add_role (Role_with_conditions PolicyConditions_default (Role_with_actions ActionSet_all (Role_new ''admin'')))
         (PolicyEngine_new []))"

definition AppState_new :: "bytes \<Rightarrow> string \<Rightarrow> Database \<Rightarrow> 'k \<Rightarrow> ('j, 'k) AppState" where
  "AppState_new signing_key0 control_plane_id storage sink =
     \<lparr>ap_signing_key = signing_key0, ap_control_plane_id = control_plane_id,
      ap_default_relay_id = ''relay-nexus-primary'', ap_storage = storage,
      ap_policy_engine = default_policy_engine, ap_audit_chain = AuditChain_new None, ap_audit_sink = sink\<rparr>"

definition with_default_relay_id :: "string \<Rightarrow> ('j, 'k) AppState \<Rightarrow> ('j, 'k) AppState" where
  "with_default_relay_id relay_id st = st\<lparr>ap_default_relay_id := relay_id\<rparr>"

definition with_audit_sink :: "'k \<Rightarrow> ('j, 'k) AppState \<Rightarrow> ('j, 'k) AppState" where
  "with_audit_sink sink st = st\<lparr>ap_audit_sink := sink\<rparr>"

definition app_store_enrollment_token ::
  "'j externals \<Rightarrow> faults \<Rightarrow> EnrollmentToken \<Rightarrow> ('j, 'k) AppState \<Rightarrow> ('j, 'k) AppState \<times> (unit, StateError) result" where
  "app_store_enrollment_token x f token st =
     (case store_enrollment_token (x_serde x) f token (ap_storage st) of
        (db, r) \<Rightarrow> (st\<lparr>ap_storage := db\<rparr>, map_err SE_Storage r))"

definition app_enroll_device ::
  "'j externals \<Rightarrow> faults \<Rightarrow> string \<Rightarrow> UnixTimestamp \<Rightarrow> RegisteredDevice \<Rightarrow> ('j, 'k) AppState
     \<Rightarrow> ('j, 'k) AppState \<times> (EnrollmentToken, StateError) result" where
  "app_enroll_device x f token_id now device st =
     (case enroll_device (x_serde x) f token_id now device (ap_storage st) of
        (db, r) \<Rightarrow> (st\<lparr>ap_storage := db\<rparr>, map_err StateError_from_EnrollmentError r))"

definition app_persist_session ::
  "'j externals \<Rightarrow> faults \<Rightarrow> AuthorizedSessionRecord \<Rightarrow> ('j, 'k) AppState \<Rightarrow> ('j, 'k) AppState \<times> (unit, StateError) result" where
  "app_persist_session x f r st =
     (case insert_authorized_session (x_serde x) f r (ap_storage st) of
        (db, res) \<Rightarrow> (st\<lparr>ap_storage := db\<rparr>, map_err SE_Storage res))"

text \<open>
  \<open>record_audit\<close> in its two parts: under the lock of the chain, the event is appended; then, without the
  lock, it is stored, and the chain saved before the append is put back if that fails.
\<close>

definition audit_append ::
  "'j externals \<Rightarrow> 'j AuditEvent \<Rightarrow> ('j, 'k) AppState
     \<Rightarrow> ('j, 'k) AppState \<times> ('j AuditChain \<times> 'j ChainedAuditEvent, StateError) result" where
  "audit_append x event st =
     (case AuditChain_append (x_blake3 x) (x_event_json x) (ap_audit_chain st) event of
        (ch, Err e) \<Rightarrow> (st, Err (SE_AuditChain (PackageText [])))
      | (ch, Ok chained) \<Rightarrow> (st\<lparr>ap_audit_chain := ch\<rparr>, Ok (ap_audit_chain st, chained)))"

definition audit_store ::
  "'j externals \<Rightarrow> ('j, 'k) sink_fn \<Rightarrow> faults \<Rightarrow> 'j AuditChain \<Rightarrow> 'j ChainedAuditEvent \<Rightarrow> ('j, 'k) AppState
     \<Rightarrow> ('j, 'k) AppState \<times> (unit, StateError) result" where
  "audit_store x sink f previous chained st =
     (case insert_audit_event (x_serde x) f chained (ap_storage st) of
        (db, Err e) \<Rightarrow> (st\<lparr>ap_storage := db, ap_audit_chain := previous\<rparr>, Err (SE_Storage e))
      | (db, Ok _) \<Rightarrow>
          (case sink (ap_audit_sink st) chained of
             (k, r) \<Rightarrow>
               (st\<lparr>ap_storage := db, ap_audit_sink := k\<rparr>, map_err (\<lambda>e. SE_AuditSink (PackageText [])) r)))"

definition record_audit ::
  "'j externals \<Rightarrow> ('j, 'k) sink_fn \<Rightarrow> faults \<Rightarrow> 'j AuditEvent \<Rightarrow> ('j, 'k) AppState
     \<Rightarrow> ('j, 'k) AppState \<times> (unit, StateError) result" where
  "record_audit x sink f event st =
     (case audit_append x event st of
        (st', Err e) \<Rightarrow> (st', Err e)
      | (st', Ok (previous, chained)) \<Rightarrow> audit_store x sink f previous chained st')"

section \<open>Handlers\<close>

datatype HttpError = HttpError nat ErrText   \<comment> \<open>status code, message\<close>

definition storage_error_response :: "StateError \<Rightarrow> HttpError" where
  "storage_error_response e = HttpError 500 (Text ''control-plane storage failure'')"

fun enrollment_error_response :: "StateError \<Rightarrow> HttpError" where
  "enrollment_error_response (SE_EnrollmentTokenNotFound tid) =
     HttpError 403 (PackageText ''enrollment token cannot be consumed: '')"
| "enrollment_error_response (SE_EnrollmentTokenExhausted tid uses mx) =
     HttpError 403 (PackageText ''enrollment token cannot be consumed: '')"
| "enrollment_error_response (SE_EnrollmentTokenExpired a b) =
     HttpError 403 (PackageText ''enrollment token cannot be consumed: '')"
| "enrollment_error_response (SE_EnrollmentTokenNotYetActive a b) =
     HttpError 403 (PackageText ''enrollment token cannot be consumed: '')"
| "enrollment_error_response e = storage_error_response e"

record HealthResponse =
  hr_status :: string
  hr_version :: string
  hr_control_plane_id :: string

definition healthz_handler :: "string \<Rightarrow> ('j, 'k) AppState \<Rightarrow> HealthResponse" where
  "healthz_handler version st = \<lparr>hr_status = ''ok'', hr_version = version, hr_control_plane_id = ap_control_plane_id st\<rparr>"

text \<open>The identifier that an enrollment gives to its device.\<close>

definition device_id_string :: "EnrollmentToken \<Rightarrow> string outcome" where
  "device_id_string t =
     (case str_prefix (et_token_id t) (min (length (et_token_id t)) 8) of
        Panics \<Rightarrow> Panics
      | Returns p \<Rightarrow> Returns (''dev-'' @ DeviceType_as_str (et_device_type t) @ ''-'' @ p))"

definition issue_credential ::
  "'j externals \<Rightarrow> bytes \<Rightarrow> Id \<Rightarrow> DeviceRegistrationRequest \<Rightarrow> UnixTimestamp \<Rightarrow> (DeviceCredential, HttpError) result" where
  "issue_credential x seed device_id req now =
     (let token = rr_enrollment_token req in
      case DeviceCredentialBuilder_build
             (dcb_set_expires_at (from_secs (as_secs now + 365 * 24 * 3600))
             (dcb_set_issued_at now
             (dcb_set_capabilities [''desktop.view'', ''desktop.control'']
             (dcb_set_architecture (rr_architecture req)
             (dcb_set_os (rr_os req)
             (dcb_set_device_type (et_device_type token)
             (dcb_set_public_key (rr_device_public_key req)
             (dcb_set_organization_id (et_organization_id token)
             (dcb_set_device_id device_id DeviceCredential_builder))))))))) of
        Err e \<Rightarrow> Err (HttpError 500 (PackageText ''failed to build credential: ''))
      | Ok credential \<Rightarrow>
          map_err (\<lambda>e. HttpError 500 (PackageText ''failed to sign credential: ''))
            (DeviceCredential_sign (x_credential_json x) (x_sign x) credential seed))"

definition enrollment_event :: "'j externals \<Rightarrow> Id \<Rightarrow> DeviceRegistrationRequest \<Rightarrow> UnixTimestamp \<Rightarrow> ('j AuditEvent, string) result" where
  "enrollment_event x device_id req now =
     AuditEventBuilder_build (x_null x)
       (aeb_set_metadata (x_object x
            [(''hostname'', rr_hostname req), (''os'', rr_os req), (''arch'', rr_architecture req),
             (''token_id'', et_token_id (rr_enrollment_token req))])
       (aeb_set_event_type DeviceEnroll
       (aeb_set_device_id (Some device_id)
       (aeb_set_organization_id (et_organization_id (rr_enrollment_token req))
       (aeb_set_timestamp now
       (aeb_set_event_id (''evt-enroll-'' @ id_as_str device_id) AuditEventBuilder_new))))))"

text \<open>\<open>if let Ok(evt) = ..build() { record_audit(evt)? }\<close>\<close>

definition audit_if_built ::
  "'j externals \<Rightarrow> ('j, 'k) sink_fn \<Rightarrow> faults \<Rightarrow> ('j AuditEvent, string) result \<Rightarrow> ('j, 'k) AppState
     \<Rightarrow> ('j, 'k) AppState \<times> (unit, HttpError) result" where
  "audit_if_built x sink f built st =
     (case built of
        Err _ \<Rightarrow> (st, Ok ())
      | Ok event \<Rightarrow>
          (case record_audit x sink f event st of (st', r) \<Rightarrow> (st', map_err storage_error_response r)))"

definition enroll_device_handler ::
  "'j externals \<Rightarrow> ('j, 'k) sink_fn \<Rightarrow> faults \<Rightarrow> faults \<Rightarrow> UnixTimestamp \<Rightarrow> DeviceRegistrationRequest \<Rightarrow> ('j, 'k) AppState
     \<Rightarrow> ('j, 'k) AppState \<times> (DeviceCredential, HttpError) result outcome" where
  "enroll_device_handler x sink f fa now req st =
     (let token = rr_enrollment_token req in
      case EnrollmentToken_verify (x_enrollment_json x) (x_verify x) (x_pub x (ap_signing_key st)) token now of
        Err e \<Rightarrow> (st, Returns (Err (HttpError 401 (PackageText ''enrollment token invalid: ''))))
      | Ok _ \<Rightarrow>
     (case verify_proof (x_verify x) req of
        Err e \<Rightarrow> (st, Returns (Err (HttpError 400 (PackageText ''invalid proof-of-possession: ''))))
      | Ok _ \<Rightarrow>
     (case device_id_string token of
        Panics \<Rightarrow> (st, Panics)
      | Returns s \<Rightarrow>
     (case Id_new s of
        Err e \<Rightarrow> (st, Returns (Err (HttpError 500 (PackageText ''failed to generate device id: ''))))
      | Ok device_id \<Rightarrow>
     (case issue_credential x (ap_signing_key st) device_id req now of
        Err e \<Rightarrow> (st, Returns (Err e))
      | Ok credential \<Rightarrow>
     (case app_enroll_device x f (et_token_id token) now
             \<lparr>rd_credential = credential, rd_hostname = rr_hostname req, rd_agent_version = rr_agent_version req,
              rd_enrolled_at = now, rd_is_active = True\<rparr> st of
        (st1, Err e) \<Rightarrow> (st1, Returns (Err (enrollment_error_response e)))
      | (st1, Ok _) \<Rightarrow>
     (case audit_if_built x sink fa (enrollment_event x device_id req now) st1 of
        (st2, Err e) \<Rightarrow> (st2, Returns (Err e))
      | (st2, Ok _) \<Rightarrow> (st2, Returns (Ok credential)))))))))"

definition list_devices_handler ::
  "'j externals \<Rightarrow> faults \<Rightarrow> string option \<Rightarrow> ('j, 'k) AppState \<Rightarrow> (RegisteredDevice list, HttpError) result" where
  "list_devices_handler x f organization_id st =
     (let org_id = (case Id_new (unwrap_or organization_id ''default'') of Ok i \<Rightarrow> i | Err _ \<Rightarrow> Id ''org-default'') in
      map_err (\<lambda>e. storage_error_response (SE_Storage e)) (list_devices (x_serde x) f org_id (ap_storage st)))"

record SessionRequestPayload =
  sq_organization_id :: Id
  sq_subject_user_id :: Id
  sq_client_device_id :: Id
  sq_target_device_id :: Id
  sq_requested_actions :: "string list"
  sq_client_ephemeral_public_key :: bytes

record SessionAuthorizationResponse =
  sa_session_id :: Id
  sa_capability_bytes :: bytes
  sa_relay_id :: string
  sa_client_relay_token :: RelayToken
  sa_host_relay_token :: RelayToken
  sa_expires_at :: UnixTimestamp

definition session_subject :: "SessionRequestPayload \<Rightarrow> SubjectContext" where
  "session_subject p =
     \<lparr>subj_user_id = id_as_str (sq_subject_user_id p), subj_roles = [''admin'', ''operator''],
      mfa_authenticated = True, client_device_managed = True, client_ip = None\<rparr>"

definition session_resource :: "SessionRequestPayload \<Rightarrow> ResourceContext" where
  "session_resource p =
     \<lparr>res_target_device_id = id_as_str (sq_target_device_id p), device_labels = [], active_sessions_on_device = []\<rparr>"

definition uuid_simple :: "bytes \<Rightarrow> string" where
  "uuid_simple random16 = concat (map hex_byte random16)"

definition session_ttl_secs :: u64 where
  "session_ttl_secs = 120"

definition unsigned_capability ::
  "('j, 'k) AppState \<Rightarrow> SessionRequestPayload \<Rightarrow> Id \<Rightarrow> string list \<Rightarrow> UnixTimestamp \<Rightarrow> bytes \<Rightarrow> SessionCapability" where
  "unsigned_capability st p session_id permissions now nonce =
     \<lparr>cap_version = 1, cap_issuer = ap_control_plane_id st, cap_session_id = id_as_str session_id,
      cap_subject_user_id = id_as_str (sq_subject_user_id p), cap_client_device_id = id_as_str (sq_client_device_id p),
      cap_target_device_id = id_as_str (sq_target_device_id p), cap_permissions = permissions,
      cap_restrictions = [], cap_not_before = as_secs now, cap_expires_at = as_secs now + session_ttl_secs,
      cap_nonce = nonce, cap_agent_min_protocol = 1, cap_agent_max_protocol = 1,
      cap_client_ephemeral_public_key = sq_client_ephemeral_public_key p, cap_signature = []\<rparr>"

definition sign_capability :: "'j externals \<Rightarrow> bytes \<Rightarrow> SessionCapability \<Rightarrow> SessionCapability" where
  "sign_capability x seed c = c\<lparr>cap_signature := x_sign x seed (x_proto x c)\<rparr>"

definition session_relay_token ::
  "'j externals \<Rightarrow> ('j, 'k) AppState \<Rightarrow> SessionRequestPayload \<Rightarrow> Id \<Rightarrow> UnixTimestamp \<Rightarrow> EndpointRole
     \<Rightarrow> (RelayToken, RelayTokenError) result" where
  "session_relay_token x st p session_id expires_at role =
     map_ok (\<lambda>t. RelayToken_sign (x_sign x) t (ap_signing_key st))
       (RelayTokenBuilder_build
         (rtb_set_expires_at expires_at
         (rtb_set_role role
         (rtb_set_target_device_id (sq_target_device_id p)
         (rtb_set_client_device_id (sq_client_device_id p)
         (rtb_set_relay_id (ap_default_relay_id st)
         (rtb_set_session_id session_id RelayToken_builder)))))))"

definition authorize_event :: "'j externals \<Rightarrow> ('j, 'k) AppState \<Rightarrow> SessionRequestPayload \<Rightarrow> Id \<Rightarrow> UnixTimestamp \<Rightarrow> ('j AuditEvent, string) result" where
  "authorize_event x st p session_id now =
     AuditEventBuilder_build (x_null x)
       (aeb_set_metadata (x_object x
            [(''client_device_id'', id_as_str (sq_client_device_id p)), (''relay_id'', ap_default_relay_id st)])
       (aeb_set_event_type SessionAuthorize
       (aeb_set_session_id (Some session_id)
       (aeb_set_device_id (Some (sq_target_device_id p))
       (aeb_set_user_id (Some (sq_subject_user_id p))
       (aeb_set_organization_id (sq_organization_id p)
       (aeb_set_timestamp now
       (aeb_set_event_id (''evt-auth-'' @ id_as_str session_id) AuditEventBuilder_new))))))))"

definition deny_event :: "'j externals \<Rightarrow> string \<Rightarrow> SessionRequestPayload \<Rightarrow> UnixTimestamp \<Rightarrow> ('j AuditEvent, string) result" where
  "deny_event x reason p now =
     AuditEventBuilder_build (x_null x)
       (aeb_set_metadata (x_object x [(''reason'', reason)])
       (aeb_set_event_type SessionDeny
       (aeb_set_device_id (Some (sq_target_device_id p))
       (aeb_set_user_id (Some (sq_subject_user_id p))
       (aeb_set_organization_id (sq_organization_id p)
       (aeb_set_timestamp now
       (aeb_set_event_id (''evt-deny-'' @ show_nat (unat (as_secs now))) AuditEventBuilder_new)))))))"

text \<open>The branch for an allowed request; \<open>actions\<close> is the set of granted actions.\<close>

definition authorize_session ::
  "'j externals \<Rightarrow> ('j, 'k) sink_fn \<Rightarrow> faults \<Rightarrow> faults \<Rightarrow> UnixTimestamp \<Rightarrow> bytes \<Rightarrow> bytes \<Rightarrow> SessionRequestPayload
     \<Rightarrow> ActionSet \<Rightarrow> ('j, 'k) AppState \<Rightarrow> ('j, 'k) AppState \<times> (SessionAuthorizationResponse, HttpError) result" where
  "authorize_session x sink fs fa now uuid nonce p actions st =
     (case Id_new (''sess-'' @ uuid_simple uuid) of
        Err e \<Rightarrow> (st, Err (HttpError 500 (PackageText ''failed to generate session id: '')))
      | Ok session_id \<Rightarrow>
          (let expires_at = from_secs (as_secs now + session_ttl_secs);
               permissions = map Action_as_str (ActionSet_iter actions);
               capability = sign_capability x (ap_signing_key st)
                              (unsigned_capability st p session_id permissions now nonce) in
     (case session_relay_token x st p session_id expires_at Role_Client of
        Err e \<Rightarrow> (st, Err (HttpError 500 (PackageText ''failed to build client relay token: '')))
      | Ok client_relay_token \<Rightarrow>
     (case session_relay_token x st p session_id expires_at Role_Host of
        Err e \<Rightarrow> (st, Err (HttpError 500 (PackageText ''failed to build host relay token: '')))
      | Ok host_relay_token \<Rightarrow>
     (case app_persist_session x fs
             \<lparr>as_session = session_id, as_organization_id = sq_organization_id p, as_user_id = sq_subject_user_id p,
              as_client_device_id = sq_client_device_id p, as_target_device = sq_target_device_id p,
              as_relay_id = ap_default_relay_id st, as_permissions = permissions, as_created_at = now,
              as_status = ''authorized''\<rparr> st of
        (st1, Err e) \<Rightarrow> (st1, Err (storage_error_response e))
      | (st1, Ok _) \<Rightarrow>
     (case audit_if_built x sink fa (authorize_event x st p session_id now) st1 of
        (st2, Err e) \<Rightarrow> (st2, Err e)
      | (st2, Ok _) \<Rightarrow>
          (st2, Ok \<lparr>sa_session_id = session_id, sa_capability_bytes = x_proto x capability,
                    sa_relay_id = ap_default_relay_id st, sa_client_relay_token = client_relay_token,
                    sa_host_relay_token = host_relay_token, sa_expires_at = expires_at\<rparr>)))))))"

definition request_session_handler ::
  "'j externals \<Rightarrow> ('j, 'k) sink_fn \<Rightarrow> faults \<Rightarrow> faults \<Rightarrow> faults \<Rightarrow> UnixTimestamp \<Rightarrow> bytes \<Rightarrow> bytes
     \<Rightarrow> SessionRequestPayload \<Rightarrow> ('j, 'k) AppState
     \<Rightarrow> ('j, 'k) AppState \<times> (SessionAuthorizationResponse, HttpError) result" where
  "request_session_handler x sink fg fs fa now uuid nonce p st =
     (case get_device (x_serde x) fg (sq_target_device_id p) (ap_storage st) of
        Err e \<Rightarrow> (st, Err (storage_error_response (SE_Storage e)))
      | Ok None \<Rightarrow> (st, Err (HttpError 404 (Text (''target device '' @ id_as_str (sq_target_device_id p) @ '' not found''))))
      | Ok (Some target_device) \<Rightarrow>
          if \<not> rd_is_active target_device then (st, Err (HttpError 403 (Text ''target device is not active'')))
          else
            (case evaluate (ap_policy_engine st) (session_subject p) (session_resource p) DesktopView of
               Allowed actions restrictions matched_role \<Rightarrow> authorize_session x sink fs fa now uuid nonce p actions st
             | Denied reason \<Rightarrow>
                 (case audit_if_built x sink fa (deny_event x (DenialReason_to_string reason) p now) st of
                    (st1, Err e) \<Rightarrow> (st1, Err e)
                  | (st1, Ok _) \<Rightarrow>
                      (st1, Err (HttpError 403 (Text (''session access denied by policy: '' @ DenialReason_to_string reason)))))))"

section \<open>Laws of enrollment\<close>

lemma take_min: "take (min (length s) n) s = take n s"
  by (simp add: min_def)

lemma device_id_string_eq:
  "device_id_string t = Panics \<or>
   device_id_string t = Returns (''dev-'' @ DeviceType_as_str (et_device_type t) @ ''-'' @ take 8 (et_token_id t))"
  by (simp add: device_id_string_def str_prefix_def take_min split: outcome.splits)

definition unsigned_credential :: "Id \<Rightarrow> DeviceRegistrationRequest \<Rightarrow> UnixTimestamp \<Rightarrow> DeviceCredential" where
  "unsigned_credential device_id req now =
     \<lparr>dc_device_id = device_id, dc_organization_id = et_organization_id (rr_enrollment_token req),
      dc_public_key = rr_device_public_key req, dc_device_type = et_device_type (rr_enrollment_token req),
      dc_os = rr_os req, dc_architecture = rr_architecture req,
      dc_capabilities = [''desktop.view'', ''desktop.control''], dc_issued_at = now,
      dc_expires_at = from_secs (as_secs now + 365 * 24 * 3600), dc_signature = []\<rparr>"

lemma issue_credential_eq:
  "issue_credential x seed device_id req now =
     map_err (\<lambda>e. HttpError 500 (PackageText ''failed to sign credential: ''))
       (DeviceCredential_sign (x_credential_json x) (x_sign x) (unsigned_credential device_id req now) seed)"
  by (simp add: issue_credential_def DeviceCredentialBuilder_build_def dcb_setters DeviceCredential_builder_def Let_def
      unsigned_credential_def)

lemma issue_credential_Ok:
  assumes "issue_credential x seed device_id req now = Ok c"
  obtains sig where "c = (unsigned_credential device_id req now)\<lparr>dc_signature := sig\<rparr>"
  using assms by (auto simp: issue_credential_eq res_simps DeviceCredential_sign_def split: result.splits)

lemma issue_credential_id:
  assumes "issue_credential x seed device_id req now = Ok c"
  shows "dc_device_id c = device_id"
  using assms by (rule issue_credential_Ok) (simp add: unsigned_credential_def)

lemma issue_credential_authentic:
  assumes "signature_correct (x_sign x) (x_verify x) (x_pub x)" "sig_length_64 (x_sign x)"
    and "issue_credential x seed device_id req now = Ok c"
  shows "DeviceCredential_authentic (x_credential_json x) (x_verify x) (x_pub x seed) c"
  using DeviceCredential_sign_authentic(1) [OF assms(1,2)] assms(3) by (auto simp: issue_credential_eq res_simps)

lemma record_audit_devices:
  "devices (ap_storage (fst (record_audit x sink f ev st))) = devices (ap_storage st)"
  "enrollment_tokens (ap_storage (fst (record_audit x sink f ev st))) = enrollment_tokens (ap_storage st)"
  "sessions (ap_storage (fst (record_audit x sink f ev st))) = sessions (ap_storage st)"
proof (atomize (full), goal_cases)
  case 1
  have ins: "devices (fst (insert_audit_event sj f ce db)) = devices db
      \<and> enrollment_tokens (fst (insert_audit_event sj f ce db)) = enrollment_tokens db
      \<and> sessions (fst (insert_audit_event sj f ce db)) = sessions db" for sj :: "'a serde" and ce db
    unfolding insert_audit_event_def commit_def insert_audit_body_def Let_def
    by (auto split: option.splits result.splits if_splits elim!: insert_organization_Ok)
  show ?case
    using ins by (auto simp: record_audit_def audit_append_def audit_store_def split: result.splits prod.splits)
      (metis fst_conv)+
qed

text \<open>The successful path of the enrollment handler.\<close>

lemma enroll_device_handler_Ok:
  assumes "enroll_device_handler x sink f fa now req st = (st', Returns (Ok c))"
  obtains s device_id st1 token where
    "EnrollmentToken_verify (x_enrollment_json x) (x_verify x) (x_pub x (ap_signing_key st)) (rr_enrollment_token req) now = Ok ()"
    "verify_proof (x_verify x) req = Ok ()"
    "device_id_string (rr_enrollment_token req) = Returns s" "Id_new s = Ok device_id"
    "issue_credential x (ap_signing_key st) device_id req now = Ok c"
    "app_enroll_device x f (et_token_id (rr_enrollment_token req)) now
       \<lparr>rd_credential = c, rd_hostname = rr_hostname req, rd_agent_version = rr_agent_version req,
        rd_enrolled_at = now, rd_is_active = True\<rparr> st = (st1, Ok token)"
    "st' = fst (audit_if_built x sink fa (enrollment_event x device_id req now) st1)"
  using assms unfolding enroll_device_handler_def Let_def
  by (auto split: result.splits outcome.splits prod.splits)

lemma Id_new_eq: "Id_new s = Ok i \<Longrightarrow> i = Id s"
  by (auto simp: Id_new_def res_simps)

lemma audit_if_built_devices:
  "devices (ap_storage (fst (audit_if_built x sink f b st))) = devices (ap_storage st)"
  "enrollment_tokens (ap_storage (fst (audit_if_built x sink f b st))) = enrollment_tokens (ap_storage st)"
  using record_audit_devices [of x sink f _ st]
  by (auto simp: audit_if_built_def split: result.splits prod.splits) (metis fst_conv)+

text \<open>A stored enrollment: a device that was not there, and one use of the token.\<close>

definition enrollment_stored :: "string \<Rightarrow> string \<Rightarrow> Database \<Rightarrow> Database \<Rightarrow> bool" where
  "enrollment_stored tid did db db' \<longleftrightarrow>
     (\<exists>row. hm_get (enrollment_tokens db) tid = Some row \<and> tr_uses_count row < tr_max_uses row
        \<and> enrollment_tokens db' = hm_insert tid (row\<lparr>tr_uses_count := tr_uses_count row + 1\<rparr>) (enrollment_tokens db))
     \<and> \<not> hm_contains (devices db) did \<and> hm_contains (devices db') did"

lemma app_enroll_device_stored:
  assumes "app_enroll_device x f tid now device st = (st', Ok token)"
  shows "enrollment_stored tid (id_as_str (dc_device_id (rd_credential device))) (ap_storage st) (ap_storage st')"
  using assms
  by (cases "x_serde x" f tid now device "ap_storage st" rule: enroll_device_cases)
    (auto simp: app_enroll_device_def res_simps enrollment_stored_def)

lemma app_enroll_device_Err: "app_enroll_device x f tid now device st = (st', Err e) \<Longrightarrow> st' = st"
  by (cases "x_serde x" f tid now device "ap_storage st" rule: enroll_device_cases)
    (auto simp: app_enroll_device_def res_simps)

text \<open>The handler leaves the state alone, or it has stored the enrollment and goes on to the audit record.\<close>

lemma enroll_device_handler_cases:
  assumes "enroll_device_handler x sink f fa now req st = (st', out)"
  obtains (committed) did device_id c st1 token r where
    "EnrollmentToken_verify (x_enrollment_json x) (x_verify x) (x_pub x (ap_signing_key st)) (rr_enrollment_token req) now = Ok ()"
    "verify_proof (x_verify x) req = Ok ()"
    "device_id_string (rr_enrollment_token req) = Returns did" "Id_new did = Ok device_id"
    "issue_credential x (ap_signing_key st) device_id req now = Ok c"
    "app_enroll_device x f (et_token_id (rr_enrollment_token req)) now
       \<lparr>rd_credential = c, rd_hostname = rr_hostname req, rd_agent_version = rr_agent_version req,
        rd_enrolled_at = now, rd_is_active = True\<rparr> st = (st1, Ok token)"
    "audit_if_built x sink fa (enrollment_event x device_id req now) st1 = (st', r)"
    "out = Returns (case r of Ok _ \<Rightarrow> Ok c | Err e \<Rightarrow> Err e)"
  | (unchanged) "st' = st" "\<forall>c. out \<noteq> Returns (Ok c)"
  using assms unfolding enroll_device_handler_def Let_def
  by (auto split: result.splits outcome.splits prod.splits dest: app_enroll_device_Err)

text \<open>An enrolled device keeps its identifier taken, so a request that would get the same one fails.\<close>

lemma enroll_device_handler_taken:
  assumes "device_id_string (rr_enrollment_token req) = Returns s" "hm_contains (devices (ap_storage st)) s"
  shows "\<exists>e. enroll_device_handler x sink f fa now req st = (st, Returns (Err e))"
proof -
  have taken: "\<exists>e. app_enroll_device x f tid now d st = (st, Err e)" if "id_as_str (dc_device_id (rd_credential d)) = s" for tid d
    using that assms(2)
    by (cases "x_serde x" f tid now d "ap_storage st" rule: enroll_device_cases) (auto simp: app_enroll_device_def)
  show ?thesis
  proof (cases "\<exists>i c. Id_new s = Ok i \<and> issue_credential x (ap_signing_key st) i req now = Ok c")
    case True
    then obtain i c where i: "Id_new s = Ok i" "issue_credential x (ap_signing_key st) i req now = Ok c" by blast
    have "id_as_str (dc_device_id c) = s"
      using Id_new_eq [OF i(1)] issue_credential_id [OF i(2)] by simp
    then obtain e where "app_enroll_device x f (et_token_id (rr_enrollment_token req)) now
        \<lparr>rd_credential = c, rd_hostname = rr_hostname req, rd_agent_version = rr_agent_version req,
         rd_enrolled_at = now, rd_is_active = True\<rparr> st = (st, Err e)"
      using taken by (metis RegisteredDevice.select_convs(1))
    with i show ?thesis by (simp add: enroll_device_handler_def Let_def assms(1) split: result.splits)
  next
    case False
    then show ?thesis by (auto simp: enroll_device_handler_def Let_def assms(1) split: result.splits)
  qed
qed

section \<open>Properties of enrollment\<close>

text \<open>
  C38: what an answer to an enrollment means, whichever statements of the database fail.  If the handler
  answers with a credential, the enrollment token was authentic and inside its period, the requester proved
  possession of the key in the credential, the credential is for the token's organization and verifies
  under the control plane's key exactly from now on for a year, the device is registered, and one use of
  the stored token is taken.  If it answers with an error, then either nothing at all has changed, or the
  enrollment was stored as a whole (the device, which was not there before, and one use of the token) and only
  the audit record could not be written, which is answered with 500.  If it panics, nothing has changed.
\<close>

theorem enroll_handler_sound:
  assumes "signature_correct (x_sign x) (x_verify x) (x_pub x)" "sig_length_64 (x_sign x)"
    and "enroll_device_handler x sink f fa now req st = (st', out)"
  shows "case out of
    Returns (Ok c) \<Rightarrow>
      EnrollmentToken_authentic (x_enrollment_json x) (x_verify x) (x_pub x (ap_signing_key st)) (rr_enrollment_token req)
      \<and> et_not_before (rr_enrollment_token req) \<le> now \<and> now \<le> et_expires_at (rr_enrollment_token req)
      \<and> sig_accepted (x_verify x) (dc_public_key c) (proof_bytes req) (rr_proof_signature req)
      \<and> dc_organization_id c = et_organization_id (rr_enrollment_token req)
      \<and> (\<forall>later. DeviceCredential_verify (x_credential_json x) (x_verify x) (x_pub x (ap_signing_key st)) c later = Ok ()
            \<longleftrightarrow> now \<le> later \<and> later \<le> from_secs (as_secs now + 365 * 24 * 3600))
      \<and> enrollment_stored (et_token_id (rr_enrollment_token req)) (id_as_str (dc_device_id c)) (ap_storage st) (ap_storage st')
  | Returns (Err e) \<Rightarrow>
      st' = st
      \<or> e = HttpError 500 (Text ''control-plane storage failure'')
         \<and> (\<exists>did. device_id_string (rr_enrollment_token req) = Returns did
               \<and> enrollment_stored (et_token_id (rr_enrollment_token req)) did (ap_storage st) (ap_storage st'))
  | Panics \<Rightarrow> st' = st"
  using assms(3)
proof (cases rule: enroll_device_handler_cases)
  case (committed did device_id c st1 token r)
  have "id_as_str (dc_device_id c) = did"
    using Id_new_eq [OF committed(4)] issue_credential_id [OF committed(5)] by simp
  then have stored: "enrollment_stored (et_token_id (rr_enrollment_token req)) did (ap_storage st) (ap_storage st')"
    using app_enroll_device_stored [OF committed(6)] committed(7)
    by (auto simp: enrollment_stored_def audit_if_built_devices [of x sink fa "enrollment_event x device_id req now" st1, unfolded committed(7) fst_conv])
  obtain sig where c: "c = (unsigned_credential device_id req now)\<lparr>dc_signature := sig\<rparr>"
    by (rule issue_credential_Ok [OF committed(5)])
  show ?thesis
  proof (cases r)
    case (Ok u)
    then have "out = Returns (Ok c)" using committed(8) by simp
    then show ?thesis
      using committed(1,2) stored \<open>id_as_str (dc_device_id c) = did\<close> issue_credential_authentic [OF assms(1,2) committed(5)]
      by (simp add: EnrollmentToken_verify_iff verify_proof_iff DeviceCredential_verify_iff c) (simp add: unsigned_credential_def)
  next
    case (Err e)
    then have "e = HttpError 500 (Text ''control-plane storage failure'')"
      using committed(7) by (auto simp: audit_if_built_def res_simps storage_error_response_def split: result.splits prod.splits)
    then show ?thesis using committed(3,8) stored Err by simp
  qed
next
  case unchanged
  then show ?thesis by (auto split: outcome.splits result.splits)
qed

text \<open>
  An enrollment token enrolls one device, whatever its \<open>max_uses\<close>.  The identifier of the device is
  made from the type and the first eight bytes of the token identifier, so after a successful enrollment
  every further request with a token of the same identifier and type (or with the same first eight bytes)
  is refused and changes nothing.
\<close>

theorem enrollment_token_single_device:
  assumes "enroll_device_handler x sink f fa now req st = (st1, Returns (Ok c))"
    and "take 8 (et_token_id (rr_enrollment_token req')) = take 8 (et_token_id (rr_enrollment_token req))"
    and "et_device_type (rr_enrollment_token req') = et_device_type (rr_enrollment_token req)"
    and "device_id_string (rr_enrollment_token req') \<noteq> Panics"
  shows "\<exists>e. enroll_device_handler x sink f' fa' now' req' st1 = (st1, Returns (Err e))"
proof -
  from assms(1) obtain s device_id st0 token where h:
    "device_id_string (rr_enrollment_token req) = Returns s" "Id_new s = Ok device_id"
    "issue_credential x (ap_signing_key st) device_id req now = Ok c"
    "app_enroll_device x f (et_token_id (rr_enrollment_token req)) now
       \<lparr>rd_credential = c, rd_hostname = rr_hostname req, rd_agent_version = rr_agent_version req,
        rd_enrolled_at = now, rd_is_active = True\<rparr> st = (st0, Ok token)"
    "st1 = fst (audit_if_built x sink fa (enrollment_event x device_id req now) st0)"
    by (rule enroll_device_handler_Ok)
  have "id_as_str (dc_device_id c) = s"
    using Id_new_eq [OF h(2)] issue_credential_id [OF h(3)] by simp
  then have "hm_contains (devices (ap_storage st0)) s"
    using h(4)
    by (cases "x_serde x" f "et_token_id (rr_enrollment_token req)" now
          "\<lparr>rd_credential = c, rd_hostname = rr_hostname req, rd_agent_version = rr_agent_version req,
            rd_enrolled_at = now, rd_is_active = True\<rparr>" "ap_storage st" rule: enroll_device_cases)
      (auto simp: app_enroll_device_def res_simps)
  moreover have "device_id_string (rr_enrollment_token req') = Returns s"
    using h(1) assms(2-4) device_id_string_eq [of "rr_enrollment_token req"]
      device_id_string_eq [of "rr_enrollment_token req'"]
    by auto
  ultimately show ?thesis
    by (intro enroll_device_handler_taken [where s = s]) (simp_all add: h(5) audit_if_built_devices)
qed

section \<open>Examples\<close>

definition example_externals :: "unit externals" where
  "example_externals =
     \<lparr>x_sign = (\<lambda>_ _. replicate 64 0), x_verify = (\<lambda>_ _ _. Some True), x_pub = (\<lambda>_. []),
      x_enrollment_json = (\<lambda>_. Some []), x_credential_json = (\<lambda>_. Some []), x_blake3 = (\<lambda>_. ''h''),
      x_event_json = (\<lambda>_. Some []), x_serde = example_serde, x_proto = (\<lambda>_. []), x_null = (),
      x_object = (\<lambda>_. ())\<rparr>"

definition example_sink :: "(unit, unit) sink_fn" where
  "example_sink k ce = (k, Ok ())"

definition example_registration :: DeviceRegistrationRequest where
  "example_registration =
     \<lparr>rr_enrollment_token = example_token\<lparr>et_signature := replicate 64 0\<rparr>, rr_device_public_key = replicate 32 9,
      rr_os = ''windows'', rr_architecture = ''x86_64'', rr_hostname = ''pc'', rr_agent_version = ''1'',
      rr_requested_at = from_secs 5, rr_proof_signature = replicate 64 0\<rparr>"

definition example_app :: "(unit, unit) AppState" where
  "example_app = AppState_new [] [] (Database_empty\<lparr>enrollment_tokens := [(''t'', example_token_row\<lparr>tr_max_uses := 5\<rparr>)]\<rparr>) ()"

lemma Id_new_Ok: "Id_new s = Ok (Id s) \<longleftrightarrow> s \<noteq> [] \<and> length s \<le> 128 \<and> (\<forall>c \<in> set s. printable_ascii c)"
  by (auto simp: Id_new_def res_simps validate_id_Ok MIN_ID_LEN_def MAX_ID_LEN_def Suc_le_eq)

lemma example_checks:
  "EnrollmentToken_verify (x_enrollment_json example_externals) (x_verify example_externals) key
     (rr_enrollment_token example_registration) (from_secs 5) = Ok ()"
  "verify_proof (x_verify example_externals) example_registration = Ok ()"
  "device_id_string (rr_enrollment_token example_registration) = Returns ''dev-host-t''"
  "Id_new ''dev-host-t'' = Ok (Id ''dev-host-t'')"
  "issue_credential example_externals key i example_registration now =
     Ok ((unsigned_credential i example_registration now)\<lparr>dc_signature := replicate 64 0\<rparr>)"
  by (simp_all add: example_externals_def example_registration_def example_token_def EnrollmentToken_verify_def
      EnrollmentToken_signing_bytes_def verify_proof_def key_decodes_def device_id_string_def str_prefix_def
      is_char_boundary_def from_secs_def less_UnixTimestamp_def issue_credential_eq DeviceCredential_sign_def
      DeviceCredential_signing_bytes_def res_simps Id_new_Ok printable_ascii_def eval_simps)

lemmas aeb_setters = aeb_set_event_id_def aeb_set_timestamp_def aeb_set_organization_id_def aeb_set_user_id_def
  aeb_set_device_id_def aeb_set_session_id_def aeb_set_event_type_def aeb_set_metadata_def

lemma example_enroll:
  "\<exists>st' c. enroll_device_handler example_externals example_sink {} {} (from_secs 5) example_registration example_app
     = (st', Returns (Ok c))"
  by (simp add: enroll_device_handler_def Let_def example_checks)
    (simp add: example_externals_def app_enroll_device_def example_app_def AppState_new_def enroll_eval
      unsigned_credential_def example_registration_def audit_if_built_def enrollment_event_def AuditEventBuilder_build_def
      AuditEventBuilder_new_def aeb_setters record_audit_def audit_append_def audit_store_def AuditChain_append_def AuditChain_new_def
      compute_event_hash_def insert_audit_event_def insert_audit_body_def commit_def example_sink_def res_simps)

theorem enroll_handler_sound_witness:
  "\<exists>st' c. enroll_device_handler example_externals example_sink {} {} (from_secs 5) example_registration example_app
       = (st', Returns (Ok c))
     \<and> enrollment_stored ''t'' (id_as_str (dc_device_id c)) (ap_storage example_app) (ap_storage st')
     \<and> DeviceCredential_verify (\<lambda>_. Some []) (\<lambda>_ _ _. Some True) [] c (from_secs 1000) = Ok ()"
proof -
  obtain st' c where c: "enroll_device_handler example_externals example_sink {} {} (from_secs 5) example_registration example_app
      = (st', Returns (Ok c))" using example_enroll by blast
  have "signature_correct (x_sign example_externals) (x_verify example_externals) (x_pub example_externals)"
      "sig_length_64 (x_sign example_externals)"
    by (simp_all add: example_externals_def signature_correct_def sig_length_64_def)
  moreover have "et_token_id (rr_enrollment_token example_registration) = ''t''"
    by (simp add: example_registration_def example_token_def)
  ultimately show ?thesis
    using enroll_handler_sound [OF _ _ c] c by (auto simp: example_externals_def from_secs_def less_eq_UnixTimestamp_def)
qed

theorem enrollment_token_single_device_witness:
  "\<exists>st1 c e. enroll_device_handler example_externals example_sink {} {} (from_secs 5) example_registration example_app
       = (st1, Returns (Ok c))
     \<and> enroll_device_handler example_externals example_sink {} {} (from_secs 6) example_registration st1 = (st1, Returns (Err e))"
proof -
  obtain st1 c where c: "enroll_device_handler example_externals example_sink {} {} (from_secs 5) example_registration example_app
      = (st1, Returns (Ok c))" using example_enroll by blast
  from enrollment_token_single_device [OF c, of example_registration "{}" "{}" "from_secs 6"] c show ?thesis
    by (auto simp: example_checks)
qed

end
