(* ===== verification/Control_Invariants.thy ===== *)
theory Control_Invariants
  imports Control_Plane "HOL-Library.Multiset"
begin

text \<open>
  What the control plane keeps over any sequence of requests: the referential integrity of its tables and
  the agreement of the stored audit events with the hash chain in memory.  The requests are those of
  \<open>routes.rs\<close> and the storing of an enrollment token, each with the statements that the driver fails.
\<close>

section \<open>Referential integrity\<close>

definition hm_all :: "('k \<Rightarrow> 'v \<Rightarrow> bool) \<Rightarrow> ('k, 'v) hashmap \<Rightarrow> bool" where
  "hm_all P m \<longleftrightarrow> (\<forall>k v. hm_get m k = Some v \<longrightarrow> P k v)"

lemma hm_all_Nil [simp]: "hm_all P []"
  by (simp add: hm_all_def hm_get_Nil)

lemma hm_all_insert: "\<lbrakk>hm_all P m; P k v\<rbrakk> \<Longrightarrow> hm_all P (hm_insert k v m)"
  by (simp add: hm_all_def hm_get_insert)

lemma hm_all_get: "\<lbrakk>hm_all P m; hm_get m k = Some v\<rbrakk> \<Longrightarrow> P k v"
  by (simp add: hm_all_def)

lemma hm_all_mono: "\<lbrakk>hm_all P m; \<And>k v. P k v \<Longrightarrow> Q k v\<rbrakk> \<Longrightarrow> hm_all Q m"
  by (simp add: hm_all_def)

definition token_row_ok :: "Database \<Rightarrow> string \<Rightarrow> token_row \<Rightarrow> bool" where
  "token_row_ok db tid row \<longleftrightarrow>
     hm_contains (organizations db) (tr_organization_id row)
     \<and> 0 \<le> tr_uses_count row \<and> tr_uses_count row \<le> tr_max_uses row"

definition device_row_ok :: "Database \<Rightarrow> string \<Rightarrow> device_row \<Rightarrow> bool" where
  "device_row_ok db did row \<longleftrightarrow>
     hm_contains (organizations db) (dr_organization_id row)
     \<and> dr_status row \<in> {''active'', ''revoked''} \<and> 0 \<le> dr_created_at row
     \<and> (\<exists>c. hm_get (device_credentials db) did = Some c \<and> cr_public_key c = dr_public_key row
            \<and> cr_organization_id c = dr_organization_id row)"

definition credential_row_ok :: "Database \<Rightarrow> string \<Rightarrow> credential_row \<Rightarrow> bool" where
  "credential_row_ok db did row \<longleftrightarrow> hm_contains (devices db) did"

definition session_row_ok :: "Database \<Rightarrow> string \<Rightarrow> session_row \<Rightarrow> bool" where
  "session_row_ok db sid row \<longleftrightarrow>
     hm_contains (organizations db) (sn_organization_id row) \<and> hm_contains (devices db) (sn_target_device_id row)
     \<and> sn_status row = ''authorized'' \<and> sn_connection_mode row = ''relay'' \<and> 0 \<le> sn_created_at row"

definition audit_row_ok :: "Database \<Rightarrow> string \<Rightarrow> audit_row \<Rightarrow> bool" where
  "audit_row_ok db eid row \<longleftrightarrow>
     hm_contains (organizations db) (ar_organization_id row)
     \<and> pred_option (hm_contains (devices db)) (ar_device_id row)
     \<and> pred_option (hm_contains (sessions db)) (ar_session_id row)"

definition db_ref :: "Database \<Rightarrow> bool" where
  "db_ref db \<longleftrightarrow>
     hm_all (token_row_ok db) (enrollment_tokens db) \<and> hm_all (device_row_ok db) (devices db)
     \<and> hm_all (credential_row_ok db) (device_credentials db) \<and> hm_all (session_row_ok db) (sessions db)
     \<and> hm_all (audit_row_ok db) (audit_events db)"

lemmas row_ok_defs = token_row_ok_def device_row_ok_def credential_row_ok_def session_row_ok_def audit_row_ok_def

lemma db_ref_empty: "db_ref Database_empty"
  by (simp add: db_ref_def Database_empty_def)

text \<open>A row stays good in a database whose tables only have more rows.\<close>

definition db_grows :: "Database \<Rightarrow> Database \<Rightarrow> bool" where
  "db_grows db db' \<longleftrightarrow>
     (\<forall>k. hm_contains (organizations db) k \<longrightarrow> hm_contains (organizations db') k)
     \<and> (\<forall>k. hm_contains (devices db) k \<longrightarrow> hm_contains (devices db') k)
     \<and> (\<forall>k. hm_contains (sessions db) k \<longrightarrow> hm_contains (sessions db') k)
     \<and> (\<forall>k v. hm_get (device_credentials db) k = Some v \<longrightarrow> hm_get (device_credentials db') k = Some v)"

lemma db_grows_rows:
  assumes "db_grows db db'"
  shows "token_row_ok db k t \<Longrightarrow> token_row_ok db' k t" "device_row_ok db k d \<Longrightarrow> device_row_ok db' k d"
    "credential_row_ok db k c \<Longrightarrow> credential_row_ok db' k c" "session_row_ok db k s \<Longrightarrow> session_row_ok db' k s"
    "audit_row_ok db k a \<Longrightarrow> audit_row_ok db' k a"
  using assms by (auto simp: row_ok_defs db_grows_def option.pred_set)

lemma db_ref_grows:
  assumes "db_ref db" "db_grows db db'"
  shows "hm_all (token_row_ok db') (enrollment_tokens db)" "hm_all (device_row_ok db') (devices db)"
    "hm_all (credential_row_ok db') (device_credentials db)" "hm_all (session_row_ok db') (sessions db)"
    "hm_all (audit_row_ok db') (audit_events db)"
  using assms(1) db_grows_rows [OF assms(2)] by (auto simp: db_ref_def intro: hm_all_mono)

lemma insert_organization_ref:
  assumes "insert_organization f org at field db = Ok db'" "db_ref db"
  shows "\<exists>orgs. db' = db\<lparr>organizations := orgs\<rparr>" "db_ref db'" "hm_contains (organizations db') org"
proof -
  obtain orgs where db': "db' = db\<lparr>organizations := orgs\<rparr>"
    by (rule insert_organization_Ok [OF assms(1)])
  show "hm_contains (organizations db') org"
    using assms(1) by (auto simp: insert_organization_def hm_contains_insert split: option.splits if_splits)
  have "db_grows db db'"
    using assms(1) by (auto simp: insert_organization_def db_grows_def hm_contains_insert split: option.splits if_splits)
  from db_ref_grows [OF assms(2) this] show "db_ref db'"
    by (simp add: db_ref_def db')
  show "\<exists>orgs. db' = db\<lparr>organizations := orgs\<rparr>" using db' by blast
qed

lemma i64_try_from_nonneg: "i64_try_from w = Some i \<Longrightarrow> 0 \<le> i \<and> i = int (unat w) \<and> unat w < 2 ^ 63"
  by (auto simp: i64_try_from_def split: if_splits)

lemma store_enrollment_token_ref:
  assumes "db_ref db"
  shows "db_ref (fst (store_enrollment_token sj f token db))"
proof (cases "store_enrollment_token_body sj f token db")
  case (Ok db')
  then obtain db1 row where db1:
      "insert_organization f (id_as_str (et_organization_id token)) (et_not_before token) ''not_before'' db = Ok db1"
      "db' = db1\<lparr>enrollment_tokens := hm_insert (et_token_id token) row (enrollment_tokens db1)\<rparr>"
      "tr_organization_id row = id_as_str (et_organization_id token)" "tr_uses_count row = 0" "0 \<le> tr_max_uses row"
    unfolding store_enrollment_token_body_def by (auto split: option.splits result.splits if_splits)
  note org = insert_organization_ref [OF db1(1) assms]
  have "db_grows db1 db'" by (simp add: db1(2) db_grows_def)
  from db_ref_grows [OF org(2) this] show ?thesis
    using org(3) db1(3-5) by (simp add: db_ref_def store_enrollment_token_def commit_def Ok db1(2) hm_all_insert row_ok_defs)
qed (simp add: store_enrollment_token_def commit_def assms)

lemma insert_device_ref:
  assumes "db_ref db" "insert_device sj f device db = Ok db'"
  shows "db_ref db'"
proof -
  obtain db1 row crow where db1:
      "insert_organization f (id_as_str (dc_organization_id (rd_credential device))) (rd_enrolled_at device) ''enrolled_at'' db = Ok db1"
      "db' = db1\<lparr>devices := hm_insert (id_as_str (dc_device_id (rd_credential device))) row (devices db1),
                 device_credentials := hm_insert (id_as_str (dc_device_id (rd_credential device))) crow (device_credentials db1)\<rparr>"
      "dr_organization_id row = id_as_str (dc_organization_id (rd_credential device))" "dr_status row \<in> {''active'', ''revoked''}"
      "0 \<le> dr_created_at row" "cr_public_key crow = dr_public_key row" "cr_organization_id crow = dr_organization_id row"
      "\<not> hm_contains (device_credentials db1) (id_as_str (dc_device_id (rd_credential device)))"
    using assms(2) unfolding insert_device_def Let_def
    by (auto split: option.splits result.splits if_splits dest: i64_try_from_nonneg)
  note org = insert_organization_ref [OF db1(1) assms(1)]
  have "db_grows db1 db'"
    using db1(8) by (auto simp: db1(2) db_grows_def hm_contains_insert hm_get_insert hm_contains_def)
  from db_ref_grows [OF org(2) this] show ?thesis
    using org(3) db1(3-7) by (auto simp: db_ref_def db1(2) row_ok_defs hm_get_insert hm_contains_insert intro!: hm_all_insert)
qed

lemma enroll_device_ref:
  assumes "db_ref db"
  shows "db_ref (fst (enroll_device sj f tid now device db))"
proof (cases "enroll_device_body sj f tid now device db")
  case (Ok x)
  then obtain row where row: "hm_get (enrollment_tokens db) tid = Some row" "tr_uses_count row < tr_max_uses row"
      "insert_device sj f device (db\<lparr>enrollment_tokens :=
         hm_insert tid (row\<lparr>tr_uses_count := tr_uses_count row + 1\<rparr>) (enrollment_tokens db)\<rparr>) = Ok (fst x)"
    unfolding enroll_device_body_def Let_def by (auto split: option.splits result.splits if_splits prod.splits)
  let ?db1 = "db\<lparr>enrollment_tokens := hm_insert tid (row\<lparr>tr_uses_count := tr_uses_count row + 1\<rparr>) (enrollment_tokens db)\<rparr>"
  have "db_grows db ?db1" by (simp add: db_grows_def)
  from db_ref_grows [OF assms this] have "db_ref ?db1"
    using row(2) hm_all_get [of "token_row_ok db", OF _ row(1)] assms by (simp add: db_ref_def hm_all_insert token_row_ok_def)
  with row(3) show ?thesis by (auto simp: enroll_device_def Ok split: prod.splits dest: insert_device_ref)
qed (simp add: enroll_device_def assms)

lemma insert_session_ref:
  assumes "db_ref db"
  shows "db_ref (fst (insert_authorized_session sj f r db))"
proof (cases "insert_session_body sj f r db")
  case (Ok db')
  then obtain db1 row where db1:
      "insert_organization f (id_as_str (as_organization_id r)) (as_created_at r) ''created_at'' db = Ok db1"
      "db' = db1\<lparr>sessions := hm_insert (id_as_str (as_session r)) row (sessions db1)\<rparr>"
      "sn_organization_id row = id_as_str (as_organization_id r)" "sn_target_device_id row = id_as_str (as_target_device r)"
      "sn_status row = ''authorized''" "sn_connection_mode row = ''relay''" "0 \<le> sn_created_at row"
      "hm_contains (devices db1) (id_as_str (as_target_device r))"
    unfolding insert_session_body_def
    by (auto split: option.splits result.splits if_splits dest: i64_try_from_nonneg)
  note org = insert_organization_ref [OF db1(1) assms]
  have "db_grows db1 db'" by (simp add: db1(2) db_grows_def hm_contains_insert)
  from db_ref_grows [OF org(2) this] show ?thesis
    using org(3) db1(3-8) by (simp add: db_ref_def insert_authorized_session_def commit_def Ok db1(2) hm_all_insert row_ok_defs)
qed (simp add: insert_authorized_session_def commit_def assms)

section \<open>The stored audit events\<close>

text \<open>The entry of the table for a chained event.\<close>

definition audit_entry :: "'j serde \<Rightarrow> 'j ChainedAuditEvent \<Rightarrow> string \<times> audit_row" where
  "audit_entry sj ce =
     (ae_event_id (ce_event ce),
      \<lparr>ar_organization_id = id_as_str (ae_organization_id (ce_event ce)),
       ar_user_id = map_option id_as_str (ae_user_id (ce_event ce)),
       ar_device_id = map_option id_as_str (ae_device_id (ce_event ce)),
       ar_session_id = map_option id_as_str (ae_session_id (ce_event ce)),
       ar_event_type = AuditEventType_as_str (ae_event_type (ce_event ce)),
       ar_sequence = int (unat (ce_sequence ce)), ar_event_json = the (sj_event sj (ce_event ce)),
       ar_previous_hash = as_bytes (ce_previous_hash ce), ar_hash = as_bytes (ce_hash ce),
       ar_timestamp = int (unat (as_secs (ae_timestamp (ce_event ce))))\<rparr>)"

definition storable :: "'j serde \<Rightarrow> 'j ChainedAuditEvent \<Rightarrow> bool" where
  "storable sj ce \<longleftrightarrow>
     sj_event sj (ce_event ce) \<noteq> None \<and> unat (ce_sequence ce) < 2 ^ 63 \<and> unat (as_secs (ae_timestamp (ce_event ce))) < 2 ^ 63"

lemma hm_insert_fresh: "\<not> hm_contains m k \<Longrightarrow> hm_insert k v m = (k, v) # m"
  by (force simp: hm_insert_def hm_remove_def hm_contains_def hm_get_def map_of_eq_None_iff intro!: filter_True)

lemma insert_audit_event_cases:
  obtains (err) e where "insert_audit_event sj f ce db = (db, Err e)"
  | (ok) db1 db' at where
      "insert_audit_event sj f ce db = (db', Ok ())" "storable sj ce"
      "insert_organization f (id_as_str (ae_organization_id (ce_event ce))) at ''timestamp'' db = Ok db1"
      "db' = db1\<lparr>audit_events := audit_entry sj ce # audit_events db\<rparr>" "\<not> hm_contains (audit_events db) (ae_event_id (ce_event ce))"
      "pred_option (\<lambda>d. hm_contains (devices db) (id_as_str d)) (ae_device_id (ce_event ce))"
      "pred_option (\<lambda>d. hm_contains (sessions db) (id_as_str d)) (ae_session_id (ce_event ce))"
proof (cases "insert_audit_body sj f ce db")
  case (Err e)
  then show ?thesis by (intro err [of e]) (simp add: insert_audit_event_def commit_def)
next
  case (Ok db')
  then obtain db1 where db1:
      "insert_organization f (id_as_str (ae_organization_id (ce_event ce))) (ae_timestamp (ce_event ce)) ''timestamp'' db = Ok db1"
    by (auto simp: insert_audit_body_def Let_def split: option.splits result.splits if_splits)
  obtain orgs where orgs: "db1 = db\<lparr>organizations := orgs\<rparr>" by (rule insert_organization_Ok [OF db1])
  have "storable sj ce \<and> db' = db1\<lparr>audit_events := audit_entry sj ce # audit_events db\<rparr>
      \<and> \<not> hm_contains (audit_events db) (ae_event_id (ce_event ce))
      \<and> pred_option (\<lambda>d. hm_contains (devices db) (id_as_str d)) (ae_device_id (ce_event ce))
      \<and> pred_option (\<lambda>d. hm_contains (sessions db) (id_as_str d)) (ae_session_id (ce_event ce))"
    using Ok unfolding insert_audit_body_def Let_def
    by (auto simp: db1 orgs storable_def audit_entry_def hm_insert_fresh
        split: option.splits if_splits dest!: i64_try_from_nonneg)
  with Ok db1 show ?thesis by (intro ok) (simp_all add: insert_audit_event_def commit_def)
qed

lemma insert_audit_ref:
  assumes "db_ref db"
  shows "db_ref (fst (insert_audit_event sj f ce db))"
proof (cases sj f ce db rule: insert_audit_event_cases)
  case (ok db1 db' at)
  note org = insert_organization_ref [OF ok(3) assms]
  then obtain orgs where orgs: "db1 = db\<lparr>organizations := orgs\<rparr>" by blast
  have db': "db' = db1\<lparr>audit_events := hm_insert (fst (audit_entry sj ce)) (snd (audit_entry sj ce)) (audit_events db1)\<rparr>"
    using ok(4,5) orgs by (simp add: hm_insert_fresh audit_entry_def)
  have "db_grows db1 db'" by (simp add: db' db_grows_def)
  from db_ref_grows [OF org(2) this] show ?thesis
    using org(3) ok(6,7)
    by (auto simp: db_ref_def ok(1) db' orgs row_ok_defs audit_entry_def option.pred_set intro!: hm_all_insert)
qed (simp add: assms)

text \<open>The agreement of the table with the chain.\<close>

definition audit_agrees :: "'j externals \<Rightarrow> ('j, 'k) AppState \<Rightarrow> bool" where
  "audit_agrees x st \<longleftrightarrow>
     chain_inv (x_blake3 x) (x_event_json x) (ap_audit_chain st)
     \<and> ac_genesis_seed (ap_audit_chain st) = GENESIS_HASH
     \<and> audit_events (ap_storage st) = rev (map (audit_entry (x_serde x)) (ac_events (ap_audit_chain st)))
     \<and> list_all (storable (x_serde x)) (ac_events (ap_audit_chain st))"

lemma audit_agrees_new: "audit_events db = [] \<Longrightarrow> audit_agrees x (AppState_new k i db sink)"
  by (simp add: audit_agrees_def AppState_new_def chain_inv_new) (simp add: AuditChain_new_def Let_def)

lemma audit_agrees_same:
  assumes "audit_agrees x st" "audit_events db = audit_events (ap_storage st)"
  shows "audit_agrees x (st\<lparr>ap_storage := db\<rparr>)"
  using assms by (simp add: audit_agrees_def)

lemma record_audit_agrees:
  assumes "audit_agrees x st"
  shows "audit_agrees x (fst (record_audit x sink f event st))"
proof (cases "x_event_json x event = None")
  case True
  then show ?thesis using assms by (simp add: record_audit_def audit_append_def AuditChain_append_err)
next
  case False
  let ?ch = "ap_audit_chain st"
  obtain ce where ce: "AuditChain_append (x_blake3 x) (x_event_json x) ?ch event =
      (?ch\<lparr>ac_sequence := ac_sequence ?ch + 1, ac_last_hash := ce_hash ce, ac_events := ac_events ?ch @ [ce]\<rparr>, Ok ce)"
    by (rule AuditChain_append_ok [where J = "x_event_json x" and ev = event, OF False])
  have inv: "chain_inv (x_blake3 x) (x_event_json x)
      (?ch\<lparr>ac_sequence := ac_sequence ?ch + 1, ac_last_hash := ce_hash ce, ac_events := ac_events ?ch @ [ce]\<rparr>)"
    using chain_inv_append [of "x_blake3 x" "x_event_json x" ?ch event] assms by (simp add: ce audit_agrees_def)
  show ?thesis
  proof (cases "x_serde x" f ce "ap_storage st" rule: insert_audit_event_cases)
    case (err e)
    then show ?thesis using assms by (simp add: record_audit_def audit_append_def audit_store_def ce)
  next
    case (ok db1 db' at)
    then show ?thesis
      using assms inv by (simp add: record_audit_def audit_append_def audit_store_def ce audit_agrees_def split: prod.splits)
  qed
qed

lemma record_audit_Ok:
  assumes "record_audit x sink f event st = (st', Ok ())"
  obtains ce where "ce_event ce = event" "storable (x_serde x) ce"
    "audit_events (ap_storage st') = audit_entry (x_serde x) ce # audit_events (ap_storage st)"
    "ac_sequence (ap_audit_chain st) = of_nat n \<Longrightarrow>
       chain_link (x_blake3 x) (x_event_json x) n (ac_last_hash (ap_audit_chain st)) ce"
proof -
  let ?ap = "AuditChain_append (x_blake3 x) (x_event_json x) (ap_audit_chain st) event"
  have "x_event_json x event \<noteq> None"
    using assms AuditChain_append_err [of "x_event_json x" event "x_blake3 x" "ap_audit_chain st"]
    by (cases "x_event_json x event") (simp_all add: record_audit_def audit_append_def)
  then obtain b where b: "x_event_json x event = Some b" by blast
  define ce where "ce = \<lparr>ce_sequence = ac_sequence (ap_audit_chain st) + 1, ce_event = event,
      ce_previous_hash = ac_last_hash (ap_audit_chain st),
      ce_hash = compute_hash (x_blake3 x) (ac_sequence (ap_audit_chain st) + 1) b (ac_last_hash (ap_audit_chain st))\<rparr>"
  have ap: "snd ?ap = Ok ce" and link: "ac_sequence (ap_audit_chain st) = of_nat n \<Longrightarrow>
       chain_link (x_blake3 x) (x_event_json x) n (ac_last_hash (ap_audit_chain st)) ce"
    by (simp_all add: AuditChain_append_def compute_event_hash_def b ce_def Let_def chain_link_def)
  from ap have rec: "record_audit x sink f event st =
      audit_store x sink f (ap_audit_chain st) ce (st\<lparr>ap_audit_chain := fst ?ap\<rparr>)"
    by (cases ?ap) (simp add: record_audit_def audit_append_def)
  have "storable (x_serde x) ce \<and> audit_events (ap_storage st') = audit_entry (x_serde x) ce # audit_events (ap_storage st)"
  proof (cases "x_serde x" f ce "ap_storage st" rule: insert_audit_event_cases)
    case (err e)
    then show ?thesis using assms by (simp add: rec audit_store_def)
  next
    case (ok db1 db' at)
    then have "ap_storage st' = db'" using assms by (auto simp: rec audit_store_def split: prod.splits)
    with ok(2,4) show ?thesis by simp
  qed
  with link show ?thesis by (intro that [of ce]) (simp_all add: ce_def)
qed

lemma audit_store_no_commit:
  assumes "S_commit \<in> f"
  shows "\<exists>e. snd (audit_store x sink f previous ce st) = Err (SE_Storage e)"
proof -
  have "\<exists>e. insert_audit_body (x_serde x) f ce (ap_storage st) = Err e"
    using assms by (simp add: insert_audit_body_def Let_def split: option.splits result.splits)
  then show ?thesis by (auto simp: audit_store_def insert_audit_event_def commit_def)
qed

section \<open>Requests\<close>

datatype cp_request =
    CP_StoreToken faults EnrollmentToken
  | CP_Enroll faults faults UnixTimestamp DeviceRegistrationRequest
  | CP_RequestSession faults faults faults UnixTimestamp bytes bytes SessionRequestPayload

datatype cp_answer =
    A_Stored "(unit, StateError) result"
  | A_Enrolled "(DeviceCredential, HttpError) result outcome"
  | A_Session "(SessionAuthorizationResponse, HttpError) result"

fun cp_step :: "'j externals \<Rightarrow> ('j, 'k) sink_fn \<Rightarrow> ('j, 'k) AppState \<Rightarrow> cp_request \<Rightarrow> ('j, 'k) AppState \<times> cp_answer" where
  "cp_step x sink st (CP_StoreToken f token) = map_prod id A_Stored (app_store_enrollment_token x f token st)"
| "cp_step x sink st (CP_Enroll f fa now req) = map_prod id A_Enrolled (enroll_device_handler x sink f fa now req st)"
| "cp_step x sink st (CP_RequestSession fg fs fa now uuid nonce p) =
     map_prod id A_Session (request_session_handler x sink fg fs fa now uuid nonce p st)"

text \<open>
  A property of the state that the four operations on the storage keep is kept by every request: the
  handlers change the state only through them.
\<close>

lemma cp_step_keeps:
  assumes token: "\<And>f t st. I st \<Longrightarrow> I (fst (app_store_enrollment_token x f t st))"
    and enroll: "\<And>f tid now d st. I st \<Longrightarrow> I (fst (app_enroll_device x f tid now d st))"
    and session: "\<And>f r st. I st \<Longrightarrow> I (fst (app_persist_session x f r st))"
    and audit: "\<And>f e st. I st \<Longrightarrow> I (fst (record_audit x sink f e st))"
    and "I st"
  shows "I (fst (cp_step x sink st q))"
proof -
  have audit_built: "I (fst (audit_if_built x sink f b st))" if "I st" for f b st
    using audit [OF that] that by (auto simp: audit_if_built_def split: result.splits prod.splits) (metis fst_conv)
  have "I (fst (enroll_device_handler x sink f fa now req st))" for f fa now req
    unfolding enroll_device_handler_def Let_def
    using assms(5) enroll [OF assms(5)] audit_built
    by (auto split: result.splits prod.splits outcome.splits) (metis fst_conv)+
  moreover have authorize: "I (fst (authorize_session x sink fs fa now uuid nonce p as st))" for fs fa now uuid nonce p as
    unfolding authorize_session_def Let_def
    using assms(5) session [OF assms(5)] audit_built
    by (auto split: result.splits prod.splits) (metis fst_conv)+
  moreover have "I (fst (request_session_handler x sink fg fs fa now uuid nonce p st))" for fg fs fa now uuid nonce p
    unfolding request_session_handler_def
    using assms(5) audit_built authorize
    by (auto split: result.splits prod.splits option.splits EvaluationDecision.splits) (metis fst_conv)+
  ultimately show ?thesis
    using token [OF assms(5)] by (cases q) auto
qed

definition cp_inv :: "'j externals \<Rightarrow> ('j, 'k) AppState \<Rightarrow> bool" where
  "cp_inv x st \<longleftrightarrow> db_ref (ap_storage st) \<and> audit_agrees x st"

lemma app_ops_ref:
  assumes "db_ref (ap_storage st)"
  shows "db_ref (ap_storage (fst (app_store_enrollment_token x f t st)))"
    "db_ref (ap_storage (fst (app_enroll_device x f tid now d st)))"
    "db_ref (ap_storage (fst (app_persist_session x f r st)))"
  using store_enrollment_token_ref [OF assms] enroll_device_ref [OF assms] insert_session_ref [OF assms]
  by (simp_all add: app_store_enrollment_token_def app_enroll_device_def app_persist_session_def split_beta)

lemma record_audit_ref: "db_ref (ap_storage st) \<Longrightarrow> db_ref (ap_storage (fst (record_audit x sink f e st)))"
  using insert_audit_ref [of "ap_storage st" "x_serde x" f]
  by (auto simp: record_audit_def audit_append_def audit_store_def split: prod.splits result.splits) (metis fst_conv)+

text \<open>The other transactions do not touch the audit events.\<close>

lemma commit_audit_events:
  assumes "\<And>db'. r = Ok db' \<Longrightarrow> audit_events db' = audit_events db"
  shows "audit_events (fst (commit db r)) = audit_events db"
  using assms by (cases r) (simp_all add: commit_def)

lemma insert_organization_audit: "insert_organization f org at field db = Ok db' \<Longrightarrow> audit_events db' = audit_events db"
  by (erule insert_organization_Ok) simp

lemma store_enrollment_token_audit: "audit_events (fst (store_enrollment_token sj f t db)) = audit_events db"
  unfolding store_enrollment_token_def
  by (rule commit_audit_events)
    (auto simp: store_enrollment_token_body_def split: option.splits result.splits if_splits dest: insert_organization_audit)

lemma insert_session_audit: "audit_events (fst (insert_authorized_session sj f r db)) = audit_events db"
  unfolding insert_authorized_session_def
  by (rule commit_audit_events)
    (auto simp: insert_session_body_def split: option.splits result.splits if_splits dest: insert_organization_audit)

lemma enroll_device_audit: "audit_events (fst (enroll_device sj f tid now d db)) = audit_events db"
  by (auto simp: enroll_device_def enroll_device_body_def insert_device_def Let_def
      split: option.splits result.splits if_splits prod.splits dest: insert_organization_audit)

lemma app_ops_agree:
  assumes "audit_agrees x st"
  shows "audit_agrees x (fst (app_store_enrollment_token x f t st))"
    "audit_agrees x (fst (app_enroll_device x f tid now d st))"
    "audit_agrees x (fst (app_persist_session x f r st))"
  using assms by (simp_all add: audit_agrees_same app_store_enrollment_token_def app_enroll_device_def
      app_persist_session_def split_beta store_enrollment_token_audit insert_session_audit enroll_device_audit)

interpretation control_plane: machine "cp_step x sink" "cp_inv x" for x sink
proof unfold_locales
  fix st :: "('a, 'b) AppState" and q
  assume "cp_inv x st"
  then show "cp_inv x (fst (cp_step x sink st q))"
    by (intro cp_step_keeps [where I = "cp_inv x"]) (simp_all add: cp_inv_def app_ops_ref record_audit_ref app_ops_agree record_audit_agrees)
qed

section \<open>Reading the audit events back\<close>

definition event_serde_correct :: "'j serde \<Rightarrow> bool" where
  "event_serde_correct sj \<longleftrightarrow> (\<forall>e s. sj_event sj e = Some s \<longrightarrow> sj_event_parse sj s = Some e)"

definition hash_is_text :: "(bytes \<Rightarrow> string) \<Rightarrow> bool" where
  "hash_is_text blake3 \<longleftrightarrow> (\<forall>bs. utf8_valid (as_bytes (blake3 bs)))"

lemma insert_by_last: "\<forall>y \<in> set ys. \<not> le a y \<Longrightarrow> insert_by le a ys = ys @ [a]"
  by (induction ys) auto

lemma order_by_Cons: "order_by le (a # as) = insert_by le a (order_by le as)"
  by (simp add: order_by_def)

lemma order_by_rev: "sorted_wrt (\<lambda>a b. \<not> le b a) as \<Longrightarrow> order_by le (rev as) = as"
proof (induction as rule: rev_induct)
  case (snoc a as)
  then show ?case by (simp add: order_by_Cons sorted_wrt_append insert_by_last)
qed (simp add: order_by_def)

lemma insert_by_map: "insert_by (\<lambda>a b. le (g a) (g b)) a as = bs \<Longrightarrow> insert_by le (g a) (map g as) = map g bs"
  by (induction as arbitrary: bs) auto

lemma order_by_map: "order_by le (map g as) = map g (order_by (\<lambda>a b. le (g a) (g b)) as)"
  by (induction as) (simp_all add: order_by_def insert_by_map)

lemma mset_order_by [simp]: "mset (order_by le as) = mset as"
proof -
  have "mset (insert_by le a bs) = add_mset a (mset bs)" for a bs by (induction bs) auto
  then show ?thesis by (induction as) (simp_all add: order_by_def)
qed

lemma set_order_by [simp]: "set (order_by le as) = set as"
  by (metis mset_order_by set_mset_mset)

lemma distinct_map_order_by: "distinct (map g (order_by le as)) \<longleftrightarrow> distinct (map g as)"
  by (rule mset_eq_imp_distinct_iff) simp

lemma collect_ok_map: "(\<And>a. a \<in> set as \<Longrightarrow> g (h a) = Ok a) \<Longrightarrow> collect_ok g (map h as) = Ok as"
  by (induction as) simp_all

definition readable :: "'j ChainedAuditEvent \<Rightarrow> bool" where
  "readable ce \<longleftrightarrow> utf8_valid (as_bytes (ce_previous_hash ce)) \<and> utf8_valid (as_bytes (ce_hash ce))"

lemma id_as_str_inject [simp]: "id_as_str i = id_as_str j \<longleftrightarrow> i = j"
  by (cases i; cases j) simp

lemma audit_from_row_entry:
  assumes "event_serde_correct sj" "storable sj ce" "readable ce"
  shows "audit_from_row sj (ae_organization_id (ce_event ce)) (fst (audit_entry sj ce)) (snd (audit_entry sj ce)) = Ok ce"
proof -
  from assms(2) obtain s where s: "sj_event sj (ce_event ce) = Some s" by (auto simp: storable_def)
  with assms(1) have "sj_event_parse sj s = Some (ce_event ce)" by (simp add: event_serde_correct_def)
  with s assms show ?thesis
    by (simp add: audit_from_row_def audit_entry_def u64_try_from_def AuditEventType_round_trip storable_def readable_def
        from_utf8_as_bytes)
qed

text \<open>The query for an organization returns its events in the order of their sequence numbers.\<close>

lemma list_audit_entries:
  assumes "event_serde_correct sj" "list_all (storable sj) ces" "list_all readable ces"
    and "audit_events db = map (audit_entry sj) ces"
  shows "list_audit_events sj {} org db =
    Ok (order_by (\<lambda>a b. ce_sequence a \<le> ce_sequence b) (filter (\<lambda>ce. ae_organization_id (ce_event ce) = org) ces))"
proof -
  let ?mine = "filter (\<lambda>ce. ae_organization_id (ce_event ce) = org) ces"
  have "filter (\<lambda>(eid, row). ar_organization_id row = id_as_str org) (audit_events db) = map (audit_entry sj) ?mine"
    by (simp add: assms(4) filter_map o_def audit_entry_def)
  moreover have "order_by (\<lambda>a b. ar_sequence (snd a) \<le> ar_sequence (snd b)) (map (audit_entry sj) ?mine) =
      map (audit_entry sj) (order_by (\<lambda>a b. ce_sequence a \<le> ce_sequence b) ?mine)"
    by (simp add: order_by_map audit_entry_def word_le_def)
  moreover have "(\<lambda>(eid, row). audit_from_row sj org eid row) (audit_entry sj ce) = Ok ce" if "ce \<in> set ?mine" for ce
    using that assms(2,3) audit_from_row_entry [OF assms(1), of ce] by (auto simp: list_all_iff split_beta)
  ultimately show ?thesis
    by (simp add: list_audit_events_def) (rule collect_ok_map, simp)
qed

text \<open>The positions of a verified chain whose sequence numbers have not left the range of \<open>i64\<close>.\<close>

lemma verify_chain_positions:
  assumes "verify_chain_from H J 0 p es = Ok ()" "list_all (\<lambda>ce. unat (ce_sequence ce) < 2 ^ 63) es"
  shows "length es < 2 ^ 63" "k < length es \<Longrightarrow> unat (ce_sequence (es ! k)) = Suc k"
proof -
  have seq: "ce_sequence (es ! j) = of_nat (Suc j)" if "j < length es" for j
    using assms(1) that by (simp add: verify_chain_from_iff chain_link_def)
  show short: "length es < 2 ^ 63"
  proof (rule ccontr)
    assume "\<not> length es < 2 ^ 63"
    then have j: "(2 ^ 63 - 1 :: nat) < length es" by simp
    have "unat (ce_sequence (es ! (2 ^ 63 - 1))) = 2 ^ 63" unfolding seq [OF j] by simp
    with j assms(2) show False by (auto simp: list_all_length)
  qed
  assume k: "k < length es"
  with short have "Suc k < 2 ^ LENGTH(64)" by simp
  with seq [OF k] show "unat (ce_sequence (es ! k)) = Suc k"
    by (simp add: unat_of_nat take_bit_nat_eq_self del: of_nat_Suc)
qed

lemma verified_sequences:
  assumes "verify_chain_from H J 0 p es = Ok ()" "list_all (\<lambda>ce. unat (ce_sequence ce) < 2 ^ 63) es"
  shows "sorted_wrt (\<lambda>a b. \<not> ce_sequence b \<le> ce_sequence a) es" "distinct (map ce_sequence es)"
proof -
  note pos = verify_chain_positions(2) [OF assms]
  show "sorted_wrt (\<lambda>a b. \<not> ce_sequence b \<le> ce_sequence a) es"
    by (simp add: sorted_wrt_iff_nth_less word_le_nat_alt pos)
  show "distinct (map ce_sequence es)"
    unfolding distinct_conv_nth by (metis length_map nat.inject nth_map pos)
qed

lemma verified_readable:
  assumes "verify_chain_from H J 0 p es = Ok ()" "hash_is_text H" "utf8_valid (as_bytes p)"
  shows "list_all readable es"
  using assms(1)
proof (induction es rule: rev_induct)
  case (snoc ce es)
  then have es: "list_all readable es" and link: "chain_link H J (length es) (last_hash_of p es) ce"
    by (simp_all add: verify_chain_from_snoc)
  have "utf8_valid (as_bytes (last_hash_of p es))"
    using es assms(3) by (cases es rule: rev_cases) (simp_all add: readable_def)
  with chain_link_hash [OF link] assms(2) have "readable ce"
    by (auto simp: readable_def hash_is_text_def)
  with es show ?case by simp
qed simp

lemma utf8_genesis: "utf8_valid (as_bytes GENESIS_HASH)"
  by (rule utf8_valid_ascii) (simp add: GENESIS_HASH_def as_bytes_def list_all_iff)

lemma audit_agrees_chain:
  assumes "audit_agrees x st" "hash_is_text (x_blake3 x)"
  defines "es \<equiv> ac_events (ap_audit_chain st)"
  shows "verify_chain (x_blake3 x) (x_event_json x) es None = Ok ()" "list_all readable es"
    "sorted_wrt (\<lambda>a b. \<not> ce_sequence b \<le> ce_sequence a) es" "list_all (storable (x_serde x)) es"
proof -
  have v: "verify_chain_from (x_blake3 x) (x_event_json x) 0 GENESIS_HASH es = Ok ()"
    using assms(1) by (auto simp: audit_agrees_def chain_inv_def verify_chain_def es_def)
  then show "verify_chain (x_blake3 x) (x_event_json x) es None = Ok ()" by (simp add: verify_chain_def)
  show "list_all readable es" by (rule verified_readable [OF v assms(2) utf8_genesis])
  show s: "list_all (storable (x_serde x)) es" using assms(1) by (simp add: audit_agrees_def es_def)
  then show "sorted_wrt (\<lambda>a b. \<not> ce_sequence b \<le> ce_sequence a) es"
    using verified_sequences(1) [OF v] by (auto simp: list_all_iff storable_def)
qed

lemma audit_agrees_list:
  assumes "audit_agrees x st" "event_serde_correct (x_serde x)" "hash_is_text (x_blake3 x)"
  shows "list_audit_events (x_serde x) {} org (ap_storage st) =
    Ok (filter (\<lambda>ce. ae_organization_id (ce_event ce) = org) (ac_events (ap_audit_chain st)))"
proof -
  let ?es = "ac_events (ap_audit_chain st)"
  note chain = audit_agrees_chain [OF assms(1,3)]
  have "audit_events (ap_storage st) = map (audit_entry (x_serde x)) (rev ?es)"
    using assms(1) by (simp add: audit_agrees_def rev_map)
  from list_audit_entries [OF assms(2) _ _ this, of org] chain(2,4) show ?thesis
    by (simp add: sorted_wrt_filter [OF chain(3)] order_by_rev flip: rev_filter)
qed

lemma audit_agrees_next:
  assumes "audit_agrees x st" "ce_sequence cb = of_nat (length (ac_events (ap_audit_chain st))) + 1 + w" "unat w < 2 ^ 62"
  shows "\<forall>ce \<in> set (ac_events (ap_audit_chain st)). \<not> ce_sequence cb \<le> ce_sequence ce"
proof
  let ?es = "ac_events (ap_audit_chain st)"
  fix ce assume "ce \<in> set ?es"
  then obtain k where k: "k < length ?es" "ce = ?es ! k" by (metis in_set_conv_nth)
  have v: "verify_chain_from (x_blake3 x) (x_event_json x) 0 GENESIS_HASH ?es = Ok ()"
      "list_all (\<lambda>ce. unat (ce_sequence ce) < 2 ^ 63) ?es"
    using assms(1) by (auto simp: audit_agrees_def chain_inv_def verify_chain_def list_all_iff storable_def)
  have "ce_sequence cb = of_nat (length ?es + 1 + unat w)" by (simp add: assms(2))
  moreover have "length ?es + 1 + unat w < 2 ^ LENGTH(64)"
    using verify_chain_positions(1) [OF v] assms(3) by simp
  ultimately have "unat (ce_sequence cb) = length ?es + 1 + unat w"
    by (simp only: unat_of_nat mod_less)
  with verify_chain_positions(2) [OF v k(1)] k show "\<not> ce_sequence cb \<le> ce_sequence ce"
    by (simp add: word_le_nat_alt)
qed

section \<open>Properties\<close>

text \<open>
  C36: the tables stay consistent.  From the empty database, over any sequence of requests and with any
  statements failing, every token has an organization and a use counter within its budget, every device an
  organization and a credential with its key, every session an organization and a registered target, and
  every audit event an existing organization, device and session.
\<close>

theorem control_plane_integrity:
  "db_ref (ap_storage (fst (run_ops (cp_step x sink) (AppState_new key cp_id Database_empty k) requests)))"
proof -
  have "cp_inv x (AppState_new key cp_id Database_empty k)"
    by (simp add: cp_inv_def audit_agrees_new Database_empty_def) (simp add: AppState_new_def db_ref_def)
  from control_plane.run_inv [OF this, of sink requests] show ?thesis by (simp add: cp_inv_def)
qed

text \<open>
  C37: the audit log is faithful.  When the requests are handled one after the other by a control plane
  that started with no audit events, then after any sequence of them, whichever statements fail, the chain
  in memory verifies from the genesis hash, and what \<open>list_audit_events\<close> reads back for an organization are
  exactly its events of that chain, in the order of the chain.
\<close>

theorem audit_log_faithful:
  assumes "event_serde_correct (x_serde x)" "hash_is_text (x_blake3 x)" "db_ref db" "audit_events db = []"
  shows "case run_ops (cp_step x sink) (AppState_new key cp_id db k) requests of (st, answers) \<Rightarrow>
    verify_chain (x_blake3 x) (x_event_json x) (ac_events (ap_audit_chain st)) None = Ok ()
    \<and> list_audit_events (x_serde x) {} org (ap_storage st) =
        Ok (filter (\<lambda>ce. ae_organization_id (ce_event ce) = org) (ac_events (ap_audit_chain st)))"
proof -
  have "cp_inv x (AppState_new key cp_id db k)"
    using assms(3,4) by (simp add: cp_inv_def audit_agrees_new) (simp add: AppState_new_def)
  from control_plane.run_inv [OF this, of sink requests]
  have "audit_agrees x (fst (run_ops (cp_step x sink) (AppState_new key cp_id db k) requests))"
    by (simp add: cp_inv_def)
  with audit_agrees_chain(1) [OF this assms(2)] audit_agrees_list [OF this assms(1,2)] show ?thesis
    by (simp add: split_beta)
qed

text \<open>
  A restart breaks the audit log.  A control plane that is started again on its database begins a new
  chain, so the first event that it stores for an organization with earlier events has a sequence number
  that is already taken, and the events read back no longer verify from any genesis seed.
\<close>

theorem audit_restart_breaks_chain:
  assumes "event_serde_correct (x_serde x)" "hash_is_text (x_blake3 x)" "audit_agrees x st"
    and "ac_events (ap_audit_chain st) \<noteq> []"
    and "list_all (\<lambda>ce. ae_organization_id (ce_event ce) = org) (ac_events (ap_audit_chain st))"
    and "ae_organization_id event = org"
    and "record_audit x sink f event (AppState_new key cp_id (ap_storage st) k) = (st', Ok ())"
  shows "\<exists>es. list_audit_events (x_serde x) {} org (ap_storage st') = Ok es
    \<and> (\<forall>genesis. verify_chain (x_blake3 x) (x_event_json x) es genesis \<noteq> Ok ())"
proof -
  let ?es = "ac_events (ap_audit_chain st)"
  note chain = audit_agrees_chain [OF assms(3,2)]
  have old: "audit_events (ap_storage st) = map (audit_entry (x_serde x)) (rev ?es)"
    using assms(3) by (simp add: audit_agrees_def rev_map)
  obtain ce where ce: "ce_event ce = event" "storable (x_serde x) ce"
      "audit_events (ap_storage st') = map (audit_entry (x_serde x)) (ce # rev ?es)"
      "chain_link (x_blake3 x) (x_event_json x) 0 GENESIS_HASH ce"
    by (rule record_audit_Ok [OF assms(7), of 0]) (simp add: AppState_new_def AuditChain_new_def old Let_def)
  define es where "es = order_by (\<lambda>a b. ce_sequence a \<le> ce_sequence b) (ce # rev ?es)"
  have mine: "filter (\<lambda>ce. ae_organization_id (ce_event ce) = org) (ce # rev ?es) = ce # rev ?es"
    using assms(5,6) ce(1) by (simp add: list_all_iff)
  have "readable ce"
    using verified_readable [OF _ assms(2) utf8_genesis, of "x_event_json x" "[ce]"] ce(4) by (simp add: verify_chain_from_Cons del: verify_chain_from.simps(2))
  then have "list_audit_events (x_serde x) {} org (ap_storage st') = Ok es"
    using list_audit_entries [OF assms(1) _ _ ce(3), of org] ce(2) chain(2,4) unfolding mine es_def by simp
  moreover have "verify_chain (x_blake3 x) (x_event_json x) es genesis \<noteq> Ok ()" for genesis
  proof
    assume "verify_chain (x_blake3 x) (x_event_json x) es genesis = Ok ()"
    then have "distinct (map ce_sequence es)"
      using ce(2) chain(4) by (intro verified_sequences(2)) (auto simp: verify_chain_def es_def storable_def list_all_iff)
    then have "distinct (map ce_sequence (ce # rev ?es))"
      unfolding es_def by (simp only: distinct_map_order_by)
    moreover have "ce_sequence (hd ?es) = 1" "ce_sequence ce = 1"
      using chain(1) assms(4) ce(4) by (cases ?es; simp add: verify_chain_def verify_chain_from_Cons chain_link_def del: verify_chain_from.simps(2))+
    ultimately show False using assms(4) by (metis distinct.simps(2) hd_in_set image_eqI list.simps(9) list.set_map set_rev)
  qed
  ultimately show ?thesis by blast
qed

text \<open>
  C40: two audit records that overlap can lose one of them from the chain.  Both events are appended under
  the lock; the second is stored; then the first fails to be stored and puts back the chain saved before
  its own append, without the second.  The stored events then end with a sequence number that the chain
  has not reached, and do not verify.
\<close>

theorem audit_rollback_race:
  assumes "event_serde_correct (x_serde x)" "hash_is_text (x_blake3 x)" "audit_agrees x st"
    and "list_all (\<lambda>ce. ae_organization_id (ce_event ce) = org) (ac_events (ap_audit_chain st))"
    and "ae_organization_id b = org"
    and "audit_append x a st = (s1, Ok (prev_a, ca))" "audit_append x b s1 = (s2, Ok (prev_b, cb))"
    and "audit_store x sink fb prev_b cb s2 = (s3, Ok ())"
    and "audit_store x sink fa prev_a ca s3 = (s4, Err (SE_Storage e))"
  shows "ap_audit_chain s4 = ap_audit_chain st
    \<and> list_audit_events (x_serde x) {} org (ap_storage s4) = Ok (ac_events (ap_audit_chain st) @ [cb])
    \<and> verify_chain (x_blake3 x) (x_event_json x) (ac_events (ap_audit_chain st) @ [cb]) None \<noteq> Ok ()"
proof -
  let ?es = "ac_events (ap_audit_chain st)"
  note chain = audit_agrees_chain [OF assms(3,2)]
  have inv: "chain_inv (x_blake3 x) (x_event_json x) (ap_audit_chain st)" using assms(3) by (simp add: audit_agrees_def)
  have s2: "ap_storage s2 = ap_storage st" "prev_a = ap_audit_chain st" "ce_event cb = b"
      "ce_sequence cb = of_nat (length ?es) + 2"
    using assms(6,7) inv
    by (auto simp: audit_append_def AuditChain_append_def Let_def chain_inv_def split: prod.splits result.splits)
  have hashes: "readable cb"
    using assms(2,6,7)
    by (auto simp: audit_append_def AuditChain_append_def Let_def compute_event_hash_def compute_hash_def readable_def
        hash_is_text_def split: prod.splits result.splits option.splits)
  have s3: "storable (x_serde x) cb" "audit_events (ap_storage s3) = audit_entry (x_serde x) cb # audit_events (ap_storage st)"
    using assms(8) s2(1)
    by (cases "x_serde x" fb cb "ap_storage s2" rule: insert_audit_event_cases; auto simp: audit_store_def split: prod.splits)+
  have s4: "ap_audit_chain s4 = ap_audit_chain st" "ap_storage s4 = ap_storage s3"
    using assms(9) s2(2)
    by (cases "x_serde x" fa ca "ap_storage s3" rule: insert_audit_event_cases; auto simp: audit_store_def res_simps split: prod.splits)+
  have "audit_events (ap_storage s4) = map (audit_entry (x_serde x)) (cb # rev ?es)"
    using assms(3) by (simp add: s4(2) s3(2) audit_agrees_def rev_map)
  from list_audit_entries [OF assms(1) _ _ this, of org]
  have "list_audit_events (x_serde x) {} org (ap_storage s4) =
      Ok (order_by (\<lambda>a b. ce_sequence a \<le> ce_sequence b) (rev (?es @ [cb])))"
    using chain(2,4) s3(1) hashes assms(4,5) s2(3) by (simp add: list_all_iff)
  moreover have "verify_chain (x_blake3 x) (x_event_json x) (?es @ [cb]) None \<noteq> Ok ()"
    using s2(4) by (simp add: verify_chain_def verify_chain_from_snoc chain_link_def)
  moreover have "order_by (\<lambda>a b. ce_sequence a \<le> ce_sequence b) (rev (?es @ [cb])) = ?es @ [cb]"
    using audit_agrees_next [OF assms(3), of cb 1] s2(4) chain(3)
    by (intro order_by_rev) (simp add: sorted_wrt_append)
  ultimately show ?thesis using s4(1) by simp
qed

section \<open>Examples\<close>

text \<open>A codec for two kinds of events: logins with a given identifier and the example's enrollment.\<close>

definition example_event_of :: "string \<Rightarrow> unit AuditEvent" where
  "example_event_of eid =
     \<lparr>ae_event_id = eid, ae_timestamp = from_secs 5, ae_organization_id = Id ''org'', ae_user_id = None,
      ae_device_id = (if eid = ''evt-enroll-dev-host-t'' then Some (Id ''dev-host-t'') else None), ae_session_id = None,
      ae_event_type = (if eid = ''evt-enroll-dev-host-t'' then DeviceEnroll else UserLogin), ae_metadata = ()\<rparr>"

definition audit_externals :: "unit externals" where
  "audit_externals = example_externals\<lparr>x_serde := example_serde
     \<lparr>sj_event := (\<lambda>e. if e = example_event_of (ae_event_id e) then Some (ae_event_id e) else None),
      sj_event_parse := (\<lambda>s. Some (example_event_of s))\<rparr>\<rparr>"

lemma audit_externals_correct:
  "event_serde_correct (x_serde audit_externals)" "hash_is_text (x_blake3 audit_externals)"
  by (auto simp: event_serde_correct_def hash_is_text_def audit_externals_def example_externals_def
      as_bytes_def split: if_splits intro: utf8_valid_ascii)

abbreviation fresh_app :: "(unit, unit) AppState" where
  "fresh_app \<equiv> AppState_new [] [] Database_empty ()"

lemma fresh_app_agrees: "audit_agrees audit_externals fresh_app"
  by (rule audit_agrees_new) (simp add: Database_empty_def)

lemmas audit_eval = record_audit_def audit_append_def audit_store_def AuditChain_append_def compute_event_hash_def
  insert_audit_event_def insert_audit_body_def commit_def insert_organization_def i64_try_from_def hm_insert_def
  hm_remove_def hm_contains_def hm_get_def Let_def from_secs_def AppState_new_def AuditChain_new_def Database_empty_def
  audit_externals_def example_externals_def example_serde_def example_event_of_def example_sink_def compute_hash_def
  res_simps

theorem audit_rollback_race_witness:
  "\<exists>s1 s2 s3 s4 ca cb prev_a prev_b e.
     audit_append audit_externals (example_event_of ''a'') fresh_app = (s1, Ok (prev_a, ca))
     \<and> audit_append audit_externals (example_event_of ''b'') s1 = (s2, Ok (prev_b, cb))
     \<and> audit_store audit_externals example_sink {} prev_b cb s2 = (s3, Ok ())
     \<and> audit_store audit_externals example_sink {S_commit} prev_a ca s3 = (s4, Err (SE_Storage e))
     \<and> ap_audit_chain s4 = ap_audit_chain fresh_app
     \<and> (\<exists>es. list_audit_events (x_serde audit_externals) {} (Id ''org'') (ap_storage s4) = Ok es
          \<and> verify_chain (x_blake3 audit_externals) (x_event_json audit_externals) es None \<noteq> Ok ())"
proof -
  let ?x = audit_externals
  define a where "a = audit_append ?x (example_event_of ''a'') fresh_app"
  define b where "b = audit_append ?x (example_event_of ''b'') (fst a)"
  obtain prev_a ca where a: "snd a = Ok (prev_a, ca)" unfolding a_def by (simp add: audit_eval)
  obtain prev_b cb where b: "snd b = Ok (prev_b, cb)" unfolding b_def a_def by (simp add: audit_eval)
  define s3 where "s3 = audit_store ?x example_sink {} prev_b cb (fst b)"
  define s4 where "s4 = audit_store ?x example_sink {S_commit} prev_a ca (fst s3)"
  have s3: "snd s3 = Ok ()" using b unfolding s3_def b_def a_def by (auto simp: audit_eval)
  obtain e where s4: "snd s4 = Err (SE_Storage e)" using audit_store_no_commit [of "{S_commit}"] unfolding s4_def by blast
  have eqs: "audit_append ?x (example_event_of ''a'') fresh_app = (fst a, Ok (prev_a, ca))"
      "audit_append ?x (example_event_of ''b'') (fst a) = (fst b, Ok (prev_b, cb))"
      "audit_store ?x example_sink {} prev_b cb (fst b) = (fst s3, Ok ())"
      "audit_store ?x example_sink {S_commit} prev_a ca (fst s3) = (fst s4, Err (SE_Storage e))"
    using a b s3 s4 by (simp_all add: prod_eq_iff flip: a_def b_def s3_def s4_def)
  have "list_all (\<lambda>ce. ae_organization_id (ce_event ce) = Id ''org'') (ac_events (ap_audit_chain fresh_app))"
      "ae_organization_id (example_event_of ''b'') = Id ''org''"
    by (simp_all add: AppState_new_def AuditChain_new_def example_event_of_def Let_def)
  from audit_rollback_race [OF audit_externals_correct fresh_app_agrees this eqs] eqs show ?thesis by blast
qed

theorem audit_restart_breaks_chain_witness:
  "\<exists>st st' es. record_audit audit_externals example_sink {} (example_event_of ''a'') fresh_app = (st, Ok ())
     \<and> record_audit audit_externals example_sink {} (example_event_of ''b'') (AppState_new [] [] (ap_storage st) ()) = (st', Ok ())
     \<and> list_audit_events (x_serde audit_externals) {} (Id ''org'') (ap_storage st') = Ok es
     \<and> verify_chain (x_blake3 audit_externals) (x_event_json audit_externals) es None \<noteq> Ok ()"
proof -
  let ?x = audit_externals
  define st where "st = fst (record_audit ?x example_sink {} (example_event_of ''a'') fresh_app)"
  define st' where "st' = fst (record_audit ?x example_sink {} (example_event_of ''b'') (AppState_new [] [] (ap_storage st) ()))"
  have ok: "snd (record_audit ?x example_sink {} (example_event_of ''a'') fresh_app) = Ok ()"
      "snd (record_audit ?x example_sink {} (example_event_of ''b'') (AppState_new [] [] (ap_storage st) ())) = Ok ()"
    unfolding st_def by (simp_all add: audit_eval)
  have agrees: "audit_agrees ?x st" unfolding st_def by (rule record_audit_agrees [OF fresh_app_agrees])
  have "ac_events (ap_audit_chain st) \<noteq> []"
      "list_all (\<lambda>ce. ae_organization_id (ce_event ce) = Id ''org'') (ac_events (ap_audit_chain st))"
      "ae_organization_id (example_event_of ''b'') = Id ''org''"
    unfolding st_def by (simp_all add: audit_eval)
  moreover have eqs: "record_audit ?x example_sink {} (example_event_of ''a'') fresh_app = (st, Ok ())"
      "record_audit ?x example_sink {} (example_event_of ''b'') (AppState_new [] [] (ap_storage st) ()) = (st', Ok ())"
    using ok by (simp_all add: prod_eq_iff st_def st'_def)
  ultimately show ?thesis
    using audit_restart_breaks_chain [OF audit_externals_correct agrees _ _ _ eqs(2), of "Id ''org''"] by blast
qed

definition example_requests :: "cp_request list" where
  "example_requests =
     [CP_StoreToken {} example_token, CP_Enroll {} {} (from_secs 5) example_registration]"

lemma audit_checks:
  "EnrollmentToken_verify (x_enrollment_json audit_externals) (x_verify audit_externals) key
     (rr_enrollment_token example_registration) (from_secs 5) = Ok ()"
  "verify_proof (x_verify audit_externals) example_registration = Ok ()"
  "issue_credential audit_externals key i example_registration now =
     Ok ((unsigned_credential i example_registration now)\<lparr>dc_signature := replicate 64 0\<rparr>)"
  using example_checks(1,2,5) by (simp_all add: audit_externals_def issue_credential_eq)

lemma example_requests_log:
  "map ce_event (ac_events (ap_audit_chain (fst (run_ops (cp_step audit_externals example_sink) fresh_app example_requests)))) = [example_event_of ''evt-enroll-dev-host-t'']"
  by (simp add: example_requests_def enroll_device_handler_def Let_def audit_checks example_checks(3,4))
    (simp add: app_store_enrollment_token_def store_enrollment_token_def store_enrollment_token_body_def
      app_enroll_device_def enroll_eval unsigned_credential_def example_registration_def audit_if_built_def
      enrollment_event_def AuditEventBuilder_build_def AuditEventBuilder_new_def aeb_setters audit_eval)

theorem audit_log_faithful_witness:
  "case run_ops (cp_step audit_externals example_sink) fresh_app example_requests of (st, answers) \<Rightarrow>
     map ce_event (ac_events (ap_audit_chain st)) = [example_event_of ''evt-enroll-dev-host-t'']
     \<and> verify_chain (x_blake3 audit_externals) (x_event_json audit_externals) (ac_events (ap_audit_chain st)) None = Ok ()
     \<and> list_audit_events (x_serde audit_externals) {} (Id ''org'') (ap_storage st) =
         Ok (filter (\<lambda>ce. ae_organization_id (ce_event ce) = Id ''org'') (ac_events (ap_audit_chain st)))"
  using example_requests_log audit_log_faithful [OF audit_externals_correct db_ref_empty, where sink = example_sink and key = "[]"
      and cp_id = "[]" and k = "()" and requests = example_requests and org = "Id ''org''"]
  by (simp add: split_beta) (simp add: Database_empty_def)

end
