(* ===== verification/Agent_Session.thy ===== *)
theory Agent_Session
  imports Auth_Verifier Session_State
begin

text \<open>
  \<open>apps/nexus-agent/src/session_manager.rs\<close>: the agent on a host, which admits sessions by their
  capabilities and keeps the table of active sessions.  The wall clock and the monotonic clock that
  \<open>verify_and_accept_session\<close> reads are its arguments \<open>now\<close> and \<open>inst_now\<close>.
\<close>

section \<open>Model\<close>

datatype SessionHandlerError =
    SH_Capability CapabilityVerificationError
  | SH_SessionAlreadyActive Id
  | SH_SessionNotFound Id
  | SH_Protocol ErrText

record HostSession =
  hs_session_id :: Id
  hs_capability :: SessionCapability
  hs_negotiated_protocol :: u32
  hs_established_at :: UnixTimestamp
  hs_state :: SessionState

record AgentSessionManager =
  am_control_plane_verifying_key :: bytes
  am_target_device_id :: string
  am_verifier :: CapabilityVerifier
  am_active_sessions :: "(Id, HostSession) hashmap"

definition AgentSessionManager_new :: "bytes \<Rightarrow> string \<Rightarrow> AgentSessionManager" where
  "AgentSessionManager_new control_plane_verifying_key target_device_id =
     \<lparr>am_control_plane_verifying_key = control_plane_verifying_key, am_target_device_id = target_device_id,
      am_verifier = with_target_device_id target_device_id
        (CapabilityVerifier_new control_plane_verifying_key (dur_from_secs 120) 10000),
      am_active_sessions = []\<rparr>"

definition verify_and_accept_session ::
  "(SessionCapability \<Rightarrow> bytes) \<Rightarrow> ed_verify \<Rightarrow> AgentSessionManager \<Rightarrow> SessionCapability \<Rightarrow> u32 \<Rightarrow> UnixTimestamp \<Rightarrow> Instant
     \<Rightarrow> AgentSessionManager \<times> (HostSession, SessionHandlerError) result" where
  "verify_and_accept_session proto_encode v m capability negotiated_protocol now inst_now =
     (case CapabilityVerifier_verify proto_encode v (am_verifier m) capability negotiated_protocol now inst_now of
        (verifier, r) \<Rightarrow>
          (let m1 = m\<lparr>am_verifier := verifier\<rparr> in
           case r of
             Err e \<Rightarrow> (m1, Err (SH_Capability e))
           | Ok _ \<Rightarrow>
          (case Id_new (cap_session_id capability) of
             Err e \<Rightarrow> (m1, Err (SH_Protocol (PackageText ''invalid session id: '')))
           | Ok sid \<Rightarrow>
               if hm_contains (am_active_sessions m1) sid then (m1, Err (SH_SessionAlreadyActive sid))
               else
                 (let host_session =
                    \<lparr>hs_session_id = sid, hs_capability = capability,
                     hs_negotiated_protocol = negotiated_protocol, hs_established_at = now, hs_state = St_Active\<rparr> in
                  (m1\<lparr>am_active_sessions := hm_insert sid host_session (am_active_sessions m1)\<rparr>,
                   Ok host_session)))))"

definition terminate_session ::
  "AgentSessionManager \<Rightarrow> Id \<Rightarrow> AgentSessionManager \<times> (HostSession, SessionHandlerError) result" where
  "terminate_session m sid =
     (case hm_get (am_active_sessions m) sid of
        None \<Rightarrow> (m, Err (SH_SessionNotFound sid))
      | Some s \<Rightarrow> (m\<lparr>am_active_sessions := hm_remove sid (am_active_sessions m)\<rparr>, Ok s))"

definition active_session_count :: "AgentSessionManager \<Rightarrow> nat" where
  "active_session_count m = length (am_active_sessions m)"

section \<open>Laws\<close>

datatype agent_call =
    AC_Accept SessionCapability u32 UnixTimestamp Instant
  | AC_Terminate Id

fun agent_step ::
  "(SessionCapability \<Rightarrow> bytes) \<Rightarrow> ed_verify \<Rightarrow> AgentSessionManager \<Rightarrow> agent_call
     \<Rightarrow> AgentSessionManager \<times> (HostSession, SessionHandlerError) result" where
  "agent_step enc v m (AC_Accept c negotiated now t) = verify_and_accept_session enc v m c negotiated now t"
| "agent_step enc v m (AC_Terminate sid) = terminate_session m sid"

text \<open>A session that the agent may run: its capability is genuine, for this host, and was presented in time.\<close>

definition session_authorized ::
  "(SessionCapability \<Rightarrow> bytes) \<Rightarrow> ed_verify \<Rightarrow> bytes \<Rightarrow> string \<Rightarrow> HostSession \<Rightarrow> bool" where
  "session_authorized enc v key target s \<longleftrightarrow>
     id_as_str (hs_session_id s) = cap_session_id (hs_capability s)
     \<and> cap_admissible (Some target) (hs_capability s) (hs_negotiated_protocol s) (hs_established_at s)
     \<and> sig_accepted v key (SessionCapability_signing_bytes enc (hs_capability s)) (cap_signature (hs_capability s))
     \<and> hs_state s = St_Active"

definition agent_inv ::
  "(SessionCapability \<Rightarrow> bytes) \<Rightarrow> ed_verify \<Rightarrow> bytes \<Rightarrow> string \<Rightarrow> AgentSessionManager \<Rightarrow> bool" where
  "agent_inv enc v key target m \<longleftrightarrow>
     cv_target_device_id (am_verifier m) = Some target \<and> cv_control_plane_verifying_key (am_verifier m) = key
     \<and> rc_inv (cv_replay_cache (am_verifier m)) \<and> rc_ttl (cv_replay_cache (am_verifier m)) = dur_from_secs 120
     \<and> hm_invar (am_active_sessions m)
     \<and> (\<forall>sid s. hm_get (am_active_sessions m) sid = Some s \<longrightarrow> hs_session_id s = sid \<and> session_authorized enc v key target s)"

lemma agent_inv_new: "agent_inv enc v key target (AgentSessionManager_new key target)"
  by (simp add: agent_inv_def AgentSessionManager_new_def with_target_device_id_def CapabilityVerifier_new_def rc_inv_new
      hm.invar_empty hm_get_Nil) (simp add: NonceReplayCache_new_def)

text \<open>The two outcomes of presenting a capability.\<close>

lemma verify_and_accept_Ok:
  "snd (verify_and_accept_session enc v m c negotiated now t) = Ok s \<longleftrightarrow>
     snd (CapabilityVerifier_verify enc v (am_verifier m) c negotiated now t) = Ok ()
     \<and> s = \<lparr>hs_session_id = Id (cap_session_id c), hs_capability = c, hs_negotiated_protocol = negotiated,
            hs_established_at = now, hs_state = St_Active\<rparr>
     \<and> Id_new (cap_session_id c) = Ok (Id (cap_session_id c))
     \<and> \<not> hm_contains (am_active_sessions m) (Id (cap_session_id c))"
proof -
  have "Id_new x = Ok i \<Longrightarrow> i = Id x" for x i by (auto simp: Id_new_def res_simps)
  then show ?thesis
    by (auto simp: verify_and_accept_session_def Let_def split: prod.splits result.splits)
qed

lemma verify_and_accept_state:
  "fst (verify_and_accept_session enc v m c negotiated now t) =
     m\<lparr>am_verifier := fst (CapabilityVerifier_verify enc v (am_verifier m) c negotiated now t),
       am_active_sessions :=
         (case snd (verify_and_accept_session enc v m c negotiated now t) of
            Ok s \<Rightarrow> hm_insert (hs_session_id s) s (am_active_sessions m) | Err _ \<Rightarrow> am_active_sessions m)\<rparr>"
  by (auto simp: verify_and_accept_session_def Let_def split: prod.splits result.splits)

lemma agent_step_inv:
  assumes "agent_inv enc v key target m"
  shows "agent_inv enc v key target (fst (agent_step enc v m q))"
proof (cases q)
  case (AC_Accept c negotiated now t)
  let ?r = "verify_and_accept_session enc v m c negotiated now t"
  have verifier: "rc_inv (cv_replay_cache (fst (CapabilityVerifier_verify enc v (am_verifier m) c negotiated now t)))"
    using assms by (simp add: agent_inv_def verify_state rc_accept_inv)
  show ?thesis
  proof (cases "snd ?r")
    case (Ok s)
    then have "session_authorized enc v key target s \<and> hs_session_id s = Id (cap_session_id c)"
      using assms by (auto simp: verify_and_accept_Ok session_authorized_def res_simps agent_inv_def)
    with Ok verifier assms show ?thesis
      by (simp add: AC_Accept verify_and_accept_state agent_inv_def hm_get_insert hm_invar_insert)
  next
    case (Err e)
    with verifier assms show ?thesis by (simp add: AC_Accept verify_and_accept_state agent_inv_def)
  qed
next
  case (AC_Terminate sid)
  then show ?thesis
    using assms
    by (auto simp: terminate_session_def agent_inv_def hm_get_remove hm.invar_remove split: option.splits if_splits)
qed

interpretation agent: machine "agent_step enc v" "agent_inv enc v key target" for enc v key target
  by unfold_locales (rule agent_step_inv)

lemma hm_all_list: "hm_invar m \<Longrightarrow> (\<And>k w. hm_get m k = Some w \<Longrightarrow> P k w) \<Longrightarrow> list_all (\<lambda>(k, w). P k w) m"
  by (auto simp: list_all_iff hm_invar_def hm_get_def)

section \<open>Properties\<close>

text \<open>
  C35: the agent runs only authorized sessions.  After any sequence of presented capabilities and
  terminations, every session in the table of a new agent is stored under the identifier of its own
  capability, and that capability was signed with the control plane's key, names this host, and was
  presented inside its period and protocol range; no identifier occurs twice.
\<close>

theorem agent_sessions_authorized:
  "let sessions = am_active_sessions (fst (run_ops (agent_step enc v) (AgentSessionManager_new key target) calls))
   in distinct (map fst sessions)
      \<and> list_all (\<lambda>(sid, s). hs_session_id s = sid \<and> session_authorized enc v key target s) sessions"
proof -
  have "agent_inv enc v key target (fst (run_ops (agent_step enc v) (AgentSessionManager_new key target) calls))"
    by (rule agent.run_inv [OF agent_inv_new])
  then show ?thesis
    unfolding Let_def agent_inv_def by (intro conjI hm_all_list) (simp_all add: hm_invar_def)
qed

text \<open>
  A capability can be used twice.  The agent forgets a nonce after 120 seconds, and the capabilities of
  the control plane are valid for 120 seconds including the last one; so after the first session has
  ended, the same capability is accepted again when its last second begins.
\<close>

theorem agent_replay_at_expiry:
  assumes "verify_and_accept_session enc v (AgentSessionManager_new key target) c negotiated now t = (m1, Ok s)"
    and "terminate_session m1 (hs_session_id s) = (m2, r)"
    and "cap_not_before c \<le> as_secs later" "as_secs later \<le> cap_expires_at c" "t + dur_from_secs 120 \<le> t'"
  shows "\<exists>m3. verify_and_accept_session enc v m2 c negotiated later t' = (m3, Ok (s\<lparr>hs_established_at := later\<rparr>))"
proof -
  let ?m = "AgentSessionManager_new key target"
  let ?cv = "fst (CapabilityVerifier_verify enc v (am_verifier ?m) c negotiated now t)"
  have s: "snd (verify_and_accept_session enc v ?m c negotiated now t) = Ok s" and m1: "fst (verify_and_accept_session enc v ?m c negotiated now t) = m1"
    by (simp_all add: assms(1))
  then have ok: "snd (CapabilityVerifier_verify enc v (am_verifier ?m) c negotiated now t) = Ok ()"
      "s = \<lparr>hs_session_id = Id (cap_session_id c), hs_capability = c, hs_negotiated_protocol = negotiated,
            hs_established_at = now, hs_state = St_Active\<rparr>" "Id_new (cap_session_id c) = Ok (Id (cap_session_id c))"
    by (simp_all add: verify_and_accept_Ok)
  have m2: "am_verifier m2 = ?cv" "am_active_sessions m2 = []"
    using m1 s ok(2) assms(2)
    by (auto simp: verify_and_accept_state terminate_session_def hm_get_def hm_insert_def hm_remove_def
        AgentSessionManager_new_def split: option.splits)
  have new: "cv_replay_cache (am_verifier ?m) = NonceReplayCache_new (dur_from_secs 120) 10000"
    by (simp add: AgentSessionManager_new_def with_target_device_id_def CapabilityVerifier_new_def)
  have entries: "rc_entries (cv_replay_cache ?cv) = [(cap_nonce c, t)]" "rc_inv (cv_replay_cache ?cv)"
      "rc_ttl (cv_replay_cache ?cv) = dur_from_secs 120" "rc_capacity (cv_replay_cache ?cv) = 10000"
    using ok(1) by (simp_all add: res_simps verify_state new rc_accept_inv rc_inv_new)
      (simp_all add: rc_accept_def rc_prune_def NonceReplayCache_new_def hm_retain_def hm_contains_def hm_get_def
        hm_insert_def hm_remove_def Let_def)
  have "snd (rc_accept (cv_replay_cache ?cv) (cap_nonce c) t')"
    using assms(5) by (simp add: rc_accept_iff [OF entries(2)] entries hm_get_def) (simp add: new NonceReplayCache_new_def)
  then have "snd (CapabilityVerifier_verify enc v ?cv c negotiated later t') = Ok ()"
    using ok(1) assms(3,4) by (simp add: res_simps cap_admissible_def)
  then have "snd (verify_and_accept_session enc v m2 c negotiated later t') = Ok (s\<lparr>hs_established_at := later\<rparr>)"
    using ok(2,3) by (simp add: verify_and_accept_Ok m2 hm_contains_def hm_get_def)
  then show ?thesis by (metis prod.collapse)
qed

definition replayed_capability :: SessionCapability where
  "replayed_capability = (example_capability (replicate 64 0))\<lparr>cap_expires_at := 130\<rparr>"

lemma replayed_capability_accepted:
  "\<exists>m s. verify_and_accept_session (\<lambda>_. []) (\<lambda>_ _ _. Some True) (AgentSessionManager_new [] ''h1'') replayed_capability 1
      (from_secs 10) 0 = (m, Ok s)"
proof -
  have "cap_admissible (Some ''h1'') replayed_capability 1 (from_secs 10)"
    by (simp add: cap_admissible_def replayed_capability_def example_capability_def SessionCapability_validate_Ok from_secs_def
        MAX_SESSION_ID_LEN_def MAX_CAPABILITY_PERMISSIONS_def MAX_NONCE_LEN_def)
  then have "snd (CapabilityVerifier_verify (\<lambda>_. []) (\<lambda>_ _ _. Some True) (am_verifier (AgentSessionManager_new [] ''h1''))
      replayed_capability 1 (from_secs 10) 0) = Ok ()"
    by (simp add: res_simps AgentSessionManager_new_def with_target_device_id_def CapabilityVerifier_new_def rc_accept_iff rc_inv_new)
      (simp add: NonceReplayCache_new_def hm_get_def sig_accepted_def replayed_capability_def example_capability_def)
  moreover have "Id_new (cap_session_id replayed_capability) = Ok (Id (cap_session_id replayed_capability))"
    by (simp add: replayed_capability_def example_capability_def Id_new_def res_simps validate_id_Ok MIN_ID_LEN_def
        MAX_ID_LEN_def printable_ascii_def eval_simps)
  ultimately show ?thesis
    by (simp add: prod_eq_iff verify_and_accept_Ok AgentSessionManager_new_def hm_contains_def hm_get_def)
qed

theorem agent_replay_at_expiry_witness:
  "\<exists>m1 m2 m3 s r. verify_and_accept_session (\<lambda>_. []) (\<lambda>_ _ _. Some True) (AgentSessionManager_new [] ''h1'')
       replayed_capability 1 (from_secs 10) 0 = (m1, Ok s)
     \<and> terminate_session m1 (hs_session_id s) = (m2, r)
     \<and> verify_and_accept_session (\<lambda>_. []) (\<lambda>_ _ _. Some True) m2 replayed_capability 1 (from_secs 130) 120000000000
         = (m3, Ok (s\<lparr>hs_established_at := from_secs 130\<rparr>))"
proof -
  obtain m1 s where 1: "verify_and_accept_session (\<lambda>_. []) (\<lambda>_ _ _. Some True) (AgentSessionManager_new [] ''h1'')
       replayed_capability 1 (from_secs 10) 0 = (m1, Ok s)"
    using replayed_capability_accepted by blast
  obtain m2 r where 2: "terminate_session m1 (hs_session_id s) = (m2, r)" by fastforce
  from agent_replay_at_expiry [OF 1 2, of "from_secs 130" 120000000000] 1 2 show ?thesis
    by (auto simp: replayed_capability_def example_capability_def from_secs_def dur_from_secs_def)
qed

end
