(* ===== verification/Agent_Identity.thy ===== *)
theory Agent_Identity
  imports Auth_Tokens Nexus_Maps
begin

text \<open>
  \<open>apps/nexus-agent/src/identity.rs\<close> and \<open>enroll.rs\<close>: the key of the device with its credential, the file
  they are kept in, and the enrollment at the control plane.  The file system is the map of its files;
  the operations of the system that fail are the set \<open>f\<close>.  \<open>serde_json\<close> is the pair \<open>to_json\<close> and \<open>from_json\<close>.
\<close>

section \<open>Identity\<close>

datatype IdentityError = Ident_Io | Ident_Serialization | Ident_InvalidKey string | Ident_NotEnrolled

record StoredIdentity =
  si_device_private_key :: bytes
  si_credential :: "DeviceCredential option"

record AgentIdentity =
  ai_storage_path :: string
  ai_signing_key :: bytes
  ai_credential :: "DeviceCredential option"

type_synonym file_system = "(string, bytes) hashmap"

datatype io_op = IO_read | IO_create_dir | IO_write

text \<open>\<open>Path::parent\<close> of a path with the separator \<open>/\<close> is \<open>None\<close> when it has no component but the root.\<close>

fun path_segments :: "string \<Rightarrow> string \<Rightarrow> string list" where
  "path_segments cur [] = [cur]"
| "path_segments cur (c # s) = (if c = CHR ''/'' then cur # path_segments [] s else path_segments (cur @ [c]) s)"

definition has_parent :: "string \<Rightarrow> bool" where
  "has_parent path =
     (case path_segments [] path of
        [] \<Rightarrow> False
      | first # rest \<Rightarrow> first \<noteq> [] \<or> list_ex (\<lambda>s. s \<noteq> [] \<and> s \<noteq> ''.'') rest)"

definition AgentIdentity_save ::
  "(StoredIdentity \<Rightarrow> bytes option) \<Rightarrow> io_op set \<Rightarrow> AgentIdentity \<Rightarrow> file_system \<Rightarrow> file_system \<times> (unit, IdentityError) result" where
  "AgentIdentity_save to_json f i fs =
     (if has_parent (ai_storage_path i) \<and> IO_create_dir \<in> f then (fs, Err Ident_Io)
      else
        (case to_json \<lparr>si_device_private_key = ai_signing_key i, si_credential = ai_credential i\<rparr> of
           None \<Rightarrow> (fs, Err Ident_Serialization)
         | Some content \<Rightarrow>
             if IO_write \<in> f then (fs, Err Ident_Io)
             else (hm_insert (ai_storage_path i) content fs, Ok ())))"

text \<open>The key that is made from the nanoseconds of the clock: big-endian, then little-endian.\<close>

definition generated_key :: "128 word \<Rightarrow> bytes" where
  "generated_key seed = to_be 16 seed @ rev (to_be 16 seed)"

text \<open>\<open>nanos\<close> is the time since the epoch; before the epoch, \<open>duration_since\<close> fails and \<open>unwrap\<close> panics.\<close>

definition load_or_generate ::
  "(StoredIdentity \<Rightarrow> bytes option) \<Rightarrow> (bytes \<Rightarrow> StoredIdentity option) \<Rightarrow> io_op set \<Rightarrow> int \<Rightarrow> string \<Rightarrow> file_system
     \<Rightarrow> file_system \<times> (AgentIdentity, IdentityError) result outcome" where
  "load_or_generate to_json from_json f nanos storage_path fs =
     (case hm_get fs storage_path of
        Some content \<Rightarrow>
          (if IO_read \<in> f then (fs, Returns (Err Ident_Io))
           else
             (case from_json content of
                None \<Rightarrow> (fs, Returns (Err Ident_Serialization))
              | Some stored \<Rightarrow>
                  if length (si_device_private_key stored) \<noteq> 32
                  then (fs, Returns (Err (Ident_InvalidKey ''private key must be 32 bytes'')))
                  else (fs, Returns (Ok \<lparr>ai_storage_path = storage_path, ai_signing_key = si_device_private_key stored,
                                         ai_credential = si_credential stored\<rparr>))))
      | None \<Rightarrow>
          if nanos < 0 then (fs, Panics)
          else
            (let identity = \<lparr>ai_storage_path = storage_path, ai_signing_key = generated_key (of_int nanos),
                             ai_credential = None\<rparr> in
             case AgentIdentity_save to_json f identity fs of
               (fs', Err e) \<Rightarrow> (fs', Returns (Err e))
             | (fs', Ok _) \<Rightarrow> (fs', Returns (Ok identity))))"

definition from_signing_key :: "bytes \<Rightarrow> string \<Rightarrow> AgentIdentity" where
  "from_signing_key key storage_path = \<lparr>ai_storage_path = storage_path, ai_signing_key = key, ai_credential = None\<rparr>"

definition set_credential ::
  "(StoredIdentity \<Rightarrow> bytes option) \<Rightarrow> io_op set \<Rightarrow> DeviceCredential \<Rightarrow> AgentIdentity \<Rightarrow> file_system
     \<Rightarrow> AgentIdentity \<times> file_system \<times> (unit, IdentityError) result" where
  "set_credential to_json f credential i fs =
     (let i' = i\<lparr>ai_credential := Some credential\<rparr> in
      case AgentIdentity_save to_json f i' fs of (fs', r) \<Rightarrow> (i', fs', r))"

section \<open>Enrollment\<close>

datatype EnrollmentClientError =
    EC_Identity IdentityError
  | EC_Http
  | EC_Rejected nat string
  | EC_Serialization

text \<open>What comes back for a request: no answer, or a status with its body, also read as a credential.\<close>

datatype HttpReply = No_Reply | Reply nat string "DeviceCredential option"

definition is_success :: "nat \<Rightarrow> bool" where
  "is_success status \<longleftrightarrow> 200 \<le> status \<and> status < 300"

definition registration_request ::
  "ed_sign \<Rightarrow> (bytes \<Rightarrow> bytes) \<Rightarrow> AgentIdentity \<Rightarrow> EnrollmentToken \<Rightarrow> string \<Rightarrow> string \<Rightarrow> string \<Rightarrow> string \<Rightarrow> UnixTimestamp
     \<Rightarrow> DeviceRegistrationRequest" where
  "registration_request ed_sg pub_of i token hostname os architecture agent_version now =
     sign_proof ed_sg
       \<lparr>rr_enrollment_token = token, rr_device_public_key = pub_of (ai_signing_key i), rr_os = os,
        rr_architecture = architecture, rr_hostname = hostname, rr_agent_version = agent_version,
        rr_requested_at = now, rr_proof_signature = []\<rparr> (ai_signing_key i)"

record EnrollmentClient =
  ec_control_plane_url :: string

text \<open>\<open>send\<close> is the exchange of the HTTP client: a POST of the request to the address.\<close>

definition EnrollmentClient_enroll ::
  "ed_sign \<Rightarrow> (bytes \<Rightarrow> bytes) \<Rightarrow> (StoredIdentity \<Rightarrow> bytes option) \<Rightarrow> io_op set \<Rightarrow> (string \<Rightarrow> DeviceRegistrationRequest \<Rightarrow> HttpReply)
     \<Rightarrow> EnrollmentClient \<Rightarrow> EnrollmentToken \<Rightarrow> string \<Rightarrow> string \<Rightarrow> string \<Rightarrow> string \<Rightarrow> UnixTimestamp \<Rightarrow> AgentIdentity \<Rightarrow> file_system
     \<Rightarrow> AgentIdentity \<times> file_system \<times> (DeviceCredential, EnrollmentClientError) result" where
  "EnrollmentClient_enroll ed_sg pub_of to_json f send client token hostname os architecture agent_version now i fs =
     (case send (ec_control_plane_url client @ ''/api/v1/devices/enroll'')
             (registration_request ed_sg pub_of i token hostname os architecture agent_version now) of
        No_Reply \<Rightarrow> (i, fs, Err EC_Http)
      | Reply status body credential \<Rightarrow>
          if \<not> is_success status then (i, fs, Err (EC_Rejected status body))
          else
            (case credential of
               None \<Rightarrow> (i, fs, Err EC_Http)
             | Some c \<Rightarrow>
                 (case set_credential to_json f c i fs of
                    (i', fs', Err e) \<Rightarrow> (i', fs', Err (EC_Identity e))
                  | (i', fs', Ok _) \<Rightarrow> (i', fs', Ok c))))"

section \<open>Laws\<close>

definition identity_json_correct :: "(StoredIdentity \<Rightarrow> bytes option) \<Rightarrow> (bytes \<Rightarrow> StoredIdentity option) \<Rightarrow> bool" where
  "identity_json_correct to_json from_json \<longleftrightarrow> (\<forall>s b. to_json s = Some b \<longrightarrow> from_json b = Some s)"

lemma length_generated_key [simp]: "length (generated_key seed) = 32"
  by (simp add: generated_key_def del: to_be_numeral)

text \<open>The file holds the identity.\<close>

definition saved :: "(bytes \<Rightarrow> StoredIdentity option) \<Rightarrow> AgentIdentity \<Rightarrow> file_system \<Rightarrow> bool" where
  "saved from_json i fs \<longleftrightarrow>
     (\<exists>b. hm_get fs (ai_storage_path i) = Some b
        \<and> from_json b = Some \<lparr>si_device_private_key = ai_signing_key i, si_credential = ai_credential i\<rparr>)
     \<and> length (ai_signing_key i) = 32"

lemma save_saved:
  assumes "identity_json_correct to_json from_json" "length (ai_signing_key i) = 32"
    and "AgentIdentity_save to_json f i fs = (fs', Ok ())"
  shows "saved from_json i fs'"
  using assms by (auto simp: saved_def AgentIdentity_save_def identity_json_correct_def hm_get_insert split: if_splits option.splits)

lemma load_saved:
  assumes "saved from_json i fs"
  shows "load_or_generate to_json from_json {} nanos (ai_storage_path i) fs = (fs, Returns (Ok i))"
  using assms by (auto simp: saved_def load_or_generate_def)

lemma load_or_generate_saved:
  assumes "identity_json_correct to_json from_json"
    and "load_or_generate to_json from_json f nanos path fs = (fs', Returns (Ok i))"
  shows "saved from_json i fs'" "ai_storage_path i = path"
proof -
  have "saved from_json i fs' \<and> ai_storage_path i = path"
  proof (cases "hm_get fs path")
    case (Some b)
    then show ?thesis using assms(2) by (auto simp: load_or_generate_def saved_def split: if_splits option.splits)
  next
    case None
    let ?i = "\<lparr>ai_storage_path = path, ai_signing_key = generated_key (of_int nanos), ai_credential = None\<rparr>"
    from None assms(2) have "AgentIdentity_save to_json f ?i fs = (fs', Ok ()) \<and> i = ?i"
      by (auto simp: load_or_generate_def Let_def split: if_splits prod.splits result.splits)
    then show ?thesis using save_saved [OF assms(1), of ?i f fs fs'] by simp
  qed
  then show "saved from_json i fs'" "ai_storage_path i = path" by simp_all
qed

section \<open>Properties\<close>

text \<open>
  The identity survives a restart.  If the agent has loaded or made its identity and then stored a
  credential, whichever system calls may fail in other attempts, a later start that can read the file
  gets the same key and that credential, and does not make a new key.
\<close>

theorem identity_survives_restart:
  assumes "identity_json_correct to_json from_json"
    and "load_or_generate to_json from_json f nanos path fs = (fs1, Returns (Ok i))"
    and "set_credential to_json f' c i fs1 = (i', fs2, Ok ())"
  shows "load_or_generate to_json from_json {} nanos' path fs2 = (fs2, Returns (Ok i'))
    \<and> ai_signing_key i' = ai_signing_key i \<and> ai_credential i' = Some c"
proof -
  note i = load_or_generate_saved [OF assms(1,2)]
  have i': "i' = i\<lparr>ai_credential := Some c\<rparr>" "AgentIdentity_save to_json f' i' fs1 = (fs2, Ok ())"
    using assms(3) by (auto simp: set_credential_def Let_def split: prod.splits)
  have "saved from_json i' fs2"
    using i(1) by (intro save_saved [OF assms(1) _ i'(2)]) (simp add: i'(1) saved_def)
  from load_saved [OF this, of to_json nanos'] i(2) show ?thesis by (simp add: i'(1))
qed

text \<open>An example codec: the stored key with a flag for the example credential.\<close>

definition example_identity_json :: "StoredIdentity \<Rightarrow> bytes option" where
  "example_identity_json s =
     (case si_credential s of
        None \<Rightarrow> Some (0 # si_device_private_key s)
      | Some c \<Rightarrow> if c = example_credential then Some (1 # si_device_private_key s) else None)"

definition example_identity_parse :: "bytes \<Rightarrow> StoredIdentity option" where
  "example_identity_parse b =
     (case b of
        [] \<Rightarrow> None
      | tag # key \<Rightarrow>
          Some \<lparr>si_device_private_key = key, si_credential = (if tag = 0 then None else Some example_credential)\<rparr>)"

lemma example_identity_json_correct: "identity_json_correct example_identity_json example_identity_parse"
  by (auto simp: identity_json_correct_def example_identity_json_def example_identity_parse_def
      split: option.splits if_splits intro!: StoredIdentity.equality)

theorem identity_survives_restart_witness:
  "\<exists>fs1 fs2 i i'. load_or_generate example_identity_json example_identity_parse {} 1000 ''/id'' [] = (fs1, Returns (Ok i))
     \<and> set_credential example_identity_json {} example_credential i fs1 = (i', fs2, Ok ())
     \<and> load_or_generate example_identity_json example_identity_parse {} 2000 ''/id'' fs2 = (fs2, Returns (Ok i'))
     \<and> ai_signing_key i' = generated_key 1000"
proof -
  define i where "i = \<lparr>ai_storage_path = ''/id'', ai_signing_key = generated_key 1000, ai_credential = None\<rparr>"
  define fs1 where "fs1 = [(''/id'', 0 # generated_key 1000)]"
  have 1: "load_or_generate example_identity_json example_identity_parse {} 1000 ''/id'' [] = (fs1, Returns (Ok i))"
    by (simp add: load_or_generate_def hm_get_def Let_def AgentIdentity_save_def example_identity_json_def fs1_def i_def
        hm_insert_def hm_remove_def)
  obtain i' fs2 where 2: "set_credential example_identity_json {} example_credential i fs1 = (i', fs2, Ok ())"
    by (simp add: set_credential_def Let_def AgentIdentity_save_def example_identity_json_def i_def)
  show ?thesis
    using identity_survives_restart [OF example_identity_json_correct 1 2, of 2000] 1 2 by (auto simp: i_def)
qed

end
