(* ===== verification/Relay_Session.thy ===== *)
theory Relay_Session
  imports Relay_Token Auth_Replay
begin

text \<open>
  \<open>apps/nexus-relay/src/session.rs\<close>: the table in which the relay pairs a client with a host.  The
  source shares a \<open>RelaySession\<close> between the table and the connection tasks (\<open>Arc\<close>), and an entry can
  leave the table while a task still holds the session; the model keeps the sessions in a store and
  the table maps a session identifier to an address of the store.
\<close>

section \<open>Model\<close>

datatype SessionPairingError = Pair_RoleAlreadyConnected | Pair_IdentityMismatch | Pair_Expired

record RelayMetrics =
  client_to_host_bytes :: u64
  host_to_client_bytes :: u64
  client_to_host_packets :: u64
  host_to_client_packets :: u64

record RelaySessionState =
  st_client :: bool
  st_host :: bool
  st_terminated :: bool

record RelaySession =
  rs_session_id :: Id
  rs_client_device_id :: string
  rs_target_device_id :: string
  rs_state :: RelaySessionState
  rs_metrics :: RelayMetrics

definition RelaySession_new :: "RelayToken \<Rightarrow> RelaySession" where
  "RelaySession_new token =
     \<lparr>rs_session_id = rt_session_id token,
      rs_client_device_id = id_as_str (rt_client_device_id token),
      rs_target_device_id = id_as_str (rt_target_device_id token),
      rs_state = \<lparr>st_client = False, st_host = False, st_terminated = False\<rparr>,
      rs_metrics = \<lparr>client_to_host_bytes = 0, host_to_client_bytes = 0, client_to_host_packets = 0,
                    host_to_client_packets = 0\<rparr>\<rparr>"

definition record_forward :: "EndpointRole \<Rightarrow> u64 \<Rightarrow> RelaySession \<Rightarrow> RelaySession" where
  "record_forward role n s =
     (let m = rs_metrics s in
      s\<lparr>rs_metrics :=
          (case role of
             Role_Client \<Rightarrow> m\<lparr>client_to_host_bytes := client_to_host_bytes m + n,
                              client_to_host_packets := client_to_host_packets m + 1\<rparr>
           | Role_Host \<Rightarrow> m\<lparr>host_to_client_bytes := host_to_client_bytes m + n,
                            host_to_client_packets := host_to_client_packets m + 1\<rparr>)\<rparr>)"

definition rs_snapshot :: "RelaySession \<Rightarrow> RelayMetrics" where
  "rs_snapshot s = rs_metrics s"

definition rs_terminate :: "RelaySession \<Rightarrow> RelaySession" where
  "rs_terminate s = s\<lparr>rs_state := (rs_state s)\<lparr>st_terminated := True\<rparr>\<rparr>"

record RelaySessionTable =
  rst_sessions :: "(Id, nat) hashmap"
  rst_store :: "RelaySession list"

definition RelaySessionTable_new :: RelaySessionTable where
  "RelaySessionTable_new = \<lparr>rst_sessions = [], rst_store = []\<rparr>"

definition rst_len :: "RelaySessionTable \<Rightarrow> nat" where
  "rst_len t = length (rst_sessions t)"

definition get_session :: "RelaySessionTable \<Rightarrow> Id \<Rightarrow> nat option" where
  "get_session t sid = hm_get (rst_sessions t) sid"

definition remove_session :: "RelaySessionTable \<Rightarrow> Id \<Rightarrow> RelaySessionTable" where
  "remove_session t sid = t\<lparr>rst_sessions := hm_remove sid (rst_sessions t)\<rparr>"

text \<open>\<open>entry(..).or_insert_with(..)\<close>: the address of the session, allocated when it is missing.\<close>

definition rst_entry :: "RelaySessionTable \<Rightarrow> RelayToken \<Rightarrow> RelaySessionTable \<times> nat" where
  "rst_entry t token =
     (case get_session t (rt_session_id token) of
        Some a \<Rightarrow> (t, a)
      | None \<Rightarrow>
          (let a = length (rst_store t) in
           (t\<lparr>rst_sessions := hm_insert (rt_session_id token) a (rst_sessions t),
              rst_store := rst_store t @ [RelaySession_new token]\<rparr>, a)))"

fun slot :: "EndpointRole \<Rightarrow> RelaySessionState \<Rightarrow> bool" where
  "slot Role_Client st = st_client st"
| "slot Role_Host st = st_host st"

fun set_slot :: "EndpointRole \<Rightarrow> RelaySessionState \<Rightarrow> RelaySessionState" where
  "set_slot Role_Client st = st\<lparr>st_client := True\<rparr>"
| "set_slot Role_Host st = st\<lparr>st_host := True\<rparr>"

definition register_or_join ::
  "RelaySessionTable \<Rightarrow> RelayToken \<Rightarrow> UnixTimestamp \<Rightarrow> RelaySessionTable \<times> (nat \<times> bool, SessionPairingError) result" where
  "register_or_join t token now =
     (if rt_expires_at token \<le> now then (t, Err Pair_Expired)
      else
        (case rst_entry t token of
           (t', a) \<Rightarrow>
             (let session = rst_store t' ! a in
              if rs_client_device_id session \<noteq> id_as_str (rt_client_device_id token)
                 \<or> rs_target_device_id session \<noteq> id_as_str (rt_target_device_id token)
                then (t', Err Pair_IdentityMismatch)
              else if slot (rt_role token) (rs_state session) then (t', Err Pair_RoleAlreadyConnected)
              else
                (let state = set_slot (rt_role token) (rs_state session) in
                 (t'\<lparr>rst_store := (rst_store t')[a := session\<lparr>rs_state := state\<rparr>]\<rparr>,
                  Ok (a, st_client state \<and> st_host state))))))"

text \<open>The calls the connection tasks make on the table and on the sessions they hold.\<close>

datatype table_op =
    Join RelayToken UnixTimestamp
  | Remove Id
  | Forward nat EndpointRole u64
  | Terminate nat

definition update_store :: "nat \<Rightarrow> (RelaySession \<Rightarrow> RelaySession) \<Rightarrow> RelaySessionTable \<Rightarrow> RelaySessionTable" where
  "update_store a f t = t\<lparr>rst_store := (rst_store t)[a := f (rst_store t ! a)]\<rparr>"

fun table_step :: "RelaySessionTable \<Rightarrow> table_op \<Rightarrow> RelaySessionTable \<times> (nat \<times> bool, SessionPairingError) result option" where
  "table_step t (Join token now) = (case register_or_join t token now of (t', r) \<Rightarrow> (t', Some r))"
| "table_step t (Remove sid) = (remove_session t sid, None)"
| "table_step t (Forward a role n) = (update_store a (record_forward role n) t, None)"
| "table_step t (Terminate a) = (update_store a rs_terminate t, None)"

section \<open>Laws\<close>

text \<open>Every address in the table is allocated and holds a session with that identifier.\<close>

definition table_inv :: "RelaySessionTable \<Rightarrow> bool" where
  "table_inv t \<longleftrightarrow> (\<forall>sid a. get_session t sid = Some a \<longrightarrow> a < length (rst_store t) \<and> rs_session_id (rst_store t ! a) = sid)"

lemma table_invD: "\<lbrakk>table_inv t; get_session t sid = Some a\<rbrakk> \<Longrightarrow> a < length (rst_store t) \<and> rs_session_id (rst_store t ! a) = sid"
  by (simp add: table_inv_def)

lemma table_inv_new: "table_inv RelaySessionTable_new"
  by (simp add: table_inv_def RelaySessionTable_new_def get_session_def hm_get_Nil)

lemma slot_set_slot [simp]: "slot r (set_slot r' st) \<longleftrightarrow> r = r' \<or> slot r st"
  by (cases r; cases r') simp_all

lemma both_slots: "st_client st \<and> st_host st \<longleftrightarrow> slot r st \<and> slot (peer r) st"
  by (cases r) auto

lemma record_forward_sel [simp]:
  "rs_session_id (record_forward r n s) = rs_session_id s" "rs_state (record_forward r n s) = rs_state s"
  "rs_client_device_id (record_forward r n s) = rs_client_device_id s"
  "rs_target_device_id (record_forward r n s) = rs_target_device_id s"
  by (simp_all add: record_forward_def Let_def)

lemma rs_terminate_sel [simp]:
  "rs_session_id (rs_terminate s) = rs_session_id s" "slot r (rs_state (rs_terminate s)) = slot r (rs_state s)"
  "rs_client_device_id (rs_terminate s) = rs_client_device_id s"
  "rs_target_device_id (rs_terminate s) = rs_target_device_id s"
  by (simp_all add: rs_terminate_def, cases r, simp_all)

text \<open>The entry of a token: what it holds, and that nothing else changes.\<close>

lemma rst_entry_spec:
  assumes "table_inv t" "rst_entry t token = (t', a)"
  shows "table_inv t'" "a < length (rst_store t')" "rs_session_id (rst_store t' ! a) = rt_session_id token"
    and "length (rst_store t) \<le> length (rst_store t')"
    and "\<And>b. b < length (rst_store t) \<Longrightarrow> rst_store t' ! b = rst_store t ! b"
    and "length (rst_store t) \<le> a \<Longrightarrow> rst_store t' ! a = RelaySession_new token"
    and "\<And>b. length (rst_store t) \<le> b \<Longrightarrow> b < length (rst_store t') \<Longrightarrow> b = a"
proof (atomize (full), goal_cases)
  case 1
  show ?case
  proof (cases "get_session t (rt_session_id token)")
    case (Some b)
    with assms show ?thesis using table_invD [OF assms(1) Some] by (auto simp: rst_entry_def)
  next
    case None
    with assms(2) have t': "t' = t\<lparr>rst_sessions := hm_insert (rt_session_id token) a (rst_sessions t),
        rst_store := rst_store t @ [RelaySession_new token]\<rparr>" and a: "a = length (rst_store t)"
      by (auto simp: rst_entry_def Let_def)
    have "table_inv t'"
      using assms(1) by (auto simp: table_inv_def t' a get_session_def hm_get_insert nth_append RelaySession_new_def
          less_Suc_eq split: if_splits)
    then show ?thesis by (auto simp: t' a nth_append RelaySession_new_def)
  qed
qed

text \<open>A successful join takes a free slot of the session object and reports whether both are taken.\<close>

lemma register_or_join_Ok:
  assumes "register_or_join t token now = (t', Ok (a, paired))"
  obtains t0 where "rst_entry t token = (t0, a)" "now < rt_expires_at token"
    and "rs_client_device_id (rst_store t0 ! a) = id_as_str (rt_client_device_id token)"
    and "rs_target_device_id (rst_store t0 ! a) = id_as_str (rt_target_device_id token)"
    and "\<not> slot (rt_role token) (rs_state (rst_store t0 ! a))"
    and "t' = update_store a (\<lambda>s. s\<lparr>rs_state := set_slot (rt_role token) (rs_state s)\<rparr>) t0"
    and "paired \<longleftrightarrow> slot (peer (rt_role token)) (rs_state (rst_store t0 ! a))"
proof -
  obtain t0 b where e: "rst_entry t token = (t0, b)" by fastforce
  with assms show ?thesis
    by (intro that [of t0])
      (auto simp: register_or_join_def Let_def update_store_def both_slots [of _ "rt_role token"] split: if_splits)
qed

lemma register_or_join_Err:
  assumes "register_or_join t token now = (t', Err e)"
  shows "t' = t \<or> t' = fst (rst_entry t token)"
  using assms by (cases "rst_entry t token") (auto simp: register_or_join_def Let_def split: if_splits)

lemma update_store_sel [simp]:
  "length (rst_store (update_store a f t)) = length (rst_store t)" "get_session (update_store a f t) = get_session t"
  by (simp_all add: update_store_def get_session_def fun_eq_iff)

lemma nth_update_store:
  "b < length (rst_store t) \<Longrightarrow> rst_store (update_store a f t) ! b = (if a = b then f (rst_store t ! a) else rst_store t ! b)"
  by (simp add: update_store_def nth_list_update)

lemma table_inv_update:
  "\<lbrakk>table_inv t; \<And>s. rs_session_id (f s) = rs_session_id s\<rbrakk> \<Longrightarrow> table_inv (update_store a f t)"
  by (auto simp: table_inv_def nth_update_store)

lemma register_or_join_inv: "table_inv t \<Longrightarrow> table_inv (fst (register_or_join t token now))"
proof (cases "register_or_join t token now")
  case (Pair t' r)
  assume inv: "table_inv t"
  show ?thesis
  proof (cases r)
    case (Ok x)
    obtain a p where x: "x = (a, p)" by fastforce
    show ?thesis
      using Pair rst_entry_spec(1) [OF inv]
      by (auto simp: Ok x table_inv_update elim!: register_or_join_Ok)
  next
    case (Err e)
    with Pair register_or_join_Err [of t token now t' e] inv rst_entry_spec(1) [OF inv]
    show ?thesis by (metis fst_conv prod.collapse)
  qed
qed

lemma table_step_inv: "table_inv t \<Longrightarrow> table_inv (fst (table_step t op))"
proof (cases op)
  case (Join token now)
  assume "table_inv t"
  then show ?thesis using register_or_join_inv [of t token now] by (simp add: Join split_beta)
next
  case (Remove sid)
  assume "table_inv t"
  then show ?thesis by (auto simp: Remove remove_session_def table_inv_def get_session_def hm_get_remove split: if_splits)
qed (simp_all add: table_inv_update)

interpretation table: machine table_step table_inv
  by unfold_locales (rule table_step_inv)

text \<open>The slots that are taken, and the slot a successful join is given.\<close>

definition taken :: "RelaySessionTable \<Rightarrow> (nat \<times> EndpointRole) set" where
  "taken t = {(a, r). a < length (rst_store t) \<and> slot r (rs_state (rst_store t ! a))}"

fun join_grant :: "table_op \<Rightarrow> (nat \<times> bool, SessionPairingError) result option \<Rightarrow> (nat \<times> EndpointRole) option" where
  "join_grant (Join token now) (Some (Ok (a, paired))) = Some (a, rt_role token)"
| "join_grant _ _ = None"

lemma join_grant_Some:
  assumes "join_grant op out = Some (a, r)"
  obtains token now paired where "op = Join token now" "out = Some (Ok (a, paired))" "r = rt_role token"
  using assms by (cases "(op, out)" rule: join_grant.cases) auto

lemma taken_entry: "\<lbrakk>table_inv t; rst_entry t token = (t', a)\<rbrakk> \<Longrightarrow> taken t' = taken t"
proof -
  assume inv: "table_inv t" and e: "rst_entry t token = (t', a)"
  note sp = rst_entry_spec [OF inv e]
  have "\<not> slot r (rs_state (RelaySession_new token))" for r
    by (cases r) (simp_all add: RelaySession_new_def)
  then show ?thesis
    using sp(4-7) by (auto simp: taken_def) (metis not_le_imp_less)+
qed

lemma taken_update:
  "(\<And>s r. slot r (rs_state (f s)) = slot r (rs_state s)) \<Longrightarrow> taken (update_store a f t) = taken t"
  by (auto simp: taken_def nth_update_store split: if_splits)

lemma taken_set_slot:
  assumes "a < length (rst_store t)"
  shows "taken (update_store a (\<lambda>s. s\<lparr>rs_state := set_slot r (rs_state s)\<rparr>) t) = insert (a, r) (taken t)"
  using assms by (auto simp: taken_def nth_update_store split: if_splits)

lemma taken_step:
  assumes inv: "table_inv t"
  shows "taken (fst (table_step t op)) = set_option (join_grant op (snd (table_step t op))) \<union> taken t"
proof (cases op)
  case (Join token now)
  obtain t' r where r: "register_or_join t token now = (t', r)" by fastforce
  show ?thesis
  proof (cases r)
    case (Ok x)
    obtain a p where x: "x = (a, p)" by fastforce
    from r obtain t0 where "rst_entry t token = (t0, a)"
        "t' = update_store a (\<lambda>s. s\<lparr>rs_state := set_slot (rt_role token) (rs_state s)\<rparr>) t0"
      unfolding Ok x by (rule register_or_join_Ok)
    then show ?thesis
      using rst_entry_spec(2) [OF inv] taken_entry [OF inv] by (simp add: Join r Ok x taken_set_slot)
  next
    case (Err e)
    with r register_or_join_Err [of t token now t' e] have "t' = t \<or> t' = fst (rst_entry t token)" by simp
    then have "taken t' = taken t" using taken_entry [OF inv] by (metis prod.collapse)
    then show ?thesis by (simp add: Join r Err)
  qed
next
  case (Remove sid)
  then show ?thesis by (simp add: remove_session_def taken_def)
qed (simp_all add: taken_update)

lemma join_grant_fresh:
  assumes inv: "table_inv t" and g: "join_grant op (snd (table_step t op)) = Some (a, r)"
  shows "(a, r) \<notin> taken t"
proof -
  from g obtain token now p where op: "op = Join token now" "snd (table_step t op) = Some (Ok (a, p))" "r = rt_role token"
    by (rule join_grant_Some)
  then have "register_or_join t token now = (fst (table_step t op), Ok (a, p))" by (simp add: split_beta prod_eq_iff)
  then obtain t0 where "rst_entry t token = (t0, a)" "\<not> slot r (rs_state (rst_store t0 ! a))"
    unfolding op(3) by (rule register_or_join_Ok)
  then have "(a, r) \<notin> taken t0" "taken t0 = taken t"
    by (simp add: taken_def) (rule taken_entry [OF inv \<open>rst_entry t token = (t0, a)\<close>])
  then show ?thesis by simp
qed

interpretation slots: once_guard table_step join_grant taken "\<lambda>_. True" table_inv
  by unfold_locales (auto simp: table_step_inv taken_step dest: join_grant_fresh)

text \<open>What stays of a session object once it is allocated: its identifier and its two devices.\<close>

definition identity :: "RelaySession \<Rightarrow> Id \<times> string \<times> string" where
  "identity s = (rs_session_id s, rs_client_device_id s, rs_target_device_id s)"

definition token_identity :: "RelayToken \<Rightarrow> Id \<times> string \<times> string" where
  "token_identity token =
     (rt_session_id token, id_as_str (rt_client_device_id token), id_as_str (rt_target_device_id token))"

lemma table_step_identity:
  assumes "table_inv t" "a < length (rst_store t)"
  shows "a < length (rst_store (fst (table_step t op)))
    \<and> identity (rst_store (fst (table_step t op)) ! a) = identity (rst_store t ! a)"
proof (cases op)
  case (Join token now)
  obtain t' r where r: "register_or_join t token now = (t', r)" by fastforce
  obtain t0 b where e: "rst_entry t token = (t0, b)" by fastforce
  note sp = rst_entry_spec(4,5) [OF assms(1) e]
  have "t' = t \<or> t' = t0 \<or> t' = update_store b (\<lambda>s. s\<lparr>rs_state := set_slot (rt_role token) (rs_state s)\<rparr>) t0"
  proof (cases r)
    case (Ok x)
    obtain c p where "x = (c, p)" by fastforce
    with r Ok e show ?thesis by (auto elim!: register_or_join_Ok)
  qed (use register_or_join_Err [of t token now t'] r e in auto)
  then show ?thesis
    using sp assms(2) by (auto simp: Join r identity_def nth_update_store)
qed (use assms in \<open>auto simp: identity_def nth_update_store remove_session_def\<close>)

lemma table_run_identity:
  "\<lbrakk>table_inv t; a < length (rst_store t)\<rbrakk> \<Longrightarrow> identity (rst_store (fst (run_ops table_step t ops)) ! a) = identity (rst_store t ! a)"
  using table_step_identity table_step_inv
  by (induction ops arbitrary: t) (simp_all del: run_ops.simps(2))

lemma join_identity:
  assumes inv: "table_inv t" and "register_or_join t token now = (t', Ok (a, p))"
  shows "a < length (rst_store t') \<and> identity (rst_store t' ! a) = token_identity token
    \<and> (p \<longleftrightarrow> (a, peer (rt_role token)) \<in> taken t)"
proof -
  from assms(2) obtain t0 where e: "rst_entry t token = (t0, a)"
    and ids: "rs_client_device_id (rst_store t0 ! a) = id_as_str (rt_client_device_id token)"
      "rs_target_device_id (rst_store t0 ! a) = id_as_str (rt_target_device_id token)"
    and t': "t' = update_store a (\<lambda>s. s\<lparr>rs_state := set_slot (rt_role token) (rs_state s)\<rparr>) t0"
    and p: "p \<longleftrightarrow> slot (peer (rt_role token)) (rs_state (rst_store t0 ! a))"
    by (rule register_or_join_Ok)
  note sp = rst_entry_spec(2,3) [OF inv e]
  have "p \<longleftrightarrow> (a, peer (rt_role token)) \<in> taken t0" using sp(1) by (simp add: p taken_def)
  then show ?thesis
    using sp ids taken_entry [OF inv e]
    by (simp add: t' identity_def token_identity_def nth_update_store)
qed

text \<open>The table before the operation with a given index, and what a successful join there means.\<close>

definition table_at :: "table_op list \<Rightarrow> nat \<Rightarrow> RelaySessionTable" where
  "table_at ops i = fst (run_ops table_step RelaySessionTable_new (take i ops))"

lemma table_at_inv: "table_inv (table_at ops i)"
  unfolding table_at_def by (rule table.run_inv [OF table_inv_new])

lemma taken_run:
  "table_inv t \<Longrightarrow> taken (fst (run_ops table_step t ops)) = set (granted join_grant ops (snd (run_ops table_step t ops))) \<union> taken t"
proof (induction ops arbitrary: t)
  case (Cons op ops)
  show ?case
    using Cons.IH [OF table_step_inv [OF Cons.prems]] taken_step [OF Cons.prems, of op]
    by (auto simp del: run_ops.simps(2) split: option.splits)
qed simp

lemma taken_at:
  "taken (table_at ops i) = set (granted join_grant (take i ops) (take i (snd (run_ops table_step RelaySessionTable_new ops))))"
proof -
  have "taken RelaySessionTable_new = {}" by (simp add: taken_def RelaySessionTable_new_def)
  then show ?thesis by (simp add: table_at_def taken_run [OF table_inv_new] take_run_ops)
qed

lemma join_at:
  assumes "i < length ops" "ops ! i = Join token now"
    and "snd (run_ops table_step RelaySessionTable_new ops) ! i = Some (Ok (a, p))"
  shows "identity (rst_store (table_at ops (length ops)) ! a) = token_identity token
    \<and> (p \<longleftrightarrow> (a, peer (rt_role token)) \<in> taken (table_at ops i))"
proof -
  have "register_or_join (table_at ops i) token now = (table_at ops (Suc i), Ok (a, p))"
    using assms run_ops_nth [of i ops table_step RelaySessionTable_new]
    by (simp add: table_at_def fst_run_ops_take_Suc split_beta prod_eq_iff)
  from join_identity [OF table_at_inv this]
  have j: "a < length (rst_store (table_at ops (Suc i)))" "identity (rst_store (table_at ops (Suc i)) ! a) = token_identity token"
      "p \<longleftrightarrow> (a, peer (rt_role token)) \<in> taken (table_at ops i)"
    by simp_all
  have "table_at ops (length ops) = fst (run_ops table_step (table_at ops (Suc i)) (drop (Suc i) ops))"
    by (simp add: table_at_def flip: fst_run_ops_append)
  with table_run_identity [OF table_at_inv j(1)] j(2,3) show ?thesis by simp
qed

section \<open>Properties\<close>

text \<open>
  C29: pairing is exclusive.  In any sequence of joins, removals and traffic on a relay's session table,
  each of the two roles of a session object is given out at most once; two endpoints on the same session
  object have tokens for the same session, client device and target device; and a join reports a
  complete pair exactly when the other role of that object was given out by an earlier join.
\<close>

theorem relay_pairing_exclusive:
  "let outs = snd (run_ops table_step RelaySessionTable_new ops) in
   distinct (granted join_grant ops outs)
   \<and> (\<forall>i j ti tj nowi nowj a p q.
         i < length ops \<and> j < length ops \<and> ops ! i = Join ti nowi \<and> ops ! j = Join tj nowj
         \<and> outs ! i = Some (Ok (a, p)) \<and> outs ! j = Some (Ok (a, q))
         \<longrightarrow> token_identity ti = token_identity tj)
   \<and> (\<forall>i token now a p.
         i < length ops \<and> ops ! i = Join token now \<and> outs ! i = Some (Ok (a, p))
         \<longrightarrow> (p \<longleftrightarrow> (a, peer (rt_role token)) \<in> set (granted join_grant (take i ops) (take i outs))))"
proof -
  define outs where "outs = snd (run_ops table_step RelaySessionTable_new ops)"
  have joins: "identity (rst_store (table_at ops (length ops)) ! a) = token_identity token
      \<and> (p \<longleftrightarrow> (a, peer (rt_role token)) \<in> set (granted join_grant (take i ops) (take i outs)))"
    if "i < length ops" "ops ! i = Join token now" "outs ! i = Some (Ok (a, p))" for i token now a p
    using join_at [OF that [unfolded outs_def]] by (simp add: outs_def taken_at)
  have "distinct (granted join_grant ops outs)"
    unfolding outs_def by (rule slots.granted_once [OF table_inv_new]) (simp add: list_all_iff)
  then show ?thesis
    unfolding Let_def outs_def [symmetric] using joins by metis
qed

theorem relay_pairing_exclusive_witness:
  "let ops = [Join (example_relay_token Role_Client) (from_secs 2), Join (example_relay_token Role_Host) (from_secs 3),
              Join (example_relay_token Role_Host) (from_secs 4)];
       outs = snd (run_ops table_step RelaySessionTable_new ops)
   in outs = [Some (Ok (0, False)), Some (Ok (0, True)), Some (Err Pair_RoleAlreadyConnected)]
      \<and> distinct (granted join_grant ops outs)"
  using relay_pairing_exclusive
    [of "[Join (example_relay_token Role_Client) (from_secs 2), Join (example_relay_token Role_Host) (from_secs 3),
          Join (example_relay_token Role_Host) (from_secs 4)]"]
  by (simp add: Let_def register_or_join_def rst_entry_def get_session_def RelaySessionTable_new_def hm_get_def
      hm_insert_def hm_remove_def RelaySession_new_def example_relay_token_def from_secs_def less_eq_UnixTimestamp_def)

end
