(* ===== verification/Relay_Stream.thy ===== *)
theory Relay_Stream
  imports Relay_Session "HOL-Library.Sublist"
begin

text \<open>
  \<open>apps/nexus-relay/src/forwarder.rs\<close>: the handshake messages on a stream and the loops that copy
  streams and datagrams between paired endpoints.  The QUIC package is an argument: \<open>rd s n\<close> is a read
  of at most \<open>n\<close> bytes (\<open>None\<close> at the end of the stream), \<open>rdx s n\<close> a read of exactly \<open>n\<close> bytes; so are
  the JSON parsers.
\<close>

section \<open>The handshake\<close>

type_synonym 's read_fn = "'s \<Rightarrow> nat \<Rightarrow> 's \<times> (bytes option, unit) result"
type_synonym 's read_exact_fn = "'s \<Rightarrow> nat \<Rightarrow> 's \<times> (bytes, unit) result"

datatype RelayServerError =
    Relay_Io | Relay_Quic | Relay_WriteError | Relay_ReadError | Relay_ClosedStream
      \<comment> \<open>errors of the operating system and of the QUIC package\<close>
  | Relay_Tls ErrText
  | Relay_Certificate ErrText
  | Relay_Token RelayTokenError
  | Relay_Session SessionPairingError
  | Relay_Protocol ErrText
  | Relay_HandshakeRejected string
  | Relay_Closed

record RelayHandshakeRequest =
  hr_token :: RelayToken

record RelayHandshakeResponse =
  hp_success :: bool
  hp_session_id :: "Id option"
  hp_role :: "EndpointRole option"
  hp_is_paired :: "bool option"
  hp_error :: "string option"

definition MAX_HANDSHAKE_MSG_SIZE :: nat where
  "MAX_HANDSHAKE_MSG_SIZE = 64 * 1024"

text \<open>The first loop: up to four bytes; a read of no bytes or the end of the stream stops it.\<close>

function read_initial :: "'s read_fn \<Rightarrow> 's \<Rightarrow> bytes \<Rightarrow> 's \<times> (bytes, RelayServerError) result" where
  "read_initial rd s initial =
     (if length initial < 4 then
        (case rd s (4 - length initial) of
           (s', Err _) \<Rightarrow> (s', Err Relay_ReadError)
         | (s', Ok None) \<Rightarrow> (s', Ok initial)
         | (s', Ok (Some chunk)) \<Rightarrow> if chunk = [] then (s', Ok initial) else read_initial rd s' (initial @ chunk))
      else (s, Ok initial))"
  by pat_completeness auto
termination
  by (relation "measure (\<lambda>(rd, s, initial). 4 - length initial)")
    (auto simp: length_greater_0_conv [symmetric] simp del: length_greater_0_conv)

text \<open>The loop for a bare JSON message, up to the end of the stream; it stops by its size limit at the latest.\<close>

function read_json :: "'s read_fn \<Rightarrow> 's \<Rightarrow> bytes \<Rightarrow> 's \<times> (bytes, RelayServerError) result" where
  "read_json rd s buf =
     (case rd s 1024 of
        (s', Err _) \<Rightarrow> (s', Err Relay_ReadError)
      | (s', Ok None) \<Rightarrow> (s', Ok buf)
      | (s', Ok (Some chunk)) \<Rightarrow>
          if chunk = [] then (s', Ok buf)
          else if length buf + length chunk > MAX_HANDSHAKE_MSG_SIZE
            then (s', Err (Relay_Protocol (Text ''handshake message exceeded maximum size'')))
          else read_json rd s' (buf @ chunk))"
  by pat_completeness auto
termination
  by (relation "measure (\<lambda>(rd, s, buf). MAX_HANDSHAKE_MSG_SIZE - length buf)")
    (auto simp: length_greater_0_conv [symmetric] simp del: length_greater_0_conv)

declare read_initial.simps [simp del] read_json.simps [simp del]

definition parse_handshake ::
  "(bytes \<Rightarrow> RelayHandshakeRequest option) \<Rightarrow> (bytes \<Rightarrow> RelayToken option) \<Rightarrow> bytes \<Rightarrow> (RelayToken, RelayServerError) result" where
  "parse_handshake parse_request parse_token payload =
     (case parse_request payload of
        Some req \<Rightarrow> Ok (hr_token req)
      | None \<Rightarrow> ok_or (Relay_Protocol (PackageText ''failed to parse RelayToken: '')) (parse_token payload))"

definition read_handshake_token ::
  "'s read_fn \<Rightarrow> 's read_exact_fn \<Rightarrow> (bytes \<Rightarrow> RelayHandshakeRequest option) \<Rightarrow> (bytes \<Rightarrow> RelayToken option) \<Rightarrow> 's
     \<Rightarrow> 's \<times> (RelayToken, RelayServerError) result" where
  "read_handshake_token rd rdx parse_request parse_token s0 =
     (case read_initial rd s0 [] of
        (s, Err e) \<Rightarrow> (s, Err e)
      | (s, Ok initial) \<Rightarrow>
          if initial = [] then (s, Err (Relay_Protocol (Text ''empty handshake stream'')))
          else if hd initial = 123 then
            (case read_json rd s initial of
               (s', Err e) \<Rightarrow> (s', Err e)
             | (s', Ok payload) \<Rightarrow> (s', parse_handshake parse_request parse_token payload))
          else if length initial < 4
            then (s, Err (Relay_Protocol (Text ''incomplete length prefix in handshake stream'')))
          else
            (let len = unat (from_be initial :: u32) in
             if len = 0 \<or> len > MAX_HANDSHAKE_MSG_SIZE then (s, Err (Relay_Protocol (Text (''invalid handshake payload length: '' @ show_nat len))))
             else
               (case rdx s len of
                  (s', Err _) \<Rightarrow> (s', Err (Relay_Protocol (PackageText ''failed to read handshake payload: '')))
                | (s', Ok payload) \<Rightarrow> (s', parse_handshake parse_request parse_token payload))))"

definition frame_message :: "bytes \<Rightarrow> bytes" where
  "frame_message bytes = to_be 4 (of_nat (length bytes) :: u32) @ bytes"

text \<open>The bytes written by \<open>write_handshake_response\<close> and by the first half of \<open>perform_client_handshake\<close>.\<close>

definition write_handshake_response ::
  "(RelayHandshakeResponse \<Rightarrow> bytes option) \<Rightarrow> RelayHandshakeResponse \<Rightarrow> (bytes, RelayServerError) result" where
  "write_handshake_response to_json response =
     (case to_json response of
        None \<Rightarrow> Err (Relay_Protocol (PackageText ''failed to serialize response: ''))
      | Some bytes \<Rightarrow> Ok (frame_message bytes))"

definition client_handshake_request ::
  "(RelayHandshakeRequest \<Rightarrow> bytes option) \<Rightarrow> RelayToken \<Rightarrow> (bytes, RelayServerError) result" where
  "client_handshake_request to_json token =
     (case to_json \<lparr>hr_token = token\<rparr> of
        None \<Rightarrow> Err (Relay_Protocol (PackageText ''failed to serialize request: ''))
      | Some bytes \<Rightarrow> Ok (frame_message bytes))"

text \<open>The second half of \<open>perform_client_handshake\<close>: the response is read and judged.\<close>

definition client_read_response ::
  "'s read_exact_fn \<Rightarrow> (bytes \<Rightarrow> RelayHandshakeResponse option) \<Rightarrow> 's
     \<Rightarrow> 's \<times> (RelayHandshakeResponse, RelayServerError) result" where
  "client_read_response rdx from_json s0 =
     (case rdx s0 4 of
        (s, Err _) \<Rightarrow> (s, Err (Relay_Protocol (PackageText ''failed to read handshake response length: '')))
      | (s, Ok len_buf) \<Rightarrow>
          (let resp_len = unat (from_be len_buf :: u32) in
           if resp_len > MAX_HANDSHAKE_MSG_SIZE
             then (s, Err (Relay_Protocol (Text ''handshake response payload too large'')))
           else
             (case rdx s resp_len of
                (s', Err _) \<Rightarrow> (s', Err (Relay_Protocol (PackageText ''failed to read handshake response body: '')))
              | (s', Ok resp_buf) \<Rightarrow>
                  (case from_json resp_buf of
                     None \<Rightarrow> (s', Err (Relay_Protocol (PackageText ''failed to parse handshake response: '')))
                   | Some resp \<Rightarrow>
                       if \<not> hp_success resp
                       then (s', Err (Relay_HandshakeRejected (unwrap_or (hp_error resp) ''handshake rejected'')))
                       else (s', Ok resp)))))"

section \<open>Copying\<close>

text \<open>
  One direction of \<open>bridge_bistreams\<close>, over the results the reads return: \<open>wr\<close> writes a whole chunk and
  says whether it succeeded.
\<close>

datatype copy_end = Copy_WriteFailed | Copy_Finished | Copy_Reset | Copy_Waiting

fun copy_loop ::
  "EndpointRole \<Rightarrow> ('w \<Rightarrow> bytes \<Rightarrow> 'w \<times> bool) \<Rightarrow> (bytes option, unit) result list \<Rightarrow> 'w \<Rightarrow> RelaySession
     \<Rightarrow> 'w \<times> RelaySession \<times> copy_end" where
  "copy_loop role wr [] w session = (w, session, Copy_Waiting)"
| "copy_loop role wr (r # rs) w session =
     (case r of
        Ok (Some chunk) \<Rightarrow>
          (case wr w chunk of
             (w', False) \<Rightarrow> (w', session, Copy_WriteFailed)
           | (w', True) \<Rightarrow> copy_loop role wr rs w' (record_forward role (of_nat (length chunk)) session))
      | Ok None \<Rightarrow> (w, session, Copy_Finished)
      | Err _ \<Rightarrow> (w, session, Copy_Reset))"

text \<open>One direction of \<open>forward_datagrams\<close>: the datagram is counted before it is sent, and a failed
  send ends the loop only when the connection is lost.\<close>

datatype send_result = Sent | Send_ConnectionLost | Send_Dropped

fun datagram_loop ::
  "EndpointRole \<Rightarrow> ('w \<Rightarrow> bytes \<Rightarrow> 'w \<times> send_result) \<Rightarrow> bytes list \<Rightarrow> 'w \<Rightarrow> RelaySession \<Rightarrow> 'w \<times> RelaySession" where
  "datagram_loop role send [] w session = (w, session)"
| "datagram_loop role send (dgram # ds) w session =
     (let session' = record_forward role (of_nat (length dgram)) session in
      case send w dgram of
        (w', r) \<Rightarrow> if r = Send_ConnectionLost then (w', session') else datagram_loop role send ds w' session')"

section \<open>Laws\<close>

text \<open>
  What the relay relies on of a stream whose remaining bytes are \<open>content s\<close>: a read returns some
  non-empty prefix of at most the requested length, however the bytes were cut into packets; an exact
  read returns the requested prefix or fails.
\<close>

definition byte_stream :: "'s read_fn \<Rightarrow> 's read_exact_fn \<Rightarrow> ('s \<Rightarrow> bytes) \<Rightarrow> bool" where
  "byte_stream rd rdx content \<longleftrightarrow>
     (\<forall>s n. n > 0 \<longrightarrow>
        (if content s = [] then snd (rd s n) = Ok None \<and> content (fst (rd s n)) = []
         else \<exists>chunk. snd (rd s n) = Ok (Some chunk) \<and> chunk \<noteq> [] \<and> length chunk \<le> n
                \<and> content s = chunk @ content (fst (rd s n))))
     \<and> (\<forall>s n. if n \<le> length (content s)
               then snd (rdx s n) = Ok (take n (content s)) \<and> content (fst (rdx s n)) = drop n (content s)
               else \<exists>e. snd (rdx s n) = Err e)"

lemma byte_stream_read:
  assumes "byte_stream rd rdx content" "n > 0"
  obtains (eof) s' where "content s = []" "content s' = []" "rd s n = (s', Ok None)"
  | (chunk) s' c where "rd s n = (s', Ok (Some c))" "c \<noteq> []" "length c \<le> n" "content s = c @ content s'"
proof (cases "content s = []")
  case True
  with assms have "rd s n = (fst (rd s n), Ok None)" "content (fst (rd s n)) = []"
    by (auto simp: byte_stream_def prod_eq_iff)
  with True show ?thesis by (metis eof)
next
  case False
  with assms obtain c where "snd (rd s n) = Ok (Some c)" "c \<noteq> []" "length c \<le> n" "content s = c @ content (fst (rd s n))"
    unfolding byte_stream_def by metis
  then show ?thesis by (intro chunk [of "fst (rd s n)" c]) (auto simp: prod_eq_iff)
qed

lemma byte_stream_exact:
  assumes "byte_stream rd rdx content"
  shows "n \<le> length (content s) \<Longrightarrow> \<exists>s'. rdx s n = (s', Ok (take n (content s))) \<and> content s' = drop n (content s)"
    and "\<not> n \<le> length (content s) \<Longrightarrow> \<exists>s' e. rdx s n = (s', Err e)"
  using assms unfolding byte_stream_def by (metis prod.collapse)+

lemma append_closer:
  assumes "c \<noteq> []" "length b < n"
  shows "n - length (b @ c) < n - length b"
proof -
  have "0 < length c" using assms(1) by simp
  with assms(2) show ?thesis unfolding length_append by linarith
qed

lemma read_initial_content:
  assumes "byte_stream rd rdx content" "length initial \<le> 4"
  shows "\<exists>s'. read_initial rd s initial = (s', Ok (initial @ take (4 - length initial) (content s)))
    \<and> content s' = drop (4 - length initial) (content s)"
  using assms(2)
proof (induction "4 - length initial" arbitrary: s initial rule: less_induct)
  case less
  show ?case
  proof (cases "length initial < 4")
    case True
    then have "4 - length initial > 0" by simp
    then show ?thesis
    proof (rule byte_stream_read [OF assms(1), where s = s], goal_cases eof chunk)
      case (eof s')
      then show ?thesis using True by (simp add: read_initial.simps [of rd s])
    next
      case (chunk s' c)
      then have "4 - length (initial @ c) < 4 - length initial" "length (initial @ c) \<le> 4"
        using append_closer [OF _ True, of c] by auto
      from less.hyps [OF this, of s'] chunk True show ?thesis
        by (auto simp: read_initial.simps [of rd s])
    qed
  qed (use less.prems in \<open>simp add: read_initial.simps\<close>)
qed

lemma read_json_content:
  assumes "byte_stream rd rdx content" "length buf \<le> MAX_HANDSHAKE_MSG_SIZE"
  shows "snd (read_json rd s buf) =
    (if length buf + length (content s) \<le> MAX_HANDSHAKE_MSG_SIZE then Ok (buf @ content s)
     else Err (Relay_Protocol (Text ''handshake message exceeded maximum size'')))"
  using assms(2)
proof (induction "MAX_HANDSHAKE_MSG_SIZE - length buf" arbitrary: s buf rule: less_induct)
  case less
  show ?case
  proof (rule byte_stream_read [OF assms(1), where n = 1024 and s = s], goal_cases pos eof chunk)
    case (eof s')
    then show ?case using less.prems by (simp add: read_json.simps [of rd s])
  next
    case (chunk s' c)
    show ?case
    proof (cases "length buf + length c > MAX_HANDSHAKE_MSG_SIZE")
      case False
      moreover have "0 < length c" using chunk(2) by simp
      ultimately have "length buf < MAX_HANDSHAKE_MSG_SIZE" "length (buf @ c) \<le> MAX_HANDSHAKE_MSG_SIZE"
        unfolding length_append by linarith+
      note this(2) append_closer [OF chunk(2) this(1)]
      from less.hyps [OF this(2,1), of s'] chunk False show ?thesis
        by (simp add: read_json.simps [of rd s] add.assoc)
    qed (use chunk in \<open>simp add: read_json.simps [of rd s]\<close>)
  qed simp
qed

text \<open>The handshake as a function of the bytes of the stream.\<close>

definition handshake_of_bytes ::
  "(bytes \<Rightarrow> RelayHandshakeRequest option) \<Rightarrow> (bytes \<Rightarrow> RelayToken option) \<Rightarrow> bytes \<Rightarrow> (RelayToken, RelayServerError) result" where
  "handshake_of_bytes pq pt bs =
     (if bs = [] then Err (Relay_Protocol (Text ''empty handshake stream''))
      else if hd bs = 123 then
        (if length bs \<le> MAX_HANDSHAKE_MSG_SIZE then parse_handshake pq pt bs
         else Err (Relay_Protocol (Text ''handshake message exceeded maximum size'')))
      else if length bs < 4 then Err (Relay_Protocol (Text ''incomplete length prefix in handshake stream''))
      else
        (let len = unat (from_be (take 4 bs) :: u32) in
         if len = 0 \<or> len > MAX_HANDSHAKE_MSG_SIZE then Err (Relay_Protocol (Text (''invalid handshake payload length: '' @ show_nat len)))
         else if length bs < 4 + len
           then Err (Relay_Protocol (PackageText ''failed to read handshake payload: ''))
         else parse_handshake pq pt (take len (drop 4 bs))))"

lemma read_handshake_token_bytes:
  assumes bs: "byte_stream rd rdx content"
  shows "snd (read_handshake_token rd rdx pq pt s) = handshake_of_bytes pq pt (content s)"
proof -
  obtain s' where i: "read_initial rd s [] = (s', Ok (take 4 (content s)))" and s': "content s' = drop 4 (content s)"
    using read_initial_content [OF bs, of "[]" s] by auto
  let ?bs = "content s"
  consider "?bs = []" | (json) "?bs \<noteq> []" "hd ?bs = 123" | (short) "?bs \<noteq> []" "hd ?bs \<noteq> 123" "length ?bs < 4"
    | (framed) "?bs \<noteq> []" "hd ?bs \<noteq> 123" "4 \<le> length ?bs" by linarith
  then show ?thesis
  proof cases
    case json
    then have "hd (take 4 ?bs) = 123" by (cases ?bs) simp_all
    moreover have "length (take 4 ?bs) \<le> MAX_HANDSHAKE_MSG_SIZE" by (simp add: MAX_HANDSHAKE_MSG_SIZE_def)
    note read_json_content [OF bs this, of s']
    moreover have "length (take 4 ?bs) + length (content s') = length ?bs" "take 4 ?bs @ content s' = ?bs"
      by (simp_all add: s')
    ultimately show ?thesis using json
      by (cases "read_json rd s' (take 4 ?bs)"; cases "snd (read_json rd s' (take 4 ?bs))")
        (auto simp: read_handshake_token_def i handshake_of_bytes_def split: if_splits)
  next
    case framed
    then have hd: "hd (take 4 ?bs) \<noteq> 123" by (cases ?bs) simp_all
    let ?len = "unat (from_be (take 4 ?bs) :: u32)"
    have sp: "?len \<le> length (content s') \<longleftrightarrow> \<not> length ?bs < 4 + ?len" using framed by (simp add: s') linarith
    show ?thesis
      using framed hd byte_stream_exact [OF bs, of ?len s'] sp
      by (auto simp: read_handshake_token_def i handshake_of_bytes_def Let_def s')
  qed (auto simp: read_handshake_token_def i handshake_of_bytes_def hd_take)
qed

text \<open>A stream as a list of packets, which satisfies these laws however the bytes are cut.\<close>

fun chunk_read :: "bytes list read_fn" where
  "chunk_read [] n = ([], Ok None)"
| "chunk_read (c # cs) n =
     (if c = [] then chunk_read cs n
      else if length c \<le> n then (cs, Ok (Some c))
      else (drop n c # cs, Ok (Some (take n c))))"

definition chunk_read_exact :: "bytes list read_exact_fn" where
  "chunk_read_exact cs n =
     (if n \<le> length (concat cs) then ([drop n (concat cs)], Ok (take n (concat cs))) else (cs, Err ()))"

lemma chunk_stream: "byte_stream chunk_read chunk_read_exact concat"
proof -
  have "if concat cs = [] then snd (chunk_read cs n) = Ok None \<and> concat (fst (chunk_read cs n)) = []
      else \<exists>c. snd (chunk_read cs n) = Ok (Some c) \<and> c \<noteq> [] \<and> length c \<le> n \<and> concat cs = c @ concat (fst (chunk_read cs n))"
    if "n > 0" for cs n
    using that by (induction cs n rule: chunk_read.induct) auto
  moreover have "if n \<le> length (concat cs)
      then snd (chunk_read_exact cs n) = Ok (take n (concat cs)) \<and> concat (fst (chunk_read_exact cs n)) = drop n (concat cs)
      else \<exists>e. snd (chunk_read_exact cs n) = Err e" for cs n
    by (simp add: chunk_read_exact_def)
  ultimately show ?thesis unfolding byte_stream_def by blast
qed

text \<open>A framed message is read back by the two halves of the protocol.\<close>

lemma frame_length: "length bytes \<le> MAX_HANDSHAKE_MSG_SIZE \<Longrightarrow> unat (of_nat (length bytes) :: u32) = length bytes"
  by (rule of_nat_small(1) [where k = 0]) (simp_all add: MAX_HANDSHAKE_MSG_SIZE_def)

lemma from_be_frame:
  assumes "length bytes \<le> MAX_HANDSHAKE_MSG_SIZE"
  shows "unat (from_be (to_be 4 (of_nat (length bytes) :: u32)) :: u32) = length bytes"
  by (simp add: frame_length [OF assms] del: to_be_numeral)

lemma frame_first_byte:
  assumes "length bytes \<le> MAX_HANDSHAKE_MSG_SIZE"
  shows "hd (frame_message bytes) = 0" "frame_message bytes \<noteq> []"
proof -
  have "(of_nat (length bytes) :: u32) \<le> 65536"
    using assms by (simp add: word_le_nat_alt frame_length) (simp add: MAX_HANDSHAKE_MSG_SIZE_def)
  then have "drop_bit 24 (of_nat (length bytes) :: u32) = 0"
    by (simp add: drop_bit_eq_div word_le_nat_alt unat_div word_unat_eq_iff)
  then show "hd (frame_message bytes) = 0" "frame_message bytes \<noteq> []" by (simp_all add: frame_message_def)
qed

lemma handshake_of_framed:
  assumes "0 < length bytes" "length bytes \<le> MAX_HANDSHAKE_MSG_SIZE"
  shows "handshake_of_bytes pq pt (frame_message bytes @ rest) = parse_handshake pq pt bytes"
proof -
  have t4: "take 4 (frame_message bytes @ rest) = to_be 4 (of_nat (length bytes) :: u32)"
    "drop 4 (frame_message bytes @ rest) = bytes @ rest" "length (frame_message bytes) = 4 + length bytes"
    by (simp_all add: frame_message_def del: to_be_numeral)
  show ?thesis
    unfolding handshake_of_bytes_def t4 from_be_frame [OF assms(2)]
    using assms frame_first_byte [OF assms(2)] t4(3) by simp
qed

text \<open>What one direction has counted, and the data that its reads returned before the end.\<close>

fun counted_bytes :: "EndpointRole \<Rightarrow> RelaySession \<Rightarrow> u64" where
  "counted_bytes Role_Client s = client_to_host_bytes (rs_metrics s)"
| "counted_bytes Role_Host s = host_to_client_bytes (rs_metrics s)"

fun counted_packets :: "EndpointRole \<Rightarrow> RelaySession \<Rightarrow> u64" where
  "counted_packets Role_Client s = client_to_host_packets (rs_metrics s)"
| "counted_packets Role_Host s = host_to_client_packets (rs_metrics s)"

lemma counted_record_forward [simp]:
  "counted_bytes r (record_forward r n s) = counted_bytes r s + n"
  "counted_packets r (record_forward r n s) = counted_packets r s + 1"
  "counted_bytes (peer r) (record_forward r n s) = counted_bytes (peer r) s"
  "counted_packets (peer r) (record_forward r n s) = counted_packets (peer r) s"
  by (cases r; simp add: record_forward_def Let_def)+

fun read_data :: "(bytes option, unit) result list \<Rightarrow> bytes" where
  "read_data (Ok (Some chunk) # rs) = chunk @ read_data rs"
| "read_data _ = []"

definition writes_in_order :: "('w \<Rightarrow> bytes \<Rightarrow> 'w \<times> bool) \<Rightarrow> ('w \<Rightarrow> bytes) \<Rightarrow> bool" where
  "writes_in_order wr out \<longleftrightarrow>
     (\<forall>w b. \<exists>p. prefix p b \<and> out (fst (wr w b)) = out w @ p \<and> (snd (wr w b) \<longrightarrow> p = b))"

lemma copy_loop_spec:
  assumes "writes_in_order wr out"
  shows "case copy_loop role wr reads w session of (w', session', end') \<Rightarrow>
    \<exists>p q. out w' = out w @ p @ q \<and> prefix (p @ q) (read_data reads)
      \<and> (end' \<noteq> Copy_WriteFailed \<longrightarrow> q = [] \<and> p = read_data reads)
      \<and> counted_bytes role session' = counted_bytes role session + of_nat (length p)
      \<and> counted_bytes (peer role) session' = counted_bytes (peer role) session"
proof (induction reads arbitrary: w session)
  case (Cons r rs)
  show ?case
  proof (cases "\<exists>chunk. r = Ok (Some chunk)")
    case True
    then obtain chunk where r: "r = Ok (Some chunk)" by blast
    obtain w1 ok where w1: "wr w chunk = (w1, ok)" by fastforce
    with assms obtain d where d: "prefix d chunk" "out w1 = out w @ d" "ok \<Longrightarrow> d = chunk"
      unfolding writes_in_order_def by (metis fst_conv snd_conv)
    show ?thesis
    proof (cases ok)
      case True
      with Cons.IH [of w1 "record_forward role (of_nat (length chunk)) session"] d w1 show ?thesis
        apply (clarsimp simp: r)
        subgoal for w' session' end' p q by (rule exI [of _ "chunk @ p"], rule exI [of _ q]) simp
        done
    next
      case False
      with d w1 show ?thesis
        by (simp add: r, intro exI [where x = "[]"] exI [where x = d]) (simp add: prefix_prefix)
    qed
  next
    case False
    then show ?thesis by (cases r) (auto split: option.splits)
  qed
qed simp

section \<open>Properties\<close>

text \<open>
  C30: the relay's reading of a handshake depends only on the bytes of the stream, not on how they were
  cut into packets.  Over any stream, the reading loops return what the one-pass definition
  \<open>handshake_of_bytes\<close> computes from the remaining bytes, errors included; and they always return.
\<close>

theorem relay_handshake_chunking_independent:
  assumes "byte_stream rd rdx content"
  shows "snd (read_handshake_token rd rdx parse_request parse_token s) =
    handshake_of_bytes parse_request parse_token (content s)"
  by (rule read_handshake_token_bytes [OF assms])

theorem relay_handshake_chunking_independent_witness:
  "snd (read_handshake_token chunk_read chunk_read_exact (\<lambda>b. None)
      (\<lambda>b. if b = [9, 9] then Some (example_relay_token Role_Host) else None) [[0], [0, 0, 2, 9], [9]])
   = Ok (example_relay_token Role_Host)"
  using relay_handshake_chunking_independent [OF chunk_stream, of "\<lambda>b. None"
      "\<lambda>b. if b = [9, 9] then Some (example_relay_token Role_Host) else None" "[[0], [0, 0, 2, 9], [9]]"]
  by (simp add: handshake_of_bytes_def from_be_def MAX_HANDSHAKE_MSG_SIZE_def parse_handshake_def)

text \<open>
  The two ends of the relay handshake understand each other.  A request that a client writes, with a
  JSON text of 1 to 65536 bytes, reaches the relay as the client's token, however it is cut; and a
  response that the relay writes is what the client reads, and is an error for the client exactly when
  the relay did not report success.
\<close>

theorem relay_handshake_round_trip:
  assumes "byte_stream rd rdx content"
    and "client_handshake_request req_json token = Ok request" "content s = request @ rest"
    and "write_handshake_response resp_json response = Ok reply" "content s' = reply @ rest'"
    and "\<And>r bytes. req_json r = Some bytes \<Longrightarrow> parse_request bytes = Some r \<and> 0 < length bytes \<and> length bytes \<le> MAX_HANDSHAKE_MSG_SIZE"
    and "\<And>r bytes. resp_json r = Some bytes \<Longrightarrow> parse_response bytes = Some r \<and> length bytes \<le> MAX_HANDSHAKE_MSG_SIZE"
  shows "snd (read_handshake_token rd rdx parse_request parse_token s) = Ok token
    \<and> snd (client_read_response rdx parse_response s') =
        (if hp_success response then Ok response
         else Err (Relay_HandshakeRejected (unwrap_or (hp_error response) ''handshake rejected'')))"
proof
  from assms(2) obtain b where b: "req_json \<lparr>hr_token = token\<rparr> = Some b" "request = frame_message b"
    by (auto simp: client_handshake_request_def split: option.splits)
  with assms(6) have "parse_request b = Some \<lparr>hr_token = token\<rparr>" "0 < length b" "length b \<le> MAX_HANDSHAKE_MSG_SIZE"
    by blast+
  then show "snd (read_handshake_token rd rdx parse_request parse_token s) = Ok token"
    by (simp add: read_handshake_token_bytes [OF assms(1)] assms(3) b(2) handshake_of_framed) (simp add: parse_handshake_def)
  from assms(4) obtain c where c: "resp_json response = Some c" "reply = frame_message c"
    by (auto simp: write_handshake_response_def split: option.splits)
  with assms(7) have pc: "parse_response c = Some response" "length c \<le> MAX_HANDSHAKE_MSG_SIZE" by blast+
  have content: "content s' = to_be 4 (of_nat (length c) :: u32) @ c @ rest'"
    by (simp add: assms(5) c(2) frame_message_def del: to_be_numeral)
  then obtain s1 where s1: "rdx s' 4 = (s1, Ok (to_be 4 (of_nat (length c) :: u32)))" "content s1 = c @ rest'"
    using byte_stream_exact(1) [OF assms(1), of 4 s'] by (auto simp del: to_be_numeral)
  then obtain s2 where "rdx s1 (length c) = (s2, Ok c)"
    using byte_stream_exact(1) [OF assms(1), of "length c" s1] by auto
  then show "snd (client_read_response rdx parse_response s') =
      (if hp_success response then Ok response
       else Err (Relay_HandshakeRejected (unwrap_or (hp_error response) ''handshake rejected'')))"
    using pc by (simp add: client_read_response_def s1 frame_length Let_def del: to_be_numeral)
qed

definition example_response :: RelayHandshakeResponse where
  "example_response =
     \<lparr>hp_success = True, hp_session_id = None, hp_role = None, hp_is_paired = Some False, hp_error = None\<rparr>"

theorem relay_handshake_round_trip_witness:
  "snd (read_handshake_token chunk_read chunk_read_exact
      (\<lambda>b. if b = [7] then Some \<lparr>hr_token = example_relay_token Role_Client\<rparr> else None) (\<lambda>_. None) [[0, 0], [0, 1, 7]])
     = Ok (example_relay_token Role_Client)
   \<and> snd (client_read_response chunk_read_exact (\<lambda>b. if b = [8] then Some example_response else None)
      [[0, 0, 0, 1], [8]]) =
     (if hp_success example_response then Ok example_response
      else Err (Relay_HandshakeRejected (unwrap_or (hp_error example_response) ''handshake rejected'')))"
  by (rule relay_handshake_round_trip
      [where content = concat and rest = "[]" and rest' = "[]" and request = "[0, 0, 0, 1, 7]" and reply = "[0, 0, 0, 1, 8]"
         and req_json = "\<lambda>r. if r = \<lparr>hr_token = example_relay_token Role_Client\<rparr> then Some [7] else None"
         and resp_json = "\<lambda>r. if r = example_response then Some [8] else None", OF chunk_stream])
    (simp_all add: client_handshake_request_def write_handshake_response_def frame_message_def MAX_HANDSHAKE_MSG_SIZE_def
      split: if_splits)

text \<open>
  C31: the relay forwards a stream unchanged.  Whatever the reads return, one direction of a bridge writes
  to the peer a prefix of the data it read, in order, all of it unless a write failed, and adds exactly
  the bytes of the completed writes to its own counter and nothing to the counter of the other
  direction.
\<close>

theorem relay_copy_faithful:
  assumes "writes_in_order wr out"
  shows "case copy_loop role wr reads w session of (w', session', end') \<Rightarrow>
    \<exists>p q. out w' = out w @ p @ q \<and> prefix (p @ q) (read_data reads)
      \<and> (end' \<noteq> Copy_WriteFailed \<longrightarrow> q = [] \<and> p = read_data reads)
      \<and> counted_bytes role session' = counted_bytes role session + of_nat (length p)
      \<and> counted_bytes (peer role) session' = counted_bytes (peer role) session"
  by (rule copy_loop_spec [OF assms])

theorem relay_copy_faithful_witness:
  "case copy_loop Role_Client (\<lambda>w b. (w @ b, True)) [Ok (Some [1, 2]), Ok (Some [3]), Ok None] []
      (RelaySession_new (example_relay_token Role_Client)) of (w', session', end') \<Rightarrow>
    \<exists>p q. w' = p @ q \<and> prefix (p @ q) [1, 2, 3] \<and> counted_bytes Role_Client session' = of_nat (length p)"
  (is "case ?c of (w', session', end') \<Rightarrow> ?P w' session'")
proof -
  have wr: "writes_in_order (\<lambda>w b. (w @ b, True)) (\<lambda>w. w)" by (auto simp: writes_in_order_def)
  obtain w' session' end' where c: "?c = (w', session', end')" by (cases ?c)
  have "counted_bytes Role_Client (RelaySession_new (example_relay_token Role_Client)) = 0"
    by (simp add: RelaySession_new_def)
  with relay_copy_faithful [OF wr, where role = Role_Client and w = "[]"
      and reads = "[Ok (Some [1, 2]), Ok (Some [3]), Ok None]" and session = "RelaySession_new (example_relay_token Role_Client)"]
  have "?P w' session'" unfolding c by auto
  then show ?thesis unfolding c by simp
qed

end
