(* ===== verification/Relay_Server.thy ===== *)
theory Relay_Server
  imports Relay_Stream
begin

text \<open>
  \<open>apps/nexus-relay/src/server.rs\<close>, \<open>RelayServer::handle_connection\<close>: the tasks that serve the
  connections of a relay and run interleaved.  A task is cut where it awaits or takes a lock; between two
  cuts it runs alone.  The shared state is the session table, the map of waiting peers and, for each
  waiting task, the one-shot channel on which it is handed its peer.  Accepting connections, the TLS set-up
  and the transport configuration are calls of the QUIC package and are not modelled.
\<close>

section \<open>Model\<close>

type_synonym conn = nat

text \<open>Where a task stands.  The code of \<open>T_Done\<close> is the application code the connection was closed with.\<close>

datatype task =
    T_Handshaking
  | T_Joined RelayToken nat bool         \<comment> \<open>registered; the address of its session and \<open>is_paired\<close>\<close>
  | T_Responding RelayToken nat bool     \<comment> \<open>about to write the success response\<close>
  | T_Waiting RelayToken nat             \<comment> \<open>first endpoint, waiting for its peer\<close>
  | T_Leaving RelayToken                 \<comment> \<open>closed while waiting, about to clear its entry\<close>
  | T_Left RelayToken                    \<comment> \<open>entry cleared, about to remove the session\<close>
  | T_Notifying RelayToken               \<comment> \<open>second endpoint, about to take the waiting peer\<close>
  | T_Bridging RelayToken nat conn conn  \<comment> \<open>forwarding between the client and the host connection\<close>
  | T_Held RelayToken                    \<comment> \<open>second endpoint, handed over to the first one's task\<close>
  | T_Done "RelayToken option" nat

record RelayServer =
  sv_table :: RelaySessionTable
  sv_waiting :: "(Id, EndpointRole \<times> conn) hashmap"
  sv_mail :: "conn \<rightharpoonup> EndpointRole \<times> conn"
  sv_tasks :: "conn \<rightharpoonup> task"

definition RelayServer_new :: RelayServer where
  "RelayServer_new = \<lparr>sv_table = RelaySessionTable_new, sv_waiting = [], sv_mail = Map.empty, sv_tasks = Map.empty\<rparr>"

definition set_task :: "conn \<Rightarrow> task \<Rightarrow> RelayServer \<Rightarrow> RelayServer" where
  "set_task c t s = s\<lparr>sv_tasks := (sv_tasks s)(c \<mapsto> t)\<rparr>"

definition drop_session :: "Id \<Rightarrow> RelayServer \<Rightarrow> RelayServer" where
  "drop_session sid s = s\<lparr>sv_table := remove_session (sv_table s) sid\<rparr>"

text \<open>The receiving end of the channel of a task is alive from its creation until the task ends.\<close>

fun receiver_alive :: "task option \<Rightarrow> bool" where
  "receiver_alive (Some (T_Responding token a False)) = True"
| "receiver_alive (Some (T_Waiting token a)) = True"
| "receiver_alive _ = False"

datatype event =
    Accept conn
  | No_Token conn nat                     \<comment> \<open>no handshake stream (1), or no token on it (2)\<close>
  | Token conn RelayToken UnixTimestamp   \<comment> \<open>a token was read; verify it and join\<close>
  | List_Waiting conn                     \<comment> \<open>enter the map of waiting peers if not paired\<close>
  | Respond conn bool                     \<comment> \<open>write the response; did it succeed\<close>
  | Receive conn                          \<comment> \<open>the channel yields the peer, or its sender is gone\<close>
  | Conn_Closed conn                      \<comment> \<open>the connection closes\<close>
  | Clear_Entry conn
  | Clear_Session conn
  | Notify conn

fun relay_step :: "ed_verify \<Rightarrow> RelayTokenVerifier \<Rightarrow> event \<Rightarrow> RelayServer \<Rightarrow> RelayServer option" where
  "relay_step v rv (Accept c) s =
     (if sv_tasks s c = None then Some (set_task c T_Handshaking s) else None)"
| "relay_step v rv (No_Token c code) s =
     (if sv_tasks s c = Some T_Handshaking \<and> code \<in> {1, 2} then Some (set_task c (T_Done None code) s) else None)"
| "relay_step v rv (Token c token now) s =
     (if sv_tasks s c = Some T_Handshaking then
        (case RelayTokenVerifier_verify v rv token now of
           Err _ \<Rightarrow> Some (set_task c (T_Done None 3) s)
         | Ok _ \<Rightarrow>
             (case register_or_join (sv_table s) token now of
                (t, Err _) \<Rightarrow> Some (set_task c (T_Done None 4) (s\<lparr>sv_table := t\<rparr>))
              | (t, Ok (a, is_paired)) \<Rightarrow> Some (set_task c (T_Joined token a is_paired) (s\<lparr>sv_table := t\<rparr>))))
      else None)"
| "relay_step v rv (List_Waiting c) s =
     (case sv_tasks s c of
        Some (T_Joined token a is_paired) \<Rightarrow>
          Some (set_task c (T_Responding token a is_paired)
            (if is_paired then s
             else s\<lparr>sv_waiting := hm_insert (rt_session_id token) (rt_role token, c) (sv_waiting s)\<rparr>))
      | _ \<Rightarrow> None)"
| "relay_step v rv (Respond c ok) s =
     (case sv_tasks s c of
        Some (T_Responding token a is_paired) \<Rightarrow>
          Some (set_task c
            (if \<not> ok then T_Done (Some token) 5 else if is_paired then T_Notifying token else T_Waiting token a) s)
      | _ \<Rightarrow> None)"
| "relay_step v rv (Receive c) s =
     (case sv_tasks s c of
        Some (T_Waiting token a) \<Rightarrow>
          (case sv_mail s c of
             Some (peer_role, peer_conn) \<Rightarrow>
               Some (set_task c
                 (case rt_role token of
                    Role_Client \<Rightarrow> T_Bridging token a c peer_conn
                  | Role_Host \<Rightarrow> T_Bridging token a peer_conn c) s)
           | None \<Rightarrow>
               if hm_get (sv_waiting s) (rt_session_id token) = Some (rt_role token, c) then None
               else Some (set_task c (T_Done (Some token) 0) (drop_session (rt_session_id token) s)))
      | _ \<Rightarrow> None)"
| "relay_step v rv (Conn_Closed c) s =
     (case sv_tasks s c of
        Some (T_Waiting token a) \<Rightarrow> Some (set_task c (T_Leaving token) s)
      | Some (T_Bridging token a cc hc) \<Rightarrow>
          Some (set_task c (T_Done (Some token) 0)
            (drop_session (rt_session_id token) (s\<lparr>sv_table := update_store a rs_terminate (sv_table s)\<rparr>)))
      | Some (T_Held token) \<Rightarrow> Some (set_task c (T_Done (Some token) 0) s)
      | _ \<Rightarrow> None)"
| "relay_step v rv (Clear_Entry c) s =
     (case sv_tasks s c of
        Some (T_Leaving token) \<Rightarrow>
          Some (set_task c (T_Left token) (s\<lparr>sv_waiting := hm_remove (rt_session_id token) (sv_waiting s)\<rparr>))
      | _ \<Rightarrow> None)"
| "relay_step v rv (Clear_Session c) s =
     (case sv_tasks s c of
        Some (T_Left token) \<Rightarrow> Some (set_task c (T_Done (Some token) 0) (drop_session (rt_session_id token) s))
      | _ \<Rightarrow> None)"
| "relay_step v rv (Notify c) s =
     (case sv_tasks s c of
        Some (T_Notifying token) \<Rightarrow>
          (let sid = rt_session_id token; s' = s\<lparr>sv_waiting := hm_remove sid (sv_waiting s)\<rparr> in
           case hm_get (sv_waiting s) sid of
             Some (peer_role, peer_conn) \<Rightarrow>
               if receiver_alive (sv_tasks s peer_conn)
               then Some (set_task c (T_Held token) (s'\<lparr>sv_mail := (sv_mail s)(peer_conn \<mapsto> (rt_role token, c))\<rparr>))
               else Some (set_task c (T_Done (Some token) 6) (drop_session sid s'))
           | None \<Rightarrow> Some (set_task c (T_Done (Some token) 7) (drop_session sid s')))
      | _ \<Rightarrow> None)"

text \<open>The states a relay can be in: any finite interleaving of the steps of its tasks.\<close>

inductive relay_reachable :: "ed_verify \<Rightarrow> RelayTokenVerifier \<Rightarrow> RelayServer \<Rightarrow> bool" for v rv where
  start: "relay_reachable v rv RelayServer_new"
| step: "\<lbrakk>relay_reachable v rv s; relay_step v rv e s = Some s'\<rbrakk> \<Longrightarrow> relay_reachable v rv s'"

inductive_cases relay_reachableE: "relay_reachable v rv s"

fun relay_run :: "ed_verify \<Rightarrow> RelayTokenVerifier \<Rightarrow> event list \<Rightarrow> RelayServer \<Rightarrow> RelayServer option" where
  "relay_run v rv [] s = Some s"
| "relay_run v rv (e # es) s = (case relay_step v rv e s of None \<Rightarrow> None | Some s' \<Rightarrow> relay_run v rv es s')"

section \<open>Laws\<close>

lemma relay_run_reachable: "\<lbrakk>relay_reachable v rv s; relay_run v rv es s = Some s'\<rbrakk> \<Longrightarrow> relay_reachable v rv s'"
  by (induction es arbitrary: s) (auto split: option.splits intro: relay_reachable.step)

fun task_token :: "task \<Rightarrow> RelayToken option" where
  "task_token T_Handshaking = None"
| "task_token (T_Joined token a p) = Some token"
| "task_token (T_Responding token a p) = Some token"
| "task_token (T_Waiting token a) = Some token"
| "task_token (T_Leaving token) = Some token"
| "task_token (T_Left token) = Some token"
| "task_token (T_Notifying token) = Some token"
| "task_token (T_Bridging token a cc hc) = Some token"
| "task_token (T_Held token) = Some token"
| "task_token (T_Done o' code) = o'"

definition conn_token :: "RelayServer \<Rightarrow> conn \<Rightarrow> RelayToken option" where
  "conn_token s c = (case sv_tasks s c of None \<Rightarrow> None | Some t \<Rightarrow> task_token t)"

text \<open>A connection was admitted to a session in a role: the relay accepted its token.\<close>

definition admitted :: "ed_verify \<Rightarrow> RelayTokenVerifier \<Rightarrow> RelayServer \<Rightarrow> conn \<Rightarrow> Id \<Rightarrow> EndpointRole \<Rightarrow> bool" where
  "admitted v rv s c sid role \<longleftrightarrow>
     (\<exists>token. conn_token s c = Some token \<and> RelayToken_authentic v rv token
        \<and> rt_session_id token = sid \<and> rt_role token = role)"

definition relay_inv :: "ed_verify \<Rightarrow> RelayTokenVerifier \<Rightarrow> RelayServer \<Rightarrow> bool" where
  "relay_inv v rv s \<longleftrightarrow>
     (\<forall>c token. conn_token s c = Some token \<longrightarrow> RelayToken_authentic v rv token)
     \<and> (\<forall>sid role c. hm_get (sv_waiting s) sid = Some (role, c) \<longrightarrow> admitted v rv s c sid role)
     \<and> (\<forall>c role d. sv_mail s c = Some (role, d) \<longrightarrow>
          c \<noteq> d \<and> (\<exists>sid r. admitted v rv s c sid r \<and> admitted v rv s d sid role))
     \<and> (\<forall>c token a cc hc. sv_tasks s c = Some (T_Bridging token a cc hc) \<longrightarrow>
          cc \<noteq> hc \<and> (\<exists>r r'. admitted v rv s cc (rt_session_id token) r \<and> admitted v rv s hc (rt_session_id token) r'))"

lemma conn_token_simps [simp]:
  "conn_token (set_task c t s) d = (if d = c then task_token t else conn_token s d)"
  "conn_token (drop_session sid s) d = conn_token s d"
  "conn_token (s\<lparr>sv_table := x\<rparr>) d = conn_token s d" "conn_token (s\<lparr>sv_waiting := w\<rparr>) d = conn_token s d"
  "conn_token (s\<lparr>sv_mail := m\<rparr>) d = conn_token s d"
  by (simp_all add: conn_token_def set_task_def drop_session_def)

lemma set_task_sel [simp]:
  "sv_waiting (set_task c t s) = sv_waiting s" "sv_mail (set_task c t s) = sv_mail s" "sv_table (set_task c t s) = sv_table s"
  "sv_tasks (set_task c t s) = (sv_tasks s)(c \<mapsto> t)"
  "sv_waiting (drop_session sid s) = sv_waiting s" "sv_mail (drop_session sid s) = sv_mail s"
  "sv_tasks (drop_session sid s) = sv_tasks s"
  by (simp_all add: set_task_def drop_session_def)

lemma conn_token_task: "sv_tasks s c = Some t \<Longrightarrow> conn_token s c = task_token t"
  by (simp add: conn_token_def)

lemma conn_token_none [simp]: "sv_tasks s c = None \<Longrightarrow> conn_token s c = None"
  by (simp add: conn_token_def)

text \<open>How a step may extend a state: tokens stay, and every new fact of the state is justified.\<close>

definition relay_extends :: "ed_verify \<Rightarrow> RelayTokenVerifier \<Rightarrow> RelayServer \<Rightarrow> RelayServer \<Rightarrow> bool" where
  "relay_extends v rv s s' \<longleftrightarrow>
     (\<forall>c t. conn_token s c = Some t \<longrightarrow> conn_token s' c = Some t)
     \<and> (\<forall>c t. conn_token s' c = Some t \<longrightarrow> conn_token s c = Some t \<or> RelayToken_authentic v rv t)
     \<and> (\<forall>sid role c. hm_get (sv_waiting s') sid = Some (role, c) \<longrightarrow>
          hm_get (sv_waiting s) sid = Some (role, c)
          \<or> (\<exists>token. conn_token s c = Some token \<and> rt_session_id token = sid \<and> rt_role token = role))
     \<and> (\<forall>c role d. sv_mail s' c = Some (role, d) \<longrightarrow>
          sv_mail s c = Some (role, d)
          \<or> c \<noteq> d \<and> (\<exists>token r. conn_token s d = Some token \<and> rt_role token = role
                \<and> hm_get (sv_waiting s) (rt_session_id token) = Some (r, c)))
     \<and> (\<forall>c token a cc hc. sv_tasks s' c = Some (T_Bridging token a cc hc) \<longrightarrow>
          sv_tasks s c = Some (T_Bridging token a cc hc)
          \<or> conn_token s c = Some token
             \<and> (\<exists>role d. sv_mail s c = Some (role, d) \<and> (cc = c \<and> hc = d \<or> cc = d \<and> hc = c)))"

lemma relay_extends_inv:
  assumes inv: "relay_inv v rv s" and ext: "relay_extends v rv s s'"
  shows "relay_inv v rv s'"
proof -
  have mono: "admitted v rv s c sid r \<Longrightarrow> admitted v rv s' c sid r" for c sid r
    using ext by (auto simp: relay_extends_def admitted_def)
  have own: "conn_token s c = Some token \<Longrightarrow> admitted v rv s c (rt_session_id token) (rt_role token)" for c token
    using inv by (auto simp: relay_inv_def admitted_def)
  have same: "admitted v rv s c sid r \<Longrightarrow> conn_token s c = Some token \<Longrightarrow> rt_session_id token = sid" for c sid r token
    by (auto simp: admitted_def)
  have wait: "hm_get (sv_waiting s) sid = Some (role, c) \<Longrightarrow> admitted v rv s c sid role" for sid role c
    using inv by (simp add: relay_inv_def)
  have mail: "sv_mail s c = Some (role, d) \<Longrightarrow> c \<noteq> d \<and> (\<exists>sid r. admitted v rv s c sid r \<and> admitted v rv s d sid role)" for c role d
    using inv by (simp add: relay_inv_def)
  show ?thesis
    unfolding relay_inv_def
  proof (intro conjI allI impI)
    fix c token assume "conn_token s' c = Some token"
    then have "conn_token s c = Some token \<or> RelayToken_authentic v rv token"
      using ext by (simp add: relay_extends_def)
    then show "RelayToken_authentic v rv token"
      using inv by (auto simp: relay_inv_def)
  next
    fix sid role c assume "hm_get (sv_waiting s') sid = Some (role, c)"
    then have "hm_get (sv_waiting s) sid = Some (role, c)
        \<or> (\<exists>token. conn_token s c = Some token \<and> rt_session_id token = sid \<and> rt_role token = role)"
      using ext by (simp add: relay_extends_def)
    then show "admitted v rv s' c sid role" using wait own mono by blast
  next
    fix c role d assume "sv_mail s' c = Some (role, d)"
    then have "sv_mail s c = Some (role, d) \<or> c \<noteq> d \<and> (\<exists>token r. conn_token s d = Some token \<and> rt_role token = role
        \<and> hm_get (sv_waiting s) (rt_session_id token) = Some (r, c))"
      using ext by (simp add: relay_extends_def)
    then have "c \<noteq> d \<and> (\<exists>sid r. admitted v rv s c sid r \<and> admitted v rv s d sid role)"
      using mail own wait by metis
    then show "c \<noteq> d" "\<exists>sid r. admitted v rv s' c sid r \<and> admitted v rv s' d sid role"
      using mono by blast+
  next
    fix c token a cc hc assume "sv_tasks s' c = Some (T_Bridging token a cc hc)"
    then consider "sv_tasks s c = Some (T_Bridging token a cc hc)"
      | role d where "conn_token s c = Some token" "sv_mail s c = Some (role, d)" "cc = c \<and> hc = d \<or> cc = d \<and> hc = c"
      using ext unfolding relay_extends_def by blast
    then have "cc \<noteq> hc \<and> (\<exists>r r'. admitted v rv s cc (rt_session_id token) r \<and> admitted v rv s hc (rt_session_id token) r')"
    proof cases
      case 1
      with inv show ?thesis by (simp add: relay_inv_def)
    next
      case 2
      from mail [OF 2(2)] same [OF _ 2(1)]
      have "c \<noteq> d \<and> (\<exists>r r'. admitted v rv s c (rt_session_id token) r \<and> admitted v rv s d (rt_session_id token) r')"
        by blast
      with 2(3) show ?thesis by blast
    qed
    with mono show "cc \<noteq> hc" "\<exists>r r'. admitted v rv s' cc (rt_session_id token) r \<and> admitted v rv s' hc (rt_session_id token) r'"
      by blast+
  qed
qed

lemma relay_step_extends:
  assumes "relay_step v rv e s = Some s'"
  shows "relay_extends v rv s s'"
proof (cases e)
  case (Notify c)
  with assms obtain token where c: "sv_tasks s c = Some (T_Notifying token)"
    by (auto split: option.splits task.splits)
  show ?thesis
  proof (cases "hm_get (sv_waiting s) (rt_session_id token)")
    case None
    with assms c show ?thesis
      by (auto simp: Notify Let_def relay_extends_def conn_token_task hm_get_remove split: if_splits)
  next
    case (Some x)
    obtain r d where "x = (r, d)" by fastforce
    with Some assms c show ?thesis
      by (auto simp: Notify Let_def relay_extends_def conn_token_task hm_get_remove split: if_splits)
  qed
next
  case (Token c token now)
  with assms have c: "sv_tasks s c = Some T_Handshaking" by (simp split: if_splits)
  show ?thesis
  proof (cases "RelayTokenVerifier_verify v rv token now")
    case (Ok u)
    then have "RelayToken_authentic v rv token" by (simp add: RelayTokenVerifier_verify_iff)
    then show ?thesis using assms c Ok
      by (auto simp: Token relay_extends_def conn_token_task split: prod.splits result.splits if_splits)
  qed (use assms c in \<open>auto simp: Token relay_extends_def conn_token_task split: if_splits\<close>)
qed (use assms in \<open>auto simp: relay_extends_def conn_token_task hm_get_insert hm_get_remove
      split: if_splits option.splits task.splits EndpointRole.splits\<close>)

lemma relay_reachable_inv: "relay_reachable v rv s \<Longrightarrow> relay_inv v rv s"
proof (induction rule: relay_reachable.induct)
  case start
  show ?case by (simp add: relay_inv_def RelayServer_new_def conn_token_def hm_get_Nil)
next
  case (step s e s')
  then show ?case by (blast intro: relay_extends_inv relay_step_extends)
qed

section \<open>Properties\<close>

text \<open>
  C28: what a relay bridges.  In every reachable state, however the tasks interleave and however
  connections fail, a relay that forwards between two connections forwards between two different
  connections, both of which presented a token that the relay accepted as authentic, for one and the same
  session.
\<close>

theorem relay_bridges_same_session:
  assumes "relay_reachable v rv s" "sv_tasks s c = Some (T_Bridging token a cc hc)"
  shows "cc \<noteq> hc \<and> (\<exists>r r'. admitted v rv s cc (rt_session_id token) r \<and> admitted v rv s hc (rt_session_id token) r')"
  using relay_reachable_inv [OF assms(1)] assms(2) by (simp add: relay_inv_def)

definition accept_all :: ed_verify where
  "accept_all k p s = Some True"

definition example_verifier :: RelayTokenVerifier where
  "example_verifier = \<lparr>rv_key = [], rv_relay_id = ''r1''\<rparr>"

definition pairing_trace :: "event list" where
  "pairing_trace =
     [Accept 1, Token 1 (example_relay_token Role_Client) (from_secs 2), List_Waiting 1, Respond 1 True,
      Accept 2, Token 2 (example_relay_token Role_Host) (from_secs 3), List_Waiting 2, Respond 2 True,
      Notify 2, Receive 1]"

lemmas relay_eval = Let_def set_task_def drop_session_def RelayServer_new_def RelaySessionTable_new_def
  RelayTokenVerifier_verify_def register_or_join_def rst_entry_def get_session_def remove_session_def
  hm_get_def hm_insert_def hm_remove_def RelaySession_new_def example_relay_token_def from_secs_def
  less_eq_UnixTimestamp_def example_verifier_def accept_all_def

theorem relay_bridges_same_session_witness:
  "case relay_run accept_all example_verifier pairing_trace RelayServer_new of
     None \<Rightarrow> False
   | Some s \<Rightarrow> sv_tasks s 1 = Some (T_Bridging (example_relay_token Role_Client) 0 1 2)
       \<and> (\<exists>r r'. admitted accept_all example_verifier s 1 (Id ''s1'') r \<and> admitted accept_all example_verifier s 2 (Id ''s1'') r')"
proof -
  have "\<exists>s. relay_run accept_all example_verifier pairing_trace RelayServer_new = Some s
      \<and> sv_tasks s 1 = Some (T_Bridging (example_relay_token Role_Client) 0 1 2)"
    unfolding pairing_trace_def by (simp add: relay_eval)
  then obtain s where s: "relay_run accept_all example_verifier pairing_trace RelayServer_new = Some s"
      "sv_tasks s 1 = Some (T_Bridging (example_relay_token Role_Client) 0 1 2)" by blast
  from relay_bridges_same_session [OF relay_run_reachable [OF relay_reachable.start s(1)] s(2)]
  have "\<exists>r r'. admitted accept_all example_verifier s 1 (Id ''s1'') r \<and> admitted accept_all example_verifier s 2 (Id ''s1'') r'"
    by (simp add: example_relay_token_def)
  with s show ?thesis by simp
qed

definition race_trace :: "event list" where
  "race_trace =
     [Accept 1, Token 1 (example_relay_token Role_Host) (from_secs 2),
      Accept 2, Token 2 (example_relay_token Role_Client) (from_secs 3), List_Waiting 2, Respond 2 True,
      Notify 2, List_Waiting 1, Respond 1 True]"

definition same_role_trace :: "event list" where
  "same_role_trace =
     [Accept 3, Token 3 (example_relay_token Role_Client) (from_secs 4),
      Accept 4, Token 4 (example_relay_token Role_Host) (from_secs 5), List_Waiting 4, Respond 4 True,
      Notify 4, Receive 1]"

text \<open>
  Pairing is not atomic.  \<open>register_or_join\<close> takes the first endpoint's slot before that endpoint is
  in the map of waiting peers, and the session is removed by its identifier.  There is a reachable state
  in which the second endpoint of a session, with a valid token, was refused with code 7 (pairing state
  mismatch) while the first one goes on to wait for a session that is no longer in the table; and from
  there a state in which the relay bridges two connections that both hold a host token, one of them in
  the place of the client.
\<close>

theorem relay_pairing_race:
  "\<exists>s s'. relay_reachable accept_all example_verifier s
     \<and> sv_tasks s 2 = Some (T_Done (Some (example_relay_token Role_Client)) 7)
     \<and> sv_tasks s 1 = Some (T_Waiting (example_relay_token Role_Host) 0)
     \<and> get_session (sv_table s) (Id ''s1'') = None
     \<and> relay_run accept_all example_verifier same_role_trace s = Some s'
     \<and> sv_tasks s' 1 = Some (T_Bridging (example_relay_token Role_Host) 0 4 1)
     \<and> conn_token s' 4 = Some (example_relay_token Role_Host)"
proof -
  define s where "s = the (relay_run accept_all example_verifier race_trace RelayServer_new)"
  have "relay_run accept_all example_verifier race_trace RelayServer_new = Some s"
    unfolding s_def race_trace_def by (simp add: relay_eval)
  then have "relay_reachable accept_all example_verifier s"
    by (rule relay_run_reachable [OF relay_reachable.start])
  moreover have "sv_tasks s 2 = Some (T_Done (Some (example_relay_token Role_Client)) 7)"
      "sv_tasks s 1 = Some (T_Waiting (example_relay_token Role_Host) 0)"
      "get_session (sv_table s) (Id ''s1'') = None"
    unfolding s_def race_trace_def by (simp_all add: relay_eval)
  moreover have "\<exists>s'. relay_run accept_all example_verifier same_role_trace s = Some s'
      \<and> sv_tasks s' 1 = Some (T_Bridging (example_relay_token Role_Host) 0 4 1)
      \<and> conn_token s' 4 = Some (example_relay_token Role_Host)"
    unfolding s_def race_trace_def same_role_trace_def by (simp add: relay_eval conn_token_def)
  ultimately show ?thesis by blast
qed

end
