(* ===== verification/Relay_Pairing.thy ===== *)
theory Relay_Pairing
  imports Relay_Server
begin

text \<open>
  Two endpoints of a session at a relay that serves other connections at the same time: in every schedule
  in which the second endpoint presents its token after the first one is in the map of waiting peers, and
  nothing fails on the two connections, they meet.
\<close>

section \<open>Schedules\<close>

fun event_conn :: "event \<Rightarrow> conn" where
  "event_conn (Accept c) = c"
| "event_conn (No_Token c code) = c"
| "event_conn (Token c token now) = c"
| "event_conn (List_Waiting c) = c"
| "event_conn (Respond c ok) = c"
| "event_conn (Receive c) = c"
| "event_conn (Conn_Closed c) = c"
| "event_conn (Clear_Entry c) = c"
| "event_conn (Clear_Session c) = c"
| "event_conn (Notify c) = c"

text \<open>The server under a schedule; an event that cannot happen where it stands is passed over.\<close>

definition relay_exec :: "ed_verify \<Rightarrow> RelayTokenVerifier \<Rightarrow> event list \<Rightarrow> RelayServer \<Rightarrow> RelayServer" where
  "relay_exec v rv es s = foldl (\<lambda>s e. case relay_step v rv e s of None \<Rightarrow> s | Some s' \<Rightarrow> s') s es"

lemma relay_exec_simps [simp]:
  "relay_exec v rv [] s = s"
  "relay_exec v rv (e # es) s = relay_exec v rv es (case relay_step v rv e s of None \<Rightarrow> s | Some s' \<Rightarrow> s')"
  by (simp_all add: relay_exec_def)

lemma relay_exec_reachable: "relay_reachable v rv s \<Longrightarrow> relay_reachable v rv (relay_exec v rv es s)"
  by (induction es arbitrary: s) (auto split: option.splits intro: relay_reachable.step)

text \<open>The steps of the endpoint that comes first and of the one that comes second, when nothing fails.\<close>

definition first_events :: "conn \<Rightarrow> RelayToken \<Rightarrow> UnixTimestamp \<Rightarrow> event list" where
  "first_events c t now = [Accept c, Token c t now, List_Waiting c, Respond c True, Receive c]"

definition second_events :: "conn \<Rightarrow> RelayToken \<Rightarrow> UnixTimestamp \<Rightarrow> event list" where
  "second_events d t now = [Accept d, Token d t now, List_Waiting d, Respond d True, Notify d]"

text \<open>
  A schedule of the two endpoints among any events of other connections.  The second token is read after the
  first endpoint has entered the map of waiting peers; the channel yields after it was written; and no other
  connection presents a token of this session.
\<close>

definition precedes :: "event \<Rightarrow> event \<Rightarrow> event list \<Rightarrow> bool" where
  "precedes a b es \<longleftrightarrow> a \<in> set (takeWhile (\<lambda>e. e \<noteq> b) es)"

fun foreign_token :: "Id \<Rightarrow> conn \<Rightarrow> conn \<Rightarrow> event \<Rightarrow> bool" where
  "foreign_token sid c d (Token e t now) \<longleftrightarrow> e = c \<or> e = d \<or> rt_session_id t \<noteq> sid"
| "foreign_token sid c d _ \<longleftrightarrow> True"

definition meeting_schedule ::
  "conn \<Rightarrow> RelayToken \<Rightarrow> UnixTimestamp \<Rightarrow> conn \<Rightarrow> RelayToken \<Rightarrow> UnixTimestamp \<Rightarrow> event list \<Rightarrow> bool" where
  "meeting_schedule c t1 n1 d t2 n2 es \<longleftrightarrow>
     filter (\<lambda>e. event_conn e = c) es = first_events c t1 n1
     \<and> filter (\<lambda>e. event_conn e = d) es = second_events d t2 n2
     \<and> precedes (List_Waiting c) (Token d t2 n2) es \<and> precedes (Notify d) (Receive c) es
     \<and> list_all (foreign_token (rt_session_id t1) c d) es"

lemma precedes_Cons [simp]: "precedes a b (e # es) \<longleftrightarrow> e \<noteq> b \<and> (e = a \<or> precedes a b es)"
  by (auto simp: precedes_def)

section \<open>What others cannot disturb\<close>

text \<open>What a pairing depends on of the table: the address, the devices and the slots of the session.\<close>

definition session_view :: "RelaySessionTable \<Rightarrow> Id \<Rightarrow> (nat \<times> string \<times> string \<times> bool \<times> bool) option" where
  "session_view t sid =
     map_option (\<lambda>a. let s = rst_store t ! a in
       (a, rs_client_device_id s, rs_target_device_id s, st_client (rs_state s), st_host (rs_state s))) (get_session t sid)"

lemma session_view_entry:
  assumes "table_inv t" "rst_entry t token = (t', a)" "rt_session_id token \<noteq> sid"
  shows "session_view t' sid = session_view t sid"
proof -
  have "get_session t' sid = get_session t sid"
    using assms(2,3) by (auto simp: rst_entry_def Let_def get_session_def hm_get_insert split: option.splits)
  then show ?thesis
    using rst_entry_spec(5) [OF assms(1,2)] table_invD [OF assms(1)]
    by (cases "get_session t sid") (simp_all add: session_view_def)
qed

lemma session_view_other_address:
  assumes "table_inv t" "a < length (rst_store t)" "rs_session_id (rst_store t ! a) \<noteq> sid"
  shows "session_view (update_store a f t) sid = session_view t sid"
  using assms table_invD [OF assms(1)]
  by (cases "get_session t sid") (auto simp: session_view_def nth_update_store)

lemma session_view_register:
  assumes "table_inv t" "rt_session_id token \<noteq> sid"
  shows "session_view (fst (register_or_join t token now)) sid = session_view t sid"
proof (cases "register_or_join t token now")
  case (Pair t' r)
  obtain t0 a where e: "rst_entry t token = (t0, a)" by fastforce
  note sp = rst_entry_spec [OF assms(1) e]
  show ?thesis
  proof (cases r)
    case (Err err)
    with Pair register_or_join_Err [of t token now t'] e have "t' = t \<or> t' = t0" by auto
    with Pair session_view_entry [OF assms(1) e assms(2)] show ?thesis by auto
  next
    case (Ok x)
    obtain b p where x: "x = (b, p)" by fastforce
    from Pair obtain t0' where "rst_entry t token = (t0', b)"
        "t' = update_store b (\<lambda>s. s\<lparr>rs_state := set_slot (rt_role token) (rs_state s)\<rparr>) t0'"
      unfolding Ok x by (rule register_or_join_Ok)
    with e Pair show ?thesis
      using session_view_other_address [OF sp(1,2)] sp(3) assms(2) session_view_entry [OF assms(1) e assms(2)] by simp
  qed
qed

lemma session_view_terminate: "table_inv t \<Longrightarrow> session_view (update_store a rs_terminate t) sid = session_view t sid"
  using table_invD [of t sid]
  by (cases "get_session t sid") (auto simp: session_view_def nth_update_store rs_terminate_def Let_def)

lemma session_view_remove: "sid' \<noteq> sid \<Longrightarrow> session_view (remove_session t sid') sid = session_view t sid"
  by (simp add: session_view_def remove_session_def get_session_def hm_get_remove)

lemma table_inv_remove: "table_inv t \<Longrightarrow> table_inv (remove_session t sid)"
  using table_step_inv [of t "Remove sid"] by simp

lemma table_inv_terminate: "table_inv t \<Longrightarrow> table_inv (update_store a rs_terminate t)"
  by (simp add: table_inv_update)

lemma relay_step_table_inv:
  assumes "table_inv (sv_table s)" "relay_step v rv e s = Some s'"
  shows "table_inv (sv_table s')"
proof (cases e)
  case (Token c token now)
  with assms(2) register_or_join_inv [OF assms(1), of token now] show ?thesis
    by (auto simp: assms(1) split: if_splits result.splits prod.splits)
qed (use assms in \<open>auto simp: drop_session_def table_inv_remove table_inv_terminate Let_def
      split: if_splits option.splits task.splits EndpointRole.splits\<close>)

lemma relay_reachable_table_inv: "relay_reachable v rv s \<Longrightarrow> table_inv (sv_table s)"
  by (induction rule: relay_reachable.induct)
    (auto simp: RelayServer_new_def table_inv_new intro: relay_step_table_inv)

text \<open>A step of one connection leaves the tasks of the others alone, and only a token event brings a token.\<close>

lemma relay_step_tasks:
  assumes "relay_step v rv e s = Some s'" "x \<noteq> event_conn e"
  shows "sv_tasks s' x = sv_tasks s x"
  using assms
  by (cases e) (auto simp: Let_def split: if_splits option.splits task.splits result.splits prod.splits EndpointRole.splits)

lemma relay_step_new_token:
  assumes "relay_step v rv e s = Some s'" "conn_token s' x = Some t"
  shows "conn_token s x = Some t \<or> (\<exists>now. e = Token x t now)"
  using assms
  by (cases e) (auto simp: Let_def conn_token_task
      split: if_splits option.splits task.splits result.splits prod.splits EndpointRole.splits)


text \<open>A step of a connection that has nothing to do with a session leaves what the session depends on.\<close>

lemma foreign_step:
  assumes step: "relay_step v rv e s = Some s'"
    and inv: "relay_inv v rv s" "table_inv (sv_table s)"
    and own: "\<And>t. conn_token s (event_conn e) = Some t \<Longrightarrow> rt_session_id t \<noteq> sid"
    and token: "\<And>x t now. e = Token x t now \<Longrightarrow> rt_session_id t \<noteq> sid"
  shows "session_view (sv_table s') sid = session_view (sv_table s) sid"
    and "hm_get (sv_waiting s') sid = hm_get (sv_waiting s) sid"
    and "(\<And>t. conn_token s x = Some t \<Longrightarrow> rt_session_id t = sid) \<Longrightarrow> sv_mail s' x = sv_mail s x"
proof -
  show "session_view (sv_table s') sid = session_view (sv_table s) sid"
  proof (cases e)
    case (Token c t now)
    with step session_view_register [OF inv(2) token [OF Token], of now] show ?thesis
      by (auto split: if_splits result.splits prod.splits)
  next
    case (Conn_Closed c)
    with step own show ?thesis
      by (auto simp: drop_session_def conn_token_task session_view_remove session_view_terminate [OF inv(2)]
          split: option.splits task.splits)
  qed (use step own in \<open>auto simp: drop_session_def conn_token_task session_view_remove Let_def
      split: if_splits option.splits task.splits EndpointRole.splits\<close>)
  show "hm_get (sv_waiting s') sid = hm_get (sv_waiting s) sid"
    using step own
    by (cases e) (auto simp: conn_token_task hm_get_insert hm_get_remove Let_def
        split: if_splits option.splits task.splits result.splits prod.splits EndpointRole.splits)
  assume x: "\<And>t. conn_token s x = Some t \<Longrightarrow> rt_session_id t = sid"
  have peer: "d \<noteq> x" if "hm_get (sv_waiting s) sid' = Some (r, d)" "sid' \<noteq> sid" for sid' r d
  proof -
    have "admitted v rv s d sid' r" using inv(1) that(1) by (simp add: relay_inv_def)
    with x that(2) show ?thesis by (auto simp: admitted_def)
  qed
  show "sv_mail s' x = sv_mail s x"
    using step own
    by (cases e) (auto simp: conn_token_task Let_def dest: peer
        split: if_splits option.splits task.splits result.splits prod.splits EndpointRole.splits)
qed

section \<open>The two endpoints\<close>

text \<open>Where the first and the second endpoint stand after their first \<open>i\<close> steps.\<close>

fun first_task :: "RelayToken \<Rightarrow> nat \<Rightarrow> conn \<Rightarrow> conn \<Rightarrow> nat \<Rightarrow> task option" where
  "first_task t a c d i =
     (if i = 0 then None else if i = 1 then Some T_Handshaking else if i = 2 then Some (T_Joined t a False)
      else if i = 3 then Some (T_Responding t a False) else if i = 4 then Some (T_Waiting t a)
      else Some (if rt_role t = Role_Client then T_Bridging t a c d else T_Bridging t a d c))"

fun second_task :: "RelayToken \<Rightarrow> nat \<Rightarrow> nat \<Rightarrow> task option" where
  "second_task t a j =
     (if j = 0 then None else if j = 1 then Some T_Handshaking else if j = 2 then Some (T_Joined t a True)
      else if j = 3 then Some (T_Responding t a True) else if j = 4 then Some (T_Notifying t)
      else Some (T_Held t))"

definition meet_inv ::
  "ed_verify \<Rightarrow> RelayTokenVerifier \<Rightarrow> conn \<Rightarrow> RelayToken \<Rightarrow> conn \<Rightarrow> RelayToken \<Rightarrow> nat \<Rightarrow> nat \<Rightarrow> nat \<Rightarrow> RelayServer \<Rightarrow> bool" where
  "meet_inv v rv c t1 d t2 a i j s \<longleftrightarrow>
     relay_reachable v rv s
     \<and> sv_tasks s c = first_task t1 a c d i \<and> sv_tasks s d = second_task t2 a j
     \<and> (\<forall>x t. conn_token s x = Some t \<longrightarrow> x = c \<or> x = d \<or> rt_session_id t \<noteq> rt_session_id t1)
     \<and> (i < 2 \<longrightarrow> session_view (sv_table s) (rt_session_id t1) = None)
     \<and> (2 \<le> i \<and> j < 2 \<longrightarrow> session_view (sv_table s) (rt_session_id t1) =
          Some (a, id_as_str (rt_client_device_id t1), id_as_str (rt_target_device_id t1), rt_role t1 = Role_Client, rt_role t1 = Role_Host))
     \<and> (3 \<le> i \<and> j < 5 \<longrightarrow> hm_get (sv_waiting s) (rt_session_id t1) = Some (rt_role t1, c))
     \<and> (5 \<le> j \<longrightarrow> sv_mail s c = Some (rt_role t2, d))"

lemma meet_tokens:
  assumes "meet_inv v rv c t1 d t2 a i j s" "rt_session_id t2 = rt_session_id t1"
  shows "conn_token s c = Some t \<Longrightarrow> rt_session_id t = rt_session_id t1"
    and "conn_token s d = Some t \<Longrightarrow> rt_session_id t = rt_session_id t1"
  using assms by (auto simp: meet_inv_def conn_token_def split: option.splits if_splits)

text \<open>Any event of another connection.\<close>

lemma meet_other:
  assumes "meet_inv v rv c t1 d t2 a i j s" "rt_session_id t2 = rt_session_id t1"
    and e: "event_conn e \<noteq> c" "event_conn e \<noteq> d" "foreign_token (rt_session_id t1) c d e"
  shows "meet_inv v rv c t1 d t2 a i j (case relay_step v rv e s of None \<Rightarrow> s | Some s' \<Rightarrow> s')"
proof (cases "relay_step v rv e s")
  case (Some s')
  have r: "relay_reachable v rv s" and others: "\<And>x t. conn_token s x = Some t \<Longrightarrow> x = c \<or> x = d \<or> rt_session_id t \<noteq> rt_session_id t1"
    using assms(1) by (auto simp: meet_inv_def)
  note inv = relay_reachable_inv [OF r] relay_reachable_table_inv [OF r]
  have new: "rt_session_id t \<noteq> rt_session_id t1" if "e = Token x t now" for x t now
    using e that by auto
  have own: "rt_session_id t \<noteq> rt_session_id t1" if "conn_token s (event_conn e) = Some t" for t
    using others [OF that] e by auto
  have "conn_token s' x = Some t \<Longrightarrow> x = c \<or> x = d \<or> rt_session_id t \<noteq> rt_session_id t1" for x t
    using relay_step_new_token [OF Some] others new by blast
  moreover have "sv_mail s' c = sv_mail s c"
    by (rule foreign_step(3) [OF Some inv, of "rt_session_id t1"]) (use own new meet_tokens(1) [OF assms(1,2)] in blast)+
  moreover have "session_view (sv_table s') (rt_session_id t1) = session_view (sv_table s) (rt_session_id t1)"
    by (rule foreign_step(1) [OF Some inv]) (use own new in blast)+
  moreover have "hm_get (sv_waiting s') (rt_session_id t1) = hm_get (sv_waiting s) (rt_session_id t1)"
    by (rule foreign_step(2) [OF Some inv]) (use own new in blast)+
  moreover have "sv_tasks s' c = sv_tasks s c" "sv_tasks s' d = sv_tasks s d"
    using relay_step_tasks [OF Some] e by auto
  moreover have "relay_reachable v rv s'" using r Some by (rule relay_reachable.step)
  ultimately show ?thesis
    using assms(1) Some by (simp add: meet_inv_def del: first_task.simps second_task.simps)
qed (simp add: assms(1))

text \<open>What the two tokens of a session give: the first takes a new session, the second completes it.\<close>

lemma register_first:
  assumes "now < rt_expires_at t1" "session_view t (rt_session_id t1) = None"
  shows "\<exists>t'. register_or_join t t1 now = (t', Ok (length (rst_store t), False))
    \<and> session_view t' (rt_session_id t1) = Some (length (rst_store t), id_as_str (rt_client_device_id t1),
        id_as_str (rt_target_device_id t1), rt_role t1 = Role_Client, rt_role t1 = Role_Host)"
proof -
  have "get_session t (rt_session_id t1) = None" using assms(2) by (simp add: session_view_def)
  with assms(1) show ?thesis
    by (cases "rt_role t1")
      (simp_all add: register_or_join_def rst_entry_def Let_def RelaySession_new_def session_view_def get_session_def hm_get_insert)
qed

lemma register_second:
  assumes "now < rt_expires_at t2"
    and "session_view t (rt_session_id t1) = Some (a, id_as_str (rt_client_device_id t1), id_as_str (rt_target_device_id t1),
      rt_role t1 = Role_Client, rt_role t1 = Role_Host)"
    and "rt_session_id t2 = rt_session_id t1" "rt_client_device_id t2 = rt_client_device_id t1"
      "rt_target_device_id t2 = rt_target_device_id t1" "rt_role t2 = peer (rt_role t1)"
  shows "\<exists>t'. register_or_join t t2 now = (t', Ok (a, True))"
proof -
  from assms(2) have "get_session t (rt_session_id t2) = Some a"
      "rs_client_device_id (rst_store t ! a) = id_as_str (rt_client_device_id t1)"
      "rs_target_device_id (rst_store t ! a) = id_as_str (rt_target_device_id t1)"
      "st_client (rs_state (rst_store t ! a)) = (rt_role t1 = Role_Client)"
      "st_host (rs_state (rst_store t ! a)) = (rt_role t1 = Role_Host)"
    by (auto simp: session_view_def Let_def assms(3))
  then show ?thesis
    using assms(1,4-6) by (cases "rt_role t1") (simp_all add: register_or_join_def rst_entry_def Let_def)
qed

definition matching_tokens :: "ed_verify \<Rightarrow> RelayTokenVerifier \<Rightarrow> RelayToken \<Rightarrow> UnixTimestamp \<Rightarrow> RelayToken \<Rightarrow> UnixTimestamp \<Rightarrow> bool" where
  "matching_tokens v rv t1 n1 t2 n2 \<longleftrightarrow>
     RelayTokenVerifier_verify v rv t1 n1 = Ok () \<and> RelayTokenVerifier_verify v rv t2 n2 = Ok ()
     \<and> rt_session_id t2 = rt_session_id t1 \<and> rt_client_device_id t2 = rt_client_device_id t1
     \<and> rt_target_device_id t2 = rt_target_device_id t1 \<and> rt_role t2 = peer (rt_role t1)"

lemma matching_expiry: "matching_tokens v rv t1 n1 t2 n2 \<Longrightarrow> n1 < rt_expires_at t1 \<and> n2 < rt_expires_at t2"
  by (simp add: matching_tokens_def RelayTokenVerifier_verify_iff)

text \<open>The next step of the first endpoint.\<close>

lemma meet_first:
  assumes inv: "meet_inv v rv c t1 d t2 a i j s" and ok: "matching_tokens v rv t1 n1 t2 n2" "c \<noteq> d"
    and i: "i < 5" "2 \<le> j \<longrightarrow> 3 \<le> i" "i = 4 \<longrightarrow> 5 \<le> j"
  shows "\<exists>s' a. relay_step v rv (first_events c t1 n1 ! i) s = Some s' \<and> meet_inv v rv c t1 d t2 a (Suc i) j s'"
proof -
  have reach: "relay_reachable v rv s" using inv by (simp add: meet_inv_def)
  have go: ?thesis if "relay_step v rv (first_events c t1 n1 ! i) s = Some s'"
      "relay_reachable v rv s' \<Longrightarrow> meet_inv v rv c t1 d t2 b (Suc i) j s'" for s' b
    using that relay_reachable.step [OF reach] by blast
  consider "i = 0" | "i = 1" | "i = 2" | "i = 3" | "i = 4" using i(1) by linarith
  then show ?thesis
  proof cases
    case 1
    then show ?thesis
      using inv ok(2) by (intro go [of "set_task c T_Handshaking s" a]) (auto simp: first_events_def meet_inv_def)
  next
    case 2
    then have at: "session_view (sv_table s) (rt_session_id t1) = None" "j < 2" "sv_tasks s c = Some T_Handshaking"
      using inv i(2) by (auto simp: meet_inv_def)
    let ?a = "length (rst_store (sv_table s))"
    from register_first [OF conjunct1 [OF matching_expiry [OF ok(1)]] at(1)] obtain t' where
      "register_or_join (sv_table s) t1 n1 = (t', Ok (?a, False))"
      "session_view t' (rt_session_id t1) = Some (?a, id_as_str (rt_client_device_id t1),
         id_as_str (rt_target_device_id t1), rt_role t1 = Role_Client, rt_role t1 = Role_Host)" by blast
    with at show ?thesis
      using 2 inv ok by (intro go [of "set_task c (T_Joined t1 ?a False) (s\<lparr>sv_table := t'\<rparr>)" ?a])
        (auto simp: first_events_def meet_inv_def matching_tokens_def)
  next
    case 3
    then show ?thesis
      using inv ok(2) i(2)
      by (intro go [of "set_task c (T_Responding t1 a False)
          (s\<lparr>sv_waiting := hm_insert (rt_session_id t1) (rt_role t1, c) (sv_waiting s)\<rparr>)" a])
        (auto simp: first_events_def meet_inv_def hm_get_insert)
  next
    case 4
    then show ?thesis
      using inv ok(2) by (intro go [of "set_task c (T_Waiting t1 a) s" a]) (auto simp: first_events_def meet_inv_def numeral_eq_Suc)
  next
    case 5
    then show ?thesis
      using inv ok(2) i(3)
      by (intro go [of "set_task c (if rt_role t1 = Role_Client then T_Bridging t1 a c d else T_Bridging t1 a d c) s" a])
        (auto simp: first_events_def meet_inv_def numeral_eq_Suc split: EndpointRole.splits)
  qed
qed

text \<open>The next step of the second endpoint.\<close>

lemma meet_second:
  assumes inv: "meet_inv v rv c t1 d t2 a i j s" and ok: "matching_tokens v rv t1 n1 t2 n2" "c \<noteq> d"
    and j: "j < 5" "i < 5" "1 \<le> j \<longrightarrow> 3 \<le> i"
  shows "\<exists>s'. relay_step v rv (second_events d t2 n2 ! j) s = Some s' \<and> meet_inv v rv c t1 d t2 a i (Suc j) s'"
proof -
  have reach: "relay_reachable v rv s" using inv by (simp add: meet_inv_def)
  have go: ?thesis if "relay_step v rv (second_events d t2 n2 ! j) s = Some s'"
      "relay_reachable v rv s' \<Longrightarrow> meet_inv v rv c t1 d t2 a i (Suc j) s'" for s'
    using that relay_reachable.step [OF reach] by blast
  consider "j = 0" | "j = 1" | "j = 2" | "j = 3" | "j = 4" using j(1) by linarith
  then show ?thesis
  proof cases
    case 1
    then show ?thesis
      using inv ok(2) by (intro go [of "set_task d T_Handshaking s"]) (auto simp: second_events_def meet_inv_def)
  next
    case 2
    then have view: "session_view (sv_table s) (rt_session_id t1) = Some (a, id_as_str (rt_client_device_id t1),
        id_as_str (rt_target_device_id t1), rt_role t1 = Role_Client, rt_role t1 = Role_Host)"
      using inv j(3) by (auto simp: meet_inv_def)
    have "rt_session_id t2 = rt_session_id t1" "rt_client_device_id t2 = rt_client_device_id t1"
        "rt_target_device_id t2 = rt_target_device_id t1" "rt_role t2 = peer (rt_role t1)"
      using ok(1) by (simp_all add: matching_tokens_def)
    from register_second [OF conjunct2 [OF matching_expiry [OF ok(1)]] view this] obtain t' where
      "register_or_join (sv_table s) t2 n2 = (t', Ok (a, True))" by blast
    then show ?thesis
      using 2 inv ok j(3) by (intro go [of "set_task d (T_Joined t2 a True) (s\<lparr>sv_table := t'\<rparr>)"])
        (auto simp: second_events_def meet_inv_def matching_tokens_def)
  next
    case 3
    then show ?thesis
      using inv ok(2) by (intro go [of "set_task d (T_Responding t2 a True) s"]) (auto simp: second_events_def meet_inv_def)
  next
    case 4
    then show ?thesis
      using inv ok(2) by (intro go [of "set_task d (T_Notifying t2) s"]) (auto simp: second_events_def meet_inv_def numeral_eq_Suc)
  next
    case 5
    then have "receiver_alive (sv_tasks s c)" "hm_get (sv_waiting s) (rt_session_id t2) = Some (rt_role t1, c)"
      using inv ok(1) j by (auto simp: meet_inv_def matching_tokens_def)
    then show ?thesis
      using 5 inv ok j
      by (intro go [of "set_task d (T_Held t2) (s\<lparr>sv_waiting := hm_remove (rt_session_id t2) (sv_waiting s),
          sv_mail := (sv_mail s)(c \<mapsto> (rt_role t2, d))\<rparr>)"])
        (auto simp: second_events_def meet_inv_def matching_tokens_def numeral_eq_Suc Let_def)
  qed
qed

section \<open>They meet\<close>

lemma filter_drop_nth:
  assumes "filter P (e # es) = drop i xs" "P e"
  shows "i < length xs" "e = xs ! i" "filter P es = drop (Suc i) xs"
proof -
  have "drop i xs = e # filter P es" using assms by simp
  then show "i < length xs" by (metis drop_eq_Nil linorder_not_le list.discI)
  then show "e = xs ! i" "filter P es = drop (Suc i) xs"
    using \<open>drop i xs = e # filter P es\<close> by (simp_all add: Cons_nth_drop_Suc [symmetric])
qed

lemma meet_run:
  assumes ok: "matching_tokens v rv t1 n1 t2 n2" "c \<noteq> d"
    and inv: "meet_inv v rv c t1 d t2 a i j s"
    and es: "filter (\<lambda>e. event_conn e = c) es = drop i (first_events c t1 n1)"
      "filter (\<lambda>e. event_conn e = d) es = drop j (second_events d t2 n2)"
      "list_all (foreign_token (rt_session_id t1) c d) es"
    and order: "i < 3 \<longrightarrow> j < 2 \<and> precedes (List_Waiting c) (Token d t2 n2) es"
      "j < 5 \<longrightarrow> i < 5 \<and> precedes (Notify d) (Receive c) es" "i \<le> 5" "j \<le> 5"
  shows "\<exists>a. meet_inv v rv c t1 d t2 a 5 5 (relay_exec v rv es s)"
  using inv es order
proof (induction es arbitrary: s a i j)
  case Nil
  then have "5 \<le> i" "5 \<le> j" by (simp_all add: first_events_def second_events_def)
  with Nil show ?case by auto
next
  case (Cons e es)
  have same: "rt_session_id t2 = rt_session_id t1" using ok(1) by (simp add: matching_tokens_def)
  consider (first) "event_conn e = c" | (second) "event_conn e = d" "event_conn e \<noteq> c" | (other) "event_conn e \<noteq> c" "event_conn e \<noteq> d"
    by blast
  then show ?case
  proof cases
    case other
    have kept: "meet_inv v rv c t1 d t2 a i j (case relay_step v rv e s of None \<Rightarrow> s | Some s' \<Rightarrow> s')"
      using meet_other [OF Cons.prems(1) same other] Cons.prems(4) by simp
    show ?thesis
      unfolding relay_exec_simps by (rule Cons.IH [OF kept]) (use Cons.prems other in auto)
  next
    case first
    note nth = filter_drop_nth [OF Cons.prems(2) first]
    have i: "i < 5" using nth(1) by (simp add: first_events_def)
    have "j < 5 \<longrightarrow> e \<noteq> Receive c" using Cons.prems(6) by auto
    then have "i = 4 \<longrightarrow> 5 \<le> j" using nth(2) by (auto simp: first_events_def)
    moreover have "2 \<le> j \<longrightarrow> 3 \<le> i" using Cons.prems(5) by linarith
    ultimately obtain s' b where step: "relay_step v rv e s = Some s'" "meet_inv v rv c t1 d t2 b (Suc i) j s'"
      using meet_first [OF Cons.prems(1) ok i] nth(2) by auto
    show ?thesis
    proof (simp only: relay_exec_simps step(1) option.case, rule Cons.IH [OF step(2) nth(3)])
      show "filter (\<lambda>e. event_conn e = d) es = drop j (second_events d t2 n2)" using Cons.prems(3) first ok(2) by simp
      show "Suc i < 3 \<longrightarrow> j < 2 \<and> precedes (List_Waiting c) (Token d t2 n2) es"
        using Cons.prems(5) nth(2) by (auto simp: first_events_def nth_Cons split: nat.splits)
      show "j < 5 \<longrightarrow> Suc i < 5 \<and> precedes (Notify d) (Receive c) es"
        using Cons.prems(6) first ok(2) \<open>i = 4 \<longrightarrow> 5 \<le> j\<close> i by auto
    qed (use Cons.prems i in auto)
  next
    case second
    note nth = filter_drop_nth [OF Cons.prems(3) second(1)]
    have j: "j < 5" using nth(1) by (simp add: second_events_def)
    then have i: "i < 5" using Cons.prems(6) by simp
    have "i < 3 \<longrightarrow> e \<noteq> Token d t2 n2" using Cons.prems(5) by auto
    then have lt: "i < 3 \<longrightarrow> j = 0" using Cons.prems(5) nth(2) by (auto simp: second_events_def less_Suc_eq numeral_eq_Suc)
    then have "1 \<le> j \<longrightarrow> 3 \<le> i" by linarith
    from meet_second [OF Cons.prems(1) ok j i this] nth(2) obtain s' where
      step: "relay_step v rv e s = Some s'" "meet_inv v rv c t1 d t2 a i (Suc j) s'" by auto
    show ?thesis
    proof (simp only: relay_exec_simps step(1) option.case, rule Cons.IH [OF step(2) _ nth(3)])
      show "filter (\<lambda>e. event_conn e = c) es = drop i (first_events c t1 n1)" using Cons.prems(2) second by simp
      show "i < 3 \<longrightarrow> Suc j < 2 \<and> precedes (List_Waiting c) (Token d t2 n2) es"
        using Cons.prems(5) lt second by auto
      show "Suc j < 5 \<longrightarrow> i < 5 \<and> precedes (Notify d) (Receive c) es"
        using Cons.prems(6) nth(2) j i by (auto simp: second_events_def nth_Cons split: nat.splits)
    qed (use Cons.prems j in auto)
  qed
qed

text \<open>
  The server does whatever it does; the session is new to it, the two connections too, and the schedule
  lets the second endpoint come after the first.
\<close>

lemma endpoints_meet:
  assumes "relay_reachable v rv s" "matching_tokens v rv t1 n1 t2 n2" "c \<noteq> d"
    and "sv_tasks s c = None" "sv_tasks s d = None"
    and "get_session (sv_table s) (rt_session_id t1) = None"
    and "\<And>x t. conn_token s x = Some t \<Longrightarrow> rt_session_id t \<noteq> rt_session_id t1"
    and "meeting_schedule c t1 n1 d t2 n2 es"
  shows "\<exists>a. sv_tasks (relay_exec v rv es s) c =
      Some (if rt_role t1 = Role_Client then T_Bridging t1 a c d else T_Bridging t1 a d c)
    \<and> sv_tasks (relay_exec v rv es s) d = Some (T_Held t2)"
proof -
  have "meet_inv v rv c t1 d t2 0 0 0 s"
    using assms(1,4-7) by (auto simp: meet_inv_def session_view_def)
  from meet_run [OF assms(2,3) this] assms(8) show ?thesis
    by (auto simp: meeting_schedule_def meet_inv_def)
qed

end
