(* ===== verification/End_To_End.thy ===== *)
theory End_To_End
  imports Control_Invariants Agent_Session Agent_Identity Relay_Pairing "HOL-Library.Countable"
begin

text \<open>
  The parts together: enrollment of an agent at the control plane, and a session from its request at the
  control plane to the agent that admits it and the relay that connects its two endpoints.
\<close>

section \<open>The answer to a session request\<close>

lemma evaluate_grants_requested:
  assumes "evaluate engine subject resource a = Allowed g r m"
  shows "a \<in> g"
proof -
  have "granted_actions (merge_roles (matching_roles engine subject resource a)) = Some g"
    by (simp add: evaluate_Allowed_merge [OF assms])
  then have g: "g = (\<Union>r \<in> set (matching_roles engine subject resource a). allowed_actions r)"
    by (simp add: merge_roles_granted)
  have "is_allowed (evaluate engine subject resource a)" by (simp add: assms)
  then obtain role where "role \<in> set (matching_roles engine subject resource a)"
    unfolding evaluate_allowed_iff by (cases "matching_roles engine subject resource a") auto
  moreover from this have "a \<in> allowed_actions role"
    by (auto simp: matching_roles_def allows_action_def ActionSet_defs)
  ultimately show ?thesis using g by blast
qed

lemma length_ActionSet_iter: "length (ActionSet_iter g) \<le> 32"
proof -
  have "length (ActionSet_iter g) \<le> length Action_ALL" by (simp add: ActionSet_iter_def)
  also have "length Action_ALL \<le> 32" by (simp add: Action_ALL_def)
  finally show ?thesis .
qed

definition session_token :: "'j externals \<Rightarrow> ('j, 'k) AppState \<Rightarrow> SessionRequestPayload \<Rightarrow> Id \<Rightarrow> UnixTimestamp \<Rightarrow> EndpointRole \<Rightarrow> RelayToken" where
  "session_token x st p sid expires role =
     RelayToken_sign (x_sign x)
       \<lparr>rt_session_id = sid, rt_relay_id = ap_default_relay_id st, rt_client_device_id = sq_client_device_id p,
        rt_target_device_id = sq_target_device_id p, rt_role = role, rt_expires_at = expires, rt_signature = []\<rparr>
       (ap_signing_key st)"

lemma session_relay_token_Ok:
  "session_relay_token x st p sid expires role = Ok t \<Longrightarrow> t = session_token x st p sid expires role"
  by (auto simp: session_relay_token_def RelayTokenBuilder_build_def rtb_setters RelayToken_builder_def session_token_def
      res_simps split: if_splits)

lemma request_session_Ok:
  assumes "request_session_handler x sink fg fs fa now uuid nonce p st = (st', Ok resp)"
  obtains g where "DesktopView \<in> g" "Id_new (''sess-'' @ uuid_simple uuid) = Ok (sa_session_id resp)"
    "sa_capability_bytes resp = x_proto x (sign_capability x (ap_signing_key st)
       (unsigned_capability st p (sa_session_id resp) (map Action_as_str (ActionSet_iter g)) now nonce))"
    "sa_relay_id resp = ap_default_relay_id st" "sa_expires_at resp = from_secs (as_secs now + session_ttl_secs)"
    "sa_client_relay_token resp = session_token x st p (sa_session_id resp) (sa_expires_at resp) Role_Client"
    "sa_host_relay_token resp = session_token x st p (sa_session_id resp) (sa_expires_at resp) Role_Host"
proof -
  from assms obtain g r m where g: "evaluate (ap_policy_engine st) (session_subject p) (session_resource p) DesktopView = Allowed g r m"
      "authorize_session x sink fs fa now uuid nonce p g st = (st', Ok resp)"
    by (auto simp: request_session_handler_def split: result.splits option.splits if_splits EvaluationDecision.splits prod.splits)
  from g(2) show ?thesis
    using evaluate_grants_requested [OF g(1)]
    by (intro that [of g])
      (auto simp: authorize_session_def Let_def split: result.splits prod.splits dest: session_relay_token_Ok)
qed

text \<open>An identifier as the constructors of the source make it.\<close>

definition valid_id :: "Id \<Rightarrow> bool" where
  "valid_id i \<longleftrightarrow> Id_new (id_as_str i) = Ok i"

lemma valid_id_length: "valid_id i \<Longrightarrow> id_as_str i \<noteq> [] \<and> length (id_as_str i) \<le> 128"
  by (auto simp: valid_id_def Id_new_def res_simps validate_id_Ok MIN_ID_LEN_def MAX_ID_LEN_def)

lemma add_ttl: "unat (w :: u64) + 120 < 2 ^ 64 \<Longrightarrow> w < w + 120"
  by (simp add: word_less_nat_alt unat_word_ariths)

text \<open>What the agent asks of a capability holds of the one that the control plane makes.\<close>

lemma unsigned_capability_admissible:
  assumes ids: "valid_id (sq_subject_user_id p)" "valid_id (sq_client_device_id p)" "valid_id (sq_target_device_id p)" "valid_id sid"
    and issuer: "ap_control_plane_id st \<noteq> []" "length (ap_control_plane_id st) \<le> 128"
    and nonce: "length nonce = 16" and g: "DesktopView \<in> g"
    and time: "unat (as_secs now) + 120 < 2 ^ 64" "as_secs now \<le> as_secs later" "as_secs later \<le> as_secs now + 120"
  shows "cap_admissible (Some (id_as_str (sq_target_device_id p)))
    (unsigned_capability st p sid (map Action_as_str (ActionSet_iter g)) now nonce) 1 later"
proof -
  have "ActionSet_iter g \<noteq> []" using g by (metis empty_iff list.set(1) set_ActionSet_iter)
  moreover have "nonce \<noteq> []" using nonce by auto
  ultimately show ?thesis
    using ids [THEN valid_id_length] issuer nonce time length_ActionSet_iter [of g] add_ttl [OF time(1)]
    by (simp add: cap_admissible_def SessionCapability_validate_Ok unsigned_capability_def session_ttl_secs_def
        MAX_SESSION_ID_LEN_def MAX_CAPABILITY_PERMISSIONS_def MAX_NONCE_LEN_def)
qed

lemma cap_admissible_signature [simp]:
  "cap_admissible target (c\<lparr>cap_signature := sig\<rparr>) negotiated now \<longleftrightarrow> cap_admissible target c negotiated now"
  by (simp add: cap_admissible_def SessionCapability_validate_Ok)

lemma new_agent_accepts:
  assumes "cap_admissible (Some target) c negotiated now" "Id_new (cap_session_id c) = Ok sid"
    and "sig_accepted v key (SessionCapability_signing_bytes enc c) (cap_signature c)"
  shows "\<exists>m s. verify_and_accept_session enc v (AgentSessionManager_new key target) c negotiated now t = (m, Ok s)
    \<and> hs_session_id s = sid"
proof -
  have cache: "snd (rc_accept (NonceReplayCache_new (dur_from_secs 120) 10000) (cap_nonce c) t)"
    by (simp add: rc_accept_iff rc_inv_new) (simp add: NonceReplayCache_new_def hm_get_def)
  have sid: "sid = Id (cap_session_id c)" using assms(2) by (auto simp: Id_new_def res_simps)
  define s where "s = \<lparr>hs_session_id = sid, hs_capability = c, hs_negotiated_protocol = negotiated,
      hs_established_at = now, hs_state = St_Active\<rparr>"
  have "snd (verify_and_accept_session enc v (AgentSessionManager_new key target) c negotiated now t) = Ok s"
    using assms cache
    by (simp add: verify_and_accept_Ok s_def sid AgentSessionManager_new_def with_target_device_id_def CapabilityVerifier_new_def
        res_simps hm_contains_def hm_get_def)
  then show ?thesis by (metis HostSession.select_convs(1) prod.collapse s_def)
qed

lemma default_policy_allows:
  "\<exists>restrictions roles. evaluate default_policy_engine (session_subject p) (session_resource p) DesktopView
     = Allowed ActionSet_all restrictions roles"
proof -
  let ?roles = "matching_roles default_policy_engine (session_subject p) (session_resource p) DesktopView"
  let ?admin = "Role_with_conditions PolicyConditions_default (Role_with_actions ActionSet_all (Role_new ''admin''))"
  have all: "ActionSet_all = UNIV" using Action_ALL_complete by (auto simp: ActionSet_all_def)
  have "hm_get (pe_roles default_policy_engine) ''admin'' = Some ?admin"
    by (simp add: default_policy_engine_def add_role_def hm_get_insert Role_with_conditions_def Role_with_actions_def
        Role_with_action_def Role_new_def)
  then have admin: "?admin \<in> set ?roles"
    by (simp add: matching_roles_def List.map_filter_def session_subject_def)
      (simp add: Role_with_conditions_def Role_with_actions_def Role_new_def allows_action_def matches_device_def
        ActionSet_contains_def all evaluate_role_abac_def PolicyConditions_default_def)
  have eval: "evaluate default_policy_engine (session_subject p) (session_resource p) DesktopView = merge_roles ?roles"
    by (rule evaluate_spec) (use admin in auto)
  have "allowed_actions ?admin = UNIV" by (simp add: Role_with_conditions_def Role_with_actions_def all)
  with admin have "(\<Union>r \<in> set ?roles. allowed_actions r) = ActionSet_all" by (auto simp: all)
  then have "granted_actions (merge_roles ?roles) = Some ActionSet_all" by (simp add: merge_roles_granted)
  then obtain restrictions names where "merge_roles ?roles = Allowed ActionSet_all restrictions names"
    by (cases "merge_roles ?roles") auto
  then show ?thesis by (simp add: eval)
qed

section \<open>Properties\<close>

text \<open>
  C32: a session request that the control plane grants is admitted by the host.  If the handler answers
  with an authorization, then for the whole validity of 120 seconds after the request the agent of the
  target device, started with the control plane's public key, decodes the capability in the answer and
  accepts it as a session with the identifier in the answer.
\<close>

theorem granted_session_is_admitted:
  assumes "signature_correct (x_sign x) (x_verify x) (x_pub x)" "sig_length_64 (x_sign x)"
    and "\<forall>c. proto_decode (x_proto x c) = Some c"
    and "request_session_handler x sink fg fs fa now uuid nonce p st = (st', Ok resp)"
    and "valid_id (sq_subject_user_id p)" "valid_id (sq_client_device_id p)" "valid_id (sq_target_device_id p)"
    and "ap_control_plane_id st \<noteq> []" "length (ap_control_plane_id st) \<le> 128" "length nonce = 16"
    and "unat (as_secs now) + 120 < 2 ^ 64" "as_secs now \<le> as_secs later" "as_secs later \<le> as_secs now + 120"
  shows "\<exists>c m s. proto_decode (sa_capability_bytes resp) = Some c
    \<and> verify_and_accept_session (x_proto x) (x_verify x)
        (AgentSessionManager_new (x_pub x (ap_signing_key st)) (id_as_str (sq_target_device_id p))) c 1 later t = (m, Ok s)
    \<and> hs_session_id s = sa_session_id resp"
proof -
  obtain g where g: "DesktopView \<in> g" and sid: "Id_new (''sess-'' @ uuid_simple uuid) = Ok (sa_session_id resp)"
    and bytes: "sa_capability_bytes resp = x_proto x (sign_capability x (ap_signing_key st)
       (unsigned_capability st p (sa_session_id resp) (map Action_as_str (ActionSet_iter g)) now nonce))"
    by (rule request_session_Ok [OF assms(4)])
  define c0 where "c0 = unsigned_capability st p (sa_session_id resp) (map Action_as_str (ActionSet_iter g)) now nonce"
  have vid: "valid_id (sa_session_id resp)" using Id_new_as_str [OF sid] by (auto simp: valid_id_def)
  let ?c = "sign_capability x (ap_signing_key st) c0"
  have signing: "SessionCapability_signing_bytes (x_proto x) ?c = x_proto x c0" "cap_session_id ?c = id_as_str (sa_session_id resp)"
    by (simp_all add: sign_capability_def SessionCapability_signing_bytes_def c0_def unsigned_capability_def)
  have "cap_admissible (Some (id_as_str (sq_target_device_id p))) ?c 1 later"
    using unsigned_capability_admissible [OF assms(5-7) vid assms(8-10) g assms(11-13)]
    by (simp add: sign_capability_def c0_def)
  moreover have "Id_new (cap_session_id ?c) = Ok (sa_session_id resp)" using vid by (simp add: signing valid_id_def)
  moreover have "sig_accepted (x_verify x) (x_pub x (ap_signing_key st)) (SessionCapability_signing_bytes (x_proto x) ?c) (cap_signature ?c)"
    using assms(1,2) by (simp add: signing(1) sig_accepted_def) (simp add: sign_capability_def signature_correct_def sig_length_64_def)
  ultimately show ?thesis
    using new_agent_accepts [of "id_as_str (sq_target_device_id p)" ?c 1 later] assms(3) by (simp add: bytes c0_def)
qed

text \<open>
  C33: the two endpoints of a granted session meet.  Take the relay named in the answer, with the control
  plane's public key, in any state it can reach, in which the session and the two connections are new.
  Whatever other connections do in between, whichever tokens of other sessions they present and however they
  fail, a client and a host that present the tokens of the answer before these expire end in a state in which
  the relay forwards between the two, in every schedule in which nothing fails on the two connections and the
  token of the one that comes second is read after the first one has entered the map of waiting peers, which
  it has done when it receives its answer.  It does not matter which of them is first.  (When the second token
  is read earlier, the endpoints can miss each other: \<open>relay_pairing_race\<close>.)
\<close>

theorem granted_endpoints_meet:
  assumes "signature_correct (x_sign x) (x_verify x) (x_pub x)" "sig_length_64 (x_sign x)"
    and "request_session_handler x sink fg fs fa now uuid nonce p st = (st', Ok resp)"
    and "rv = \<lparr>rv_key = x_pub x (ap_signing_key st), rv_relay_id = sa_relay_id resp\<rparr>"
    and "n1 < sa_expires_at resp" "n2 < sa_expires_at resp"
    and "relay_reachable (x_verify x) rv s" "sv_tasks s cc = None" "sv_tasks s hc = None" "cc \<noteq> hc"
    and "get_session (sv_table s) (sa_session_id resp) = None"
    and "\<forall>c t. conn_token s c = Some t \<longrightarrow> rt_session_id t \<noteq> sa_session_id resp"
  shows "(meeting_schedule cc (sa_client_relay_token resp) n1 hc (sa_host_relay_token resp) n2 es \<longrightarrow>
      (\<exists>a. sv_tasks (relay_exec (x_verify x) rv es s) cc = Some (T_Bridging (sa_client_relay_token resp) a cc hc)))
    \<and> (meeting_schedule hc (sa_host_relay_token resp) n1 cc (sa_client_relay_token resp) n2 es \<longrightarrow>
      (\<exists>a. sv_tasks (relay_exec (x_verify x) rv es s) hc = Some (T_Bridging (sa_host_relay_token resp) a cc hc)))"
proof -
  obtain tokens: "sa_relay_id resp = ap_default_relay_id st"
    "sa_client_relay_token resp = session_token x st p (sa_session_id resp) (sa_expires_at resp) Role_Client"
    "sa_host_relay_token resp = session_token x st p (sa_session_id resp) (sa_expires_at resp) Role_Host"
    by (rule request_session_Ok [OF assms(3)])
  let ?t = "session_token x st p (sa_session_id resp) (sa_expires_at resp)"
  have sel: "rt_session_id (?t r) = sa_session_id resp" "rt_client_device_id (?t r) = sq_client_device_id p"
      "rt_target_device_id (?t r) = sq_target_device_id p" "rt_role (?t r) = r" "rt_expires_at (?t r) = sa_expires_at resp"
      "rt_relay_id (?t r) = ap_default_relay_id st" for r
    by (simp_all add: session_token_def RelayToken_sign_def)
  have ok: "RelayTokenVerifier_verify (x_verify x) rv (?t r) n = Ok ()" if "n < sa_expires_at resp" for r n
    using that assms(1,2,4) tokens(1)
    by (simp add: RelayTokenVerifier_verify_iff RelayToken_authentic_def sel)
      (simp add: session_token_def RelayToken_sign_def sig_accepted_def signature_correct_def sig_length_64_def RelayToken_signing_bytes_def)
  have "matching_tokens (x_verify x) rv (?t r) n1 (?t (peer r)) n2" for r
    using ok assms(5,6) by (simp add: matching_tokens_def sel)
  note meet = endpoints_meet [OF assms(7) this]
  show ?thesis
    using meet [of cc hc Role_Client es] meet [of hc cc Role_Host es] assms(8-12) by (auto simp: sel tokens(2,3))
qed

text \<open>
  The control plane grants everything to everyone.  With the roles that \<open>AppState::new\<close> installs,
  the policy allows every session request for an active device, whoever asks and whichever actions are
  requested, and grants all actions.
\<close>

theorem session_request_grants_everything:
  "\<exists>restrictions roles. evaluate (ap_policy_engine (AppState_new key cp_id db k)) (session_subject p) (session_resource p) DesktopView
     = Allowed ActionSet_all restrictions roles"
  using default_policy_allows [of p] by (simp add: AppState_new_def)

section \<open>Examples\<close>

definition session_db :: Database where
  "session_db = Database_empty
     \<lparr>organizations := [(''org'', 0)],
      devices := [(''dev'', \<lparr>dr_organization_id = ''org'', dr_hostname = ''pc'', dr_os = ''windows'', dr_os_version = [],
        dr_architecture = ''x86_64'', dr_agent_version = ''1'', dr_public_key = replicate 32 9, dr_status = ''active'',
        dr_capabilities_json = ''caps'', dr_created_at = 5\<rparr>)],
      device_credentials := [(''dev'', \<lparr>cr_organization_id = ''org'', cr_credential_json = ''cred'', cr_issued_at = 10,
        cr_expires_at = 20, cr_public_key = replicate 32 9\<rparr>)]\<rparr>"

definition example_payload :: SessionRequestPayload where
  "example_payload =
     \<lparr>sq_organization_id = Id ''org'', sq_subject_user_id = Id ''u'', sq_client_device_id = Id ''c'',
      sq_target_device_id = Id ''dev'', sq_requested_actions = [], sq_client_ephemeral_public_key = []\<rparr>"

abbreviation session_app :: "(unit, unit) AppState" where
  "session_app \<equiv> AppState_new [] ''cp'' session_db ()"

lemma hex_digit_printable: "d < 16 \<Longrightarrow> printable_ascii (hex_digit d)"
  by (auto simp: hex_digit_def printable_ascii_def char_code_def of_char_of)

lemma session_id_ok:
  assumes "length uuid = 16"
  shows "Id_new (''sess-'' @ uuid_simple uuid) = Ok (Id (''sess-'' @ uuid_simple uuid))"
proof -
  have "length (uuid_simple bs) = 2 * length bs" for bs
    by (induction bs) (simp_all add: uuid_simple_def hex_byte_def)
  moreover have "\<forall>c \<in> set (uuid_simple bs). printable_ascii c" for bs
  proof (induction bs)
    case (Cons b bs)
    have "unat b < 2 ^ LENGTH(8)" by (rule unsigned_less)
    then have "unat b div 16 < 16" by (simp add: less_mult_imp_div_less)
    then show ?case using Cons by (auto simp: uuid_simple_def hex_byte_def intro: hex_digit_printable)
  qed (simp add: uuid_simple_def)
  ultimately show ?thesis
    using assms by (auto simp: Id_new_Ok printable_ascii_def eval_simps)
qed

lemma example_ids:
  "Id_new ''dev'' = Ok (Id ''dev'')" "Id_new ''org'' = Ok (Id ''org'')" "Id_new ''u'' = Ok (Id ''u'')" "Id_new ''c'' = Ok (Id ''c'')"
  by (simp_all add: Id_new_Ok printable_ascii_def eval_simps)

lemma example_session:
  "\<exists>st' resp. request_session_handler (example_externals\<lparr>x_proto := enc\<rparr>) example_sink {} {} {} (from_secs 10) (replicate 16 0) (replicate 16 7)
     example_payload session_app = (st', Ok resp)"
proof -
  obtain r m where ev: "evaluate default_policy_engine (session_subject example_payload) (session_resource example_payload) DesktopView
      = Allowed ActionSet_all r m"
    using default_policy_allows by blast
  have dev: "get_device (x_serde example_externals) {} (Id ''dev'') session_db = Ok (Some \<lparr>rd_credential = example_credential,
      rd_hostname = ''pc'', rd_agent_version = ''1'', rd_enrolled_at = from_secs 5, rd_is_active = True\<rparr>)"
    by (simp add: get_device_def session_db_def Database_empty_def hm_get_def device_from_row_def corrupt_id_def example_externals_def
        example_serde_def example_credential_def u64_try_from_def example_ids)
  have "\<exists>st' resp. authorize_session (example_externals\<lparr>x_proto := enc\<rparr>) example_sink {} {} (from_secs 10) (replicate 16 0) (replicate 16 7)
     example_payload ActionSet_all session_app = (st', Ok resp)"
    unfolding authorize_session_def session_id_ok [OF length_replicate]
    by (simp add: Let_def session_relay_token_def RelayTokenBuilder_build_def rtb_setters RelayToken_builder_def AppState_new_def
        res_simps app_persist_session_def insert_authorized_session_def insert_session_body_def example_payload_def session_db_def
        audit_if_built_def authorize_event_def AuditEventBuilder_build_def AuditEventBuilder_new_def aeb_setters
        audit_eval)
  moreover have "sq_target_device_id example_payload = Id ''dev''" "ap_storage session_app = session_db"
      "ap_policy_engine session_app = default_policy_engine"
    by (simp_all add: example_payload_def AppState_new_def)
  ultimately show ?thesis by (simp add: request_session_handler_def ev dev)
qed

text \<open>An encoding of the capabilities that can be inverted: a number, as a string of zeros of that length.\<close>

definition string_code :: "string \<Rightarrow> nat list" where
  "string_code s = map of_char s"

definition string_of_code :: "nat list \<Rightarrow> string" where
  "string_of_code ns = map char_of ns"

definition example_encode :: "SessionCapability \<Rightarrow> bytes" where
  "example_encode c = replicate (to_nat
     (unat (cap_version c), string_code (cap_issuer c), string_code (cap_session_id c), string_code (cap_subject_user_id c),
      string_code (cap_client_device_id c), string_code (cap_target_device_id c), map string_code (cap_permissions c),
      map unat (cap_restrictions c), unat (cap_not_before c), unat (cap_expires_at c), map unat (cap_nonce c),
      unat (cap_agent_min_protocol c), unat (cap_agent_max_protocol c), map unat (cap_client_ephemeral_public_key c),
      map unat (cap_signature c))) 0"

definition example_decode :: "bytes \<Rightarrow> SessionCapability option" where
  "example_decode b =
     (case from_nat (length b) of (ver, issuer, sid, user, client, target, perms, restr, nb, ex, nonce, lo, hi, eph, sig) \<Rightarrow>
        Some \<lparr>cap_version = of_nat ver, cap_issuer = string_of_code issuer, cap_session_id = string_of_code sid,
              cap_subject_user_id = string_of_code user, cap_client_device_id = string_of_code client,
              cap_target_device_id = string_of_code target, cap_permissions = map string_of_code perms,
              cap_restrictions = map of_nat restr, cap_not_before = of_nat nb, cap_expires_at = of_nat ex,
              cap_nonce = map of_nat nonce, cap_agent_min_protocol = of_nat lo, cap_agent_max_protocol = of_nat hi,
              cap_client_ephemeral_public_key = map of_nat eph, cap_signature = map of_nat sig\<rparr>)"

lemma example_decode_encode: "example_decode (example_encode c) = Some c"
proof -
  have "map (of_nat \<circ> unat) ws = ws" for ws :: bytes by (induction ws) simp_all
  moreover have str: "string_of_code (string_code s) = s" for s by (induction s) (simp_all add: string_of_code_def string_code_def)
  moreover have "map (string_of_code \<circ> string_code) ss = ss" for ss by (induction ss) (simp_all add: str)
  ultimately show ?thesis by (simp add: example_decode_def example_encode_def)
qed

lemma example_crypto:
  "signature_correct (x_sign (example_externals\<lparr>x_proto := enc\<rparr>)) (x_verify (example_externals\<lparr>x_proto := enc\<rparr>))
     (x_pub (example_externals\<lparr>x_proto := enc\<rparr>))"
  "sig_length_64 (x_sign (example_externals\<lparr>x_proto := enc\<rparr>))"
  by (simp_all add: example_externals_def signature_correct_def sig_length_64_def)

text \<open>A third connection with a token of another session comes and goes between the steps of the two.\<close>

definition busy_schedule :: "RelayToken \<Rightarrow> RelayToken \<Rightarrow> event list" where
  "busy_schedule t1 t2 =
     [Accept 1, Accept 3, Accept 2, Token 1 t1 (from_secs 20), Token 3 (example_relay_token Role_Client) (from_secs 21),
      List_Waiting 1, Token 2 t2 (from_secs 30), List_Waiting 3, Respond 1 True, List_Waiting 2, Conn_Closed 3,
      Respond 2 True, Notify 2, Clear_Entry 3, Receive 1]"

theorem granted_endpoints_meet_witness:
  "\<exists>st' resp a.
     request_session_handler (example_externals\<lparr>x_proto := example_encode\<rparr>) example_sink {} {} {} (from_secs 10) (replicate 16 0) (replicate 16 7)
       example_payload session_app = (st', Ok resp)
     \<and> sv_tasks (relay_exec (x_verify example_externals) \<lparr>rv_key = [], rv_relay_id = sa_relay_id resp\<rparr>
         (busy_schedule (sa_client_relay_token resp) (sa_host_relay_token resp)) RelayServer_new) 1
       = Some (T_Bridging (sa_client_relay_token resp) a 1 2)"
proof -
  obtain st' resp where r: "request_session_handler (example_externals\<lparr>x_proto := example_encode\<rparr>) example_sink {} {} {} (from_secs 10) (replicate 16 0)
      (replicate 16 7) example_payload session_app = (st', Ok resp)"
    using example_session [of example_encode] by blast
  obtain e: "Id_new (''sess-'' @ uuid_simple (replicate 16 0)) = Ok (sa_session_id resp)"
      "sa_expires_at resp = from_secs (as_secs (from_secs 10) + session_ttl_secs)"
      "sa_client_relay_token resp = session_token (example_externals\<lparr>x_proto := example_encode\<rparr>) session_app example_payload
        (sa_session_id resp) (sa_expires_at resp) Role_Client"
    by (rule request_session_Ok [OF r])
  have "from_secs 20 < sa_expires_at resp" "from_secs 30 < sa_expires_at resp"
    by (simp_all add: e from_secs_def session_ttl_secs_def less_UnixTimestamp_def)
  moreover have "rt_session_id (example_relay_token Role_Client) \<noteq> sa_session_id resp"
    using Id_new_eq [OF e(1)] by (simp add: example_relay_token_def)
  then have "meeting_schedule 1 (sa_client_relay_token resp) (from_secs 20) 2 (sa_host_relay_token resp) (from_secs 30)
      (busy_schedule (sa_client_relay_token resp) (sa_host_relay_token resp))"
    by (simp add: meeting_schedule_def busy_schedule_def first_events_def second_events_def e(3))
      (simp add: session_token_def RelayToken_sign_def)
  moreover have "relay_reachable v rv RelayServer_new" for v rv by (rule relay_reachable.start)
  ultimately show ?thesis
    using granted_endpoints_meet [OF example_crypto r refl, of "from_secs 20" "from_secs 30" RelayServer_new 1 2] r
    by (auto simp: RelayServer_new_def RelaySessionTable_new_def get_session_def hm_get_def example_externals_def AppState_new_def
        conn_token_def)
qed

theorem granted_session_is_admitted_witness:
  "\<exists>st' resp c m s.
     request_session_handler (example_externals\<lparr>x_proto := example_encode\<rparr>) example_sink {} {} {} (from_secs 10) (replicate 16 0)
       (replicate 16 7) example_payload session_app = (st', Ok resp)
     \<and> example_decode (sa_capability_bytes resp) = Some c
     \<and> verify_and_accept_session example_encode (\<lambda>_ _ _. Some True) (AgentSessionManager_new [] ''dev'') c 1 (from_secs 130) 0 = (m, Ok s)
     \<and> hs_session_id s = sa_session_id resp"
proof -
  obtain st' resp where r: "request_session_handler (example_externals\<lparr>x_proto := example_encode\<rparr>) example_sink {} {} {} (from_secs 10)
      (replicate 16 0) (replicate 16 7) example_payload session_app = (st', Ok resp)"
    using example_session [of example_encode] by blast
  have "\<forall>c. example_decode (x_proto (example_externals\<lparr>x_proto := example_encode\<rparr>) c) = Some c"
    by (simp add: example_decode_encode)
  from granted_session_is_admitted [OF example_crypto this r, of "from_secs 130" 0] r show ?thesis
    by (auto simp: valid_id_def example_payload_def example_ids AppState_new_def from_secs_def example_externals_def)
qed

end
