(* ===== verification/Signed_Documents.thy ===== *)
theory Signed_Documents
  imports End_To_End
begin

text \<open>
  The control plane has one signing key, and with it signs device credentials, session capabilities and relay
  tokens; enrollment tokens are signed with the same key by its operator.  This theory follows what the
  handlers sign over any sequence of requests, and shows that a document of one kind cannot be passed off as one
  of another kind, nor altered: what a device, an agent or a relay accepts goes back to a request.
\<close>

section \<open>What is signed\<close>

datatype signed_doc =
    Doc_Token EnrollmentToken
  | Doc_Credential DeviceCredential
  | Doc_Capability SessionCapability
  | Doc_Relay RelayToken

text \<open>The bytes under the signature; \<open>None\<close> when the encoder reports an error and nothing is signed.\<close>

fun doc_bytes :: "'j externals \<Rightarrow> signed_doc \<Rightarrow> bytes option" where
  "doc_bytes x (Doc_Token t) = x_enrollment_json x (EnrollmentToken_payload t)"
| "doc_bytes x (Doc_Credential c) = x_credential_json x (DeviceCredential_payload c)"
| "doc_bytes x (Doc_Capability c) = Some (SessionCapability_signing_bytes (x_proto x) c)"
| "doc_bytes x (Doc_Relay t) = Some (RelayToken_signing_bytes t)"

text \<open>The documents that a request makes the control plane sign, whether or not its answer carries them.\<close>

definition relay_docs :: "'j externals \<Rightarrow> ('j, 'k) AppState \<Rightarrow> SessionRequestPayload \<Rightarrow> Id \<Rightarrow> UnixTimestamp \<Rightarrow> signed_doc list" where
  "relay_docs x st p sid expires =
     (case session_relay_token x st p sid expires Role_Client of
        Err _ \<Rightarrow> []
      | Ok t \<Rightarrow> Doc_Relay t #
          (case session_relay_token x st p sid expires Role_Host of Err _ \<Rightarrow> [] | Ok t' \<Rightarrow> [Doc_Relay t']))"

fun cp_signs :: "'j externals \<Rightarrow> ('j, 'k) AppState \<Rightarrow> cp_request \<Rightarrow> signed_doc list" where
  "cp_signs x st (CP_StoreToken f token) = []"
| "cp_signs x st (CP_Enroll f fa now req) =
     (case (EnrollmentToken_verify (x_enrollment_json x) (x_verify x) (x_pub x (ap_signing_key st)) (rr_enrollment_token req) now,
            verify_proof (x_verify x) req, device_id_string (rr_enrollment_token req)) of
        (Ok _, Ok _, Returns s) \<Rightarrow>
          (case Id_new s of Ok i \<Rightarrow> [Doc_Credential (unsigned_credential i req now)] | Err _ \<Rightarrow> [])
      | _ \<Rightarrow> [])"
| "cp_signs x st (CP_RequestSession fg fs fa now uuid nonce p) =
     (case (get_device (x_serde x) fg (sq_target_device_id p) (ap_storage st),
            evaluate (ap_policy_engine st) (session_subject p) (session_resource p) DesktopView,
            Id_new (''sess-'' @ uuid_simple uuid)) of
        (Ok (Some device), Allowed actions _ _, Ok sid) \<Rightarrow>
          if rd_is_active device
          then Doc_Capability (unsigned_capability st p sid (map Action_as_str (ActionSet_iter actions)) now nonce)
               # relay_docs x st p sid (from_secs (as_secs now + session_ttl_secs))
          else []
      | _ \<Rightarrow> [])"

text \<open>
  These are all signatures the handlers make: with any other signing function that agrees on them, and under
  the key of the state only, a request has the same effect and the same answer.
\<close>

lemma session_relay_token_sign:
  assumes "\<And>t. session_relay_token x st p sid expires role = Ok t \<Longrightarrow>
      s' (ap_signing_key st) (RelayToken_signing_bytes t) = x_sign x (ap_signing_key st) (RelayToken_signing_bytes t)"
  shows "session_relay_token (x\<lparr>x_sign := s'\<rparr>) st p sid expires role = session_relay_token x st p sid expires role"
  using assms
  by (cases "RelayTokenBuilder_build (rtb_set_expires_at expires (rtb_set_role role (rtb_set_target_device_id (sq_target_device_id p)
      (rtb_set_client_device_id (sq_client_device_id p) (rtb_set_relay_id (ap_default_relay_id st)
      (rtb_set_session_id sid RelayToken_builder))))))")
    (auto simp: session_relay_token_def RelayToken_sign_def)

lemma record_audit_sign [simp]: "record_audit (x\<lparr>x_sign := s'\<rparr>) = record_audit x"
  by (intro ext) (simp add: record_audit_def audit_append_def audit_store_def split: prod.split result.split)

lemma audit_sign [simp]:
  "audit_if_built (x\<lparr>x_sign := s'\<rparr>) sink f b st = audit_if_built x sink f b st"
  "enrollment_event (x\<lparr>x_sign := s'\<rparr>) i req now = enrollment_event x i req now"
  "authorize_event (x\<lparr>x_sign := s'\<rparr>) st p sid now = authorize_event x st p sid now"
  "deny_event (x\<lparr>x_sign := s'\<rparr>) reason p now = deny_event x reason p now"
  "app_enroll_device (x\<lparr>x_sign := s'\<rparr>) f tid now d st = app_enroll_device x f tid now d st"
  "app_persist_session (x\<lparr>x_sign := s'\<rparr>) f r st = app_persist_session x f r st"
  "app_store_enrollment_token (x\<lparr>x_sign := s'\<rparr>) f t st = app_store_enrollment_token x f t st"
  by (simp_all add: audit_if_built_def enrollment_event_def
      authorize_event_def deny_event_def app_enroll_device_def app_persist_session_def app_store_enrollment_token_def
      split: result.split)

lemma issue_credential_sign:
  assumes "\<And>b. x_credential_json x (DeviceCredential_payload (unsigned_credential i req now)) = Some b \<Longrightarrow> s' seed b = x_sign x seed b"
  shows "issue_credential (x\<lparr>x_sign := s'\<rparr>) seed i req now = issue_credential x seed i req now"
  using assms
  by (cases "x_credential_json x (DeviceCredential_payload (unsigned_credential i req now))")
    (simp_all add: issue_credential_eq DeviceCredential_sign_def DeviceCredential_signing_bytes_def)

lemma cp_signs_complete:
  assumes "\<And>d b. \<lbrakk>d \<in> set (cp_signs x st q); doc_bytes x d = Some b\<rbrakk> \<Longrightarrow> s' (ap_signing_key st) b = x_sign x (ap_signing_key st) b"
  shows "cp_step (x\<lparr>x_sign := s'\<rparr>) sink st q = cp_step x sink st q"
proof (cases q)
  case (CP_Enroll f fa now req)
  have "issue_credential (x\<lparr>x_sign := s'\<rparr>) (ap_signing_key st) i req now = issue_credential x (ap_signing_key st) i req now"
    if "Doc_Credential (unsigned_credential i req now) \<in> set (cp_signs x st q)" for i
    using assms [OF that] by (intro issue_credential_sign) simp
  then show ?thesis
    by (auto simp: CP_Enroll enroll_device_handler_def Let_def split: result.splits outcome.splits)
next
  case (CP_RequestSession fg fs fa now uuid nonce p)
  have granted: "authorize_session (x\<lparr>x_sign := s'\<rparr>) sink fs fa now uuid nonce p actions st =
      authorize_session x sink fs fa now uuid nonce p actions st"
    if at: "get_device (x_serde x) fg (sq_target_device_id p) (ap_storage st) = Ok (Some device)" "rd_is_active device"
      "evaluate (ap_policy_engine st) (session_subject p) (session_resource p) DesktopView = Allowed actions r m" for device actions r m
  proof (cases "Id_new (''sess-'' @ uuid_simple uuid)")
    case (Ok sid)
    let ?exp = "from_secs (as_secs now + session_ttl_secs)"
    let ?c = "unsigned_capability st p sid (map Action_as_str (ActionSet_iter actions)) now nonce"
    have signs: "cp_signs x st q = Doc_Capability ?c # relay_docs x st p sid ?exp"
      using at Ok by (simp add: CP_RequestSession)
    have "s' (ap_signing_key st) (x_proto x ?c) = x_sign x (ap_signing_key st) (x_proto x ?c)"
      using assms [of "Doc_Capability ?c"] signs by (simp add: SessionCapability_signing_bytes_def unsigned_capability_def)
    then have cap: "sign_capability (x\<lparr>x_sign := s'\<rparr>) (ap_signing_key st) ?c = sign_capability x (ap_signing_key st) ?c"
      by (simp add: sign_capability_def)
    have relay: "s' (ap_signing_key st) (RelayToken_signing_bytes t) = x_sign x (ap_signing_key st) (RelayToken_signing_bytes t)"
      if "Doc_Relay t \<in> set (relay_docs x st p sid ?exp)" for t
      using assms [of "Doc_Relay t"] signs that by simp
    have client: "session_relay_token (x\<lparr>x_sign := s'\<rparr>) st p sid ?exp Role_Client = session_relay_token x st p sid ?exp Role_Client"
      by (intro session_relay_token_sign relay) (simp add: relay_docs_def)
    have host: "session_relay_token (x\<lparr>x_sign := s'\<rparr>) st p sid ?exp Role_Host = session_relay_token x st p sid ?exp Role_Host"
      if "session_relay_token x st p sid ?exp Role_Client = Ok t" for t
      using that by (intro session_relay_token_sign relay) (simp add: relay_docs_def)
    show ?thesis
    proof (cases "session_relay_token x st p sid ?exp Role_Client")
      case client_ok: (Ok t)
      from host [OF this] client_ok show ?thesis
        unfolding authorize_session_def Ok by (simp add: Let_def cap client split: result.split prod.split)
    next
      case (Err e)
      then show ?thesis unfolding authorize_session_def Ok by (simp add: Let_def client)
    qed
  next
    case (Err e)
    show ?thesis unfolding authorize_session_def Err by simp
  qed
  then show ?thesis
    by (auto simp: CP_RequestSession request_session_handler_def split: result.splits option.splits EvaluationDecision.splits)
qed simp

section \<open>The log of a run\<close>

definition sign_step :: "'j externals \<Rightarrow> ('j, 'k) sink_fn \<Rightarrow> ('j, 'k) AppState \<Rightarrow> cp_request \<Rightarrow> ('j, 'k) AppState \<times> signed_doc list" where
  "sign_step x sink st q = (fst (cp_step x sink st q), cp_signs x st q)"

definition signed_log :: "'j externals \<Rightarrow> ('j, 'k) sink_fn \<Rightarrow> ('j, 'k) AppState \<Rightarrow> cp_request list \<Rightarrow> signed_doc list" where
  "signed_log x sink st qs = concat (snd (run_ops (sign_step x sink) st qs))"

text \<open>The configuration of the control plane, which no request changes.\<close>

definition same_config :: "('j, 'k) AppState \<Rightarrow> ('j, 'k) AppState \<Rightarrow> bool" where
  "same_config st st' \<longleftrightarrow> ap_signing_key st' = ap_signing_key st \<and> ap_control_plane_id st' = ap_control_plane_id st
     \<and> ap_default_relay_id st' = ap_default_relay_id st \<and> ap_policy_engine st' = ap_policy_engine st"

lemma cp_step_config: "same_config st0 st \<Longrightarrow> same_config st0 (fst (cp_step x sink st q))"
  by (rule cp_step_keeps)
    (auto simp: same_config_def app_store_enrollment_token_def app_enroll_device_def app_persist_session_def record_audit_def
      audit_append_def audit_store_def split_beta split: result.splits prod.splits)

lemma signed_log_origin:
  assumes "d \<in> set (signed_log x sink st qs)"
  obtains q st' where "q \<in> set qs" "same_config st st'" "d \<in> set (cp_signs x st' q)"
proof -
  have "\<exists>q \<in> set qs. \<exists>st'. same_config st0 st' \<and> d \<in> set (cp_signs x st' q)"
    if "same_config st0 st" "d \<in> set (signed_log x sink st qs)" for st0
    using that
  proof (induction qs arbitrary: st)
    case (Cons q qs)
    have "d \<in> set (cp_signs x st q) \<or> d \<in> set (signed_log x sink (fst (cp_step x sink st q)) qs)"
      using Cons.prems(2) by (auto simp: signed_log_def sign_step_def simp del: run_ops.simps(2))
    then show ?case using Cons.IH [OF cp_step_config [OF Cons.prems(1)]] Cons.prems(1) by auto
  qed (simp add: signed_log_def)
  moreover have "same_config st st" by (simp add: same_config_def)
  ultimately show ?thesis using assms that by blast
qed

text \<open>Where a document of each kind comes from.\<close>

lemma credential_signed:
  assumes "Doc_Credential c \<in> set (cp_signs x st q)"
  obtains f fa at req s i where "q = CP_Enroll f fa at req" "c = unsigned_credential i req at"
    "EnrollmentToken_verify (x_enrollment_json x) (x_verify x) (x_pub x (ap_signing_key st)) (rr_enrollment_token req) at = Ok ()"
    "verify_proof (x_verify x) req = Ok ()" "device_id_string (rr_enrollment_token req) = Returns s" "Id_new s = Ok i"
proof (cases q)
  case (CP_Enroll f fa at req)
  with assms show ?thesis
    by (cases "EnrollmentToken_verify (x_enrollment_json x) (x_verify x) (x_pub x (ap_signing_key st)) (rr_enrollment_token req) at";
        cases "verify_proof (x_verify x) req"; cases "device_id_string (rr_enrollment_token req)")
      (auto intro: that split: result.splits)
qed (use assms in \<open>auto simp: relay_docs_def split: result.splits option.splits EvaluationDecision.splits if_splits\<close>)

definition granted_session ::
  "('j, 'k) AppState \<Rightarrow> bytes \<Rightarrow> SessionRequestPayload \<Rightarrow> Id \<Rightarrow> ActionSet \<Rightarrow> bool" where
  "granted_session st uuid p sid actions \<longleftrightarrow>
     Id_new (''sess-'' @ uuid_simple uuid) = Ok sid
     \<and> (\<exists>r m. evaluate (ap_policy_engine st) (session_subject p) (session_resource p) DesktopView = Allowed actions r m)"

lemma session_signed:
  assumes "d \<in> set (cp_signs x st q)" "d = Doc_Capability c \<or> d = Doc_Relay t"
  obtains fg fs fa at uuid nonce p sid actions where "q = CP_RequestSession fg fs fa at uuid nonce p"
    "granted_session st uuid p sid actions"
    "d = Doc_Capability (unsigned_capability st p sid (map Action_as_str (ActionSet_iter actions)) at nonce)
     \<or> d \<in> set (relay_docs x st p sid (from_secs (as_secs at + session_ttl_secs)))"
proof (cases q)
  case (CP_RequestSession fg fs fa at uuid nonce p)
  with assms show ?thesis
    by (cases "get_device (x_serde x) fg (sq_target_device_id p) (ap_storage st)";
        cases "evaluate (ap_policy_engine st) (session_subject p) (session_resource p) DesktopView";
        cases "Id_new (''sess-'' @ uuid_simple uuid)")
      (auto simp: granted_session_def intro: that [OF CP_RequestSession] split: option.splits if_splits)
next
  case (CP_Enroll f fa at req)
  with assms show ?thesis by (auto split: result.splits outcome.splits)
qed (use assms in simp)

lemma relay_docs_token:
  assumes "Doc_Relay t \<in> set (relay_docs x st p sid expires)"
  shows "\<exists>role. t = session_token x st p sid expires role" "length (ap_default_relay_id st) \<le> 65535"
proof -
  obtain role where role: "session_relay_token x st p sid expires role = Ok t"
    using assms by (auto simp: relay_docs_def split: result.splits)
  from session_relay_token_Ok [OF this] show "\<exists>role. t = session_token x st p sid expires role" by blast
  show "length (ap_default_relay_id st) \<le> 65535"
    using role by (auto simp: session_relay_token_def RelayTokenBuilder_build_def rtb_setters RelayToken_builder_def
        res_simps split: if_splits)
qed

section \<open>Kinds\<close>

text \<open>
  What the encoders promise.  \<open>serde_json\<close> writes a struct as an object with its fields in the order of their
  declaration, and different values differently; Protobuf writes the fields in the order of their numbers, a
  field of number 1 and integer type as the byte 8 and the value, and different messages differently.
\<close>

definition wire_formats :: "'j externals \<Rightarrow> bool" where
  "wire_formats x \<longleftrightarrow>
     encoding_injective (x_enrollment_json x) \<and> encoding_injective (x_credential_json x) \<and> inj (x_proto x)
     \<and> (\<forall>p b. x_enrollment_json x p = Some b \<longrightarrow> (\<exists>r. b = as_bytes ''{\"token_id\":'' @ r))
     \<and> (\<forall>p b. x_credential_json x p = Some b \<longrightarrow> (\<exists>r. b = as_bytes ''{\"device_id\":'' @ r))
     \<and> (\<forall>c. cap_version c = 1 \<longrightarrow> (\<exists>r. x_proto x c = [0x08, 0x01] @ r))"

fun doc_kind :: "signed_doc \<Rightarrow> nat" where
  "doc_kind (Doc_Capability c) = 0"
| "doc_kind (Doc_Relay t) = 1"
| "doc_kind (Doc_Token t) = 2"
| "doc_kind (Doc_Credential c) = 3"

definition kind_of_bytes :: "bytes \<Rightarrow> nat" where
  "kind_of_bytes b = (if b ! 0 = 0x08 then 0 else if b ! 0 = 0x6E then 1 else if b ! 2 = 0x74 then 2 else 3)"

definition current_version :: "signed_doc \<Rightarrow> bool" where
  "current_version d \<longleftrightarrow> (\<forall>c. d = Doc_Capability c \<longrightarrow> cap_version c = 1)"

lemma doc_bytes_kind:
  assumes "wire_formats x" "doc_bytes x d = Some b" "current_version d"
  shows "kind_of_bytes b = doc_kind d"
proof (cases d)
  case (Doc_Token t)
  then obtain r where "b = as_bytes ''{\"token_id\":'' @ r" using assms by (auto simp: wire_formats_def)
  then show ?thesis by (simp add: Doc_Token kind_of_bytes_def as_bytes_def)
next
  case (Doc_Credential c)
  then have "x_credential_json x (DeviceCredential_payload c) = Some b" using assms(2) by simp
  with assms(1) obtain r where "b = as_bytes ''{\"device_id\":'' @ r" unfolding wire_formats_def by blast
  then show ?thesis by (simp add: Doc_Credential kind_of_bytes_def as_bytes_def)
next
  case (Doc_Capability c)
  have "cap_version (c\<lparr>cap_signature := []\<rparr>) = 1" using assms(3) Doc_Capability by (simp add: current_version_def)
  with assms(1) obtain r where "x_proto x (c\<lparr>cap_signature := []\<rparr>) = [0x08, 0x01] @ r" unfolding wire_formats_def by blast
  moreover have "b = x_proto x (c\<lparr>cap_signature := []\<rparr>)"
    using assms(2) by (simp add: Doc_Capability SessionCapability_signing_bytes_def)
  ultimately show ?thesis by (simp add: Doc_Capability kind_of_bytes_def)
next
  case (Doc_Relay t)
  then show ?thesis using assms(2) by (auto simp: kind_of_bytes_def RelayToken_signing_bytes_def as_bytes_def)
qed

lemma log_current_version:
  assumes "d \<in> set (signed_log x sink st qs) \<union> Doc_Token ` tokens"
  shows "current_version d"
proof (cases d)
  case (Doc_Capability c)
  with assms have "d \<in> set (signed_log x sink st qs)" by auto
  then obtain q st' where "q \<in> set qs" "same_config st st'" "d \<in> set (cp_signs x st' q)" by (rule signed_log_origin)
  from this(3) disjI1 [OF Doc_Capability] obtain fg fs fa at uuid nonce p sid actions where
    "q = CP_RequestSession fg fs fa at uuid nonce p" "granted_session st' uuid p sid actions"
    "d = Doc_Capability (unsigned_capability st' p sid (map Action_as_str (ActionSet_iter actions)) at nonce)
     \<or> d \<in> set (relay_docs x st' p sid (from_secs (as_secs at + session_ttl_secs)))"
    by (rule session_signed)
  then show ?thesis
    by (auto simp: Doc_Capability current_version_def unsigned_capability_def relay_docs_def split: result.splits)
qed (simp_all add: current_version_def)

text \<open>The key accepts a signature only on something that was signed.\<close>

definition unforgeable :: "'j externals \<Rightarrow> bytes \<Rightarrow> signed_doc set \<Rightarrow> bool" where
  "unforgeable x key docs \<longleftrightarrow>
     (\<forall>payload sig. x_verify x key payload sig = Some True \<longrightarrow> (\<exists>d \<in> docs. doc_bytes x d = Some payload))"

text \<open>A document whose signature is accepted has the bytes of a signed document of its own kind.\<close>

lemma accepted_origin:
  assumes "wire_formats x" "unforgeable x key (set (signed_log x sink st qs) \<union> Doc_Token ` tokens)"
    and "doc_bytes x d = Some b" "sig_accepted (x_verify x) key b sig" "current_version d"
  obtains d0 where "d0 \<in> set (signed_log x sink st qs) \<union> Doc_Token ` tokens" "doc_bytes x d0 = Some b" "doc_kind d0 = doc_kind d"
proof -
  from assms(2,4) obtain d0 where d0: "d0 \<in> set (signed_log x sink st qs) \<union> Doc_Token ` tokens" "doc_bytes x d0 = Some b"
    unfolding unforgeable_def sig_accepted_def by blast
  have "doc_kind d0 = doc_kind d"
    using doc_bytes_kind [OF assms(1) d0(2) log_current_version [OF d0(1)]] doc_bytes_kind [OF assms(1,3,5)] by simp
  with d0 show ?thesis by (rule that)
qed

lemma doc_kind_cases:
  "doc_kind d = 0 \<longleftrightarrow> (\<exists>c. d = Doc_Capability c)" "doc_kind d = Suc 0 \<longleftrightarrow> (\<exists>t. d = Doc_Relay t)"
  "doc_kind d = 2 \<longleftrightarrow> (\<exists>t. d = Doc_Token t)" "doc_kind d = 3 \<longleftrightarrow> (\<exists>c. d = Doc_Credential c)"
  by (cases d; simp)+

section \<open>What an accepted document says\<close>

lemma no_token_logged: "Doc_Token t \<notin> set (signed_log x sink st qs)"
proof
  assume "Doc_Token t \<in> set (signed_log x sink st qs)"
  then obtain q st' where "q \<in> set qs" "same_config st st'" "Doc_Token t \<in> set (cp_signs x st' q)" by (rule signed_log_origin)
  from this(3) show False
    by (cases q) (auto simp: relay_docs_def split: result.splits outcome.splits option.splits EvaluationDecision.splits if_splits)
qed

lemma same_config_functions:
  assumes "same_config st st'"
  shows "unsigned_capability st' = unsigned_capability st" "session_token x st' = session_token x st"
    "granted_session st' = granted_session st" "ap_default_relay_id st' = ap_default_relay_id st"
    "ap_signing_key st' = ap_signing_key st"
  using assms by (auto simp: same_config_def fun_eq_iff unsigned_capability_def session_token_def granted_session_def)

text \<open>The documents of an accepted enrollment and of a granted session.\<close>

definition credential_of_enrollment ::
  "'j externals \<Rightarrow> bytes \<Rightarrow> cp_request list \<Rightarrow> DeviceCredential \<Rightarrow> bool" where
  "credential_of_enrollment x key qs c \<longleftrightarrow> (\<exists>f fa at req s i. CP_Enroll f fa at req \<in> set qs
     \<and> c\<lparr>dc_signature := []\<rparr> = unsigned_credential i req at
     \<and> EnrollmentToken_verify (x_enrollment_json x) (x_verify x) key (rr_enrollment_token req) at = Ok ()
     \<and> verify_proof (x_verify x) req = Ok ()
     \<and> device_id_string (rr_enrollment_token req) = Returns s \<and> Id_new s = Ok i)"

definition session_of_request ::
  "('j, 'k) AppState \<Rightarrow> cp_request list \<Rightarrow> SessionRequestPayload \<Rightarrow> Id \<Rightarrow> ActionSet \<Rightarrow> UnixTimestamp \<Rightarrow> bytes \<Rightarrow> bool" where
  "session_of_request st qs p sid actions at nonce \<longleftrightarrow>
     (\<exists>fg fs fa uuid. CP_RequestSession fg fs fa at uuid nonce p \<in> set qs \<and> granted_session st uuid p sid actions)"

lemma logged_credential:
  assumes "Doc_Credential c \<in> set (signed_log x sink st qs)"
  shows "credential_of_enrollment x (x_pub x (ap_signing_key st)) qs c"
proof -
  from assms obtain q st' where q: "q \<in> set qs" "same_config st st'" "Doc_Credential c \<in> set (cp_signs x st' q)"
    by (rule signed_log_origin)
  from q(3) obtain f fa at req s i where "q = CP_Enroll f fa at req" "c = unsigned_credential i req at"
    "EnrollmentToken_verify (x_enrollment_json x) (x_verify x) (x_pub x (ap_signing_key st')) (rr_enrollment_token req) at = Ok ()"
    "verify_proof (x_verify x) req = Ok ()" "device_id_string (rr_enrollment_token req) = Returns s" "Id_new s = Ok i"
    by (rule credential_signed)
  moreover have "(unsigned_credential i req at)\<lparr>dc_signature := []\<rparr> = unsigned_credential i req at"
    by (simp add: unsigned_credential_def)
  ultimately show ?thesis
    using q(1) same_config_functions(5) [OF q(2)] unfolding credential_of_enrollment_def by metis
qed

lemma logged_session:
  assumes "d \<in> set (signed_log x sink st qs)" "d = Doc_Capability c \<or> d = Doc_Relay t"
  obtains p sid actions at nonce st' where "session_of_request st qs p sid actions at nonce" "same_config st st'"
    "d = Doc_Capability (unsigned_capability st p sid (map Action_as_str (ActionSet_iter actions)) at nonce)
     \<or> d \<in> set (relay_docs x st' p sid (from_secs (as_secs at + session_ttl_secs)))"
proof -
  from assms(1) obtain q st' where q: "q \<in> set qs" "same_config st st'" "d \<in> set (cp_signs x st' q)"
    by (rule signed_log_origin)
  from q(3) assms(2) obtain fg fs fa at uuid nonce p sid actions where "q = CP_RequestSession fg fs fa at uuid nonce p"
    "granted_session st' uuid p sid actions"
    "d = Doc_Capability (unsigned_capability st' p sid (map Action_as_str (ActionSet_iter actions)) at nonce)
     \<or> d \<in> set (relay_docs x st' p sid (from_secs (as_secs at + session_ttl_secs)))"
    by (rule session_signed)
  with q(1,2) show ?thesis
    by (intro that [of p sid actions at nonce st']) (auto simp: session_of_request_def same_config_functions [OF q(2)])
qed

lemma logged_capability:
  assumes "Doc_Capability c \<in> set (signed_log x sink st qs)"
  shows "\<exists>p sid actions at nonce. session_of_request st qs p sid actions at nonce
    \<and> c = unsigned_capability st p sid (map Action_as_str (ActionSet_iter actions)) at nonce"
  using assms
proof (rule logged_session)
  fix p sid actions at nonce st'
  assume "session_of_request st qs p sid actions at nonce"
    and "Doc_Capability c = Doc_Capability (unsigned_capability st p sid (map Action_as_str (ActionSet_iter actions)) at nonce)
     \<or> Doc_Capability c \<in> set (relay_docs x st' p sid (from_secs (as_secs at + session_ttl_secs)))"
  moreover from this(2) have "c = unsigned_capability st p sid (map Action_as_str (ActionSet_iter actions)) at nonce"
    by (auto simp: relay_docs_def split: result.splits)
  ultimately show ?thesis by blast
qed simp

lemma logged_relay_token:
  assumes "Doc_Relay t \<in> set (signed_log x sink st qs)"
  shows "length (ap_default_relay_id st) \<le> 65535 \<and> (\<exists>p sid actions at nonce role. session_of_request st qs p sid actions at nonce
    \<and> t = session_token x st p sid (from_secs (as_secs at + session_ttl_secs)) role)"
  using assms
proof (rule logged_session)
  fix p sid actions at nonce st'
  assume *: "session_of_request st qs p sid actions at nonce" "same_config st st'"
    and "Doc_Relay t = Doc_Capability (unsigned_capability st p sid (map Action_as_str (ActionSet_iter actions)) at nonce)
     \<or> Doc_Relay t \<in> set (relay_docs x st' p sid (from_secs (as_secs at + session_ttl_secs)))"
  then have "Doc_Relay t \<in> set (relay_docs x st' p sid (from_secs (as_secs at + session_ttl_secs)))" by simp
  from relay_docs_token [OF this] have
    "\<exists>role. t = session_token x st p sid (from_secs (as_secs at + session_ttl_secs)) role" "length (ap_default_relay_id st) \<le> 65535"
    by (simp_all add: same_config_functions [OF *(2)])
  with *(1) show ?thesis by blast
qed simp

lemma session_token_fits:
  assumes "session_of_request st qs p sid actions at nonce" "length (ap_default_relay_id st) \<le> 65535"
    and "valid_id (sq_client_device_id p)" "valid_id (sq_target_device_id p)"
  shows "rt_fields_fit (session_token x st p sid expires role)"
proof -
  obtain s where "Id_new s = Ok sid" using assms(1) unfolding session_of_request_def granted_session_def by blast
  then have "valid_id sid" using Id_new_eq [of s sid] by (simp add: valid_id_def)
  from valid_id_length [OF this] valid_id_length [OF assms(3)] valid_id_length [OF assms(4)] assms(2) show ?thesis
    by (simp add: rt_fields_fit_def session_token_def RelayToken_sign_def)
qed

lemma accepted_token:
  assumes "wire_formats x" "unforgeable x key (set (signed_log x sink st qs) \<union> Doc_Token ` tokens)"
    and "EnrollmentToken_verify (x_enrollment_json x) (x_verify x) key t now = Ok ()"
  shows "\<exists>t0 \<in> tokens. t\<lparr>et_signature := []\<rparr> = t0\<lparr>et_signature := []\<rparr>"
proof -
  from assms(3) obtain b where b: "doc_bytes x (Doc_Token t) = Some b" "sig_accepted (x_verify x) key b (et_signature t)"
    by (auto simp: EnrollmentToken_verify_iff EnrollmentToken_authentic_def)
  then obtain d0 where d0: "d0 \<in> set (signed_log x sink st qs) \<union> Doc_Token ` tokens" "doc_bytes x d0 = Some b"
      "doc_kind d0 = doc_kind (Doc_Token t)"
    by (rule accepted_origin [OF assms(1,2)]) (simp_all add: current_version_def)
  then obtain t0 where t0: "d0 = Doc_Token t0" by (auto simp: doc_kind_cases)
  have "t0 \<in> tokens" using d0(1) by (auto simp: t0 no_token_logged)
  moreover have "EnrollmentToken_payload t = EnrollmentToken_payload t0"
    using assms(1) b(1) d0(2) by (auto simp: t0 wire_formats_def intro: encoding_injectiveD)
  ultimately show ?thesis by (auto simp: EnrollmentToken_payload_inject)
qed

lemma accepted_credential:
  assumes "wire_formats x" "unforgeable x key (set (signed_log x sink st qs) \<union> Doc_Token ` tokens)"
    and "DeviceCredential_verify (x_credential_json x) (x_verify x) key c now = Ok ()"
  shows "\<exists>c0. Doc_Credential c0 \<in> set (signed_log x sink st qs) \<and> c\<lparr>dc_signature := []\<rparr> = c0\<lparr>dc_signature := []\<rparr>"
proof -
  from assms(3) obtain b where b: "doc_bytes x (Doc_Credential c) = Some b" "sig_accepted (x_verify x) key b (dc_signature c)"
    by (auto simp: DeviceCredential_verify_iff DeviceCredential_authentic_def)
  then obtain d0 where d0: "d0 \<in> set (signed_log x sink st qs) \<union> Doc_Token ` tokens" "doc_bytes x d0 = Some b"
      "doc_kind d0 = doc_kind (Doc_Credential c)"
    by (rule accepted_origin [OF assms(1,2)]) (simp_all add: current_version_def)
  then obtain c0 where c0: "d0 = Doc_Credential c0" by (auto simp: doc_kind_cases)
  have "DeviceCredential_payload c = DeviceCredential_payload c0"
    using assms(1) b(1) d0(2) by (auto simp: c0 wire_formats_def intro: encoding_injectiveD)
  then show ?thesis using d0(1) by (auto simp: c0 DeviceCredential_payload_inject)
qed

lemma accepted_capability:
  assumes "wire_formats x" "unforgeable x (cv_control_plane_verifying_key cv) (set (signed_log x sink st qs) \<union> Doc_Token ` tokens)"
    and "snd (CapabilityVerifier_verify (x_proto x) (x_verify x) cv c negotiated now t) = Ok ()"
  shows "\<exists>c0. Doc_Capability c0 \<in> set (signed_log x sink st qs) \<and> c\<lparr>cap_signature := []\<rparr> = c0\<lparr>cap_signature := []\<rparr>"
proof -
  have ok: "cap_version c = 1"
    "sig_accepted (x_verify x) (cv_control_plane_verifying_key cv) (SessionCapability_signing_bytes (x_proto x) c) (cap_signature c)"
    using assms(3) by (auto simp: verify_Ok cap_admissible_def SessionCapability_validate_Ok)
  obtain d0 where d0: "d0 \<in> set (signed_log x sink st qs) \<union> Doc_Token ` tokens"
      "doc_bytes x d0 = Some (SessionCapability_signing_bytes (x_proto x) c)" "doc_kind d0 = doc_kind (Doc_Capability c)"
    by (rule accepted_origin [OF assms(1,2) _ ok(2), of "Doc_Capability c"]) (use ok(1) in \<open>simp_all add: current_version_def\<close>)
  then obtain c0 where c0: "d0 = Doc_Capability c0" by (auto simp: doc_kind_cases)
  have "c\<lparr>cap_signature := []\<rparr> = c0\<lparr>cap_signature := []\<rparr>"
    using assms(1) d0(2) by (auto simp: c0 wire_formats_def SessionCapability_signing_bytes_def dest: injD)
  then show ?thesis using d0(1) by (auto simp: c0)
qed

lemma accepted_relay_token:
  assumes "wire_formats x" "unforgeable x (rv_key rv) (set (signed_log x sink st qs) \<union> Doc_Token ` tokens)"
    and "RelayTokenVerifier_verify (x_verify x) rv t now = Ok ()"
  shows "\<exists>t0. Doc_Relay t0 \<in> set (signed_log x sink st qs) \<and> RelayToken_signing_bytes t = RelayToken_signing_bytes t0"
proof -
  have ok: "sig_accepted (x_verify x) (rv_key rv) (RelayToken_signing_bytes t) (rt_signature t)"
    using assms(3) by (simp add: RelayTokenVerifier_verify_iff RelayToken_authentic_def)
  obtain d0 where d0: "d0 \<in> set (signed_log x sink st qs) \<union> Doc_Token ` tokens"
      "doc_bytes x d0 = Some (RelayToken_signing_bytes t)" "doc_kind d0 = doc_kind (Doc_Relay t)"
    by (rule accepted_origin [OF assms(1,2) _ ok, of "Doc_Relay t"]) (simp_all add: current_version_def)
  then obtain t0 where "d0 = Doc_Relay t0" by (auto simp: doc_kind_cases)
  then show ?thesis using d0(1,2) by auto
qed

text \<open>
  C26: An accepted document goes back to a request.  Let the control plane serve any sequence of requests, let its
  operator issue enrollment tokens, and let its public key accept a signature only on bytes that were signed with its
  key, by the handlers or for a token: device credentials, session capabilities, relay tokens and enrollment tokens,
  all under one key.  The encoders are as in \<open>wire_formats\<close>, and the devices named in the session requests have valid ids.
  Then, up to the signature bytes: an enrollment token that verifies is one the operator issued; a device credential that
  verifies is the credential of an enrollment request of the sequence, with that request's public key, whose token
  the operator issued and whose proof of possession is right; a capability that an agent accepts is the one made for a session
  request that the policy allowed, with the actions the policy granted; and a relay token that a relay accepts,
  with fields of at most 65535 bytes, is a token of such a session, for its two devices and its expiry.  In particular no
  document of one kind is accepted as another.
\<close>

theorem signed_documents_genuine:
  assumes "wire_formats x"
    and "unforgeable x (x_pub x (ap_signing_key st)) (set (signed_log x sink st qs) \<union> Doc_Token ` tokens)"
    and "\<forall>fg fs fa at uuid nonce p. CP_RequestSession fg fs fa at uuid nonce p \<in> set qs \<longrightarrow>
           valid_id (sq_client_device_id p) \<and> valid_id (sq_target_device_id p)"
  shows "(EnrollmentToken_verify (x_enrollment_json x) (x_verify x) (x_pub x (ap_signing_key st)) token now = Ok () \<longrightarrow>
           (\<exists>t0 \<in> tokens. token\<lparr>et_signature := []\<rparr> = t0\<lparr>et_signature := []\<rparr>))
     \<and> (DeviceCredential_verify (x_credential_json x) (x_verify x) (x_pub x (ap_signing_key st)) credential now = Ok () \<longrightarrow>
           (\<exists>f fa at req i. CP_Enroll f fa at req \<in> set qs \<and> credential\<lparr>dc_signature := []\<rparr> = unsigned_credential i req at
              \<and> (\<exists>t0 \<in> tokens. (rr_enrollment_token req)\<lparr>et_signature := []\<rparr> = t0\<lparr>et_signature := []\<rparr>)
              \<and> device_id_string (rr_enrollment_token req) = Returns (id_as_str i) \<and> verify_proof (x_verify x) req = Ok ()))
     \<and> (cv_control_plane_verifying_key cv = x_pub x (ap_signing_key st)
          \<and> snd (CapabilityVerifier_verify (x_proto x) (x_verify x) cv c negotiated now clock) = Ok () \<longrightarrow>
           (\<exists>p sid actions at nonce. session_of_request st qs p sid actions at nonce
              \<and> c\<lparr>cap_signature := []\<rparr> = unsigned_capability st p sid (map Action_as_str (ActionSet_iter actions)) at nonce))
     \<and> (rv_key rv = x_pub x (ap_signing_key st) \<and> rt_fields_fit t \<and> RelayTokenVerifier_verify (x_verify x) rv t now = Ok () \<longrightarrow>
           (\<exists>p sid actions at nonce role. session_of_request st qs p sid actions at nonce
              \<and> t\<lparr>rt_signature := []\<rparr> =
                  (session_token x st p sid (from_secs (as_secs at + session_ttl_secs)) role)\<lparr>rt_signature := []\<rparr>))"
    (is "?T \<and> ?D \<and> ?C \<and> ?R")
proof (intro conjI)
  show ?T using accepted_token [OF assms(1,2)] by blast
  show ?D
  proof
    assume "DeviceCredential_verify (x_credential_json x) (x_verify x) (x_pub x (ap_signing_key st)) credential now = Ok ()"
    from accepted_credential [OF assms(1,2) this] obtain c0 where
      "Doc_Credential c0 \<in> set (signed_log x sink st qs)" "credential\<lparr>dc_signature := []\<rparr> = c0\<lparr>dc_signature := []\<rparr>" by blast
    with logged_credential [OF this(1)] show
      "\<exists>f fa at req i. CP_Enroll f fa at req \<in> set qs \<and> credential\<lparr>dc_signature := []\<rparr> = unsigned_credential i req at
              \<and> (\<exists>t0 \<in> tokens. (rr_enrollment_token req)\<lparr>et_signature := []\<rparr> = t0\<lparr>et_signature := []\<rparr>)
              \<and> device_id_string (rr_enrollment_token req) = Returns (id_as_str i) \<and> verify_proof (x_verify x) req = Ok ()"
      unfolding credential_of_enrollment_def using accepted_token [OF assms(1,2)] Id_new_eq by (metis Id.sel)
  qed
  show ?C
  proof (intro impI, elim conjE)
    assume key: "cv_control_plane_verifying_key cv = x_pub x (ap_signing_key st)"
      and ok: "snd (CapabilityVerifier_verify (x_proto x) (x_verify x) cv c negotiated now clock) = Ok ()"
    from accepted_capability [OF assms(1) assms(2) [folded key] ok] obtain c0 where
      c0: "Doc_Capability c0 \<in> set (signed_log x sink st qs)" "c\<lparr>cap_signature := []\<rparr> = c0\<lparr>cap_signature := []\<rparr>" by blast
    moreover have "(unsigned_capability st p sid perms at nonce)\<lparr>cap_signature := []\<rparr> = unsigned_capability st p sid perms at nonce"
      for p sid perms at nonce by (simp add: unsigned_capability_def)
    ultimately show "\<exists>p sid actions at nonce. session_of_request st qs p sid actions at nonce
              \<and> c\<lparr>cap_signature := []\<rparr> = unsigned_capability st p sid (map Action_as_str (ActionSet_iter actions)) at nonce"
      using logged_capability [OF c0(1)] by metis
  qed
  show ?R
  proof (intro impI, elim conjE)
    assume key: "rv_key rv = x_pub x (ap_signing_key st)" and fit: "rt_fields_fit t"
      and ok: "RelayTokenVerifier_verify (x_verify x) rv t now = Ok ()"
    from accepted_relay_token [OF assms(1) assms(2) [folded key] ok] obtain t0 where
      t0: "Doc_Relay t0 \<in> set (signed_log x sink st qs)" "RelayToken_signing_bytes t = RelayToken_signing_bytes t0" by blast
    from logged_relay_token [OF t0(1)] obtain p sid actions at nonce role where
      r: "length (ap_default_relay_id st) \<le> 65535" "session_of_request st qs p sid actions at nonce"
         "t0 = session_token x st p sid (from_secs (as_secs at + session_ttl_secs)) role" by blast
    then have "valid_id (sq_client_device_id p) \<and> valid_id (sq_target_device_id p)"
      using assms(3) unfolding session_of_request_def by blast
    then have "rt_fields_fit t0" using session_token_fits [OF r(2,1)] by (simp add: r(3))
    from RelayToken_signing_bytes_inject [OF fit this] t0(2) r(2,3) show
      "\<exists>p sid actions at nonce role. session_of_request st qs p sid actions at nonce
         \<and> t\<lparr>rt_signature := []\<rparr> =
             (session_token x st p sid (from_secs (as_secs at + session_ttl_secs)) role)\<lparr>rt_signature := []\<rparr>" by blast
  qed
qed

section \<open>Example\<close>

text \<open>
  Encoders with the leading bytes of the real ones, each followed by a number for the rest of the value, as a string
  of zeros of that length; and a key that accepts what an example run signs, and nothing else.
\<close>

definition example_enrollment_json :: "CanonicalEnrollmentPayload \<Rightarrow> bytes option" where
  "example_enrollment_json p = Some (as_bytes ''{\"token_id\":'' @ replicate (to_nat
     (string_code (cep_token_id p), string_code (cep_organization_id p), string_code (cep_device_type p),
      unat (cep_not_before p), unat (cep_expires_at p), unat (cep_max_uses p))) 0)"

definition example_credential_json :: "CanonicalCredentialPayload \<Rightarrow> bytes option" where
  "example_credential_json p = Some (as_bytes ''{\"device_id\":'' @ replicate (to_nat
     (string_code (ccp_device_id p), string_code (ccp_organization_id p), map unat (ccp_public_key p),
      string_code (ccp_device_type p), string_code (ccp_os p), string_code (ccp_architecture p),
      map string_code (ccp_capabilities p), unat (ccp_issued_at p), unat (ccp_expires_at p))) 0)"

definition example_proto :: "SessionCapability \<Rightarrow> bytes" where
  "example_proto c = [0x08, 0x01] @ example_encode c"

definition encoding_externals :: "unit externals" where
  "encoding_externals = example_externals\<lparr>x_pub := (\<lambda>_. [1]), x_enrollment_json := example_enrollment_json,
     x_credential_json := example_credential_json, x_proto := example_proto\<rparr>"

definition signing_requests :: "cp_request list" where
  "signing_requests = [CP_RequestSession {} {} {} (from_secs 10) (replicate 16 0) (replicate 16 7) example_payload,
     CP_Enroll {} {} (from_secs 5) example_registration]"

definition example_documents :: "signed_doc set" where
  "example_documents = set (cp_signs encoding_externals session_app (hd signing_requests))
     \<union> {Doc_Credential (unsigned_credential (Id ''dev-host-t'') example_registration (from_secs 5)),
        Doc_Token (rr_enrollment_token example_registration)}"

definition signing_externals :: "unit externals" where
  "signing_externals = encoding_externals\<lparr>x_verify :=
     (\<lambda>key payload sig. Some (key = [1] \<longrightarrow> (\<exists>d \<in> example_documents. doc_bytes encoding_externals d = Some payload)))\<rparr>"

lemma string_code_eq [simp]: "string_code s = string_code s' \<longleftrightarrow> s = s'"
  by (auto simp: string_code_def inj_map_eq_map inj_on_def)

lemma map_codes_eq [simp]:
  "map string_code ss = map string_code ss' \<longleftrightarrow> ss = ss'" "map unat ws = map unat ws' \<longleftrightarrow> ws = (ws' :: bytes)"
  by (auto simp: inj_map_eq_map inj_on_def word_unat_eq_iff)

lemma signing_fields [simp]:
  "x_enrollment_json signing_externals = example_enrollment_json" "x_credential_json signing_externals = example_credential_json"
  "x_proto signing_externals = example_proto" "x_pub signing_externals k = [1]"
  "x_enrollment_json encoding_externals = example_enrollment_json" "x_credential_json encoding_externals = example_credential_json"
  "x_proto encoding_externals = example_proto"
  "x_serde signing_externals = x_serde encoding_externals" "x_sign signing_externals = x_sign encoding_externals"
  by (simp_all add: signing_externals_def encoding_externals_def)

lemma example_wire_formats: "wire_formats signing_externals"
proof -
  have "encoding_injective example_enrollment_json"
    by (auto simp: encoding_injective_def example_enrollment_json_def replicate_eq_replicate
        word_unat_eq_iff intro!: CanonicalEnrollmentPayload.equality)
  moreover have "encoding_injective example_credential_json"
    by (auto simp: encoding_injective_def example_credential_json_def replicate_eq_replicate
        word_unat_eq_iff intro!: CanonicalCredentialPayload.equality)
  moreover have "inj example_proto"
    by (rule injI) (metis example_decode_encode example_proto_def option.inject same_append_eq)
  ultimately show ?thesis
    by (auto simp: wire_formats_def example_enrollment_json_def example_credential_json_def example_proto_def)
qed

lemma doc_bytes_signing: "doc_bytes signing_externals d = doc_bytes encoding_externals d"
  by (cases d) simp_all

lemma x_verify_signing:
  "x_verify signing_externals key payload sig =
     Some (key = [1] \<longrightarrow> (\<exists>d \<in> example_documents. doc_bytes encoding_externals d = Some payload))"
  by (simp add: signing_externals_def)

lemma example_enrollment_checks:
  "EnrollmentToken_verify example_enrollment_json (x_verify signing_externals) [1] (rr_enrollment_token example_registration) (from_secs 5) = Ok ()"
  "verify_proof (x_verify signing_externals) example_registration = Ok ()"
proof -
  obtain b where b: "example_enrollment_json (EnrollmentToken_payload (rr_enrollment_token example_registration)) = Some b"
    by (simp add: example_enrollment_json_def)
  have "x_verify signing_externals [1] b sig = Some True" for sig
    using b by (simp add: x_verify_signing example_documents_def)
  with b show "EnrollmentToken_verify example_enrollment_json (x_verify signing_externals) [1]
      (rr_enrollment_token example_registration) (from_secs 5) = Ok ()"
    by (simp add: EnrollmentToken_verify_iff EnrollmentToken_authentic_def sig_accepted_def)
      (simp add: example_registration_def example_token_def from_secs_def less_eq_UnixTimestamp_def)
  have "length (rr_device_public_key example_registration) = 32" "length (rr_proof_signature example_registration) = 64"
    by (simp_all add: example_registration_def)
  then show "verify_proof (x_verify signing_externals) example_registration = Ok ()"
    by (auto simp: verify_proof_iff sig_accepted_def key_decodes_def x_verify_signing)
qed

lemma example_signed_log:
  "set (signed_log signing_externals example_sink session_app signing_requests)
     \<union> Doc_Token ` {rr_enrollment_token example_registration} = example_documents"
proof -
  have "cp_signs signing_externals st (CP_Enroll {} {} (from_secs 5) example_registration)
      = [Doc_Credential (unsigned_credential (Id ''dev-host-t'') example_registration (from_secs 5))]" for st :: "(unit, unit) AppState"
    by (simp add: example_enrollment_checks example_checks(3,4))
  moreover have "session_relay_token signing_externals st p sid expires role = session_relay_token encoding_externals st p sid expires role"
    for st :: "(unit, unit) AppState" and p sid expires role
    by (simp add: session_relay_token_def)
  then have relay: "relay_docs signing_externals st p sid expires = relay_docs encoding_externals st p sid expires"
    for st :: "(unit, unit) AppState" and p sid expires
    by (simp add: relay_docs_def split: result.split)
  have "cp_signs signing_externals session_app (hd signing_requests) = cp_signs encoding_externals session_app (hd signing_requests)"
    unfolding signing_requests_def list.sel cp_signs.simps signing_fields relay ..
  ultimately show ?thesis
    by (auto simp: signed_log_def sign_step_def example_documents_def signing_requests_def
        simp del: cp_signs.simps run_ops.simps(2))
qed

text \<open>The session that the example run grants.\<close>

definition example_sid :: Id where
  "example_sid = Id (''sess-'' @ uuid_simple (replicate 16 0))"

definition example_capability_doc :: SessionCapability where
  "example_capability_doc = unsigned_capability session_app example_payload example_sid
     (map Action_as_str (ActionSet_iter ActionSet_all)) (from_secs 10) (replicate 16 7)"

definition example_host_token :: RelayToken where
  "example_host_token = session_token encoding_externals session_app example_payload example_sid
     (from_secs (as_secs (from_secs 10) + session_ttl_secs)) Role_Host"

lemma example_session_documents:
  "Doc_Capability example_capability_doc \<in> example_documents" "Doc_Relay example_host_token \<in> example_documents"
proof -
  obtain r m where ev: "evaluate default_policy_engine (session_subject example_payload) (session_resource example_payload) DesktopView
      = Allowed ActionSet_all r m"
    using default_policy_allows by blast
  have dev: "get_device (x_serde encoding_externals) {} (Id ''dev'') session_db = Ok (Some \<lparr>rd_credential = example_credential,
      rd_hostname = ''pc'', rd_agent_version = ''1'', rd_enrolled_at = from_secs 5, rd_is_active = True\<rparr>)"
    by (simp add: get_device_def session_db_def Database_empty_def hm_get_def device_from_row_def corrupt_id_def encoding_externals_def
        example_externals_def example_serde_def example_credential_def u64_try_from_def example_ids)
  have "sq_target_device_id example_payload = Id ''dev''" "ap_storage session_app = session_db"
      "ap_policy_engine session_app = default_policy_engine"
    by (simp_all add: example_payload_def AppState_new_def)
  then have signs: "cp_signs encoding_externals session_app (hd signing_requests) =
      Doc_Capability example_capability_doc
      # relay_docs encoding_externals session_app example_payload example_sid (from_secs (as_secs (from_secs 10) + session_ttl_secs))"
    unfolding signing_requests_def list.sel cp_signs.simps session_id_ok [OF length_replicate]
    by (simp add: ev dev example_capability_doc_def example_sid_def)
  then show "Doc_Capability example_capability_doc \<in> example_documents" by (simp add: example_documents_def)
  have "session_relay_token encoding_externals session_app example_payload example_sid expires role =
      Ok (session_token encoding_externals session_app example_payload example_sid expires role)" for expires role
    by (simp add: session_relay_token_def session_token_def RelayTokenBuilder_build_def rtb_setters RelayToken_builder_def
        AppState_new_def res_simps)
  then show "Doc_Relay example_host_token \<in> example_documents"
    by (simp add: example_documents_def signs relay_docs_def example_host_token_def)
qed

text \<open>What the example key accepts.\<close>

definition signed_credential :: DeviceCredential where
  "signed_credential = (unsigned_credential (Id ''dev-host-t'') example_registration (from_secs 5))\<lparr>dc_signature := replicate 64 0\<rparr>"

definition signed_capability :: SessionCapability where
  "signed_capability = example_capability_doc\<lparr>cap_signature := replicate 64 0\<rparr>"

lemma example_signed:
  "doc_bytes encoding_externals d = Some b \<Longrightarrow> d \<in> example_documents \<Longrightarrow> x_verify signing_externals [1] b sig = Some True"
  by (auto simp: x_verify_signing)

lemma example_valid_ids: "valid_id example_sid" "valid_id (Id ''u'')" "valid_id (Id ''c'')" "valid_id (Id ''dev'')"
  using session_id_ok [of "replicate 16 0"] by (simp_all add: valid_id_def example_ids example_sid_def)

lemma signed_credential_accepted:
  "DeviceCredential_verify example_credential_json (x_verify signing_externals) [1] signed_credential (from_secs 20) = Ok ()"
proof -
  have "DeviceCredential_payload signed_credential = DeviceCredential_payload (signed_credential\<lparr>dc_signature := []\<rparr>)"
    by (simp add: DeviceCredential_payload_def)
  then show ?thesis
    using example_signed [of "Doc_Credential (unsigned_credential (Id ''dev-host-t'') example_registration (from_secs 5))"]
    by (auto simp: DeviceCredential_verify_iff DeviceCredential_authentic_def sig_accepted_def example_credential_json_def
        signed_credential_def unsigned_credential_def example_documents_def from_secs_def less_eq_UnixTimestamp_def)
qed

lemma signed_capability_accepted:
  "snd (CapabilityVerifier_verify example_proto (x_verify signing_externals) (CapabilityVerifier_new [1] 120 8) signed_capability 1
     (from_secs 20) 0) = Ok ()"
proof -
  have "cap_admissible (Some ''dev'') example_capability_doc 1 (from_secs 20)"
    using unsigned_capability_admissible [of example_payload example_sid session_app "replicate 16 7" ActionSet_all "from_secs 10" "from_secs 20"]
      example_valid_ids
    by (simp add: example_payload_def example_capability_doc_def AppState_new_def from_secs_def ActionSet_all_def Action_ALL_def)
  then have "cap_admissible None example_capability_doc 1 (from_secs 20)" by (simp add: cap_admissible_def)
  moreover have "snd (rc_accept (NonceReplayCache_new 120 8) nonce 0)" for nonce
    by (simp add: rc_accept_iff rc_inv_new) (simp add: NonceReplayCache_new_def hm_get_def)
  moreover have "SessionCapability_signing_bytes example_proto signed_capability = SessionCapability_signing_bytes example_proto example_capability_doc"
    by (simp add: SessionCapability_signing_bytes_def signed_capability_def)
  ultimately show ?thesis
    using example_signed [OF _ example_session_documents(1)]
    by (simp add: verify_Ok CapabilityVerifier_new_def sig_accepted_def) (simp add: signed_capability_def)
qed

lemma host_token_accepted:
  "RelayTokenVerifier_verify (x_verify signing_externals) \<lparr>rv_key = [1], rv_relay_id = rt_relay_id example_host_token\<rparr>
     example_host_token (from_secs 20) = Ok ()"
  "rt_fields_fit example_host_token"
proof -
  show "RelayTokenVerifier_verify (x_verify signing_externals) \<lparr>rv_key = [1], rv_relay_id = rt_relay_id example_host_token\<rparr>
      example_host_token (from_secs 20) = Ok ()"
    using example_signed [OF _ example_session_documents(2)]
    by (simp add: RelayTokenVerifier_verify_iff RelayToken_authentic_def sig_accepted_def)
      (simp add: example_host_token_def session_token_def RelayToken_sign_def encoding_externals_def example_externals_def
        from_secs_def session_ttl_secs_def less_UnixTimestamp_def)
  show "rt_fields_fit example_host_token"
    using example_valid_ids [THEN valid_id_length]
    by (simp add: rt_fields_fit_def example_host_token_def session_token_def RelayToken_sign_def example_payload_def AppState_new_def)
qed

theorem signed_documents_genuine_witness:
  "let x = signing_externals;
       cv = CapabilityVerifier_new [1] 120 8;
       rv = \<lparr>rv_key = [1], rv_relay_id = rt_relay_id example_host_token\<rparr>
   in DeviceCredential_verify (x_credential_json x) (x_verify x) [1] signed_credential (from_secs 20) = Ok ()
      \<and> (\<exists>f fa at req i. CP_Enroll f fa at req \<in> set signing_requests
           \<and> signed_credential\<lparr>dc_signature := []\<rparr> = unsigned_credential i req at)
      \<and> snd (CapabilityVerifier_verify (x_proto x) (x_verify x) cv signed_capability 1 (from_secs 20) 0) = Ok ()
      \<and> (\<exists>p sid actions at nonce. session_of_request session_app signing_requests p sid actions at nonce
           \<and> signed_capability\<lparr>cap_signature := []\<rparr> = unsigned_capability session_app p sid (map Action_as_str (ActionSet_iter actions)) at nonce)
      \<and> RelayTokenVerifier_verify (x_verify x) rv example_host_token (from_secs 20) = Ok ()
      \<and> (\<exists>p sid actions at nonce role. session_of_request session_app signing_requests p sid actions at nonce
           \<and> example_host_token\<lparr>rt_signature := []\<rparr> =
               (session_token x session_app p sid (from_secs (as_secs at + session_ttl_secs)) role)\<lparr>rt_signature := []\<rparr>)"
proof -
  let ?rv = "\<lparr>rv_key = [1], rv_relay_id = rt_relay_id example_host_token\<rparr>"
  have unforgeable: "unforgeable signing_externals (x_pub signing_externals (ap_signing_key session_app))
      (set (signed_log signing_externals example_sink session_app signing_requests) \<union> Doc_Token ` {rr_enrollment_token example_registration})"
    unfolding example_signed_log by (simp add: unforgeable_def x_verify_signing doc_bytes_signing)
  have ids: "\<forall>fg fs fa at uuid nonce p. CP_RequestSession fg fs fa at uuid nonce p \<in> set signing_requests \<longrightarrow>
      valid_id (sq_client_device_id p) \<and> valid_id (sq_target_device_id p)"
    using example_valid_ids by (simp add: signing_requests_def example_payload_def)
  have key: "cv_control_plane_verifying_key (CapabilityVerifier_new [1] 120 8) = [1]" by (simp add: CapabilityVerifier_new_def)
  note genuine = signed_documents_genuine [OF example_wire_formats unforgeable ids, of "rr_enrollment_token example_registration"
      "from_secs 20" signed_credential "CapabilityVerifier_new [1] 120 8" signed_capability 1 0 ?rv example_host_token, unfolded signing_fields]
  show ?thesis
    unfolding Let_def signing_fields
  proof (intro conjI signed_credential_accepted signed_capability_accepted host_token_accepted(1))
    show "\<exists>f fa at req i. CP_Enroll f fa at req \<in> set signing_requests \<and> signed_credential\<lparr>dc_signature := []\<rparr> = unsigned_credential i req at"
      using genuine [THEN conjunct2, THEN conjunct1] signed_credential_accepted by blast
  qed (use genuine key signed_capability_accepted host_token_accepted in \<open>simp_all only: simp_thms RelayTokenVerifier.simps\<close>)
qed

end
