(* ===== verification/Input_Events.thy ===== *)
theory Input_Events
  imports Transport_Control
begin

text \<open>
  Semantic input: the events of \<open>crates/nexus-input/src/events.rs\<close>, their encoder
  \<open>ClientInputSender\<close> in \<open>apps/nexus-client/src/receiver.rs\<close> and the decoder of the desktop host in
  \<open>apps/nexus-desktop-host/src/input_handler.rs\<close>.  The messages are those of \<open>proto/nexus.proto\<close>;
  their Protobuf codec is generated code and an argument.  An \<open>i32\<close> is a 32-bit word read with
  \<^const>\<open>sint\<close>.
\<close>

type_synonym i32 = "32 word"

section \<open>Events\<close>

datatype Modifiers = Modifiers u8

definition Mod_NONE :: Modifiers where "Mod_NONE = Modifiers 0"
definition Mod_SHIFT :: Modifiers where "Mod_SHIFT = Modifiers 1"
definition Mod_CTRL :: Modifiers where "Mod_CTRL = Modifiers 2"
definition Mod_ALT :: Modifiers where "Mod_ALT = Modifiers 4"
definition Mod_META :: Modifiers where "Mod_META = Modifiers 8"

primrec Modifiers_bits :: "Modifiers \<Rightarrow> u32" where
  "Modifiers_bits (Modifiers b) = ucast b"

definition Modifiers_from_bits :: "u32 \<Rightarrow> Modifiers" where
  "Modifiers_from_bits bits = Modifiers (ucast (bits AND 0x0F))"

datatype MouseButton = Btn_Left | Btn_Middle | Btn_Right | Btn_Back | Btn_Forward
datatype KeyAction = Key_Down | Key_Up

datatype InputEvent =
    Ev_Key u32 u32 KeyAction Modifiers      \<comment> \<open>\<open>physical_code\<close>, \<open>logical_code\<close>, \<open>action\<close>, \<open>modifiers\<close>\<close>
  | Ev_Text string
  | Ev_MouseMove i32 i32
  | Ev_MouseButton MouseButton bool
  | Ev_MouseWheel i32 i32

datatype InputError = TextTooLong nat | InvalidPhysicalKeyCode | WheelDeltaOutOfRange

definition MAX_TEXT_BYTES :: nat where "MAX_TEXT_BYTES = 4096"

definition wheel_in_range :: "i32 \<Rightarrow> bool" where
  "wheel_in_range d \<longleftrightarrow> - 120000 \<le> sint d \<and> sint d \<le> 120000"

fun InputEvent_validate :: "InputEvent \<Rightarrow> (unit, InputError) result" where
  "InputEvent_validate (Ev_Text text) =
     (if length text > MAX_TEXT_BYTES then Err (TextTooLong MAX_TEXT_BYTES) else Ok ())"
| "InputEvent_validate (Ev_Key physical_code logical_code action modifiers) =
     (if physical_code > 0xFFFF then Err InvalidPhysicalKeyCode else Ok ())"
| "InputEvent_validate (Ev_MouseWheel delta_x delta_y) =
     (if \<not> wheel_in_range delta_x \<or> \<not> wheel_in_range delta_y then Err WheelDeltaOutOfRange else Ok ())"
| "InputEvent_validate (Ev_MouseMove x y) = Ok ()"
| "InputEvent_validate (Ev_MouseButton button pressed) = Ok ()"

section \<open>Messages\<close>

record KeyEvent =
  ke_physical_code :: u32
  ke_logical_code :: u32
  ke_pressed :: bool
  ke_modifiers :: u32

record TextInput =
  ti_text :: string

record MouseMove =
  mm_x :: i32
  mm_y :: i32

record ProtoMouseButton =
  pmb_button :: u32
  pmb_pressed :: bool

record MouseWheel =
  mw_delta_x :: i32
  mw_delta_y :: i32

record 'd input_codec =
  key_encode :: "KeyEvent \<Rightarrow> bytes"
  key_decode :: "bytes \<Rightarrow> (KeyEvent, 'd) result"
  text_encode :: "TextInput \<Rightarrow> bytes"
  text_decode :: "bytes \<Rightarrow> (TextInput, 'd) result"
  move_encode :: "MouseMove \<Rightarrow> bytes"
  move_decode :: "bytes \<Rightarrow> (MouseMove, 'd) result"
  button_encode :: "ProtoMouseButton \<Rightarrow> bytes"
  button_decode :: "bytes \<Rightarrow> (ProtoMouseButton, 'd) result"
  wheel_encode :: "MouseWheel \<Rightarrow> bytes"
  wheel_decode :: "bytes \<Rightarrow> (MouseWheel, 'd) result"

text \<open>What Protobuf promises: a message decodes to itself.\<close>

definition input_codec_correct :: "'d input_codec \<Rightarrow> bool" where
  "input_codec_correct c \<longleftrightarrow>
     (\<forall>m. key_decode c (key_encode c m) = Ok m) \<and> (\<forall>m. text_decode c (text_encode c m) = Ok m)
     \<and> (\<forall>m. move_decode c (move_encode c m) = Ok m) \<and> (\<forall>m. button_decode c (button_encode c m) = Ok m)
     \<and> (\<forall>m. wheel_decode c (wheel_encode c m) = Ok m)"

section \<open>\<open>ClientInputSender\<close>\<close>

text \<open>
  \<open>Cie_Unreachable\<close> stands for the panic of the \<open>unreachable!\<close> branch of \<open>frame\<close>; it is shown never
  to occur.
\<close>

datatype ClientInputError = Cie_Input InputError | ControlTooLarge nat nat | Cie_Unreachable

fun frame_error :: "'d ControlMessageError \<Rightarrow> ClientInputError" where
  "frame_error (Ctl_TooLarge actual limit) = ControlTooLarge actual limit"
| "frame_error _ = Cie_Unreachable"

definition ClientInputSender_frame :: "('m \<Rightarrow> bytes) \<Rightarrow> 'm \<Rightarrow> (bytes, ClientInputError) result" where
  "ClientInputSender_frame proto_encode message =
     map_err frame_error (encode_framed_control proto_encode message :: (bytes, unit ControlMessageError) result)"

fun button_number :: "MouseButton \<Rightarrow> u32" where
  "button_number Btn_Left = 0"
| "button_number Btn_Right = 1"
| "button_number Btn_Middle = 2"
| "button_number Btn_Back = 3"
| "button_number Btn_Forward = 4"

definition ClientInputSender_encode :: "'d input_codec \<Rightarrow> InputEvent \<Rightarrow> (bytes, ClientInputError) result" where
  "ClientInputSender_encode c event =
     and_then (map_err Cie_Input (InputEvent_validate event)) (\<lambda>_.
       case event of
         Ev_Key physical_code logical_code action modifiers \<Rightarrow>
           ClientInputSender_frame (key_encode c)
             \<lparr>ke_physical_code = physical_code, ke_logical_code = logical_code,
              ke_pressed = (action = Key_Down), ke_modifiers = Modifiers_bits modifiers\<rparr>
       | Ev_Text text \<Rightarrow> ClientInputSender_frame (text_encode c) \<lparr>ti_text = text\<rparr>
       | Ev_MouseMove x y \<Rightarrow> ClientInputSender_frame (move_encode c) \<lparr>mm_x = x, mm_y = y\<rparr>
       | Ev_MouseButton button pressed \<Rightarrow>
           ClientInputSender_frame (button_encode c) \<lparr>pmb_button = button_number button, pmb_pressed = pressed\<rparr>
       | Ev_MouseWheel delta_x delta_y \<Rightarrow>
           ClientInputSender_frame (wheel_encode c) \<lparr>mw_delta_x = delta_x, mw_delta_y = delta_y\<rparr>)"

section \<open>\<open>HostInputHandler\<close>\<close>

text \<open>\<open>dispatch_event\<close> counts the event, wrapping at 64 bits, and writes it to the log.\<close>

record HostInputHandler =
  events_received :: u64
  dispatched :: "InputEvent list"

datatype 'd InputHandlerError = Ih_Decode 'd | Ih_InvalidData string

definition HostInputHandler_new :: HostInputHandler where
  "HostInputHandler_new = \<lparr>events_received = 0, dispatched = []\<rparr>"

definition dispatch_event :: "HostInputHandler \<Rightarrow> InputEvent \<Rightarrow> HostInputHandler" where
  "dispatch_event h event =
     h\<lparr>events_received := events_received h + 1, dispatched := dispatched h @ [event]\<rparr>"

definition handle_key_event ::
  "'d input_codec \<Rightarrow> HostInputHandler \<Rightarrow> bytes \<Rightarrow> HostInputHandler \<times> (unit, 'd InputHandlerError) result" where
  "handle_key_event c h bs =
     (case key_decode c bs of
        Err e \<Rightarrow> (h, Err (Ih_Decode e))
      | Ok proto \<Rightarrow>
          (let action = (if ke_pressed proto then Key_Down else Key_Up);
               event = Ev_Key (ke_physical_code proto) (ke_logical_code proto) action
                         (Modifiers_from_bits (ke_modifiers proto))
           in (dispatch_event h event, Ok ())))"

definition handle_mouse_move ::
  "'d input_codec \<Rightarrow> HostInputHandler \<Rightarrow> bytes \<Rightarrow> HostInputHandler \<times> (unit, 'd InputHandlerError) result" where
  "handle_mouse_move c h bs =
     (case move_decode c bs of
        Err e \<Rightarrow> (h, Err (Ih_Decode e))
      | Ok proto \<Rightarrow> (dispatch_event h (Ev_MouseMove (mm_x proto) (mm_y proto)), Ok ()))"

definition proto_button :: "u32 \<Rightarrow> MouseButton" where
  "proto_button b =
     (if b = 0 then Btn_Left else if b = 1 then Btn_Right else if b = 2 then Btn_Middle
      else if b = 3 then Btn_Back else if b = 4 then Btn_Forward else Btn_Left)"

definition handle_mouse_button ::
  "'d input_codec \<Rightarrow> HostInputHandler \<Rightarrow> bytes \<Rightarrow> HostInputHandler \<times> (unit, 'd InputHandlerError) result" where
  "handle_mouse_button c h bs =
     (case button_decode c bs of
        Err e \<Rightarrow> (h, Err (Ih_Decode e))
      | Ok proto \<Rightarrow>
          (dispatch_event h (Ev_MouseButton (proto_button (pmb_button proto)) (pmb_pressed proto)), Ok ()))"

definition handle_mouse_wheel ::
  "'d input_codec \<Rightarrow> HostInputHandler \<Rightarrow> bytes \<Rightarrow> HostInputHandler \<times> (unit, 'd InputHandlerError) result" where
  "handle_mouse_wheel c h bs =
     (case wheel_decode c bs of
        Err e \<Rightarrow> (h, Err (Ih_Decode e))
      | Ok proto \<Rightarrow> (dispatch_event h (Ev_MouseWheel (mw_delta_x proto) (mw_delta_y proto)), Ok ()))"

definition handle_text_input ::
  "'d input_codec \<Rightarrow> HostInputHandler \<Rightarrow> bytes \<Rightarrow> HostInputHandler \<times> (unit, 'd InputHandlerError) result" where
  "handle_text_input c h bs =
     (case text_decode c bs of
        Err e \<Rightarrow> (h, Err (Ih_Decode e))
      | Ok proto \<Rightarrow> (dispatch_event h (Ev_Text (ti_text proto)), Ok ()))"

section \<open>Laws\<close>

text \<open>
  The handler that takes the message of an event, and the modifier sets that can be built: the field
  of \<open>Modifiers\<close> is private and every constructor masks it to four bits.
\<close>

fun handler_of ::
  "'d input_codec \<Rightarrow> InputEvent \<Rightarrow> HostInputHandler \<Rightarrow> bytes \<Rightarrow> HostInputHandler \<times> (unit, 'd InputHandlerError) result" where
  "handler_of c (Ev_Key _ _ _ _) = handle_key_event c"
| "handler_of c (Ev_Text _) = handle_text_input c"
| "handler_of c (Ev_MouseMove _ _) = handle_mouse_move c"
| "handler_of c (Ev_MouseButton _ _) = handle_mouse_button c"
| "handler_of c (Ev_MouseWheel _ _) = handle_mouse_wheel c"

fun modifiers_canonical :: "InputEvent \<Rightarrow> bool" where
  "modifiers_canonical (Ev_Key _ _ _ (Modifiers b)) \<longleftrightarrow> b < 16"
| "modifiers_canonical _ \<longleftrightarrow> True"

lemma ucast_u8_mask: "(b :: u8) < 16 \<Longrightarrow> ucast (ucast b AND (0x0F :: u32)) = b"
proof -
  assume "b < 16"
  then have "take_bit 4 b = b"
    by (simp add: word_unat_eq_iff unsigned_take_bit_eq take_bit_nat_eq_self word_less_nat_alt)
  moreover have m: "(0x0F :: u32) = mask 4"
    by (simp add: mask_eq_exp_minus_1)
  have "ucast (ucast b AND (0x0F :: u32)) = take_bit 4 b"
    unfolding m by (intro bit_word_eqI) (auto simp: bit_simps)
  ultimately show ?thesis by simp
qed

lemma Modifiers_round_trip: "b < 16 \<Longrightarrow> Modifiers_from_bits (Modifiers_bits (Modifiers b)) = Modifiers b"
  by (simp add: Modifiers_from_bits_def ucast_u8_mask)

lemma proto_button_number [simp]: "proto_button (button_number b) = b"
  by (cases b) (simp_all add: proto_button_def)

lemma ClientInputSender_frame_cases:
  "ClientInputSender_frame enc m =
     (if length (enc m) > MAX_CONTROL_MESSAGE_SIZE
      then Err (ControlTooLarge (length (enc m)) MAX_CONTROL_MESSAGE_SIZE)
      else Ok (to_be 4 (of_nat (length (enc m)) :: u32) @ enc m))"
  by (simp add: ClientInputSender_frame_def encode_framed_control_def encode_control_def Let_def)

lemma frame_payload:
  assumes "ClientInputSender_frame enc m = Ok bs"
  shows "drop CONTROL_FRAME_PREFIX_SIZE bs = enc m" "length bs \<le> CONTROL_FRAME_PREFIX_SIZE + MAX_CONTROL_MESSAGE_SIZE"
  using assms by (auto simp: ClientInputSender_frame_cases CONTROL_FRAME_PREFIX_SIZE_def split: if_splits)

lemmas host_handlers = handle_key_event_def handle_mouse_move_def handle_mouse_button_def
  handle_mouse_wheel_def handle_text_input_def

lemma ClientInputSender_encode_Ok:
  assumes "ClientInputSender_encode c e = Ok bs" "input_codec_correct c" "modifiers_canonical e"
  shows "handler_of c e h (drop CONTROL_FRAME_PREFIX_SIZE bs) = (dispatch_event h e, Ok ())"
proof (cases e)
  case (Ev_Key p l a m)
  obtain b where "m = Modifiers b" by (cases m)
  then show ?thesis
    using assms Ev_Key Modifiers_round_trip [of b]
    by (cases a) (auto simp: ClientInputSender_encode_def res_simps host_handlers input_codec_correct_def
        frame_payload Let_def)
qed (use assms in \<open>auto simp: ClientInputSender_encode_def res_simps host_handlers input_codec_correct_def
      frame_payload\<close>)

lemma ClientInputSender_encode_no_panic: "ClientInputSender_encode c e \<noteq> Err Cie_Unreachable"
  by (cases e) (auto simp: ClientInputSender_encode_def ClientInputSender_frame_cases res_simps split: if_splits)

end
