(* ===== verification/Windows_Cursor.thy ===== *)
theory Windows_Cursor
  imports Input_Events
begin

text \<open>
  \<open>platform/windows/src/error.rs\<close> and \<open>cursor.rs\<close>: the failure categories of the Windows backends
  and the bounded cursor image.  A \<open>BackendError\<close> has its category as only field and is modelled by
  it.  The calls into the cursor API of the system are an argument.
\<close>

datatype BackendErrorKind =
    UnsupportedPlatform | UnsupportedApi | PermissionDenied | InvalidConfiguration | InitializationFailed
  | Timeout | DeviceLost | FrameUnavailable | InvalidFrame | InvalidInput | InvalidCursorDimensions
  | HotspotOutOfBounds | CursorPayloadLength | NativeFailure | Be_Stopped

type_synonym BackendError = BackendErrorKind

record CursorSnapshot =
  cs_visible :: bool
  cs_x :: i32
  cs_y :: i32
  cs_width :: u32
  cs_height :: u32
  cs_hotspot_x :: u32
  cs_hotspot_y :: u32
  cs_rgba :: bytes

definition MAX_DIMENSION :: u32 where "MAX_DIMENSION = 256"
definition MAX_RGBA_BYTES :: nat where "MAX_RGBA_BYTES = 256 * 256 * 4"

text \<open>\<open>checked_mul\<close> of \<open>usize\<close>, which has 64 bits.\<close>

definition usize_checked_mul :: "nat \<Rightarrow> nat \<Rightarrow> nat option" where
  "usize_checked_mul a b = (if a * b \<le> usize_max then Some (a * b) else None)"

definition usize_checked_add :: "nat \<Rightarrow> nat \<Rightarrow> nat option" where
  "usize_checked_add a b = (if a + b \<le> usize_max then Some (a + b) else None)"

definition CursorSnapshot_validate :: "CursorSnapshot \<Rightarrow> (unit, BackendError) result" where
  "CursorSnapshot_validate s =
     (if \<not> cs_visible s \<and> cs_width s = 0 \<and> cs_height s = 0 \<and> cs_rgba s = [] then Ok ()
      else if cs_width s = 0 \<or> cs_height s = 0 \<or> cs_width s > MAX_DIMENSION \<or> cs_height s > MAX_DIMENSION
        then Err InvalidCursorDimensions
      else
        and_then (ok_or CursorPayloadLength
            (Option.bind (usize_checked_mul (unat (cs_width s)) (unat (cs_height s)))
               (\<lambda>pixels. usize_checked_mul pixels 4)))
          (\<lambda>expected_len.
             if expected_len > MAX_RGBA_BYTES \<or> length (cs_rgba s) \<noteq> expected_len then Err CursorPayloadLength
             else if cs_visible s \<and> (cs_hotspot_x s \<ge> cs_width s \<or> cs_hotspot_y s \<ge> cs_height s)
               then Err HotspotOutOfBounds
             else Ok ()))"

definition WindowsCursorSource_snapshot ::
  "('n \<Rightarrow> 'n \<times> (CursorSnapshot, BackendError) result) \<Rightarrow> 'n \<Rightarrow> 'n \<times> (CursorSnapshot, BackendError) result" where
  "WindowsCursorSource_snapshot native_snapshot native =
     (case native_snapshot native of
        (native', Err e) \<Rightarrow> (native', Err e)
      | (native', Ok snapshot) \<Rightarrow>
          (native', and_then (CursorSnapshot_validate snapshot) (\<lambda>_. Ok snapshot)))"

text \<open>The swap of the first and third byte of every complete pixel, lines 298 to 300.\<close>

fun swap_red_blue :: "bytes \<Rightarrow> bytes" where
  "swap_red_blue (b # g # r # a # rest) = r # g # b # a # swap_red_blue rest"
| "swap_red_blue rest = rest"

section \<open>Laws\<close>

lemma CursorSnapshot_validate_Ok:
  assumes "CursorSnapshot_validate s = Ok u"
  shows "length (cs_rgba s) = unat (cs_width s) * unat (cs_height s) * 4" "length (cs_rgba s) \<le> MAX_RGBA_BYTES"
    and "cs_visible s \<Longrightarrow> cs_hotspot_x s < cs_width s \<and> cs_hotspot_y s < cs_height s"
  using assms
  by (auto simp: CursorSnapshot_validate_def usize_checked_mul_def MAX_RGBA_BYTES_def res_simps
      split: if_splits Option.bind_splits)

lemma swap_red_blue_involution [simp]: "swap_red_blue (swap_red_blue bs) = bs"
  by (induction bs rule: swap_red_blue.induct) simp_all

lemma length_swap_red_blue [simp]: "length (swap_red_blue bs) = length bs"
  by (induction bs rule: swap_red_blue.induct) simp_all

end
