(* ===== verification/Client_Render.thy ===== *)
theory Client_Render
  imports Windows_Cursor Transport_Video
begin

text \<open>
  The portable media boundary of the viewer: the depth-one render handoff and the pixel conversions of
  \<open>apps/nexus-client/src/renderer.rs\<close>, and the decode-surface contracts of \<open>decoder.rs\<close> with the gate
  that admits a stream to the decoder.  The lock of the render queue cannot be poisoned, since no
  operation panics while it holds it, so \<open>StateUnavailable\<close> does not arise.  Media Foundation and
  Direct3D are not modelled.
\<close>

section \<open>The render queue\<close>

record DecodedFrameJob =
  job_frame_id :: u32
  job_timestamp_us :: u64
  job_keyframe :: bool
  job_access_unit :: bytes

definition MAX_RENDER_ACCESS_UNIT_SIZE :: nat where
  "MAX_RENDER_ACCESS_UNIT_SIZE = MAX_FRAME_PAYLOAD_SIZE"

datatype RenderQueueError = EmptyAccessUnit | AccessUnitTooLarge nat nat | Rq_Shutdown | Rq_StateUnavailable

record RenderQueue =
  rq_latest :: "DecodedFrameJob option"
  rq_dropped_frames :: u64
  rq_shutdown :: bool

definition RenderQueue_new :: RenderQueue where
  "RenderQueue_new = \<lparr>rq_latest = None, rq_dropped_frames = 0, rq_shutdown = False\<rparr>"

definition validate_frame :: "DecodedFrameJob \<Rightarrow> (unit, RenderQueueError) result" where
  "validate_frame frame =
     (if job_access_unit frame = [] then Err EmptyAccessUnit
      else if length (job_access_unit frame) > MAX_RENDER_ACCESS_UNIT_SIZE
        then Err (AccessUnitTooLarge (length (job_access_unit frame)) MAX_RENDER_ACCESS_UNIT_SIZE)
      else Ok ())"

definition push_latest :: "RenderQueue \<Rightarrow> DecodedFrameJob \<Rightarrow> RenderQueue \<times> (unit, RenderQueueError) result" where
  "push_latest q frame =
     (case validate_frame frame of
        Err e \<Rightarrow> (q, Err e)
      | Ok _ \<Rightarrow>
          if rq_shutdown q then (q, Err Rq_Shutdown)
          else
            (q\<lparr>rq_latest := Some frame,
               rq_dropped_frames :=
                 (if rq_latest q \<noteq> None then saturating_add (rq_dropped_frames q) 1 else rq_dropped_frames q)\<rparr>,
             Ok ()))"

definition take_latest :: "RenderQueue \<Rightarrow> RenderQueue \<times> DecodedFrameJob option" where
  "take_latest q = (q\<lparr>rq_latest := None\<rparr>, rq_latest q)"

definition RenderQueue_clear :: "RenderQueue \<Rightarrow> RenderQueue" where
  "RenderQueue_clear q = q\<lparr>rq_latest := None\<rparr>"

definition RenderQueue_shutdown :: "RenderQueue \<Rightarrow> RenderQueue" where
  "RenderQueue_shutdown q = q\<lparr>rq_shutdown := True, rq_latest := None\<rparr>"

section \<open>Decoded surfaces\<close>

definition MAX_SURFACE_WIDTH :: u32 where "MAX_SURFACE_WIDTH = 7680"
definition MAX_SURFACE_HEIGHT :: u32 where "MAX_SURFACE_HEIGHT = 4320"
definition MAX_SURFACE_BYTES :: nat where "MAX_SURFACE_BYTES = 64 * 1024 * 1024"

datatype SurfaceFormat = Nv12 | Rgba8

record DecodedSurface =
  sf_frame_id :: u32
  sf_timestamp_us :: u64
  sf_keyframe :: bool
  sf_width :: u32
  sf_height :: u32
  sf_format :: SurfaceFormat
  sf_bytes :: bytes

datatype DecoderError =
  De_Frame RenderQueueError | MissingSequenceHeader | De_InvalidDimensions | InvalidSurface
| De_BackendUnavailable | De_BackendLost

definition validated_pixel_count :: "u32 \<Rightarrow> u32 \<Rightarrow> (nat, DecoderError) result" where
  "validated_pixel_count width height =
     (if width = 0 \<or> height = 0 \<or> width > MAX_SURFACE_WIDTH \<or> height > MAX_SURFACE_HEIGHT
         \<or> unat width mod 2 \<noteq> 0 \<or> unat height mod 2 \<noteq> 0
      then Err De_InvalidDimensions
      else ok_or De_InvalidDimensions (usize_checked_mul (unat width) (unat height)))"

definition validated_nv12_len :: "u32 \<Rightarrow> u32 \<Rightarrow> (nat, DecoderError) result" where
  "validated_nv12_len width height =
     and_then (validated_pixel_count width height) (\<lambda>pixels.
       and_then (ok_or De_InvalidDimensions (usize_checked_add pixels (pixels div 2))) (\<lambda>n.
         if n > MAX_SURFACE_BYTES then Err De_InvalidDimensions else Ok n))"

definition DecodedSurface_validate :: "DecodedSurface \<Rightarrow> (unit, DecoderError) result" where
  "DecodedSurface_validate s =
     and_then (validated_pixel_count (sf_width s) (sf_height s)) (\<lambda>pixels.
       and_then (ok_or De_InvalidDimensions
           (case sf_format s of
              Nv12 \<Rightarrow> usize_checked_add pixels (pixels div 2)
            | Rgba8 \<Rightarrow> usize_checked_mul pixels 4))
         (\<lambda>expected.
            if expected > MAX_SURFACE_BYTES \<or> length (sf_bytes s) \<noteq> expected then Err InvalidSurface else Ok ()))"

text \<open>\<open>slice::windows\<close>.\<close>

definition windows :: "nat \<Rightarrow> 'a list \<Rightarrow> 'a list list" where
  "windows n xs = map (\<lambda>i. take n (drop i xs)) [0..<length xs + 1 - n]"

definition contains_h264_sequence_header :: "bytes \<Rightarrow> bool" where
  "contains_h264_sequence_header access_unit \<longleftrightarrow>
     list_ex (\<lambda>nal. nal = [0, 0, 0, 1, 0x67]) (windows 5 access_unit)
     \<or> list_ex (\<lambda>nal. nal = [0, 0, 1, 0x67]) (windows 4 access_unit)"

record DecoderGate =
  initialized :: bool

definition DecoderGate_default :: DecoderGate where
  "DecoderGate_default = \<lparr>initialized = False\<rparr>"

definition DecoderGate_accept :: "DecoderGate \<Rightarrow> DecodedFrameJob \<Rightarrow> DecoderGate \<times> (unit, DecoderError) result" where
  "DecoderGate_accept g job =
     (case validate_frame job of
        Err e \<Rightarrow> (g, Err (De_Frame e))
      | Ok _ \<Rightarrow>
          if \<not> initialized g then
            (if \<not> job_keyframe job \<or> \<not> contains_h264_sequence_header (job_access_unit job)
             then (g, Err MissingSequenceHeader)
             else (g\<lparr>initialized := True\<rparr>, Ok ()))
          else (g, Ok ()))"

definition DecoderGate_reset :: "DecoderGate \<Rightarrow> DecoderGate" where
  "DecoderGate_reset g = g\<lparr>initialized := False\<rparr>"

text \<open>The decoder of the platforms without one.\<close>

definition PlatformFrameDecoder_decode ::
  "DecoderGate \<Rightarrow> DecodedFrameJob \<Rightarrow> DecoderGate \<times> (DecodedSurface option, DecoderError) result" where
  "PlatformFrameDecoder_decode g job =
     (case DecoderGate_accept g job of
        (g', Err e) \<Rightarrow> (g', Err e)
      | (g', Ok _) \<Rightarrow> (g', Err De_BackendUnavailable))"

section \<open>Pixel layouts\<close>

text \<open>\<open>dst[start..start + n].copy_from_slice(..)\<close> and \<open>&src[start..start + n]\<close> on ranges inside the slice.\<close>

definition slice_at :: "'a list \<Rightarrow> nat \<Rightarrow> nat \<Rightarrow> 'a list" where
  "slice_at xs start n = take n (drop start xs)"

definition copy_into :: "'a list \<Rightarrow> nat \<Rightarrow> 'a list \<Rightarrow> 'a list" where
  "copy_into xs start ys = take start xs @ ys @ drop (start + length ys) xs"

definition repack_nv12 :: "bytes \<Rightarrow> nat \<Rightarrow> u32 \<Rightarrow> u32 \<Rightarrow> (bytes, DecoderError) result" where
  "repack_nv12 source stride width0 height0 =
     and_then (validated_pixel_count width0 height0) (\<lambda>pixels.
       let width = unat width0; height = unat height0 in
       if stride < width then Err InvalidSurface
       else
         and_then (ok_or De_InvalidDimensions (usize_checked_add height (height div 2))) (\<lambda>rows.
         and_then (ok_or De_InvalidDimensions (usize_checked_mul stride rows)) (\<lambda>required.
           if length source < required then Err InvalidSurface
           else
             and_then (ok_or De_InvalidDimensions
                 (Option.bind (usize_checked_add pixels (pixels div 2))
                    (\<lambda>n. if n \<le> MAX_SURFACE_BYTES then Some n else None)))
               (\<lambda>output_len.
                  let packed = replicate output_len 0;
                      packed = fold (\<lambda>row p. copy_into p (row * width) (slice_at source (row * stride) width))
                                 [0..<height] packed;
                      source_uv = height * stride;
                      destination_uv = pixels
                  in Ok (fold (\<lambda>row p. copy_into p (destination_uv + row * width)
                                          (slice_at source (source_uv + row * stride) width))
                           [0..<height div 2] packed)))))"

text \<open>
  The conversion writes the four bytes of the pixels in ascending order.  Shifting right is division
  rounding down; the sums are far inside the range of \<open>i32\<close>.
\<close>

definition clamp_byte :: "int \<Rightarrow> u8" where
  "clamp_byte k = word_of_int (min (max k 0) 255)"

definition nv12_pixel :: "bytes \<Rightarrow> nat \<Rightarrow> nat \<Rightarrow> nat \<Rightarrow> nat \<Rightarrow> bytes" where
  "nv12_pixel bs width y_len y x =
     (let luma = max (uint (bs ! (y * width + x)) - 16) 0;
          chroma = y_len + (y div 2) * width + (x - x mod 2);
          u = uint (bs ! chroma) - 128;
          v = uint (bs ! (chroma + 1)) - 128;
          red = (298 * luma + 409 * v + 128) div 256;
          green = (298 * luma - 100 * u - 208 * v + 128) div 256;
          blue = (298 * luma + 516 * u + 128) div 256
      in [clamp_byte blue, clamp_byte green, clamp_byte red, 255])"

definition nv12_to_bgra :: "DecodedSurface \<Rightarrow> (bytes, DecoderError) result" where
  "nv12_to_bgra surface =
     (let width = unat (sf_width surface); height = unat (sf_height surface) in
      and_then (ok_or De_InvalidDimensions (usize_checked_mul width height)) (\<lambda>y_len.
        and_then (ok_or De_InvalidDimensions (usize_checked_mul y_len 4)) (\<lambda>_.
          Ok (concat (map (\<lambda>y. concat (map (nv12_pixel (sf_bytes surface) width y_len y) [0..<width])) [0..<height])))))"

fun rgba_pixels :: "bytes \<Rightarrow> bytes" where
  "rgba_pixels (r # g # b # a # rest) = b # g # r # a # rgba_pixels rest"
| "rgba_pixels _ = []"

definition rgba_to_bgra :: "DecodedSurface \<Rightarrow> (bytes, DecoderError) result" where
  "rgba_to_bgra surface =
     (let bgra = rgba_pixels (sf_bytes surface) in
      if length bgra \<noteq> length (sf_bytes surface) then Err InvalidSurface else Ok bgra)"

section \<open>Laws of the handoff\<close>

lemma push_latest_Ok:
  assumes "snd (push_latest q frame) = Ok u"
  shows "rq_latest (fst (push_latest q frame)) = Some frame" "job_access_unit frame \<noteq> []"
    "length (job_access_unit frame) \<le> MAX_RENDER_ACCESS_UNIT_SIZE" "\<not> rq_shutdown q"
  using assms by (auto simp: push_latest_def validate_frame_def split: if_splits)

lemma push_latest_Err: "snd (push_latest q frame) = Err e \<Longrightarrow> fst (push_latest q frame) = q"
  by (auto simp: push_latest_def split: result.splits if_splits)

section \<open>Laws of the surfaces\<close>

lemma surface_limits:
  assumes "width \<le> MAX_SURFACE_WIDTH" "height \<le> MAX_SURFACE_HEIGHT"
  shows "unat width \<le> 7680" "unat height \<le> 4320" "unat width * unat height \<le> 33177600"
proof -
  show w: "unat width \<le> 7680" and h: "unat height \<le> 4320"
    using assms by (simp_all add: MAX_SURFACE_WIDTH_def MAX_SURFACE_HEIGHT_def word_le_nat_alt not_less)
  show "unat width * unat height \<le> 33177600"
    using mult_le_mono [OF w h] by simp
qed

lemma validated_pixel_count_iff:
  "validated_pixel_count width height = Ok n \<longleftrightarrow>
     width \<noteq> 0 \<and> height \<noteq> 0 \<and> width \<le> MAX_SURFACE_WIDTH \<and> height \<le> MAX_SURFACE_HEIGHT
     \<and> even (unat width) \<and> even (unat height) \<and> n = unat width * unat height"
  using surface_limits(3) [of width height]
  by (auto simp: validated_pixel_count_def usize_checked_mul_def not_less even_iff_mod_2_eq_zero)

lemma length_nv12_pixel [simp]: "length (nv12_pixel bs w n y x) = 4"
  by (simp add: nv12_pixel_def Let_def)

lemma length_concat_const: "(\<And>x. x \<in> set xs \<Longrightarrow> length (f x) = n) \<Longrightarrow> length (concat (map f xs)) = length xs * n"
  by (induction xs) simp_all

lemma copy_rows:
  assumes "\<And>row. row < k \<Longrightarrow> length (f row) = w" "b + k * w \<le> length xs"
  shows "fold (\<lambda>row p. copy_into p (b + row * w) (f row)) [0..<k] xs =
    take b xs @ concat (map f [0..<k]) @ drop (b + k * w) xs"
  using assms
proof (induction k)
  case (Suc k)
  have len: "length (concat (map f [0..<k])) = k * w"
    using Suc.prems(1) by (subst length_concat_const [where n = w]) simp_all
  from Suc len show ?case
    by (simp add: copy_into_def) (simp add: add.commute add.left_commute)
qed simp

text \<open>What the repacked image is: the rows of both planes without their padding.\<close>

definition nv12_rows :: "bytes \<Rightarrow> nat \<Rightarrow> nat \<Rightarrow> nat \<Rightarrow> bytes" where
  "nv12_rows source stride width height =
     concat (map (\<lambda>row. slice_at source (row * stride) width) [0..<height + height div 2])"

lemma length_slice_at: "start + n \<le> length xs \<Longrightarrow> length (slice_at xs start n) = n"
  by (simp add: slice_at_def)

lemma row_in_source:
  assumes "stride * rows \<le> length source" "row < rows" "width \<le> stride"
  shows "row * stride + width \<le> length (source :: 'a list)"
proof -
  have "Suc row * stride \<le> rows * stride" using assms(2) by (intro mult_le_mono1) simp
  then show ?thesis using assms(1,3) by (simp add: mult.commute)
qed

lemma length_nv12_rows:
  assumes "width \<le> stride" "stride * (height + height div 2) \<le> length source"
  shows "length (nv12_rows source stride width height) = (height + height div 2) * width"
  unfolding nv12_rows_def
  by (subst length_concat_const [where n = width])
     (use assms in \<open>auto intro!: length_slice_at row_in_source [OF assms(2)]\<close>)

lemma repack_loops:
  assumes "width \<le> stride" "stride * (height + height div 2) \<le> length source" "even height"
  shows "fold (\<lambda>row p. copy_into p (width * height + row * width) (slice_at source (height * stride + row * stride) width))
      [0..<height div 2]
      (fold (\<lambda>row p. copy_into p (row * width) (slice_at source (row * stride) width)) [0..<height]
         (replicate (width * height + width * height div 2) 0)) = nv12_rows source stride width height"
    (is "fold ?uv _ (fold ?y _ ?init) = _")
proof -
  let ?src = "\<lambda>row. slice_at source (row * stride) width"
  obtain k where k: "height = 2 * k" using assms(3) by (rule evenE)
  have row: "length (?src row) = width" if "row < height + height div 2" for row
    using that assms by (intro length_slice_at row_in_source [OF assms(2)])
  have y: "fold ?y [0..<height] ?init = concat (map ?src [0..<height]) @ replicate (width * k) 0"
    using copy_rows [of height ?src width 0 ?init] row by (simp add: k mult.commute)
  have len: "length (concat (map ?src [0..<height])) = width * height"
    using row by (subst length_concat_const [where n = width]) simp_all
  have row': "length (?src (height + row)) = width" if "row < k" for row
    using row [of "height + row"] that by (simp add: k)
  have "fold ?uv [0..<k] (concat (map ?src [0..<height]) @ replicate (width * k) 0) =
      concat (map ?src [0..<height]) @ concat (map (\<lambda>row. ?src (height + row)) [0..<k])"
    using copy_rows [of k "\<lambda>row. ?src (height + row)" width "width * height"
        "concat (map ?src [0..<height]) @ replicate (width * k) 0", OF row'] len
    by (simp add: k algebra_simps)
  moreover have "map (\<lambda>row. ?src (height + row)) [0..<k] = map ?src [height..<height + k]"
    by (rule nth_equalityI) simp_all
  ultimately show ?thesis
    using y upt_add_eq_append [of 0 height k] by (simp add: nv12_rows_def k)
qed

lemma repack_nv12_cases:
  "repack_nv12 source stride w h =
     (if \<not> is_ok (validated_pixel_count w h) then Err De_InvalidDimensions
      else if stride < unat w then Err InvalidSurface
      else if stride * (unat h + unat h div 2) > usize_max then Err De_InvalidDimensions
      else if length source < stride * (unat h + unat h div 2) then Err InvalidSurface
      else Ok (nv12_rows source stride (unat w) (unat h)))"
proof (cases "validated_pixel_count w h")
  case (Ok n)
  note dims = Ok [unfolded validated_pixel_count_iff]
  then have n: "n = unat w * unat h" "even (unat h)" and lim: "unat h \<le> 4320" "n \<le> 33177600"
    using surface_limits [of w h] by auto
  from lim have fits: "unat h + unat h div 2 \<le> usize_max" "n + n div 2 \<le> MAX_SURFACE_BYTES" "n + n div 2 \<le> usize_max"
    by (simp_all add: MAX_SURFACE_BYTES_def)
  show ?thesis
  proof (cases "unat w \<le> stride \<and> stride * (unat h + unat h div 2) \<le> length source")
    case True
    then show ?thesis
      using fits repack_loops [of "unat w" stride "unat h" source] n
      by (simp add: repack_nv12_def Ok Let_def usize_checked_add_def usize_checked_mul_def)
  next
    case False
    then show ?thesis
      using fits by (auto simp: repack_nv12_def Ok Let_def usize_checked_add_def usize_checked_mul_def)
  qed
next
  case (Err e)
  then have "e = De_InvalidDimensions"
    by (auto simp: validated_pixel_count_def res_simps split: if_splits)
  with Err show ?thesis by (simp add: repack_nv12_def)
qed

lemma repacked_surface_valid:
  assumes "repack_nv12 source stride (sf_width s) (sf_height s) = Ok (sf_bytes s)" "sf_format s = Nv12"
  shows "DecodedSurface_validate s = Ok ()"
proof -
  let ?w = "unat (sf_width s)" and ?h = "unat (sf_height s)"
  have ok: "is_ok (validated_pixel_count (sf_width s) (sf_height s))" and
    fit: "?w \<le> stride" "stride * (?h + ?h div 2) \<le> length source" and
    bs: "sf_bytes s = nv12_rows source stride ?w ?h"
    using assms(1) by (auto simp: repack_nv12_cases not_less split: if_splits)
  then have n: "validated_pixel_count (sf_width s) (sf_height s) = Ok (?w * ?h)" "even ?h" "?w * ?h \<le> 33177600"
    using surface_limits [of "sf_width s" "sf_height s"] by (auto simp: is_ok_iff validated_pixel_count_iff)
  have "length (sf_bytes s) = ?w * ?h + ?w * ?h div 2"
    using length_nv12_rows [OF fit] n(2) bs by (auto simp: algebra_simps elim!: evenE)
  then show ?thesis
    using n(3) by (simp add: DecodedSurface_validate_def n(1) assms(2) usize_checked_add_def MAX_SURFACE_BYTES_def)
qed

text \<open>The reads of the conversion stay inside a validated surface.\<close>

lemma nv12_reads_in_bounds:
  assumes "even w" "even h" "(y :: nat) < h" "x < w"
  shows "y * w + x < w * h" "w * h + (y div 2) * w + (x - x mod 2) + 1 < w * h + w * h div 2"
proof -
  obtain a b where ab: "w = 2 * a" "h = 2 * b" using assms(1,2) by (auto elim!: evenE)
  have "Suc y * w \<le> h * w" using assms(3) by (intro mult_le_mono1) simp
  then show "y * w + x < w * h" using assms(4) by (simp add: mult.commute)
  have "Suc (y div 2) * (2 * a) \<le> b * (2 * a)"
    using assms(3) ab(2) by (intro mult_le_mono1) auto
  moreover have "x - x mod 2 + 1 < 2 * a"
    using assms(4) ab(1) by presburger
  ultimately show "w * h + (y div 2) * w + (x - x mod 2) + 1 < w * h + w * h div 2"
    by (simp add: ab mult.commute mult.left_commute)
qed

lemma nv12_to_bgra_Ok:
  assumes "DecodedSurface_validate s = Ok ()" "sf_format s = Nv12"
  shows "\<exists>bgra. nv12_to_bgra s = Ok bgra \<and> length bgra = unat (sf_width s) * unat (sf_height s) * 4"
proof -
  have "unat (sf_width s) * unat (sf_height s) \<le> 33177600"
    using assms surface_limits(3) [of "sf_width s" "sf_height s"]
    by (auto simp: DecodedSurface_validate_def res_simps validated_pixel_count_iff)
  moreover have "length (concat (map (\<lambda>y. concat (map (nv12_pixel bs w n y) [0..<w])) [0..<h])) = h * (w * 4)"
    for bs w n h
    by (subst length_concat_const [where n = "w * 4"]) (simp_all add: length_concat_const)
  ultimately show ?thesis
    by (simp add: nv12_to_bgra_def Let_def usize_checked_mul_def)
qed

lemma rgba_pixels_swap: "length bs mod 4 = 0 \<Longrightarrow> rgba_pixels bs = swap_red_blue bs"
proof (induction bs rule: rgba_pixels.induct)
  case (1 r g b a rest)
  have "Suc (Suc (Suc (Suc (length rest)))) mod 4 = length rest mod 4"
    by presburger
  with 1 show ?case by simp
qed (auto simp: mod_Suc)

text \<open>The gate: what the decoder sees since its start or last reset begins with a keyframe that has a sequence header.\<close>

datatype gate_op = Gate_Job DecodedFrameJob | Gate_Reset

fun gate_step :: "DecoderGate \<Rightarrow> gate_op \<Rightarrow> DecoderGate \<times> DecodedFrameJob option" where
  "gate_step g (Gate_Job job) =
     (let (g', r) = DecoderGate_accept g job in (g', if is_ok r then Some job else None))"
| "gate_step g Gate_Reset = (DecoderGate_reset g, None)"

definition sequence_start :: "DecodedFrameJob \<Rightarrow> bool" where
  "sequence_start job \<longleftrightarrow> job_keyframe job \<and> contains_h264_sequence_header (job_access_unit job)"

lemma gate_step_first:
  "snd (gate_step g op) = Some job \<Longrightarrow> \<not> initialized g \<Longrightarrow> sequence_start job \<and> initialized (fst (gate_step g op))"
  by (cases op) (auto simp: DecoderGate_accept_def sequence_start_def Let_def split: result.splits if_splits)

lemma gate_run_uninitialized:
  assumes "\<not> initialized g" "Gate_Reset \<notin> set ops"
    "List.map_filter (\<lambda>out. out) (snd (run_ops gate_step g ops)) = job # jobs"
  shows "sequence_start job"
  using assms
proof (induction ops arbitrary: g)
  case (Cons op ops)
  obtain j where op: "op = Gate_Job j" using Cons.prems(2) by (cases op) auto
  show ?case
  proof (cases "snd (gate_step g op)")
    case None
    then have "\<not> initialized (fst (gate_step g op))"
      using Cons.prems(1) op
      by (auto simp: DecoderGate_accept_def Let_def split: result.splits if_splits)
    with None Cons show ?thesis
      by (simp add: List.map_filter_simps del: run_ops.simps(2) gate_step.simps)
  next
    case (Some j')
    then show ?thesis
      using Cons.prems gate_step_first [OF Some]
      by (simp add: List.map_filter_simps del: run_ops.simps(2) gate_step.simps)
  qed
qed (simp add: List.map_filter_simps)

end
