(* ===== verification/Media_Source.thy ===== *)
theory Media_Source
  imports Client_Render
begin

text \<open>
  The media sources of the host: captured frames, the depth-one queue and the synthetic source of
  \<open>crates/nexus-capture\<close>, and the encoder contract with its software fallback of
  \<open>crates/nexus-codec\<close>.  The queue's lock recovers from poisoning, so its operations are total.
\<close>

section \<open>Captured frames\<close>

datatype CaptureError = Cap_InvalidDimensions | FrameSizeOverflow | InvalidBgraPayload nat nat

datatype PixelFormat = Native | Bgra8

record CapturedFrame =
  cf_frame_id :: u64
  cf_timestamp_us :: u64
  cf_width :: u32
  cf_height :: u32
  cf_format :: PixelFormat
  cf_data :: bytes

definition expected_bgra_len :: "u32 \<Rightarrow> u32 \<Rightarrow> (nat, CaptureError) result" where
  "expected_bgra_len width height =
     and_then (ok_or FrameSizeOverflow (usize_checked_mul (unat width) (unat height))) (\<lambda>pixels.
       ok_or FrameSizeOverflow (usize_checked_mul pixels 4))"

definition CapturedFrame_validate :: "CapturedFrame \<Rightarrow> (unit, CaptureError) result" where
  "CapturedFrame_validate f =
     (if cf_width f = 0 \<or> cf_height f = 0 then Err Cap_InvalidDimensions
      else if cf_format f = Bgra8 then
        and_then (expected_bgra_len (cf_width f) (cf_height f)) (\<lambda>expected.
          if length (cf_data f) \<noteq> expected then Err (InvalidBgraPayload (length (cf_data f)) expected) else Ok ())
      else Ok ())"

definition new_bgra :: "u64 \<Rightarrow> u64 \<Rightarrow> u32 \<Rightarrow> u32 \<Rightarrow> bytes \<Rightarrow> (CapturedFrame, CaptureError) result" where
  "new_bgra fid ts width height data =
     (let frame = \<lparr>cf_frame_id = fid, cf_timestamp_us = ts, cf_width = width, cf_height = height,
                   cf_format = Bgra8, cf_data = data\<rparr>
      in and_then (CapturedFrame_validate frame) (\<lambda>_. Ok frame))"

section \<open>The latest-frame queue\<close>

record 't LatestFrameQueue =
  lq_slot :: "'t option"
  lq_dropped :: u64

definition LatestFrameQueue_new :: "'t LatestFrameQueue" where
  "LatestFrameQueue_new = \<lparr>lq_slot = None, lq_dropped = 0\<rparr>"

definition lq_replace :: "'t LatestFrameQueue \<Rightarrow> 't \<Rightarrow> 't LatestFrameQueue" where
  "lq_replace q frame =
     q\<lparr>lq_slot := Some frame, lq_dropped := (if lq_slot q \<noteq> None then lq_dropped q + 1 else lq_dropped q)\<rparr>"

definition lq_take :: "'t LatestFrameQueue \<Rightarrow> 't LatestFrameQueue \<times> 't option" where
  "lq_take q = (q\<lparr>lq_slot := None\<rparr>, lq_slot q)"

section \<open>The synthetic source\<close>

record SyntheticCaptureSource =
  syn_width :: u32
  syn_height :: u32
  syn_fps :: u32
  syn_frame_count :: u64

definition SyntheticCaptureSource_new :: "u32 \<Rightarrow> u32 \<Rightarrow> u32 \<Rightarrow> SyntheticCaptureSource" where
  "SyntheticCaptureSource_new width height fps =
     \<lparr>syn_width = width, syn_height = height, syn_fps = max fps 1, syn_frame_count = 0\<rparr>"

definition pattern_pixel :: "u8 \<Rightarrow> nat \<Rightarrow> nat \<Rightarrow> bytes" where
  "pattern_pixel shift y x = [of_nat x + shift, of_nat y + shift, of_nat (x + y) + shift, 255]"

definition generate_bgra_pattern :: "SyntheticCaptureSource \<Rightarrow> u64 \<Rightarrow> bytes" where
  "generate_bgra_pattern s fid =
     (let shift = ucast (fid mod 256) in
      concat (map (\<lambda>y. concat (map (pattern_pixel shift y) [0..<unat (syn_width s)])) [0..<unat (syn_height s)]))"

text \<open>The source cannot fail: its error type is empty, and the model has any error type.\<close>

definition synthetic_next_frame :: "SyntheticCaptureSource \<Rightarrow> SyntheticCaptureSource \<times> (CapturedFrame, 'e) result" where
  "synthetic_next_frame s =
     (let s' = s\<lparr>syn_frame_count := syn_frame_count s + 1\<rparr>;
          fid = syn_frame_count s';
          ts = saturating_sub fid 1 * 1000000 div ucast (syn_fps s')
      in (s', Ok \<lparr>cf_frame_id = fid, cf_timestamp_us = ts, cf_width = syn_width s', cf_height = syn_height s',
                  cf_format = Bgra8, cf_data = generate_bgra_pattern s' fid\<rparr>))"

section \<open>The encoder contract and the software fallback\<close>

datatype CodecKind = H264

record EncoderConfig =
  ec_codec :: CodecKind
  ec_width :: u32
  ec_height :: u32
  ec_max_fps :: u32
  ec_bitrate_bps :: u32

datatype CodecError =
  Codec_InvalidDimensions | InvalidRateOrBitrate | FrameDimensionsMismatch | NotConfigured | Codec_InvalidFrame
| Codec_BackendUnavailable | Codec_BackendLost | OutputPending

definition EncoderConfig_validate :: "EncoderConfig \<Rightarrow> (EncoderConfig, CodecError) result" where
  "EncoderConfig_validate c =
     (if ec_width c = 0 \<or> ec_height c = 0 \<or> ec_max_fps c = 0 \<or> ec_bitrate_bps c = 0 then
        Err (if ec_width c = 0 \<or> ec_height c = 0 then Codec_InvalidDimensions else InvalidRateOrBitrate)
      else Ok c)"

record EncodedFrame =
  enc_frame_id :: u64
  enc_timestamp_us :: u64
  enc_keyframe :: bool
  enc_data :: bytes

definition DEFAULT_KEYFRAME_INTERVAL :: u32 where "DEFAULT_KEYFRAME_INTERVAL = 60"

definition NAL_START_CODE :: bytes where "NAL_START_CODE = [0, 0, 0, 1]"
definition NAL_TYPE_SPS :: u8 where "NAL_TYPE_SPS = 0x67"
definition NAL_TYPE_PPS :: u8 where "NAL_TYPE_PPS = 0x68"
definition NAL_TYPE_IDR :: u8 where "NAL_TYPE_IDR = 0x65"
definition NAL_TYPE_NON_IDR :: u8 where "NAL_TYPE_NON_IDR = 0x41"

record SoftwareFallbackEncoder =
  sw_config :: "EncoderConfig option"
  sw_keyframe_interval :: u32
  sw_frame_count :: u64
  sw_force_keyframe :: bool

definition with_keyframe_interval :: "u32 \<Rightarrow> SoftwareFallbackEncoder" where
  "with_keyframe_interval interval =
     \<lparr>sw_config = None, sw_keyframe_interval = interval, sw_frame_count = 0, sw_force_keyframe = True\<rparr>"

definition SoftwareFallbackEncoder_new :: SoftwareFallbackEncoder where
  "SoftwareFallbackEncoder_new =
     \<lparr>sw_config = None, sw_keyframe_interval = DEFAULT_KEYFRAME_INTERVAL, sw_frame_count = 0, sw_force_keyframe = True\<rparr>"

definition build_annex_b_payload :: "EncoderConfig \<Rightarrow> bool \<Rightarrow> bytes \<Rightarrow> bytes" where
  "build_annex_b_payload config is_keyframe frame_data =
     (if is_keyframe then
        NAL_START_CODE @ [NAL_TYPE_SPS] @ to_be 4 (ec_width config) @ to_be 4 (ec_height config)
        @ to_be 4 (ec_max_fps config)
        @ NAL_START_CODE @ [NAL_TYPE_PPS] @ [1]
        @ NAL_START_CODE @ [NAL_TYPE_IDR] @ frame_data
      else NAL_START_CODE @ [NAL_TYPE_NON_IDR] @ frame_data)"

definition sw_configure ::
  "SoftwareFallbackEncoder \<Rightarrow> EncoderConfig \<Rightarrow> SoftwareFallbackEncoder \<times> (unit, CodecError) result" where
  "sw_configure e config =
     (case EncoderConfig_validate config of
        Err er \<Rightarrow> (e, Err er)
      | Ok validated \<Rightarrow>
          (e\<lparr>sw_config := Some validated, sw_force_keyframe := True, sw_frame_count := 0\<rparr>, Ok ()))"

definition sw_encode ::
  "SoftwareFallbackEncoder \<Rightarrow> CapturedFrame \<Rightarrow> SoftwareFallbackEncoder \<times> (EncodedFrame, CodecError) result" where
  "sw_encode e frame =
     (case sw_config e of
        None \<Rightarrow> (e, Err NotConfigured)
      | Some config \<Rightarrow>
          if cf_width frame \<noteq> ec_width config \<or> cf_height frame \<noteq> ec_height config
          then (e, Err FrameDimensionsMismatch)
          else
            (let is_keyframe = (sw_force_keyframe e
                   \<or> sw_keyframe_interval e > 0 \<and> sw_frame_count e mod ucast (sw_keyframe_interval e) = 0)
             in (e\<lparr>sw_force_keyframe := False, sw_frame_count := sw_frame_count e + 1\<rparr>,
                 Ok \<lparr>enc_frame_id = cf_frame_id frame, enc_timestamp_us = cf_timestamp_us frame,
                     enc_keyframe = is_keyframe,
                     enc_data = build_annex_b_payload config is_keyframe (cf_data frame)\<rparr>)))"

definition sw_request_keyframe ::
  "SoftwareFallbackEncoder \<Rightarrow> SoftwareFallbackEncoder \<times> (unit, CodecError) result" where
  "sw_request_keyframe e = (e\<lparr>sw_force_keyframe := True\<rparr>, Ok ())"

definition sw_reconfigure ::
  "SoftwareFallbackEncoder \<Rightarrow> EncoderConfig \<Rightarrow> SoftwareFallbackEncoder \<times> (unit, CodecError) result" where
  "sw_reconfigure e config =
     (case EncoderConfig_validate config of
        Err er \<Rightarrow> (e, Err er)
      | Ok validated \<Rightarrow> (e\<lparr>sw_config := Some validated, sw_force_keyframe := True\<rparr>, Ok ()))"

section \<open>Laws\<close>

lemma length_bgra_pattern:
  "length (generate_bgra_pattern s fid) = unat (syn_width s) * unat (syn_height s) * 4"
proof -
  have "length (concat (map (pattern_pixel shift y) [0..<w])) = w * 4" for shift y w
    by (subst length_concat_const [where n = 4]) (simp_all add: pattern_pixel_def)
  then show ?thesis
    unfolding generate_bgra_pattern_def Let_def
    by (subst length_concat_const [where n = "unat (syn_width s) * 4"]) simp_all
qed

lemma synthetic_frame_valid:
  assumes "syn_width s \<noteq> 0" "syn_height s \<noteq> 0" "unat (syn_width s) * unat (syn_height s) * 4 \<le> usize_max"
    and "synthetic_next_frame s = (s', Ok f)"
  shows "CapturedFrame_validate f = Ok ()"
  using assms
  by (auto simp: synthetic_next_frame_def Let_def CapturedFrame_validate_def expected_bgra_len_def
      usize_checked_mul_def length_bgra_pattern)

lemma windows_first: "n \<le> length xs \<Longrightarrow> take n xs \<in> set (windows n xs)"
  by (auto simp: windows_def intro!: image_eqI [of _ _ 0])

lemma keyframe_has_sequence_header:
  "contains_h264_sequence_header (build_annex_b_payload config True data)"
proof -
  let ?p = "build_annex_b_payload config True data"
  have "take 5 ?p = [0, 0, 0, 1, 0x67]" "5 \<le> length ?p"
    by (simp_all add: build_annex_b_payload_def NAL_START_CODE_def NAL_TYPE_SPS_def del: to_be_numeral)
  then show ?thesis
    using windows_first [of 5 ?p] by (auto simp: contains_h264_sequence_header_def list_ex_iff)
qed

lemma length_annex_b [simp]:
  "length (build_annex_b_payload config k data) = (if k then 28 else 5) + length data"
  by (simp add: build_annex_b_payload_def NAL_START_CODE_def del: to_be_numeral)

lemma annex_b_not_Nil [simp]: "build_annex_b_payload config k data \<noteq> []"
  using length_annex_b [of config k data] by (metis add_is_0 list.size(3) zero_neq_numeral)

lemma sw_encode_metadata:
  assumes "sw_encode e f = (e', Ok out)"
  shows "enc_frame_id out = cf_frame_id f" "enc_timestamp_us out = cf_timestamp_us f" "enc_data out \<noteq> []"
    and "enc_keyframe out \<Longrightarrow> contains_h264_sequence_header (enc_data out)"
    and "sw_force_keyframe e \<Longrightarrow> enc_keyframe out" "\<not> sw_force_keyframe e'"
  using assms
  by (auto simp: sw_encode_def Let_def keyframe_has_sequence_header
      split: option.splits if_splits)

text \<open>The cadence: with the interval \<open>k\<close> and no request, the keyframes are the frames \<open>0, k, 2 k, ...\<close>.\<close>

definition cadence_state :: "SoftwareFallbackEncoder \<Rightarrow> nat \<Rightarrow> bool" where
  "cadence_state e i \<longleftrightarrow>
     sw_config e \<noteq> None \<and> sw_frame_count e = of_nat i \<and> (sw_force_keyframe e \<longrightarrow> i = 0)"

lemma sw_encode_cadence:
  assumes "cadence_state e i" "i < 2 ^ 64 - 1" "sw_encode e f = (e', Ok out)" "sw_keyframe_interval e \<noteq> 0"
  shows "enc_keyframe out \<longleftrightarrow> i mod unat (sw_keyframe_interval e) = 0" "cadence_state e' (Suc i)"
proof -
  have u: "unat (of_nat i :: u64) = i" using assms(2) by (simp add: unat_of_nat)
  have "(of_nat i mod ucast (sw_keyframe_interval e) :: u64) = 0 \<longleftrightarrow> i mod unat (sw_keyframe_interval e) = 0"
    by (simp add: word_unat_eq_iff [where 'a = 64] unat_mod u unat_ucast_up)
  then show "enc_keyframe out \<longleftrightarrow> i mod unat (sw_keyframe_interval e) = 0"
    using assms by (auto simp: sw_encode_def cadence_state_def Let_def word_neq_0_conv split: option.splits if_splits)
  show "cadence_state e' (Suc i)"
    using assms by (auto simp: sw_encode_def cadence_state_def Let_def add.commute split: option.splits if_splits)
qed

lemma lq_newest: "snd (lq_take (lq_replace q f)) = Some f" "lq_slot (fst (lq_take q)) = None"
  by (simp_all add: lq_take_def lq_replace_def)

end
