(* ===== verification/Desktop_Host.thy ===== *)
theory Desktop_Host
  imports Media_Source Transport_Reassembly
begin

text \<open>
  \<open>apps/nexus-desktop-host/src/streamer.rs\<close> and \<open>worker.rs\<close>: the pipeline that captures, encodes,
  seals and packetizes a frame, and the worker loop around it.  The capture source is an argument:
  its state and the function \<open>next_frame\<close>, whose error is the string it displays as.
\<close>

section \<open>The streamer\<close>

datatype StreamerError =
    Str_Capture string | Str_Codec CodecError | Str_Seal FrameSealError | Str_Packetize PacketizeError
  | Str_Datagram VideoDatagramError | FrameIdOutOfRange u64 | ChannelClosed

record 'c HostVideoStreamer =
  hs_capture :: 'c
  hs_encoder :: SoftwareFallbackEncoder
  hs_queue :: "CapturedFrame LatestFrameQueue"
  hs_aead_key :: bytes
  hs_nonce_seq :: NonceSequence
  hs_codec_config_id :: u32
  hs_stream_id :: u8

definition HostVideoStreamer_new ::
  "'c \<Rightarrow> bytes \<Rightarrow> u32 \<Rightarrow> u32 \<Rightarrow> ('c HostVideoStreamer, StreamerError) result" where
  "HostVideoStreamer_new capture aead_key width height =
     (let encoder_config = \<lparr>ec_codec = H264, ec_width = width, ec_height = height, ec_max_fps = 30,
                             ec_bitrate_bps = 4000000\<rparr>
      in case sw_configure SoftwareFallbackEncoder_new encoder_config of
           (_, Err e) \<Rightarrow> Err (Str_Codec e)
         | (encoder, Ok _) \<Rightarrow>
             Ok \<lparr>hs_capture = capture, hs_encoder = encoder, hs_queue = LatestFrameQueue_new,
                 hs_aead_key = aead_key, hs_nonce_seq = NonceSequence_new 1, hs_codec_config_id = 1,
                 hs_stream_id = 1\<rparr>)"

primrec encode_packets :: "(VideoPacketHeader \<times> bytes) list \<Rightarrow> (bytes list, StreamerError) result" where
  "encode_packets [] = Ok []"
| "encode_packets (hp # pkts) =
     and_then (map_err Str_Datagram (encode_video_datagram (fst hp) (snd hp))) (\<lambda>encoded_dg.
       map_ok (\<lambda>rest. encoded_dg # rest) (encode_packets pkts))"

definition stream_header :: "u8 \<Rightarrow> u32 \<Rightarrow> EncodedFrame \<Rightarrow> VideoPacketHeader" where
  "stream_header stream fid encoded =
     \<lparr>vh_version = CURRENT_VERSION, vh_flags = (if enc_keyframe encoded then KEYFRAME else 0),
      stream_id = ucast stream, frame_id = fid, packet_id = 0, packet_count = 1,
      timestamp_us = enc_timestamp_us encoded, nonce_sequence = 0, payload_len = 0\<rparr>"

definition packetize_encoded_frame ::
  "aead \<Rightarrow> 'c HostVideoStreamer \<Rightarrow> EncodedFrame \<Rightarrow> 'c HostVideoStreamer \<times> (bytes list, StreamerError) result" where
  "packetize_encoded_frame enc s encoded =
     (if unat (enc_frame_id encoded) \<ge> 2 ^ 32 then (s, Err (FrameIdOutOfRange (enc_frame_id encoded)))
      else
        (let base_header = stream_header (hs_stream_id s) (ucast (enc_frame_id encoded)) encoded in
         case seal_video_frame enc (hs_aead_key s) (hs_nonce_seq s) base_header (hs_codec_config_id s)
                (enc_data encoded) of
           (nonce_seq, Err e) \<Rightarrow> (s\<lparr>hs_nonce_seq := nonce_seq\<rparr>, Err (Str_Seal e))
         | (nonce_seq, Ok encrypted_frame) \<Rightarrow>
             (let base_header = base_header\<lparr>nonce_sequence := from_be (drop 4 (ef_nonce encrypted_frame))\<rparr>
              in (s\<lparr>hs_nonce_seq := nonce_seq\<rparr>,
                  and_then (map_err Str_Packetize
                      (packetize_video_frame base_header (ef_ciphertext encrypted_frame) 1200))
                    encode_packets))))"

definition packetize_encode_result ::
  "aead \<Rightarrow> 'c HostVideoStreamer \<Rightarrow> (EncodedFrame, CodecError) result
     \<Rightarrow> 'c HostVideoStreamer \<times> (bytes list, StreamerError) result" where
  "packetize_encode_result enc s encoded =
     (case encoded of
        Ok encoded \<Rightarrow> packetize_encoded_frame enc s encoded
      | Err OutputPending \<Rightarrow> (s, Ok [])
      | Err error \<Rightarrow> (s, Err (Str_Codec error)))"

definition process_next_frame ::
  "('c \<Rightarrow> 'c \<times> (CapturedFrame, string) result) \<Rightarrow> aead \<Rightarrow> 'c HostVideoStreamer
     \<Rightarrow> 'c HostVideoStreamer \<times> (bytes list, StreamerError) result" where
  "process_next_frame next_frame enc s =
     (case next_frame (hs_capture s) of
        (capture, Err e) \<Rightarrow> (s\<lparr>hs_capture := capture\<rparr>, Err (Str_Capture e))
      | (capture, Ok frame) \<Rightarrow>
          (case lq_take (lq_replace (hs_queue s) frame) of
             (queue, None) \<Rightarrow> (s\<lparr>hs_capture := capture, hs_queue := queue\<rparr>, Ok [])
           | (queue, Some latest) \<Rightarrow>
               (case sw_encode (hs_encoder s) latest of
                  (encoder, encoded) \<Rightarrow>
                    packetize_encode_result enc
                      (s\<lparr>hs_capture := capture, hs_queue := queue, hs_encoder := encoder\<rparr>) encoded)))"

definition hs_request_keyframe :: "'c HostVideoStreamer \<Rightarrow> 'c HostVideoStreamer \<times> (unit, StreamerError) result" where
  "hs_request_keyframe s =
     (case sw_request_keyframe (hs_encoder s) of
        (encoder, r) \<Rightarrow> (s\<lparr>hs_encoder := encoder\<rparr>, map_err Str_Codec r))"

section \<open>The worker\<close>

text \<open>
  The environment of one round of the loop: whether another task calls \<open>stop\<close> before it, and how many
  datagrams the channel takes before its receiver is dropped (\<open>None\<close>: all of them).  The loop is
  given a round per element; when they are used up it is still running.
\<close>

record DesktopHostWorker =
  dh_session_id :: string
  dh_input_handler :: HostInputHandler
  dh_running :: bool
  dh_sent :: "bytes list"

type_synonym worker_round = "bool \<times> nat option"

definition DesktopHostWorker_new :: "string \<Rightarrow> DesktopHostWorker" where
  "DesktopHostWorker_new sid =
     \<lparr>dh_session_id = sid, dh_input_handler = HostInputHandler_new, dh_running = False, dh_sent = []\<rparr>"

definition worker_stop :: "DesktopHostWorker \<Rightarrow> DesktopHostWorker" where
  "worker_stop w = w\<lparr>dh_running := False\<rparr>"

definition send_datagrams :: "DesktopHostWorker \<Rightarrow> nat option \<Rightarrow> bytes list \<Rightarrow> DesktopHostWorker" where
  "send_datagrams w room dgs =
     (case room of
        None \<Rightarrow> w\<lparr>dh_sent := dh_sent w @ dgs\<rparr>
      | Some n \<Rightarrow>
          (let w' = w\<lparr>dh_sent := dh_sent w @ take n dgs\<rparr>
           in if n < length dgs then worker_stop w' else w'))"

fun streamer_loop ::
  "('c \<Rightarrow> 'c \<times> (CapturedFrame, string) result) \<Rightarrow> aead \<Rightarrow> DesktopHostWorker \<Rightarrow> 'c HostVideoStreamer
     \<Rightarrow> worker_round list \<Rightarrow> DesktopHostWorker \<times> 'c HostVideoStreamer \<times> (unit, StreamerError) result option" where
  "streamer_loop next_frame enc w s [] = (w, s, None)"
| "streamer_loop next_frame enc w s ((stopped, room) # rounds) =
     (let w = (if stopped then worker_stop w else w) in
      if \<not> dh_running w then (w, s, Some (Ok ()))
      else
        (case process_next_frame next_frame enc s of
           (s', Err e) \<Rightarrow> (w, s', Some (Err e))
         | (s', Ok dgs) \<Rightarrow> streamer_loop next_frame enc (send_datagrams w room dgs) s' rounds))"

definition run_streamer ::
  "aead \<Rightarrow> DesktopHostWorker \<Rightarrow> bytes \<Rightarrow> u32 \<Rightarrow> u32 \<Rightarrow> worker_round list
     \<Rightarrow> DesktopHostWorker \<times> (unit, StreamerError) result option" where
  "run_streamer enc w aead_key width height rounds =
     (let w = w\<lparr>dh_running := True\<rparr>;
          capture = SyntheticCaptureSource_new width height 30
      in case HostVideoStreamer_new capture aead_key width height of
           Err e \<Rightarrow> (w, Some (Err e))
         | Ok streamer \<Rightarrow>
             (case streamer_loop synthetic_next_frame enc w streamer rounds of (w', _, r) \<Rightarrow> (w', r)))"

section \<open>Laws\<close>

lemma encode_packets_Ok:
  assumes "\<forall>hp \<in> set pkts. encode_video_datagram (fst hp) (snd hp) = Ok (f hp)"
  shows "encode_packets pkts = Ok (map f pkts)"
  using assms by (induction pkts) simp_all

lemma encode_video_datagram_Ok: "encode_video_datagram h p = Ok dg \<Longrightarrow> dg = encode h p []"
  by (auto simp: encode_video_datagram_def Let_def split: if_splits)

lemma encode_packets_packetized:
  assumes "packetize_video_frame base payload chunk_size = Ok pkts" "vh_version base = CURRENT_VERSION"
  shows "encode_packets pkts = Ok (map (\<lambda>hp. encode (fst hp) (snd hp) []) pkts)"
    and "i < length pkts \<Longrightarrow> decode_video_datagram (encode (fst (pkts ! i)) (snd (pkts ! i)) []) = Ok (pkts ! i)"
proof -
  have ok: "encode_video_datagram (fst (pkts ! i)) (snd (pkts ! i)) = Ok (encode (fst (pkts ! i)) (snd (pkts ! i)) [])
      \<and> decode_video_datagram (encode (fst (pkts ! i)) (snd (pkts ! i)) []) = Ok (pkts ! i)" if i: "i < length pkts" for i
  proof -
    obtain dgram where "encode_video_datagram (fst (pkts ! i)) (snd (pkts ! i)) = Ok dgram" "decode_video_datagram dgram = Ok (pkts ! i)"
      using packetizer_fragments_valid [OF assms] i by blast
    then show ?thesis using encode_video_datagram_Ok by fast
  qed
  then show "i < length pkts \<Longrightarrow> decode_video_datagram (encode (fst (pkts ! i)) (snd (pkts ! i)) []) = Ok (pkts ! i)"
    by blast
  show "encode_packets pkts = Ok (map (\<lambda>hp. encode (fst hp) (snd hp) []) pkts)"
  proof (rule encode_packets_Ok, rule ballI)
    fix hp assume "hp \<in> set pkts"
    then show "encode_video_datagram (fst hp) (snd hp) = Ok (encode (fst hp) (snd hp) [])"
      using ok by (auto simp: in_set_conv_nth)
  qed
qed

text \<open>What a packetized frame is.\<close>

definition sealed_header :: "'c HostVideoStreamer \<Rightarrow> EncodedFrame \<Rightarrow> VideoPacketHeader" where
  "sealed_header s encoded =
     (stream_header (hs_stream_id s) (ucast (enc_frame_id encoded)) encoded)\<lparr>nonce_sequence := ns_next (hs_nonce_seq s)\<rparr>"

definition frame_ciphertext :: "aead \<Rightarrow> 'c HostVideoStreamer \<Rightarrow> EncodedFrame \<Rightarrow> bytes option" where
  "frame_ciphertext enc s encoded =
     enc (hs_aead_key s) (nonce_from_sequence (ns_domain (hs_nonce_seq s)) (ns_next (hs_nonce_seq s)))
       (aad (frame_metadata (sealed_header s encoded) (hs_codec_config_id s))) (enc_data encoded)"

lemma frame_metadata_nonce: "frame_metadata (h\<lparr>nonce_sequence := n\<rparr>) c = frame_metadata h c"
  by (simp add: frame_metadata_def)

lemma from_be_nonce: "from_be (drop 4 (nonce_from_sequence d n)) = n"
  by (simp add: nonce_from_sequence_def del: to_be_numeral)

lemma seal_video_frame_eq:
  "seal_video_frame enc key seq h c p =
     (if ns_exhausted seq then (seq, Err (Seal_Nonce Exhausted))
      else (fst (next_nonce seq),
            case enc key (nonce_from_sequence (ns_domain seq) (ns_next seq)) (aad (frame_metadata h c)) p of
              None \<Rightarrow> Err (Seal_Aead EncryptionFailed)
            | Some ct \<Rightarrow> Ok \<lparr>ef_nonce = nonce_from_sequence (ns_domain seq) (ns_next seq), ef_ciphertext = ct\<rparr>))"
  by (simp add: seal_video_frame_def seal_encoded_frame_def seal_session_payload_def next_nonce_def Let_def res_simps
      split: option.splits)

lemma length_chunks: "0 < n \<Longrightarrow> length (chunks n xs) * n < length xs + n"
proof (induction n xs rule: chunks.induct)
  case (1 n xs)
  show ?case
  proof (cases "xs = []")
    case True
    with 1 show ?thesis by (simp add: chunks.simps)
  next
    case False
    then have "length (chunks n (drop n xs)) * n < length (drop n xs) + n" using 1 by simp
    moreover have "length (chunks n xs) = Suc (length (chunks n (drop n xs)))"
      using False "1.prems" by (subst chunks.simps) simp
    ultimately show ?thesis using False by (cases "length xs \<le> n") auto
  qed
qed

text \<open>With the streamer's chunk size every frame within the size limit can be cut.\<close>

lemma packetize_1200:
  assumes "length payload \<le> MAX_FRAME_PAYLOAD_SIZE"
  shows "\<exists>pkts. packetize_video_frame base payload 1200 = Ok pkts"
proof -
  have "length (chunks 1200 payload) * 1200 < length payload + 1200" by (rule length_chunks) simp
  then have "length (chunks 1200 payload) \<le> 16384"
    using assms by (simp add: MAX_FRAME_PAYLOAD_SIZE_def)
  then show ?thesis
    using assms by (simp add: packetize_video_frame_def MAX_PAYLOAD_LEN_def MAX_PACKETS_PER_FRAME_def Let_def)
qed

lemma packetize_encoded_frame_sealed:
  assumes "unat (enc_frame_id encoded) < 2 ^ 32" "\<not> ns_exhausted (hs_nonce_seq s)"
    and "frame_ciphertext enc s encoded = Some ct"
    and "packetize_video_frame (sealed_header s encoded) ct 1200 = Ok pkts"
  shows "packetize_encoded_frame enc s encoded =
    (s\<lparr>hs_nonce_seq := fst (next_nonce (hs_nonce_seq s))\<rparr>, Ok (map (\<lambda>hp. encode (fst hp) (snd hp) []) pkts))"
proof -
  have "vh_version (sealed_header s encoded) = CURRENT_VERSION"
    by (simp add: sealed_header_def stream_header_def)
  note pk = encode_packets_packetized(1) [OF assms(4) this]
  show ?thesis
    using assms(1-3) pk assms(4)
    by (simp add: packetize_encoded_frame_def Let_def seal_video_frame_eq frame_ciphertext_def sealed_header_def
        frame_metadata_nonce from_be_nonce)
qed

end
