(* ===== verification/Client_Receiver.thy ===== *)
theory Client_Receiver
  imports Client_Render Transport_Reassembly Auth_Replay Protocol_Messages
begin

text \<open>
  \<open>apps/nexus-client/src/receiver.rs\<close>: the window of accepted nonces, the path of a datagram from the
  network to the newest authenticated frame, and the validated cursor messages.  ChaCha20-Poly1305 and
  the Protobuf decoders are arguments.
\<close>

section \<open>The nonce window\<close>

definition NONCE_REPLAY_WINDOW :: u64 where "NONCE_REPLAY_WINDOW = 4096"

record NonceReplayWindow =
  highest_sequence :: "u64 option"
  accepted_sequences :: "u64 set"

definition NonceReplayWindow_default :: NonceReplayWindow where
  "NonceReplayWindow_default = \<lparr>highest_sequence = None, accepted_sequences = {}\<rparr>"

definition commit_authenticated :: "NonceReplayWindow \<Rightarrow> u64 \<Rightarrow> NonceReplayWindow \<times> bool" where
  "commit_authenticated w sequence =
     (if sequence \<in> accepted_sequences w then (w, False)
      else if (case highest_sequence w of
                 Some highest \<Rightarrow> sequence \<le> highest \<and> highest - sequence \<ge> NONCE_REPLAY_WINDOW
               | None \<Rightarrow> False)
        then (w, False)
      else
        (let highest = (case highest_sequence w of None \<Rightarrow> sequence | Some known \<Rightarrow> max known sequence)
         in (w\<lparr>highest_sequence := Some highest,
               accepted_sequences :=
                 Set.filter (\<lambda>accepted. highest - accepted < NONCE_REPLAY_WINDOW)
                   (insert sequence (accepted_sequences w))\<rparr>, True)))"

section \<open>The receiver\<close>

definition CODEC_CONFIG_ID :: u32 where "CODEC_CONFIG_ID = 1"

record CursorPosition =
  cp_x :: i32
  cp_y :: i32
  cp_visible :: bool
  cp_shape_id :: u32

datatype ClientControlEvent = Cce_CursorPosition CursorPosition | Cce_CursorShape CursorShape

datatype 'd ClientReceiverError =
    Cr_Datagram VideoDatagramError | Cr_TrailingDatagramBytes | Cr_Reassembly ReassemblyError
  | Cr_Authentication AeadError | Cr_NonceReplay | Cr_Control "'d ControlMessageError"
  | Cr_CursorMonitor MonitorInfoError | Cr_CursorMonitorUnavailable | Cr_CursorOutOfBounds
  | Cr_CursorShape CursorShapeError

record ClientReceiver =
  cr_frame_key :: bytes
  cr_nonce_domain :: u32
  cr_reassembler :: VideoFrameReassembler
  cr_nonce_replay_window :: NonceReplayWindow
  cr_latest_frame :: "DecodedFrameJob option"
  cr_cursor_monitor :: "MonitorInfo option"

definition ClientReceiver_new :: "bytes \<Rightarrow> u32 \<Rightarrow> ClientReceiver" where
  "ClientReceiver_new frame_key nonce_domain =
     \<lparr>cr_frame_key = frame_key, cr_nonce_domain = nonce_domain,
      cr_reassembler = VideoFrameReassembler_default, cr_nonce_replay_window = NonceReplayWindow_default,
      cr_latest_frame = None, cr_cursor_monitor = None\<rparr>"

definition assembled_metadata :: "VideoPacketHeader \<Rightarrow> EncodedFrameMetadata" where
  "assembled_metadata header =
     \<lparr>md_protocol_version = ucast (vh_version header), md_channel = ucast (stream_id header),
      md_frame_id = frame_id header, md_codec_config_id = CODEC_CONFIG_ID,
      md_timestamp_us = timestamp_us header, md_keyframe = (vh_flags header AND KEYFRAME \<noteq> 0)\<rparr>"

definition frame_job :: "VideoPacketHeader \<Rightarrow> bytes \<Rightarrow> DecodedFrameJob" where
  "frame_job header access_unit =
     \<lparr>job_frame_id = frame_id header, job_timestamp_us = timestamp_us header,
      job_keyframe = (vh_flags header AND KEYFRAME \<noteq> 0), job_access_unit = access_unit\<rparr>"

text \<open>From the assembled frame on, lines 137 to 174.\<close>

definition accept_assembled ::
  "aead \<Rightarrow> ClientReceiver \<Rightarrow> AssembledFrame \<Rightarrow> ClientReceiver \<times> (unit, 'd ClientReceiverError) result" where
  "accept_assembled dec r assembled =
     (let header = af_header assembled;
          encrypted = \<lparr>ef_nonce = nonce_from_sequence (cr_nonce_domain r) (nonce_sequence header),
                       ef_ciphertext = af_payload assembled\<rparr>
      in case open_encoded_frame dec (cr_frame_key r) (assembled_metadata header) encrypted of
           Err e \<Rightarrow> (r, Err (Cr_Authentication e))
         | Ok access_unit \<Rightarrow>
             (case commit_authenticated (cr_nonce_replay_window r) (nonce_sequence header) of
                (window, False) \<Rightarrow> (r\<lparr>cr_nonce_replay_window := window\<rparr>, Err Cr_NonceReplay)
              | (window, True) \<Rightarrow>
                  (case commit_authenticated_frame (cr_reassembler r) (frame_id header) of
                     (reassembler, False) \<Rightarrow>
                       (r\<lparr>cr_nonce_replay_window := window, cr_reassembler := reassembler\<rparr>, Ok ())
                   | (reassembler, True) \<Rightarrow>
                       (r\<lparr>cr_nonce_replay_window := window, cr_reassembler := reassembler,
                          cr_latest_frame := Some (frame_job header access_unit)\<rparr>, Ok ()))))"

definition accept_datagram ::
  "aead \<Rightarrow> ClientReceiver \<Rightarrow> bytes \<Rightarrow> ClientReceiver \<times> (unit, 'd ClientReceiverError) result" where
  "accept_datagram dec r bs =
     (case decode_video_datagram bs of
        Err e \<Rightarrow> (r, Err (Cr_Datagram e))
      | Ok (header, payload) \<Rightarrow>
          if length bs \<noteq> HEADER_LEN + length payload then (r, Err Cr_TrailingDatagramBytes)
          else
            (case process_packet (cr_reassembler r) header payload of
               (reassembler, Err e) \<Rightarrow> (r\<lparr>cr_reassembler := reassembler\<rparr>, Err (Cr_Reassembly e))
             | (reassembler, Ok None) \<Rightarrow> (r\<lparr>cr_reassembler := reassembler\<rparr>, Ok ())
             | (reassembler, Ok (Some assembled)) \<Rightarrow>
                 accept_assembled dec (r\<lparr>cr_reassembler := reassembler\<rparr>) assembled))"

definition set_cursor_monitor ::
  "ClientReceiver \<Rightarrow> MonitorInfo \<Rightarrow> ClientReceiver \<times> (unit, 'd ClientReceiverError) result" where
  "set_cursor_monitor r monitor =
     (case MonitorInfo_validate monitor of
        Err e \<Rightarrow> (r, Err (Cr_CursorMonitor e))
      | Ok _ \<Rightarrow> (r\<lparr>cr_cursor_monitor := Some monitor\<rparr>, Ok ()))"

definition validate_cursor_position ::
  "ClientReceiver \<Rightarrow> CursorPosition \<Rightarrow> (CursorPosition, 'd ClientReceiverError) result" where
  "validate_cursor_position r cursor =
     and_then (ok_or Cr_CursorMonitorUnavailable (cr_cursor_monitor r)) (\<lambda>monitor.
       let x_end = sint (origin_x monitor) + uint (mon_width monitor);
           y_end = sint (origin_y monitor) + uint (mon_height monitor)
       in if sint (cp_x cursor) < sint (origin_x monitor) \<or> sint (cp_x cursor) \<ge> x_end
             \<or> sint (cp_y cursor) < sint (origin_y monitor) \<or> sint (cp_y cursor) \<ge> y_end
          then Err Cr_CursorOutOfBounds else Ok cursor)"

definition accept_control ::
  "(bytes \<Rightarrow> (CursorPosition, 'd) result) \<Rightarrow> ClientReceiver \<Rightarrow> bytes
     \<Rightarrow> (CursorPosition, 'd ClientReceiverError) result" where
  "accept_control position_decode r bs =
     and_then (map_err Cr_Control (decode_framed_control position_decode bs)) (validate_cursor_position r)"

definition accept_control_datagram ::
  "(bytes \<Rightarrow> (CursorPosition, 'd) result) \<Rightarrow> (bytes \<Rightarrow> (CursorShape, 'd) result) \<Rightarrow> ClientReceiver \<Rightarrow> bytes
     \<Rightarrow> (ClientControlEvent, 'd ClientReceiverError) result" where
  "accept_control_datagram position_decode shape_decode r bs =
     and_then (map_err Cr_Control (decode_framed_control_envelope bs)) (\<lambda>(kind, payload).
       case kind of
         Kind_CursorPosition \<Rightarrow>
           and_then (map_err Cr_Control (decode_control position_decode payload)) (\<lambda>cursor.
             map_ok Cce_CursorPosition (validate_cursor_position r cursor))
       | Kind_CursorShape \<Rightarrow>
           and_then (map_err Cr_Control (decode_control shape_decode payload)) (\<lambda>shape.
             and_then (map_err Cr_CursorShape (CursorShape_validate shape)) (\<lambda>_.
               Ok (Cce_CursorShape shape))))"

definition drain_latest_frame :: "ClientReceiver \<Rightarrow> ClientReceiver \<times> DecodedFrameJob option" where
  "drain_latest_frame r = (r\<lparr>cr_latest_frame := None\<rparr>, cr_latest_frame r)"

section \<open>Laws of the nonce window\<close>

definition window_inv :: "NonceReplayWindow \<Rightarrow> bool" where
  "window_inv w \<longleftrightarrow>
     (case highest_sequence w of
        None \<Rightarrow> accepted_sequences w = {}
      | Some h \<Rightarrow> \<forall>a \<in> accepted_sequences w. a \<le> h \<and> h - a < NONCE_REPLAY_WINDOW)"

text \<open>The sequences that the window refuses.\<close>

definition refused :: "NonceReplayWindow \<Rightarrow> u64 set" where
  "refused w =
     accepted_sequences w \<union>
     (case highest_sequence w of None \<Rightarrow> {} | Some h \<Rightarrow> {s. s \<le> h \<and> NONCE_REPLAY_WINDOW \<le> h - s})"

lemma commit_authenticated_iff: "snd (commit_authenticated w s) \<longleftrightarrow> s \<notin> refused w"
  by (auto simp: commit_authenticated_def refused_def Let_def split: option.splits)

lemma word_diff_mono: "\<lbrakk>a \<le> h; h \<le> (h' :: u64)\<rbrakk> \<Longrightarrow> h - a \<le> h' - a"
  by (simp add: word_le_nat_alt unat_sub)

lemma commit_window_inv: "window_inv w \<Longrightarrow> window_inv (fst (commit_authenticated w s))"
  by (auto simp: commit_authenticated_def window_inv_def Let_def max_def split: option.splits)

lemma commit_refused_mono:
  assumes "window_inv w"
  shows "refused w \<subseteq> refused (fst (commit_authenticated w s))"
proof
  fix x assume x: "x \<in> refused w"
  show "x \<in> refused (fst (commit_authenticated w s))"
  proof (cases "highest_sequence w")
    case None
    with x assms show ?thesis by (simp add: refused_def window_inv_def)
  next
    case (Some h)
    have "x \<le> h" using x assms Some by (auto simp: refused_def window_inv_def)
    with x Some show ?thesis
      using word_diff_mono [of x h "max h s"]
      by (auto simp: commit_authenticated_def refused_def Let_def not_less max_def intro: order_trans)
  qed
qed

lemma commit_refused_new:
  assumes "snd (commit_authenticated w s)"
  shows "s \<in> refused (fst (commit_authenticated w s))"
  using assms
  by (auto simp: commit_authenticated_def refused_def Let_def max_def not_less not_le NONCE_REPLAY_WINDOW_def
      split: option.splits if_splits)

lemma commit_keeps_if_refused: "\<not> snd (commit_authenticated w s) \<Longrightarrow> fst (commit_authenticated w s) = w"
  by (auto simp: commit_authenticated_def Let_def split: if_splits)

interpretation nonce_window: once_guard commit_authenticated "\<lambda>s ok. if ok then Some s else None" refused
    "\<lambda>_. True" window_inv
  using commit_refused_mono
  by unfold_locales (auto simp: commit_window_inv commit_authenticated_iff commit_refused_new split: if_splits)

section \<open>Laws of the receiver\<close>

text \<open>One round of the receive loop: a datagram is accepted and the newest frame is taken out.\<close>

definition receive_step ::
  "aead \<Rightarrow> ClientReceiver \<Rightarrow> bytes \<Rightarrow> ClientReceiver \<times> (unit, 'd ClientReceiverError) result \<times> DecodedFrameJob option" where
  "receive_step dec r bs =
     (let (r', res) = accept_datagram dec r bs; (r'', job) = drain_latest_frame r' in (r'', res, job))"

definition receiver_inv :: "bytes \<Rightarrow> u32 \<Rightarrow> ClientReceiver \<Rightarrow> bool" where
  "receiver_inv key domain r \<longleftrightarrow>
     cr_frame_key r = key \<and> cr_nonce_domain r = domain \<and> cr_latest_frame r = None
     \<and> reasm_inv (cr_reassembler r) \<and> window_inv (cr_nonce_replay_window r)"

definition job_metadata :: "u32 \<Rightarrow> u32 \<Rightarrow> DecodedFrameJob \<Rightarrow> EncodedFrameMetadata" where
  "job_metadata version channel job =
     \<lparr>md_protocol_version = version, md_channel = channel, md_frame_id = job_frame_id job,
      md_codec_config_id = CODEC_CONFIG_ID, md_timestamp_us = job_timestamp_us job, md_keyframe = job_keyframe job\<rparr>"

lemma receiver_inv_new: "receiver_inv key domain (ClientReceiver_new key domain)"
  by (simp add: receiver_inv_def ClientReceiver_new_def VideoFrameReassembler_default_def reasm_inv_new
      window_inv_def NonceReplayWindow_default_def)

lemma reasm_rank_cong:
  "last_authenticated_frame_id r = last_authenticated_frame_id r' \<Longrightarrow> reasm_rank r = reasm_rank r'"
  by (simp add: reasm_rank_def)

text \<open>What a delivered frame is: fresh, and opened under the session key with the metadata it is delivered with.\<close>

definition delivered_ok :: "aead \<Rightarrow> bytes \<Rightarrow> u32 \<Rightarrow> ClientReceiver \<Rightarrow> ClientReceiver \<Rightarrow> DecodedFrameJob \<Rightarrow> bool" where
  "delivered_ok dec key domain r r' job \<longleftrightarrow>
     reasm_rank (cr_reassembler r) \<le> unat (job_frame_id job)
     \<and> unat (job_frame_id job) < reasm_rank (cr_reassembler r')
     \<and> (\<exists>n version channel c.
          dec key (nonce_from_sequence domain n) (aad (job_metadata version channel job)) c = Some (job_access_unit job))"

definition round_ok :: "aead \<Rightarrow> bytes \<Rightarrow> u32 \<Rightarrow> ClientReceiver \<Rightarrow> ClientReceiver \<Rightarrow> bool" where
  "round_ok dec key domain r r' \<longleftrightarrow>
     receiver_inv key domain (r'\<lparr>cr_latest_frame := None\<rparr>)
     \<and> reasm_rank (cr_reassembler r) \<le> reasm_rank (cr_reassembler r')
     \<and> (case cr_latest_frame r' of Some job \<Rightarrow> delivered_ok dec key domain r r' job | None \<Rightarrow> True)"

lemma accept_assembled_round:
  assumes "receiver_inv key domain r"
  shows "round_ok dec key domain r (fst (accept_assembled dec r assembled :: _ \<times> (unit, 'd ClientReceiverError) result))"
    (is "round_ok _ _ _ _ ?r'")
proof -
  let ?h = "af_header assembled"
  let ?enc = "\<lparr>ef_nonce = nonce_from_sequence (cr_nonce_domain r) (nonce_sequence ?h), ef_ciphertext = af_payload assembled\<rparr>"
  let ?W = "commit_authenticated (cr_nonce_replay_window r) (nonce_sequence ?h)"
  let ?F = "commit_authenticated_frame (cr_reassembler r) (frame_id ?h)"
  note inv = assms [unfolded receiver_inv_def]
  have w: "window_inv (fst ?W)" using inv commit_window_inv by blast
  have f: "reasm_inv (fst ?F)" using inv commit_inv by blast
  have rank: "reasm_rank (cr_reassembler r) \<le> reasm_rank (fst ?F)"
    "snd ?F \<Longrightarrow> reasm_rank (fst ?F) = Suc (unat (frame_id ?h)) \<and> reasm_rank (cr_reassembler r) \<le> unat (frame_id ?h)"
    by (auto simp: reasm_rank_def [of "fst _"] commit_sel) (auto simp: reasm_rank_def)
  have eq: "?r' = (case open_encoded_frame dec key (assembled_metadata ?h) ?enc of
      Err e \<Rightarrow> r
    | Ok access_unit \<Rightarrow>
        if \<not> snd ?W then r\<lparr>cr_nonce_replay_window := fst ?W\<rparr>
        else if \<not> snd ?F then r\<lparr>cr_nonce_replay_window := fst ?W, cr_reassembler := fst ?F\<rparr>
        else r\<lparr>cr_nonce_replay_window := fst ?W, cr_reassembler := fst ?F,
               cr_latest_frame := Some (frame_job ?h access_unit)\<rparr>)"
    using inv by (auto simp: accept_assembled_def Let_def split: result.splits prod.splits bool.splits)
  have deliver: "delivered_ok dec key domain r (r\<lparr>cr_nonce_replay_window := fst ?W, cr_reassembler := fst ?F,
      cr_latest_frame := Some (frame_job ?h au)\<rparr>) (frame_job ?h au)"
    if au: "open_encoded_frame dec key (assembled_metadata ?h) ?enc = Ok au" and "snd ?F" for au
  proof -
    have md: "job_metadata (ucast (vh_version ?h)) (ucast (stream_id ?h)) (frame_job ?h au) = assembled_metadata ?h"
      by (simp add: job_metadata_def assembled_metadata_def frame_job_def)
    have "dec key (nonce_from_sequence domain (nonce_sequence ?h))
        (aad (job_metadata (ucast (vh_version ?h)) (ucast (stream_id ?h)) (frame_job ?h au))) (af_payload assembled)
        = Some (job_access_unit (frame_job ?h au))"
      unfolding md using au inv
      by (simp add: open_encoded_frame_def open_session_payload_def res_simps frame_job_def)
    moreover have "reasm_rank (cr_reassembler r) \<le> unat (job_frame_id (frame_job ?h au))"
      "unat (job_frame_id (frame_job ?h au)) < reasm_rank (fst ?F)"
      using rank(2) [OF that(2)] by (simp_all add: frame_job_def)
    ultimately show ?thesis by (auto simp: delivered_ok_def)
  qed
  show ?thesis
    using inv w f rank(1) deliver by (auto simp: eq round_ok_def receiver_inv_def split: result.splits)
qed

lemma accept_datagram_round:
  assumes "receiver_inv key domain r"
  shows "round_ok dec key domain r (fst (accept_datagram dec r bs :: _ \<times> (unit, 'd ClientReceiverError) result))"
proof -
  note inv = assms [unfolded receiver_inv_def]
  have step: "receiver_inv key domain (r\<lparr>cr_reassembler := fst (process_packet (cr_reassembler r) h p)\<rparr>)"
      "reasm_rank (fst (process_packet (cr_reassembler r) h p)) = reasm_rank (cr_reassembler r)" for h p
    using inv process_packet_inv [of "cr_reassembler r" h p]
    by (simp_all add: receiver_inv_def reasm_rank_cong [OF process_packet_sel(3)])
  have quiet: "round_ok dec key domain r r" "round_ok dec key domain r (r\<lparr>cr_reassembler := ra\<rparr>)"
    if "process_packet (cr_reassembler r) h p = (ra, res)" for ra h p res
    using assms inv step [of h p] that by (auto simp: round_ok_def receiver_inv_def)
  have loud: "round_ok dec key domain r
      (fst (accept_assembled dec (r\<lparr>cr_reassembler := ra\<rparr>) af :: _ \<times> (unit, 'd ClientReceiverError) result))"
    if "process_packet (cr_reassembler r) h p = (ra, res)" for ra h p res af
    using accept_assembled_round [of key domain "r\<lparr>cr_reassembler := ra\<rparr>" dec af, where 'd = 'd] step [of h p] that
    by (auto simp: round_ok_def delivered_ok_def split: option.splits)
  have "round_ok dec key domain r r" using assms inv by (simp add: round_ok_def receiver_inv_def)
  then show ?thesis
    using quiet loud by (auto simp: accept_datagram_def split: result.splits prod.splits option.splits)
qed

lemma receive_step_eq:
  "receive_step dec r bs =
     (let st = (accept_datagram dec r bs :: _ \<times> (unit, 'd ClientReceiverError) result)
      in ((fst st)\<lparr>cr_latest_frame := None\<rparr>, snd st, cr_latest_frame (fst st)))"
  by (simp add: receive_step_def drain_latest_frame_def case_prod_beta Let_def)

definition delivered_number :: "(unit, 'd ClientReceiverError) result \<times> DecodedFrameJob option \<Rightarrow> nat option" where
  "delivered_number out = map_option (\<lambda>job. unat (job_frame_id job)) (snd out)"

interpretation receiver: emitting_machine
    "receive_step dec :: _ \<Rightarrow> _ \<Rightarrow> _ \<times> (unit, 'd ClientReceiverError) result \<times> DecodedFrameJob option"
    "receiver_inv key domain" "\<lambda>r. reasm_rank (cr_reassembler r)" delivered_number
  for dec key domain
proof unfold_locales
  fix r :: ClientReceiver and bs assume r: "receiver_inv key domain r"
  note round = accept_datagram_round [OF r, of dec bs, where 'd = 'd, unfolded round_ok_def]
  let ?st = "receive_step dec r bs :: _ \<times> (unit, 'd ClientReceiverError) result \<times> _"
  show "receiver_inv key domain (fst ?st)" "reasm_rank (cr_reassembler r) \<le> reasm_rank (cr_reassembler (fst ?st))"
    using round by (simp_all add: receive_step_eq Let_def)
  fix n assume "delivered_number (snd ?st) = Some n"
  with round show "reasm_rank (cr_reassembler r) \<le> n" "n < reasm_rank (cr_reassembler (fst ?st))"
    by (auto simp: receive_step_eq Let_def delivered_number_def delivered_ok_def)
qed

lemma map_filter_delivered:
  "List.map_filter delivered_number outs = map (\<lambda>job. unat (job_frame_id job)) (List.map_filter snd outs)"
  by (induction outs) (auto simp: List.map_filter_simps delivered_number_def split: option.splits)

lemma received_authentic:
  assumes "receiver_inv key domain r"
    and "job \<in> set (List.map_filter snd (snd (run_ops (receive_step dec) r dgrams
           :: _ \<times> ((unit, 'd ClientReceiverError) result \<times> _) list)))"
  shows "\<exists>n version channel c.
    dec key (nonce_from_sequence domain n) (aad (job_metadata version channel job)) c = Some (job_access_unit job)"
  using assms
proof (induction dgrams arbitrary: r)
  case (Cons bs dgrams)
  note round = accept_datagram_round [OF Cons.prems(1), of dec bs, where 'd = 'd, unfolded round_ok_def]
  show ?case
    using Cons.prems(2) round Cons.IH [OF receiver.step_inv [OF Cons.prems(1), of dec bs, where 'd = 'd]]
    by (auto simp: List.map_filter_simps receive_step_eq Let_def delivered_ok_def simp del: run_ops.simps(2)
        split: option.splits)
qed (simp add: List.map_filter_simps)

lemma run_commit_window:
  assumes "window_inv w"
  shows "window_inv (fst (run_ops commit_authenticated w seqs))"
    and "refused w \<subseteq> refused (fst (run_ops commit_authenticated w seqs))"
  using assms
proof (induction seqs arbitrary: w)
  case (Cons s seqs)
  { case 1 then show ?case using Cons.IH(1) [OF commit_window_inv] by (simp del: run_ops.simps(2)) }
  { case 2 then show ?case
      using Cons.IH(2) [OF commit_window_inv] commit_refused_mono by (simp del: run_ops.simps(2)) blast }
qed simp_all

text \<open>What the window refuses after any history: the accepted sequences and everything too old.\<close>

definition accepted_of :: "u64 list \<Rightarrow> bool list \<Rightarrow> u64 set" where
  "accepted_of seqs oks = {s. (s, True) \<in> set (zip seqs oks)}"

lemma accepted_of_Cons [simp]:
  "accepted_of (s # seqs) (ok # oks) = (if ok then insert s (accepted_of seqs oks) else accepted_of seqs oks)"
  by (auto simp: accepted_of_def)

definition too_old :: "NonceReplayWindow \<Rightarrow> u64 \<Rightarrow> bool" where
  "too_old w s \<longleftrightarrow> (case highest_sequence w of None \<Rightarrow> False | Some h \<Rightarrow> s \<le> h \<and> NONCE_REPLAY_WINDOW \<le> h - s)"

lemma refused_eq: "refused w = accepted_sequences w \<union> {s. too_old w s}"
  by (auto simp: refused_def too_old_def split: option.splits)

lemma too_old_mono:
  assumes "too_old w s"
  shows "too_old (fst (commit_authenticated w q)) s"
proof -
  obtain h where h: "highest_sequence w = Some h" "s \<le> h" "NONCE_REPLAY_WINDOW \<le> h - s"
    using assms by (auto simp: too_old_def split: option.splits)
  then show ?thesis
    using word_diff_mono [of s h "max h q"]
    by (auto simp: commit_authenticated_def too_old_def Let_def max_def intro: order_trans)
qed

lemma refused_commit:
  assumes "window_inv w"
  shows "refused (fst (commit_authenticated w q)) =
    refused w \<union> (if snd (commit_authenticated w q) then {q} else {}) \<union> {s. too_old (fst (commit_authenticated w q)) s}"
proof (cases "snd (commit_authenticated w q)")
  case True
  have "accepted_sequences (fst (commit_authenticated w q)) \<subseteq> insert q (accepted_sequences w)"
    by (auto simp: commit_authenticated_def Let_def)
  then have "refused (fst (commit_authenticated w q)) \<subseteq>
      insert q (refused w) \<union> {s. too_old (fst (commit_authenticated w q)) s}"
    by (auto simp: refused_eq)
  then show ?thesis
    using True commit_refused_mono [OF assms, of q] commit_refused_new [OF True]
    by (auto simp: refused_eq [of "fst _"])
next
  case False
  then show ?thesis
    by (auto simp: commit_keeps_if_refused refused_eq)
qed

lemma refused_run:
  assumes "window_inv w"
  shows "refused (fst (run_ops commit_authenticated w seqs)) =
    refused w \<union> accepted_of seqs (snd (run_ops commit_authenticated w seqs))
    \<union> {s. too_old (fst (run_ops commit_authenticated w seqs)) s}"
  using assms
proof (induction seqs arbitrary: w)
  case Nil
  then show ?case by (auto simp: accepted_of_def refused_eq)
next
  case (Cons q seqs)
  let ?w = "fst (commit_authenticated w q)"
  have mono: "too_old ?w s \<Longrightarrow> too_old (fst (run_ops commit_authenticated ?w seqs)) s" for s
    by (induction seqs arbitrary: w q) (simp_all add: too_old_mono del: run_ops.simps(2))
  show ?case
    using Cons.IH [OF commit_window_inv [OF Cons.prems, of q]] refused_commit [OF Cons.prems, of q] mono
    by (auto simp del: run_ops.simps(2))
qed

lemma accepted_of_snoc:
  "length seqs = length oks \<Longrightarrow>
     accepted_of (seqs @ [q]) (oks @ [ok]) = accepted_of seqs oks \<union> (if ok then {q} else {})"
  by (auto simp: accepted_of_def)

lemma highest_run:
  defines "st \<equiv> \<lambda>seqs. run_ops commit_authenticated NonceReplayWindow_default seqs"
  shows "highest_sequence (fst (st seqs)) =
    (if accepted_of seqs (snd (st seqs)) = {} then None else Some (Max (accepted_of seqs (snd (st seqs)))))"
proof (induction seqs rule: rev_induct)
  case Nil
  show ?case by (simp add: st_def accepted_of_def NonceReplayWindow_default_def)
next
  case (snoc q seqs)
  let ?w = "fst (st seqs)" and ?A = "accepted_of seqs (snd (st seqs))"
  have run: "st (seqs @ [q]) = (fst (commit_authenticated ?w q), snd (st seqs) @ [snd (commit_authenticated ?w q)])"
    by (simp add: st_def run_ops_append case_prod_beta Let_def)
  have A: "accepted_of (seqs @ [q]) (snd (st (seqs @ [q]))) = ?A \<union> (if snd (commit_authenticated ?w q) then {q} else {})"
    unfolding run by (simp add: accepted_of_snoc st_def)
  have fst_run: "fst (st (seqs @ [q])) = fst (commit_authenticated ?w q)" by (simp add: run)
  have fin: "finite ?A" by simp
  show ?case
  proof (cases "snd (commit_authenticated ?w q)")
    case True
    then have "highest_sequence (fst (commit_authenticated ?w q)) =
        Some (case highest_sequence ?w of None \<Rightarrow> q | Some k \<Rightarrow> max k q)"
      by (auto simp: commit_authenticated_def Let_def split: if_splits)
    then show ?thesis
      unfolding A fst_run using True snoc.IH fin by (auto simp: max.commute)
  next
    case False
    then show ?thesis
      unfolding A fst_run using snoc.IH by (simp add: commit_keeps_if_refused)
  qed
qed

lemma window_card:
  assumes "window_inv w"
  shows "card (accepted_sequences w) \<le> 4096"
proof (cases "highest_sequence w")
  case None
  with assms show ?thesis by (simp add: window_inv_def)
next
  case (Some h)
  have "a \<in> (\<lambda>k. h - of_nat k) ` {..<4096}" if "a \<in> accepted_sequences w" for a
  proof (rule image_eqI [of _ _ "unat (h - a)"])
    show "a = h - of_nat (unat (h - a))" by simp
    show "unat (h - a) \<in> {..<4096}"
      using assms that Some by (auto simp: window_inv_def NONCE_REPLAY_WINDOW_def word_less_nat_alt)
  qed
  then have "accepted_sequences w \<subseteq> (\<lambda>k. h - of_nat k) ` {..<4096}" by blast
  then have "card (accepted_sequences w) \<le> card ((\<lambda>k. h - of_nat k) ` {..<4096})"
    by (rule card_mono [rotated]) simp
  also have "\<dots> \<le> card {..<4096 :: nat}" by (rule card_image_le) simp
  finally show ?thesis by simp
qed

section \<open>Properties\<close>

text \<open>
  C12: the nonce window is exact.  After any history of authenticated sequence numbers a further one
  is accepted if and only if it was not accepted before and is less than 4096 behind the highest
  accepted one; the highest is the maximum of the accepted numbers, and the window never holds more
  than 4096 of them.
\<close>

theorem nonce_window_exact:
  fixes seqs
  defines "w \<equiv> fst (run_ops commit_authenticated NonceReplayWindow_default seqs)"
    and "acc \<equiv> accepted_of seqs (snd (run_ops commit_authenticated NonceReplayWindow_default seqs))"
  shows "(snd (commit_authenticated w s) \<longleftrightarrow> s \<notin> acc \<and> (acc = {} \<or> Max acc < s \<or> Max acc - s < 4096))
    \<and> highest_sequence w = (if acc = {} then None else Some (Max acc))
    \<and> card (accepted_sequences w) \<le> 4096"
proof -
  have inv: "window_inv NonceReplayWindow_default" "refused NonceReplayWindow_default = {}"
    by (simp_all add: window_inv_def refused_def NonceReplayWindow_default_def)
  have h: "highest_sequence w = (if acc = {} then None else Some (Max acc))"
    unfolding w_def acc_def by (rule highest_run)
  have "snd (commit_authenticated w s) \<longleftrightarrow> s \<notin> acc \<and> \<not> too_old w s"
    using refused_run [OF inv(1), of seqs] inv(2) by (simp add: commit_authenticated_iff w_def acc_def)
  moreover have "too_old w s \<longleftrightarrow> \<not> (acc = {} \<or> Max acc < s \<or> Max acc - s < 4096)"
    by (auto simp: too_old_def h NONCE_REPLAY_WINDOW_def not_less not_le)
  moreover have "card (accepted_sequences w) \<le> 4096"
    unfolding w_def by (rule window_card [OF run_commit_window(1) [OF inv(1)]])
  ultimately show ?thesis using h by blast
qed

text \<open>What the receiver relies on: the AEAD opens under a key only what was sealed under it.\<close>

definition aead_authentic :: "aead \<Rightarrow> bytes \<Rightarrow> (bytes \<times> bytes \<times> bytes) set \<Rightarrow> bool" where
  "aead_authentic dec key sealed \<longleftrightarrow> (\<forall>n a c p. dec key n a c = Some p \<longrightarrow> (n, a, p) \<in> sealed)"

text \<open>
  C11: the viewer shows only what the host sealed, in order and once.  Provided the AEAD opens only
  what was sealed under the session key, every frame handed to the decoder after any sequence of
  datagrams, hostile ones included, is a sealed frame with exactly the frame number, timestamp and
  keyframe mark it is delivered with, and the numbers of the delivered frames strictly increase.
\<close>

theorem viewer_shows_only_sealed_frames:
  fixes dec :: aead and domain :: u32 and dgrams :: "bytes list"
  assumes "aead_authentic dec key sealed"
  defines "jobs \<equiv> List.map_filter snd (snd (run_ops (receive_step dec) (ClientReceiver_new key domain) dgrams
    :: _ \<times> ((unit, 'd ClientReceiverError) result \<times> _) list))"
  shows "sorted_wrt (<) (map (\<lambda>job. unat (job_frame_id job)) jobs)
    \<and> (\<forall>job \<in> set jobs. \<exists>n version channel.
         (nonce_from_sequence domain n, aad (job_metadata version channel job), job_access_unit job) \<in> sealed)"
proof (intro conjI ballI)
  show "sorted_wrt (<) (map (\<lambda>job. unat (job_frame_id job)) jobs)"
    using receiver.emitted_strictly_increasing [OF receiver_inv_new, where key = key and domain = domain and dec = dec
        and ops = dgrams and 'd = 'd]
    by (simp add: jobs_def map_filter_delivered)
  fix job assume "job \<in> set jobs"
  then show "\<exists>n version channel.
      (nonce_from_sequence domain n, aad (job_metadata version channel job), job_access_unit job) \<in> sealed"
    using received_authentic [OF receiver_inv_new, where job = job and dec = dec and dgrams = dgrams and key = key
        and domain = domain and 'd = 'd] assms(1)
    unfolding jobs_def aead_authentic_def by blast
qed

text \<open>A frame in one packet, sealed and opened by a toy cipher that knows it.\<close>

definition example_packet :: VideoPacketHeader where
  "example_packet = \<lparr>vh_version = 2, vh_flags = 7, stream_id = 1, frame_id = 3, packet_id = 0, packet_count = 1,
     timestamp_us = 99, nonce_sequence = 5, payload_len = 2\<rparr>"

definition example_open :: aead where
  "example_open k n a c =
     (if n = nonce_from_sequence 1 5 \<and> a = aad (assembled_metadata example_packet) \<and> c = [8, 8] then Some [1, 2, 3] else None)"

lemma example_receive:
  "receive_step example_open (ClientReceiver_new key 1) (encode example_packet [8, 8] []) =
     (((ClientReceiver_new key 1)\<lparr>cr_nonce_replay_window := \<lparr>highest_sequence = Some 5, accepted_sequences = {5}\<rparr>,
         cr_reassembler := VideoFrameReassembler_default\<lparr>last_authenticated_frame_id := Some 3\<rparr>\<rparr>),
      Ok (), Some \<lparr>job_frame_id = 3, job_timestamp_us = 99, job_keyframe = True, job_access_unit = [1, 2, 3]\<rparr>)"
proof -
  have dg: "decode_video_datagram (encode example_packet [8, 8] []) = Ok (example_packet, [8, 8])"
    using decode_encode [of example_packet "[8, 8]" "[]"]
    by (simp add: decode_video_datagram_def packet_ok_def example_packet_def CURRENT_VERSION_def MAX_PAYLOAD_LEN_def
        MAX_VIDEO_DATAGRAM_SIZE_def) (simp add: encode_def HEADER_LEN_def)
  have len: "length (encode example_packet [8, 8] []) = HEADER_LEN + 2"
    by (simp add: encode_def)
  have "process_packet VideoFrameReassembler_default example_packet [8, 8] =
      (VideoFrameReassembler_default, Ok (Some \<lparr>af_header = example_packet, af_payload = [8, 8], assembled_len = 2\<rparr>))"
    by (simp add: process_packet_def check_fragment_def example_packet_def MAX_PACKETS_PER_FRAME_def FRAME_START_def
        FRAME_END_def VideoFrameReassembler_default_def VideoFrameReassembler_new_def MAX_FRAME_PAYLOAD_SIZE_def)
  then show ?thesis
    by (simp add: receive_step_eq accept_datagram_def dg len accept_assembled_def Let_def ClientReceiver_new_def
        open_encoded_frame_def open_session_payload_def example_open_def commit_authenticated_def
        commit_authenticated_frame_def prune_stale_before_def frame_job_def VideoFrameReassembler_default_def
        VideoFrameReassembler_new_def NonceReplayWindow_default_def NONCE_REPLAY_WINDOW_def
        cong: if_cong)
       (auto simp: example_packet_def KEYFRAME_def)
qed

theorem viewer_shows_only_sealed_frames_witness:
  "\<exists>job. List.map_filter snd (snd (run_ops (receive_step example_open) (ClientReceiver_new [] 1)
        [encode example_packet [8, 8] []] :: _ \<times> ((unit, unit ClientReceiverError) result \<times> _) list)) = [job]
     \<and> (\<exists>n version channel. (nonce_from_sequence 1 n, aad (job_metadata version channel job), job_access_unit job)
          \<in> {(nonce_from_sequence 1 5, aad (assembled_metadata example_packet), [1, 2, 3])})"
proof -
  have "aead_authentic example_open [] {(nonce_from_sequence 1 5, aad (assembled_metadata example_packet), [1, 2, 3])}"
    by (auto simp: aead_authentic_def example_open_def split: if_splits)
  from viewer_shows_only_sealed_frames [OF this, of 1 "[encode example_packet [8, 8] []]", where 'd = unit]
  show ?thesis
    by (simp add: example_receive List.map_filter_simps)
qed

end
