(* ===== verification/Media_Pipeline.thy ===== *)
theory Media_Pipeline
  imports Desktop_Host Client_Receiver
begin

text \<open>
  The video path from one end to the other: \<open>HostVideoStreamer\<close> (\<open>apps/nexus-desktop-host\<close>), the
  datagrams on the network, and \<open>ClientReceiver\<close> (\<open>apps/nexus-client\<close>).  The network may reorder and
  repeat the datagrams of a frame.
\<close>

section \<open>Lists that cover a set\<close>

lemma covering_split:
  assumes "set is = A" "A \<noteq> {}"
  shows "\<exists>order k late. is = order @ k # late \<and> k \<notin> set order \<and> set order \<union> {k} = A \<and> set late \<subseteq> A"
  using assms
proof (induction "is" rule: rev_induct)
  case (snoc x xs)
  show ?case
  proof (cases "x \<in> set xs")
    case True
    then have "set xs = A" using snoc.prems(1) by (simp add: insert_absorb)
    from snoc.IH [OF this snoc.prems(2)] obtain order k late
      where "xs = order @ k # late" "k \<notin> set order" "set order \<union> {k} = A" "set late \<subseteq> A" by blast
    moreover have "x \<in> A" using snoc.prems(1) by auto
    ultimately show ?thesis by (intro exI [of _ order] exI [of _ k] exI [of _ "late @ [x]"]) simp
  next
    case False
    then show ?thesis using snoc.prems(1) by (intro exI [of _ xs] exI [of _ x] exI [of _ "[]"]) simp
  qed
qed simp

lemma covering_indices:
  assumes "set ds = set dgs" "distinct dgs"
  shows "\<exists>is. ds = map ((!) dgs) is \<and> set is = {..<length dgs}"
proof -
  have "\<forall>d \<in> set ds. \<exists>i < length dgs. dgs ! i = d" using assms(1) by (simp add: in_set_conv_nth)
  then obtain f where f: "\<And>d. d \<in> set ds \<Longrightarrow> f d < length dgs \<and> dgs ! f d = d" by metis
  have "map ((!) dgs) (map f ds) = ds"
    using f by (simp add: map_idI)
  moreover have "set (map f ds) = {..<length dgs}"
  proof (intro equalityI subsetI)
    fix i assume "i \<in> {..<length dgs}"
    then have i: "i < length dgs" "dgs ! i \<in> set ds" using assms(1) by auto
    then have "f (dgs ! i) = i" using f [OF i(2)] nth_eq_iff_index_eq [OF assms(2)] i(1) by blast
    then show "i \<in> set (map f ds)" using i(2) by force
  qed (use f in auto)
  ultimately show ?thesis by metis
qed

section \<open>Fragments at the receiver\<close>

lemma process_packet_other:
  assumes "bt_invar (frames r)" "fid \<noteq> frame_id h" "bt_get (frames r) fid = None"
  shows "bt_get (frames (fst (process_packet r h p))) fid = None"
proof -
  let ?e = "evict_oldest r (frame_id h)"
  have e: "bt_invar (frames ?e)" "bt_get (frames ?e) fid = None"
    using evict_oldest_invar [OF assms(1)] evict_oldest_get [OF assms(1), of "frame_id h" fid] assms(3)
    by (auto intro: option.exhaust)
  have "bt_get (frames (put_frame (frame_id h) f ?e)) fid = None" for f
    using e assms(2) by (simp add: put_frame_def bt_get_insert)
  moreover have "bt_get (frames (remove_frame (frame_id h) (put_frame (frame_id h) f ?e))) fid = None" for f
    using e assms(2) by (simp add: remove_put_frame(1))
  ultimately show ?thesis
    using assms(3) by (simp add: process_packet_def Let_def split: result.splits option.splits)
qed

lemma process_packet_stale:
  assumes "check_fragment h p = Ok ()" "\<not> not_stale r (frame_id h)"
  shows "process_packet r h p = (r, Ok None)"
  using assms by (simp add: process_packet_def not_stale_def not_less split: option.splits)

text \<open>The datagrams of the fragments \<open>pkts\<close>.\<close>

definition datagrams :: "(VideoPacketHeader \<times> bytes) list \<Rightarrow> bytes list" where
  "datagrams pkts = map (\<lambda>hp. encode (fst hp) (snd hp) []) pkts"

lemma length_datagrams [simp]: "length (datagrams pkts) = length pkts"
  by (simp add: datagrams_def)

lemma distinct_datagrams:
  assumes "packetize_video_frame base payload chunk_size = Ok pkts" "vh_version base = CURRENT_VERSION"
  shows "distinct (datagrams pkts)"
proof -
  have fr: "fragments base payload pkts" by (rule packetize_fragments [OF assms(1)])
  have "i = j" if "i < length pkts" "j < length pkts" "datagrams pkts ! i = datagrams pkts ! j" for i j
  proof -
    have "Ok (pkts ! i) = decode_video_datagram (datagrams pkts ! i)"
      by (simp only: datagrams_def nth_map [OF that(1)] encode_packets_packetized(2) [OF assms that(1)])
    also have "\<dots> = Ok (pkts ! j)"
      unfolding that(3) by (simp only: datagrams_def nth_map [OF that(2)] encode_packets_packetized(2) [OF assms that(2)])
    finally have "pkts ! i = pkts ! j" by simp
    then show ?thesis
      using fragments_packet_index(1) [OF fr that(1)] fragments_packet_index(1) [OF fr that(2)] by metis
  qed
  then show ?thesis unfolding distinct_conv_nth length_datagrams by blast
qed

lemma accept_fragment:
  assumes "packetize_video_frame base payload chunk_size = Ok pkts" "vh_version base = CURRENT_VERSION"
    and "i < length pkts"
  shows "(accept_datagram dec r (datagrams pkts ! i) :: _ \<times> (unit, 'd ClientReceiverError) result) =
    (case feed pkts (cr_reassembler r) i of
       (ra, Err e) \<Rightarrow> (r\<lparr>cr_reassembler := ra\<rparr>, Err (Cr_Reassembly e))
     | (ra, Ok None) \<Rightarrow> (r\<lparr>cr_reassembler := ra\<rparr>, Ok ())
     | (ra, Ok (Some assembled)) \<Rightarrow> accept_assembled dec (r\<lparr>cr_reassembler := ra\<rparr>) assembled)"
proof -
  obtain h p where hp: "pkts ! i = (h, p)" by (cases "pkts ! i")
  have "datagrams pkts ! i = encode h p []" using assms(3) hp by (simp add: datagrams_def)
  moreover have "decode_video_datagram (encode h p []) = Ok (h, p)"
    using encode_packets_packetized(2) [OF assms] hp by simp
  moreover have "length (encode h p []) = HEADER_LEN + length p" by (simp add: encode_def)
  ultimately show ?thesis by (simp add: accept_datagram_def feed_def hp)
qed

lemma receive_quiet:
  assumes "packetize_video_frame base payload chunk_size = Ok pkts" "vh_version base = CURRENT_VERSION"
    and "set is \<subseteq> {..<length pkts}" "cr_latest_frame r = None"
    and "snd (run_ops (feed pkts) (cr_reassembler r) is) = replicate (length is) (Ok None)"
  shows "run_ops (receive_step dec) r (map ((!) (datagrams pkts)) is) =
    (r\<lparr>cr_reassembler := fst (run_ops (feed pkts) (cr_reassembler r) is)\<rparr>,
     replicate (length is) (Ok () :: (unit, 'd ClientReceiverError) result, None))"
  using assms(3-5)
proof (induction "is" arbitrary: r)
  case (Cons i "is")
  obtain ra where f: "feed pkts (cr_reassembler r) i = (ra, Ok None)"
    using Cons.prems(3) by (cases "feed pkts (cr_reassembler r) i") (simp del: run_ops.simps(2))
  have step: "receive_step dec r (datagrams pkts ! i) =
      (r\<lparr>cr_reassembler := ra\<rparr>, Ok () :: (unit, 'd ClientReceiverError) result, None)"
    using accept_fragment [OF assms(1,2), of i dec r, where 'd = 'd] Cons.prems(1,2)
    by (simp add: receive_step_eq f Let_def)
  have "run_ops (receive_step dec) (r\<lparr>cr_reassembler := ra\<rparr>) (map ((!) (datagrams pkts)) is) =
      (r\<lparr>cr_reassembler := fst (run_ops (feed pkts) ra is)\<rparr>,
       replicate (length is) (Ok () :: (unit, 'd ClientReceiverError) result, None))"
    using Cons.IH [of "r\<lparr>cr_reassembler := ra\<rparr>"] Cons.prems f by (simp del: run_ops.simps(2))
  then show ?case using step f by (simp add: case_prod_beta)
qed simp

text \<open>
  The state of the receiver before the frame number \<open>Suc i\<close> with the nonce \<open>i\<close>: nothing of that
  frame or of a later one has arrived.
\<close>

definition rx_at :: "bytes \<Rightarrow> nat \<Rightarrow> ClientReceiver \<Rightarrow> bool" where
  "rx_at key i r \<longleftrightarrow>
     receiver_inv key 1 r \<and> max_frame_bytes (cr_reassembler r) = MAX_FRAME_PAYLOAD_SIZE
     \<and> (\<forall>fid. i < unat fid \<longrightarrow> bt_get (frames (cr_reassembler r)) fid = None)
     \<and> reasm_rank (cr_reassembler r) \<le> Suc i
     \<and> (case highest_sequence (cr_nonce_replay_window r) of None \<Rightarrow> True | Some h \<Rightarrow> unat h < i)"

lemma rx_at_new: "rx_at key 0 (ClientReceiver_new key 1)"
  by (simp add: rx_at_def receiver_inv_new)
     (simp add: ClientReceiver_new_def VideoFrameReassembler_default_def VideoFrameReassembler_new_def
        reasm_rank_def bt_get_def NonceReplayWindow_default_def)

lemma rank_not_stale: "reasm_rank r \<le> unat fid \<longleftrightarrow> not_stale r fid"
  by (simp add: reasm_rank_def not_stale_def word_less_nat_alt Suc_le_eq split: option.splits)

lemma run_feed_inv: "reasm_inv r \<Longrightarrow> reasm_inv (fst (run_ops (feed pkts) r is))"
  by (induction "is" arbitrary: r) (simp_all add: feed_def process_packet_inv del: run_ops.simps(2))

lemma run_feed_other:
  assumes "fragments base payload pkts" "set is \<subseteq> {..<length pkts}" "reasm_inv r"
    and "fid \<noteq> frame_id base" "bt_get (frames r) fid = None"
  shows "bt_get (frames (fst (run_ops (feed pkts) r is))) fid = None"
  using assms(2,3,5)
proof (induction "is" arbitrary: r)
  case (Cons i "is")
  have "bt_get (frames (fst (feed pkts r i))) fid = None"
    using Cons.prems fragments_frame_id [OF assms(1), of i] assms(4) reasm_invD(1)
    by (simp add: feed_def process_packet_other)
  then show ?case
    using Cons.IH [of "fst (feed pkts r i)"] Cons.prems process_packet_inv
    by (simp add: feed_def del: run_ops.simps(2))
qed simp

lemma keyframe_flag: "(f OR (FRAME_START OR FRAME_END)) AND KEYFRAME = f AND KEYFRAME"
proof -
  have "(FRAME_START OR FRAME_END) AND KEYFRAME = 0" by (simp add: FRAME_START_def FRAME_END_def KEYFRAME_def)
  then show ?thesis by (simp only: bit.conj_disj_distrib2) simp
qed

lemma window_next:
  assumes "window_inv w" "case highest_sequence w of None \<Rightarrow> True | Some h \<Rightarrow> unat h < i" "unat q = i"
  shows "snd (commit_authenticated w q)"
    and "case highest_sequence (fst (commit_authenticated w q)) of None \<Rightarrow> True | Some h \<Rightarrow> unat h < Suc i"
proof -
  have new: "q \<notin> refused w"
  proof (cases "highest_sequence w")
    case (Some h)
    then have "h < q" using assms(2,3) by (simp add: word_less_nat_alt)
    then show ?thesis using assms(1) Some by (auto simp: refused_def window_inv_def)
  qed (use assms in \<open>auto simp: refused_def window_inv_def\<close>)
  then show ok: "snd (commit_authenticated w q)" by (simp add: commit_authenticated_iff)
  then have "highest_sequence (fst (commit_authenticated w q)) =
      Some (case highest_sequence w of None \<Rightarrow> q | Some known \<Rightarrow> max known q)"
    by (auto simp: commit_authenticated_def Let_def split: if_splits)
  then show "case highest_sequence (fst (commit_authenticated w q)) of None \<Rightarrow> True | Some h \<Rightarrow> unat h < Suc i"
    using assms(2,3) by (auto simp: max_def split: option.splits)
qed

lemma accept_assembled_fresh:
  assumes "dec (cr_frame_key r) (nonce_from_sequence (cr_nonce_domain r) (nonce_sequence (af_header af)))
      (aad (assembled_metadata (af_header af))) (af_payload af) = Some au"
    and "snd (commit_authenticated (cr_nonce_replay_window r) (nonce_sequence (af_header af)))"
    and "reasm_rank (cr_reassembler r) \<le> unat (frame_id (af_header af))"
  shows "accept_assembled dec r af =
    (r\<lparr>cr_nonce_replay_window := fst (commit_authenticated (cr_nonce_replay_window r) (nonce_sequence (af_header af))),
       cr_reassembler := fst (commit_authenticated_frame (cr_reassembler r) (frame_id (af_header af))),
       cr_latest_frame := Some (frame_job (af_header af) au)\<rparr>, Ok ())"
proof -
  have "snd (commit_authenticated_frame (cr_reassembler r) (frame_id (af_header af)))"
    using assms(3) by (simp add: commit_sel)
  then show ?thesis
    using assms(1,2)
    by (simp add: accept_assembled_def Let_def open_encoded_frame_def open_session_payload_def res_simps
        case_prod_beta split: bool.split)
qed

lemma feed_stale:
  assumes "fragments base payload pkts" "i < length pkts" "\<not> not_stale r (frame_id base)"
  shows "feed pkts r i = (r, Ok None)"
  using assms fragments_check [OF assms(1,2)] fragments_frame_id [OF assms(1,2)]
  by (simp add: feed_def process_packet_stale)

lemma run_feed_stale:
  assumes "fragments base payload pkts" "set is \<subseteq> {..<length pkts}" "\<not> not_stale r (frame_id base)"
  shows "run_ops (feed pkts) r is = (r, replicate (length is) (Ok None))"
  using assms(2) by (induction "is") (simp_all add: feed_stale [OF assms(1) _ assms(3)])

text \<open>The reassembler over the fragments of a frame, up to the one that completes it.\<close>

definition same_frame :: "VideoPacketHeader \<Rightarrow> VideoPacketHeader \<Rightarrow> bool" where
  "same_frame h base \<longleftrightarrow>
     nonce_sequence h = nonce_sequence base \<and> frame_id h = frame_id base
     \<and> assembled_metadata h = frame_metadata base CODEC_CONFIG_ID \<and> frame_job h = frame_job base"

lemma same_frame_assembled:
  assumes "fragments base ct pkts" "j < length pkts"
  shows "same_frame ((fst (pkts ! j))\<lparr>vh_flags := vh_flags base OR (FRAME_START OR FRAME_END)\<rparr>) base"
proof -
  have "fst (pkts ! j) = fragment_of base (length pkts) j (snd (pkts ! j))"
    using assms by (simp add: fragments_def)
  then show ?thesis
    by (simp add: same_frame_def fragment_of_def assembled_metadata_def frame_metadata_def frame_job_def
        keyframe_flag fun_eq_iff)
qed

lemma run_feed_rank: "reasm_rank (fst (run_ops (feed pkts) r is)) = reasm_rank r"
proof (induction "is" arbitrary: r)
  case (Cons i "is")
  have "reasm_rank (fst (feed pkts r i)) = reasm_rank r"
    unfolding feed_def by (rule reasm_rank_cong [OF process_packet_sel(3)])
  with Cons show ?case by (simp del: run_ops.simps(2))
qed simp

lemma frame_fed:
  assumes fr: "fragments base ct pkts" and inv: "reasm_inv ra"
    and none: "\<forall>fid. i < unat fid \<longrightarrow> bt_get (frames ra) fid = None"
    and rank: "reasm_rank ra \<le> Suc i" and fid: "unat (frame_id base) = Suc i"
    and len: "length ct \<le> max_frame_bytes ra"
    and cover: "set order \<union> {k} = {..<length pkts}" "k \<notin> set order"
  shows "snd (run_ops (feed pkts) ra order) = replicate (length order) (Ok None)"
    and "\<exists>ra2 h. feed pkts (fst (run_ops (feed pkts) ra order)) k =
        (ra2, Ok (Some \<lparr>af_header = h, af_payload = ct, assembled_len = length ct\<rparr>))
      \<and> same_frame h base \<and> reasm_inv ra2 \<and> reasm_rank ra2 = reasm_rank ra \<and> max_frame_bytes ra2 = max_frame_bytes ra
      \<and> (\<forall>fid. Suc i < unat fid \<longrightarrow> bt_get (frames ra2) fid = None)"
proof -
  let ?ra1 = "fst (run_ops (feed pkts) ra order)"
  have fresh: "not_stale ra (frame_id base)" using rank fid by (simp add: rank_not_stale [symmetric])
  have gone: "bt_get (frames ra) (frame_id base) = None" using none fid by simp
  note last = feed_last [OF fr reasm_invD(1) [OF inv] gone len fresh cover]
  show "snd (run_ops (feed pkts) ra order) = replicate (length order) (Ok None)" using last by blast
  obtain j where j: "j < length pkts" and out: "snd (feed pkts ?ra1 k) = Ok (Some
      \<lparr>af_header = (fst (pkts ! j))\<lparr>vh_flags := vh_flags base OR (FRAME_START OR FRAME_END)\<rparr>,
       af_payload = ct, assembled_len = length ct\<rparr>)"
    using last by blast
  have run: "fst (feed pkts ?ra1 k) = fst (run_ops (feed pkts) ra (order @ [k]))"
    by (simp add: run_ops_append case_prod_beta Let_def)
  have "bt_get (frames (fst (feed pkts ?ra1 k))) fid' = None" if "Suc i < unat fid'" for fid'
    unfolding run using none that fid cover by (intro run_feed_other [OF fr _ inv]) auto
  moreover have "reasm_inv (fst (feed pkts ?ra1 k))" "reasm_rank (fst (feed pkts ?ra1 k)) = reasm_rank ra"
      "max_frame_bytes (fst (feed pkts ?ra1 k)) = max_frame_bytes ra"
    unfolding run by (rule run_feed_inv [OF inv], rule run_feed_rank, rule run_feed_sel)
  ultimately show "\<exists>ra2 h. feed pkts ?ra1 k =
        (ra2, Ok (Some \<lparr>af_header = h, af_payload = ct, assembled_len = length ct\<rparr>))
      \<and> same_frame h base \<and> reasm_inv ra2 \<and> reasm_rank ra2 = reasm_rank ra \<and> max_frame_bytes ra2 = max_frame_bytes ra
      \<and> (\<forall>fid. Suc i < unat fid \<longrightarrow> bt_get (frames ra2) fid = None)"
    using same_frame_assembled [OF fr j] surjective_pairing [of "feed pkts ?ra1 k", unfolded out] by blast
qed

text \<open>The receiver over the fragment that completes a frame.\<close>

lemma frame_completed:
  assumes "rx_at key i r" "unat (frame_id base) = Suc i" "unat (nonce_sequence base) = i" "same_frame h base"
    and "dec key (nonce_from_sequence 1 (nonce_sequence base)) (aad (frame_metadata base CODEC_CONFIG_ID)) ct = Some au"
    and "reasm_inv ra2" "reasm_rank ra2 = reasm_rank (cr_reassembler r)" "max_frame_bytes ra2 = MAX_FRAME_PAYLOAD_SIZE"
    and "\<forall>fid. Suc i < unat fid \<longrightarrow> bt_get (frames ra2) fid = None"
  shows "\<exists>r'. accept_assembled dec (r\<lparr>cr_reassembler := ra2\<rparr>) \<lparr>af_header = h, af_payload = ct, assembled_len = n\<rparr> =
      (r', Ok ()) \<and> cr_latest_frame r' = Some (frame_job base au) \<and> rx_at key (Suc i) (r'\<lparr>cr_latest_frame := None\<rparr>)
      \<and> \<not> not_stale (cr_reassembler r') (frame_id base)"
proof -
  let ?q = "nonce_sequence base" and ?w = "cr_nonce_replay_window r" and ?fid = "frame_id base"
  note rx = assms(1) [unfolded rx_at_def receiver_inv_def] and sf = assms(4) [unfolded same_frame_def]
  have w: "window_inv ?w" "case highest_sequence ?w of None \<Rightarrow> True | Some h \<Rightarrow> unat h < i"
    using rx by blast+
  note W = window_next [OF w assms(3)]
  have rank: "reasm_rank ra2 \<le> unat ?fid" using rx assms(2,7) by simp
  then have ok: "snd (commit_authenticated_frame ra2 ?fid)" by (simp add: commit_sel)
  define r' where "r' = r\<lparr>cr_nonce_replay_window := fst (commit_authenticated ?w ?q),
    cr_reassembler := fst (commit_authenticated_frame ra2 ?fid), cr_latest_frame := Some (frame_job base au)\<rparr>"
  have acc: "accept_assembled dec (r\<lparr>cr_reassembler := ra2\<rparr>) \<lparr>af_header = h, af_payload = ct, assembled_len = n\<rparr> =
      (r', Ok ())"
    using W(1) rank sf rx assms(5) by (subst accept_assembled_fresh [where au = au]) (simp_all add: r'_def)
  have lst: "last_authenticated_frame_id (fst (commit_authenticated_frame ra2 ?fid)) = Some ?fid"
    using ok by (simp add: commit_sel)
  have "bt_get (frames (fst (commit_authenticated_frame ra2 ?fid))) fid = None" if "Suc i < unat fid" for fid
    using ok assms(9) that prune_stale_before_get(2) [of "ra2\<lparr>last_authenticated_frame_id := Some ?fid\<rparr>"] reasm_invD(1) [OF assms(6)]
    by (auto simp: commit_authenticated_frame_def split: if_splits)
  then have "rx_at key (Suc i) (r'\<lparr>cr_latest_frame := None\<rparr>)"
    using W(2) rx commit_window_inv [OF w(1)] commit_inv [OF assms(6)] assms(2,8) lst
    by (simp add: rx_at_def receiver_inv_def r'_def commit_sel(2) reasm_rank_def)
  moreover have "\<not> not_stale (cr_reassembler r') ?fid" using lst by (simp add: r'_def not_stale_def)
  ultimately show ?thesis using acc by (auto simp: r'_def)
qed

lemma frame_received:
  assumes pk: "packetize_video_frame base ct chunk_size = Ok pkts" "vh_version base = CURRENT_VERSION"
    and rx: "rx_at key i r" and num: "unat (frame_id base) = Suc i" "unat (nonce_sequence base) = i"
    and len: "length ct \<le> MAX_FRAME_PAYLOAD_SIZE"
    and opens: "dec key (nonce_from_sequence 1 (nonce_sequence base)) (aad (frame_metadata base CODEC_CONFIG_ID)) ct = Some au"
    and ds: "set ds = set (datagrams pkts)"
  shows "\<exists>r' a b. run_ops (receive_step dec) r ds =
      (r', replicate a (Ok () :: (unit, 'd ClientReceiverError) result, None) @ (Ok (), Some (frame_job base au)) # replicate b (Ok (), None))
    \<and> rx_at key (Suc i) r'"
proof -
  let ?dg = "(!) (datagrams pkts)" and ?ra = "cr_reassembler r"
  note fr = packetize_fragments [OF pk(1)]
  have ra: "reasm_inv ?ra" "\<forall>fid. i < unat fid \<longrightarrow> bt_get (frames ?ra) fid = None" "reasm_rank ?ra \<le> Suc i"
      "length ct \<le> max_frame_bytes ?ra" "cr_latest_frame r = None" "max_frame_bytes ?ra = MAX_FRAME_PAYLOAD_SIZE"
    using rx len by (simp_all add: rx_at_def receiver_inv_def)
  have "{..<length pkts} \<noteq> {}" using fr by (auto simp: fragments_def)
  then obtain order k late where split: "ds = map ?dg (order @ k # late)" "k \<notin> set order"
      "set order \<union> {k} = {..<length pkts}" "set late \<subseteq> {..<length pkts}"
    using covering_indices [OF ds distinct_datagrams [OF pk]] covering_split [of _ "{..<length pkts}"]
    by (metis length_datagrams)
  note fed = frame_fed [OF fr ra(1-3) num(1) ra(4) split(3,2)]
  define r1 where "r1 = r\<lparr>cr_reassembler := fst (run_ops (feed pkts) ?ra order)\<rparr>"
  have first: "run_ops (receive_step dec) r (map ?dg order) =
      (r1, replicate (length order) (Ok () :: (unit, 'd ClientReceiverError) result, None))"
    unfolding r1_def using split(3) ra(5) fed(1) by (intro receive_quiet [OF pk]) auto
  from fed(2) obtain ra2 h where ra2: "feed pkts (cr_reassembler r1) k =
        (ra2, Ok (Some \<lparr>af_header = h, af_payload = ct, assembled_len = length ct\<rparr>))"
      "same_frame h base" "reasm_inv ra2" "reasm_rank ra2 = reasm_rank ?ra" "max_frame_bytes ra2 = MAX_FRAME_PAYLOAD_SIZE"
      "\<forall>fid. Suc i < unat fid \<longrightarrow> bt_get (frames ra2) fid = None"
    unfolding r1_def ra(6) by auto
  obtain r2 where r2: "accept_assembled dec (r\<lparr>cr_reassembler := ra2\<rparr>) \<lparr>af_header = h, af_payload = ct, assembled_len = length ct\<rparr>
        = (r2, Ok () :: (unit, 'd ClientReceiverError) result)"
      "cr_latest_frame r2 = Some (frame_job base au)" "rx_at key (Suc i) (r2\<lparr>cr_latest_frame := None\<rparr>)"
      "\<not> not_stale (cr_reassembler r2) (frame_id base)"
    using frame_completed [where dec = dec and ct = ct, OF rx num ra2(2) opens ra2(3-6)] by blast
  let ?r2 = "r2\<lparr>cr_latest_frame := None\<rparr>"
  have "k < length pkts" using split(3) by auto
  then have mid: "receive_step dec r1 (?dg k) = (?r2, Ok () :: (unit, 'd ClientReceiverError) result, Some (frame_job base au))"
    using accept_fragment [OF pk, of k dec r1, where 'd = 'd] ra2(1) r2(1,2) by (simp add: receive_step_eq r1_def Let_def)
  have "run_ops (feed pkts) (cr_reassembler ?r2) late = (cr_reassembler ?r2, replicate (length late) (Ok None))"
    using run_feed_stale [OF fr split(4)] r2(4) by simp
  then have "run_ops (receive_step dec) ?r2 (map ?dg late) =
      (?r2, replicate (length late) (Ok () :: (unit, 'd ClientReceiverError) result, None))"
    using receive_quiet [OF pk split(4), of ?r2 dec, where 'd = 'd] by simp
  with first mid r2(3) split(1) show ?thesis
    by (auto simp: run_ops_append)
qed

section \<open>The host over the synthetic source\<close>

definition host_config :: "u32 \<Rightarrow> u32 \<Rightarrow> EncoderConfig" where
  "host_config w h = \<lparr>ec_codec = H264, ec_width = w, ec_height = h, ec_max_fps = 30, ec_bitrate_bps = 4000000\<rparr>"

definition frame_time :: "nat \<Rightarrow> u64" where
  "frame_time i = of_nat (i * 1000000 div 30)"

text \<open>The access unit number \<open>i\<close>, counted from zero, of a stream of \<open>w\<close> by \<open>h\<close> pixels.\<close>

definition encoded_at :: "u32 \<Rightarrow> u32 \<Rightarrow> nat \<Rightarrow> EncodedFrame" where
  "encoded_at w h i =
     \<lparr>enc_frame_id = of_nat (Suc i), enc_timestamp_us = frame_time i, enc_keyframe = (i mod 60 = 0),
      enc_data = build_annex_b_payload (host_config w h) (i mod 60 = 0)
        (generate_bgra_pattern (SyntheticCaptureSource_new w h 30) (of_nat (Suc i)))\<rparr>"

definition job_of :: "EncodedFrame \<Rightarrow> DecodedFrameJob" where
  "job_of e = \<lparr>job_frame_id = ucast (enc_frame_id e), job_timestamp_us = enc_timestamp_us e,
              job_keyframe = enc_keyframe e, job_access_unit = enc_data e\<rparr>"

definition host_at :: "bytes \<Rightarrow> u32 \<Rightarrow> u32 \<Rightarrow> nat \<Rightarrow> SyntheticCaptureSource HostVideoStreamer \<Rightarrow> bool" where
  "host_at key w h i s \<longleftrightarrow>
     hs_capture s = (SyntheticCaptureSource_new w h 30)\<lparr>syn_frame_count := of_nat i\<rparr>
     \<and> cadence_state (hs_encoder s) i \<and> sw_config (hs_encoder s) = Some (host_config w h)
     \<and> sw_keyframe_interval (hs_encoder s) = 60
     \<and> hs_aead_key s = key \<and> hs_nonce_seq s = \<lparr>ns_domain = 1, ns_next = of_nat i, ns_exhausted = False\<rparr>
     \<and> hs_codec_config_id s = 1 \<and> hs_stream_id s = 1"

lemma host_at_new:
  "HostVideoStreamer_new (SyntheticCaptureSource_new w h 30) key w h = Ok s \<Longrightarrow> host_at key w h 0 s"
  by (auto simp: HostVideoStreamer_new_def Let_def sw_configure_def EncoderConfig_validate_def host_at_def
      host_config_def cadence_state_def SoftwareFallbackEncoder_new_def DEFAULT_KEYFRAME_INTERVAL_def
      SyntheticCaptureSource_new_def NonceSequence_new_def split: if_splits)

lemma synthetic_timestamp:
  assumes "Suc i < 2 ^ 32"
  shows "saturating_sub (of_nat (Suc i) :: u64) 1 * 1000000 div 30 = frame_time i"
proof -
  have u: "unat (of_nat k :: u64) = k" if "k < 2 ^ 64" for k using that by (simp add: unat_of_nat)
  have "(1 :: u64) \<le> of_nat (Suc i)" using assms u [of "Suc i"] by (simp add: word_le_nat_alt del: of_nat_Suc)
  then have "saturating_sub (of_nat (Suc i) :: u64) 1 = of_nat i"
    by (simp add: saturating_sub_def)
  then have "saturating_sub (of_nat (Suc i) :: u64) 1 * 1000000 = of_nat (i * 1000000)" by simp
  moreover have "(of_nat (i * 1000000) :: u64) div 30 = of_nat (i * 1000000 div 30)"
    using assms by (intro word_unat_eq_iff [THEN iffD2]) (simp add: unat_div u del: of_nat_mult)
  ultimately show ?thesis by (simp only: frame_time_def)
qed

lemma sw_encode_out:
  assumes "sw_encode e f = (e', Ok out)" "sw_config e = Some c"
  shows "out = \<lparr>enc_frame_id = cf_frame_id f, enc_timestamp_us = cf_timestamp_us f, enc_keyframe = enc_keyframe out,
    enc_data = build_annex_b_payload c (enc_keyframe out) (cf_data f)\<rparr>"
proof -
  define k where "k = (sw_force_keyframe e
    \<or> sw_keyframe_interval e > 0 \<and> sw_frame_count e mod ucast (sw_keyframe_interval e) = 0)"
  have "out = \<lparr>enc_frame_id = cf_frame_id f, enc_timestamp_us = cf_timestamp_us f, enc_keyframe = k,
      enc_data = build_annex_b_payload c k (cf_data f)\<rparr>"
    using assms unfolding sw_encode_def Let_def k_def [symmetric] by (auto split: if_splits)
  then show ?thesis by simp
qed

lemma next_nonce_below:
  assumes "Suc i < 2 ^ 64"
  shows "next_nonce \<lparr>ns_domain = d, ns_next = of_nat i, ns_exhausted = False\<rparr> =
    (\<lparr>ns_domain = d, ns_next = of_nat (Suc i), ns_exhausted = False\<rparr>, Ok (nonce_from_sequence d (of_nat i)))"
proof -
  have "unat (of_nat i :: u64) = i" using assms by (simp add: unat_of_nat)
  moreover have "unat u64_max = 2 ^ 64 - 1" by (simp add: unsigned_minus_1_eq_mask mask_eq_exp_minus_1)
  ultimately have "(of_nat i :: u64) \<noteq> u64_max" using assms by force
  then show ?thesis by (simp add: next_nonce_def Let_def add.commute)
qed

lemma host_encodes:
  assumes "host_at key w h i s" "Suc i < 2 ^ 32"
  shows "\<exists>s1. process_next_frame synthetic_next_frame enc s = packetize_encoded_frame enc s1 (encoded_at w h i)
    \<and> host_at key w h (Suc i) (s1\<lparr>hs_nonce_seq := \<lparr>ns_domain = 1, ns_next = of_nat (Suc i), ns_exhausted = False\<rparr>\<rparr>)
    \<and> hs_nonce_seq s1 = hs_nonce_seq s \<and> hs_aead_key s1 = key \<and> hs_codec_config_id s1 = 1 \<and> hs_stream_id s1 = 1"
proof -
  note at = assms(1) [unfolded host_at_def]
  let ?src = "SyntheticCaptureSource_new w h 30"
  define f where "f = \<lparr>cf_frame_id = of_nat (Suc i), cf_timestamp_us = frame_time i, cf_width = w,
    cf_height = h, cf_format = Bgra8, cf_data = generate_bgra_pattern ?src (of_nat (Suc i))\<rparr>"
  have capture: "hs_capture s = ?src\<lparr>syn_frame_count := of_nat i\<rparr>" using at by blast
  have count: "(of_nat i :: u64) + 1 = of_nat (Suc i)" by simp
  have fps: "max 30 1 = (30 :: u32)" by (simp add: max_def word_le_nat_alt)
  have cap: "synthetic_next_frame (hs_capture s) = (?src\<lparr>syn_frame_count := of_nat (Suc i)\<rparr>, Ok f :: (_, string) result)"
    unfolding capture synthetic_next_frame_def Let_def f_def
    by (simp add: SyntheticCaptureSource_new_def fps generate_bgra_pattern_def count synthetic_timestamp [OF assms(2)]
        del: of_nat_Suc)
  obtain e' out where enc: "sw_encode (hs_encoder s) f = (e', Ok out)"
    using at by (simp add: sw_encode_def Let_def f_def host_config_def)
  have key: "enc_keyframe out \<longleftrightarrow> i mod 60 = 0" and cad: "cadence_state e' (Suc i)"
    using sw_encode_cadence [OF _ _ enc, of i] at assms(2) by simp_all
  have cfg: "sw_config e' = Some (host_config w h)" "sw_keyframe_interval e' = 60"
    using enc at by (auto simp: sw_encode_def Let_def f_def host_config_def)
  have "out = \<lparr>enc_frame_id = of_nat (Suc i), enc_timestamp_us = frame_time i, enc_keyframe = enc_keyframe out,
      enc_data = build_annex_b_payload (host_config w h) (enc_keyframe out) (cf_data f)\<rparr>"
    using sw_encode_out [OF enc] at by (simp add: f_def del: of_nat_Suc)
  then have out: "out = encoded_at w h i" by (simp add: key encoded_at_def f_def)
  let ?s1 = "s\<lparr>hs_capture := ?src\<lparr>syn_frame_count := of_nat (Suc i)\<rparr>,
    hs_queue := fst (lq_take (lq_replace (hs_queue s) f)), hs_encoder := e'\<rparr>"
  have "process_next_frame synthetic_next_frame enc s = packetize_encoded_frame enc ?s1 (encoded_at w h i)"
    using cap enc out lq_newest(1) [of "hs_queue s" f]
    by (cases "lq_take (lq_replace (hs_queue s) f)") (simp add: process_next_frame_def packetize_encode_result_def)
  then show ?thesis
    using at cad cfg by (intro exI [of _ ?s1]) (simp add: host_at_def)
qed

text \<open>
  ChaCha20-Poly1305 seals every plaintext of at most the size of a frame, and adds a tag of 16 bytes.
\<close>

definition aead_tag16 :: "aead \<Rightarrow> bool" where
  "aead_tag16 enc \<longleftrightarrow>
     (\<forall>k n a p. length p \<le> MAX_FRAME_PAYLOAD_SIZE \<longrightarrow> (\<exists>c. enc k n a p = Some c \<and> length c = length p + 16))"

lemma host_frame_sent:
  assumes at: "host_at key w h i s" and i: "Suc i < 2 ^ 32"
    and aead: "aead_correct enc dec" "aead_tag16 enc"
    and size: "unat w * unat h * 4 + 44 \<le> MAX_FRAME_PAYLOAD_SIZE"
  shows "\<exists>s' base ct pkts. process_next_frame synthetic_next_frame enc s = (s', Ok (datagrams pkts))
    \<and> host_at key w h (Suc i) s' \<and> packetize_video_frame base ct 1200 = Ok pkts \<and> vh_version base = CURRENT_VERSION
    \<and> unat (frame_id base) = Suc i \<and> unat (nonce_sequence base) = i \<and> length ct \<le> MAX_FRAME_PAYLOAD_SIZE
    \<and> dec key (nonce_from_sequence 1 (nonce_sequence base)) (aad (frame_metadata base CODEC_CONFIG_ID)) ct =
        Some (enc_data (encoded_at w h i))
    \<and> frame_job base (enc_data (encoded_at w h i)) = job_of (encoded_at w h i)"
proof -
  let ?e = "encoded_at w h i" and ?q = "of_nat i :: u64"
  obtain s1 where s1: "process_next_frame synthetic_next_frame enc s = packetize_encoded_frame enc s1 ?e"
      "host_at key w h (Suc i) (s1\<lparr>hs_nonce_seq := \<lparr>ns_domain = 1, ns_next = of_nat (Suc i), ns_exhausted = False\<rparr>\<rparr>)"
      "hs_nonce_seq s1 = \<lparr>ns_domain = 1, ns_next = ?q, ns_exhausted = False\<rparr>"
      "hs_aead_key s1 = key" "hs_codec_config_id s1 = 1" "hs_stream_id s1 = 1"
    using host_encodes [OF at i, of enc] at by (auto simp: host_at_def)
  let ?base = "sealed_header s1 ?e"
  have len: "length (enc_data ?e) + 16 \<le> MAX_FRAME_PAYLOAD_SIZE"
    using size by (simp add: encoded_at_def length_bgra_pattern SyntheticCaptureSource_new_def)
  then obtain ct where ct: "frame_ciphertext enc s1 ?e = Some ct" "length ct = length (enc_data ?e) + 16"
    using aead(2) unfolding aead_tag16_def frame_ciphertext_def by (meson add_leD1)
  then obtain pkts where pkts: "packetize_video_frame ?base ct 1200 = Ok pkts"
    using packetize_1200 len by metis
  have fid: "unat (of_nat (Suc i) :: u64) = Suc i" using i by (simp add: unat_of_nat del: of_nat_Suc)
  have ucast: "(ucast (of_nat (Suc i) :: u64) :: u32) = of_nat (Suc i)"
    using i fid by (simp add: word_unat_eq_iff unsigned_ucast_eq unat_of_nat take_bit_nat_eq_self del: of_nat_Suc)
  have nonce: "fst (next_nonce (hs_nonce_seq s1)) = \<lparr>ns_domain = 1, ns_next = of_nat (Suc i), ns_exhausted = False\<rparr>"
    unfolding s1(3) using i by (subst next_nonce_below) simp_all
  have sent: "process_next_frame synthetic_next_frame enc s =
      (s1\<lparr>hs_nonce_seq := \<lparr>ns_domain = 1, ns_next = of_nat (Suc i), ns_exhausted = False\<rparr>\<rparr>, Ok (datagrams pkts))"
    using packetize_encoded_frame_sealed [OF _ _ ct(1) pkts, unfolded nonce] s1(3) i fid
    by (simp add: s1(1) datagrams_def encoded_at_def del: of_nat_Suc)
  have base: "vh_version ?base = CURRENT_VERSION" "unat (frame_id ?base) = Suc i" "unat (nonce_sequence ?base) = i"
      "frame_job ?base (enc_data ?e) = job_of ?e"
    using i s1(3)
    by (simp_all add: sealed_header_def stream_header_def frame_job_def job_of_def encoded_at_def KEYFRAME_def
        unat_of_nat ucast del: of_nat_Suc)
  have "dec key (nonce_from_sequence 1 (nonce_sequence ?base)) (aad (frame_metadata ?base CODEC_CONFIG_ID)) ct = Some (enc_data ?e)"
    using aead(1) ct(1) s1(3-5)
    by (simp add: aead_correct_def frame_ciphertext_def CODEC_CONFIG_ID_def sealed_header_def)
  moreover have "length ct \<le> MAX_FRAME_PAYLOAD_SIZE" using ct(2) len by simp
  ultimately show ?thesis using sent s1(2) pkts base by blast
qed

section \<open>The stream as a whole\<close>

definition host_round ::
  "aead \<Rightarrow> SyntheticCaptureSource HostVideoStreamer \<Rightarrow> unit
     \<Rightarrow> SyntheticCaptureSource HostVideoStreamer \<times> (bytes list, StreamerError) result" where
  "host_round enc s u = process_next_frame synthetic_next_frame enc s"

text \<open>What the network makes of the datagrams of a frame: each arrives at least once, in any order.\<close>

definition delivery :: "bytes list \<Rightarrow> bytes list \<Rightarrow> bool" where
  "delivery arrived sent \<longleftrightarrow> set arrived = set sent"

text \<open>The receiver took every datagram without an error and handed out the frames \<open>jobs\<close>.\<close>

definition delivered :: "((unit, 'd ClientReceiverError) result \<times> DecodedFrameJob option) list \<Rightarrow> DecodedFrameJob list \<Rightarrow> bool" where
  "delivered outs jobs \<longleftrightarrow> (\<forall>out \<in> set outs. fst out = Ok ()) \<and> List.map_filter snd outs = jobs"

lemma delivered_append: "delivered outs jobs \<Longrightarrow> delivered outs' jobs' \<Longrightarrow> delivered (outs @ outs') (jobs @ jobs')"
  by (auto simp: delivered_def List.map_filter_def)

lemma delivered_one:
  "delivered (replicate a (Ok (), None) @ (Ok (), Some job) # replicate b (Ok (), None)) [job]"
  by (auto simp: delivered_def List.map_filter_def)

lemma stream_received:
  assumes aead: "aead_correct enc dec" "aead_tag16 enc"
    and size: "unat w * unat h * 4 + 44 \<le> MAX_FRAME_PAYLOAD_SIZE"
    and "host_at key w h i s" "i + n < 2 ^ 32"
  shows "\<exists>dgss. snd (run_ops (host_round enc) s (replicate n ())) = map Ok dgss \<and> length dgss = n
    \<and> (\<forall>r arrivals. rx_at key i r \<longrightarrow> list_all2 delivery arrivals dgss \<longrightarrow>
         delivered (snd (run_ops (receive_step dec) r (concat arrivals)
             :: _ \<times> ((unit, 'd ClientReceiverError) result \<times> _) list))
           (map (\<lambda>j. job_of (encoded_at w h j)) [i..<i + n]))"
  using assms(4-5)
proof (induction n arbitrary: i s)
  case 0
  then show ?case by (simp add: delivered_def List.map_filter_def)
next
  case (Suc n)
  have i: "Suc i < 2 ^ 32" "Suc i + n < 2 ^ 32" using Suc.prems(2) by simp_all
  obtain s' base ct pkts where sent: "process_next_frame synthetic_next_frame enc s = (s', Ok (datagrams pkts))"
      "host_at key w h (Suc i) s'" and pk: "packetize_video_frame base ct 1200 = Ok pkts" "vh_version base = CURRENT_VERSION"
      and num: "unat (frame_id base) = Suc i" "unat (nonce_sequence base) = i" and len: "length ct \<le> MAX_FRAME_PAYLOAD_SIZE"
      and opens: "dec key (nonce_from_sequence 1 (nonce_sequence base)) (aad (frame_metadata base CODEC_CONFIG_ID)) ct =
        Some (enc_data (encoded_at w h i))"
      and job: "frame_job base (enc_data (encoded_at w h i)) = job_of (encoded_at w h i)"
    using host_frame_sent [OF Suc.prems(1) i(1) aead size] by blast
  obtain dgss where dgss: "snd (run_ops (host_round enc) s' (replicate n ())) = map Ok dgss" "length dgss = n"
    and IH: "\<And>r arrivals. rx_at key (Suc i) r \<Longrightarrow> list_all2 delivery arrivals dgss \<Longrightarrow>
      delivered (snd (run_ops (receive_step dec) r (concat arrivals) :: _ \<times> ((unit, 'd ClientReceiverError) result \<times> _) list))
        (map (\<lambda>j. job_of (encoded_at w h j)) [Suc i..<Suc i + n])"
    using Suc.IH [OF sent(2) i(2)] by blast
  have "delivered (snd (run_ops (receive_step dec) r (concat arrivals) :: _ \<times> ((unit, 'd ClientReceiverError) result \<times> _) list))
      (map (\<lambda>j. job_of (encoded_at w h j)) [i..<i + Suc n])"
    if r: "rx_at key i r" and arr: "list_all2 delivery arrivals (datagrams pkts # dgss)" for r arrivals
  proof -
    obtain d ds where d: "arrivals = d # ds" "set d = set (datagrams pkts)" "list_all2 delivery ds dgss"
      using arr by (auto simp: list_all2_Cons2 delivery_def)
    obtain r' a b where run: "run_ops (receive_step dec) r d = (r', replicate a (Ok () :: (unit, 'd ClientReceiverError) result, None)
        @ (Ok (), Some (job_of (encoded_at w h i))) # replicate b (Ok (), None))" and r': "rx_at key (Suc i) r'"
      using frame_received [where dec = dec and ct = ct, OF pk r num len opens d(2)] unfolding job by blast
    have "[i..<i + Suc n] = i # [Suc i..<Suc i + n]" by (simp add: upt_conv_Cons)
    then show ?thesis
      using delivered_append [OF delivered_one [of a "job_of (encoded_at w h i)" b] IH [OF r' d(3)]] run
      by (simp add: d(1) run_ops_append case_prod_beta Let_def)
  qed
  moreover have "snd (run_ops (host_round enc) s (replicate (Suc n) ())) = map Ok (datagrams pkts # dgss)"
    using sent(1) dgss(1) by (simp add: host_round_def del: run_ops.simps(2))
  ultimately show ?case using dgss(2) by (intro exI [of _ "datagrams pkts # dgss"]) simp
qed

section \<open>Properties\<close>

text \<open>
  C1: the viewer sees exactly what the host captured.  A streamer over the synthetic source produces
  datagrams for each of its first \<open>n\<close> rounds (\<open>n\<close> below the range of the wire's frame number) without an
  error.  However the network reorders or repeats the datagrams of each frame, as long as each arrives
  before those of the next frame, and with the receiver polled after each datagram, a receiver that was started with the same key and nonce domain takes
  every one of them without an error and hands out exactly the \<open>n\<close> access units that were encoded, in
  order, with their numbers, timestamps and keyframe marks; the encoded data is the H.264 envelope of the
  test pattern, with a sequence header at every sixtieth frame from the first on.  The primitive is
  correct and adds a 16 byte tag, and the picture with its envelope and tag fits the frame limit.
\<close>

theorem viewer_receives_host_stream:
  assumes "aead_correct enc dec" "aead_tag16 enc"
    and "unat w * unat h * 4 + 44 \<le> MAX_FRAME_PAYLOAD_SIZE"
    and "HostVideoStreamer_new (SyntheticCaptureSource_new w h 30) key w h = Ok s" "n < 2 ^ 32"
  shows "\<exists>dgss. snd (run_ops (host_round enc) s (replicate n ())) = map Ok dgss \<and> length dgss = n
    \<and> (\<forall>arrivals. list_all2 delivery arrivals dgss \<longrightarrow>
         delivered (snd (run_ops (receive_step dec) (ClientReceiver_new key 1) (concat arrivals)
             :: _ \<times> ((unit, 'd ClientReceiverError) result \<times> _) list))
           (map (\<lambda>i. job_of (encoded_at w h i)) [0..<n]))"
  using stream_received [OF assms(1-3) host_at_new [OF assms(4)], of n, where 'd = 'd] assms(5) rx_at_new [of key]
  by (metis add_0)

definition append_tag :: aead where
  "append_tag k n a p = Some (p @ replicate 16 0)"

definition strip_tag :: aead where
  "strip_tag k n a c = Some (take (length c - 16) c)"

theorem viewer_receives_host_stream_witness:
  "\<exists>s dgss. HostVideoStreamer_new (SyntheticCaptureSource_new 2 1 30) [7] 2 1 = Ok s
    \<and> snd (run_ops (host_round append_tag) s (replicate 3 ())) = map Ok dgss
    \<and> delivered (snd (run_ops (receive_step strip_tag) (ClientReceiver_new [7] 1) (concat (map rev dgss))
             :: _ \<times> ((unit, unit ClientReceiverError) result \<times> _) list))
           (map (\<lambda>i. job_of (encoded_at 2 1 i)) [0..<3])"
proof -
  have aead: "aead_correct append_tag strip_tag" "aead_tag16 append_tag"
    by (simp_all add: aead_correct_def aead_tag16_def append_tag_def strip_tag_def)
  have size: "unat (2 :: u32) * unat (1 :: u32) * 4 + 44 \<le> MAX_FRAME_PAYLOAD_SIZE" by (simp add: MAX_FRAME_PAYLOAD_SIZE_def)
  obtain s where s: "HostVideoStreamer_new (SyntheticCaptureSource_new 2 1 30) [7] 2 1 = Ok s"
    by (simp add: HostVideoStreamer_new_def Let_def sw_configure_def EncoderConfig_validate_def)
  have "list_all2 delivery (map rev dgss) dgss" for dgss
    by (simp add: delivery_def list_all2_conv_all_nth)
  then show ?thesis
    using viewer_receives_host_stream [OF aead size s, of 3, where 'd = unit] s by auto
qed

end
