(* ===== verification/Windows_Input.thy ===== *)
theory Windows_Input
  imports Windows_Cursor Rust_Std
begin

text \<open>
  \<open>platform/windows/src/input.rs\<close>: translation of semantic events into the records that the native
  input call takes, and the injector around it.  The native call itself (\<open>SendInput\<close>) is an
  argument.
\<close>

section \<open>UTF-16\<close>

text \<open>\<open>str::encode_utf16\<close> and \<open>char::to_string\<close>, on the scalar values of Unicode.\<close>

definition scalar_value :: "nat \<Rightarrow> bool" where
  "scalar_value cp \<longleftrightarrow> cp < 0xD800 \<or> 0xE000 \<le> cp \<and> cp < 0x110000"

definition char_utf16 :: "nat \<Rightarrow> u16 list" where
  "char_utf16 cp =
     (if cp < 0x10000 then [of_nat cp]
      else [of_nat (0xD800 + (cp - 0x10000) div 1024), of_nat (0xDC00 + (cp - 0x10000) mod 1024)])"

definition encode_utf16 :: "string \<Rightarrow> u16 list" where
  "encode_utf16 s = concat (map (\<lambda>(off, cp). char_utf16 cp) (char_indices s))"

definition char_utf8 :: "nat \<Rightarrow> nat list" where
  "char_utf8 cp =
     (if cp < 0x80 then [cp]
      else if cp < 0x800 then [0xC0 + cp div 64, 0x80 + cp mod 64]
      else if cp < 0x10000 then [0xE0 + cp div 4096, 0x80 + cp div 64 mod 64, 0x80 + cp mod 64]
      else [0xF0 + cp div 262144, 0x80 + cp div 4096 mod 64, 0x80 + cp div 64 mod 64, 0x80 + cp mod 64])"

definition char_to_string :: "nat \<Rightarrow> string" where
  "char_to_string cp = map char_of (char_utf8 cp)"

section \<open>Records\<close>

record MonitorBounds =
  min_x :: i32
  min_y :: i32
  max_x :: i32
  max_y :: i32

datatype InputRecord =
    Rec_ScanCode u16 bool bool              \<comment> \<open>\<open>scan_code\<close>, \<open>extended\<close>, \<open>key_up\<close>\<close>
  | Rec_Unicode u16 bool                    \<comment> \<open>\<open>code_unit\<close>, \<open>key_up\<close>\<close>
  | Rec_MouseMove u16 u16
  | Rec_MouseButton MouseButton bool
  | Rec_MouseWheel i32 i32

record WindowsScanCode =
  sc_value :: u16
  sc_extended :: bool

definition scan_code :: "u16 \<Rightarrow> WindowsScanCode" where
  "scan_code v = \<lparr>sc_value = v, sc_extended = False\<rparr>"

definition extended_scan_code :: "u16 \<Rightarrow> WindowsScanCode" where
  "extended_scan_code v = \<lparr>sc_value = v, sc_extended = True\<rparr>"

text \<open>The arms of the \<open>match\<close> with a single usage each.\<close>

definition hid_scan_codes :: "(u32 \<times> WindowsScanCode) list" where
  "hid_scan_codes =
     [(0x04, scan_code 0x1E), (0x05, scan_code 0x30), (0x06, scan_code 0x2E), (0x07, scan_code 0x20),
      (0x08, scan_code 0x12), (0x09, scan_code 0x21), (0x0A, scan_code 0x22), (0x0B, scan_code 0x23),
      (0x0C, scan_code 0x17), (0x0D, scan_code 0x24), (0x0E, scan_code 0x25), (0x0F, scan_code 0x26),
      (0x10, scan_code 0x32), (0x11, scan_code 0x31), (0x12, scan_code 0x18), (0x13, scan_code 0x19),
      (0x14, scan_code 0x10), (0x15, scan_code 0x13), (0x16, scan_code 0x1F), (0x17, scan_code 0x14),
      (0x18, scan_code 0x16), (0x19, scan_code 0x2F), (0x1A, scan_code 0x11), (0x1B, scan_code 0x2D),
      (0x1C, scan_code 0x15), (0x1D, scan_code 0x2C), (0x28, scan_code 0x1C), (0x29, scan_code 0x01),
      (0x2A, scan_code 0x0E), (0x2B, scan_code 0x0F), (0x2C, scan_code 0x39), (0x2D, scan_code 0x0C),
      (0x2E, scan_code 0x0D), (0x2F, scan_code 0x1A), (0x30, scan_code 0x1B), (0x31, scan_code 0x2B),
      (0x32, scan_code 0x2B), (0x33, scan_code 0x27), (0x34, scan_code 0x28), (0x35, scan_code 0x29),
      (0x36, scan_code 0x33), (0x37, scan_code 0x34), (0x38, scan_code 0x35), (0x39, scan_code 0x3A),
      (0x44, scan_code 0x57), (0x45, scan_code 0x58), (0x47, scan_code 0x46),
      (0x49, extended_scan_code 0x52), (0x4A, extended_scan_code 0x47), (0x4B, extended_scan_code 0x49),
      (0x4C, extended_scan_code 0x53), (0x4D, extended_scan_code 0x4F), (0x4E, extended_scan_code 0x51),
      (0x4F, extended_scan_code 0x4D), (0x50, extended_scan_code 0x4B), (0x51, extended_scan_code 0x50),
      (0x52, extended_scan_code 0x48), (0x53, scan_code 0x45), (0x54, extended_scan_code 0x35),
      (0x55, scan_code 0x37), (0x56, scan_code 0x4A), (0x57, scan_code 0x4E),
      (0x58, extended_scan_code 0x1C), (0x59, scan_code 0x4F), (0x5A, scan_code 0x50),
      (0x5B, scan_code 0x51), (0x5C, scan_code 0x4B), (0x5D, scan_code 0x4C), (0x5E, scan_code 0x4D),
      (0x5F, scan_code 0x47), (0x60, scan_code 0x48), (0x61, scan_code 0x49), (0x62, scan_code 0x52),
      (0x63, scan_code 0x53), (0x64, scan_code 0x56), (0x65, extended_scan_code 0x5D),
      (0xE0, scan_code 0x1D), (0xE1, scan_code 0x2A), (0xE2, scan_code 0x38),
      (0xE3, extended_scan_code 0x5B), (0xE4, extended_scan_code 0x1D), (0xE5, scan_code 0x36),
      (0xE6, extended_scan_code 0x38), (0xE7, extended_scan_code 0x5C)]"

definition map_hid_usage :: "u32 \<Rightarrow> (WindowsScanCode, BackendError) result" where
  "map_hid_usage usage =
     (if 0x1E \<le> usage \<and> usage \<le> 0x27 then Ok (scan_code (ucast (usage - 0x1E + 0x02)))
      else if 0x3A \<le> usage \<and> usage \<le> 0x43 then Ok (scan_code (ucast (usage - 0x3A + 0x3B)))
      else ok_or InvalidInput (map_of hid_scan_codes usage))"

text \<open>
  \<open>i64\<close> arithmetic with its overflow checks; division truncates towards zero.
\<close>

definition i64_checked :: "int \<Rightarrow> int option" where
  "i64_checked v = (if - (2 ^ 63) \<le> v \<and> v < 2 ^ 63 then Some v else None)"

definition trunc_div :: "int \<Rightarrow> int \<Rightarrow> int" where
  "trunc_div a b = (if (a < 0) = (b < 0) then \<bar>a\<bar> div \<bar>b\<bar> else - (\<bar>a\<bar> div \<bar>b\<bar>))"

definition normalize_coordinate :: "i32 \<Rightarrow> i32 \<Rightarrow> i32 \<Rightarrow> (u16, BackendError) result" where
  "normalize_coordinate coord minimum maximum =
     and_then (ok_or InvalidInput (i64_checked (sint maximum - sint minimum))) (\<lambda>range.
       if range \<le> 0 then Err InvalidInput
       else
         and_then (ok_or InvalidInput (i64_checked (sint coord - sint minimum))) (\<lambda>offset.
           and_then (ok_or InvalidInput (i64_checked (offset * 65535))) (\<lambda>product.
             let scaled = trunc_div product range in
             Ok (word_of_int (min (max scaled 0) 65535)))))"

fun translate :: "InputEvent \<Rightarrow> MonitorBounds \<Rightarrow> (InputRecord list, BackendError) result" where
  "translate (Ev_Key physical_code logical_code action modifiers) monitor =
     and_then (map_hid_usage physical_code) (\<lambda>sc.
       Ok [Rec_ScanCode (sc_value sc) (sc_extended sc) (action = Key_Up)])"
| "translate (Ev_Text text) monitor =
     Ok (concat (map (\<lambda>code_unit. [Rec_Unicode code_unit False, Rec_Unicode code_unit True]) (encode_utf16 text)))"
| "translate (Ev_MouseMove x y) monitor =
     and_then (normalize_coordinate x (min_x monitor) (max_x monitor)) (\<lambda>absolute_x.
       and_then (normalize_coordinate y (min_y monitor) (max_y monitor)) (\<lambda>absolute_y.
         Ok [Rec_MouseMove absolute_x absolute_y]))"
| "translate (Ev_MouseButton button pressed) monitor = Ok [Rec_MouseButton button pressed]"
| "translate (Ev_MouseWheel delta_x delta_y) monitor =
     Ok ((if delta_y \<noteq> 0 then [Rec_MouseWheel 0 delta_y] else [])
         @ (if delta_x \<noteq> 0 then [Rec_MouseWheel delta_x 0] else []))"

record 'n InputInjector =
  inj_native :: 'n
  inj_monitor :: MonitorBounds

definition inject_records ::
  "('n \<Rightarrow> InputRecord list \<Rightarrow> 'n \<times> (nat, BackendError) result) \<Rightarrow> 'n InputInjector \<Rightarrow> InputEvent
     \<Rightarrow> 'n InputInjector \<times> (nat, BackendError) result" where
  "inject_records native_send i event =
     (case InputEvent_validate event of
        Err _ \<Rightarrow> (i, Err InvalidInput)
      | Ok _ \<Rightarrow>
     (case translate event (inj_monitor i) of
        Err e \<Rightarrow> (i, Err e)
      | Ok records \<Rightarrow>
     (case native_send (inj_native i) records of
        (native', Err e) \<Rightarrow> (i\<lparr>inj_native := native'\<rparr>, Err e)
      | (native', Ok submitted) \<Rightarrow>
          (i\<lparr>inj_native := native'\<rparr>,
           if submitted \<noteq> length records then Err NativeFailure else Ok submitted))))"

section \<open>Laws\<close>

lemma map_of_hid_Some: "\<lbrakk>0x1E \<le> u \<and> u \<le> 0x27 \<or> 0x3A \<le> u \<and> u \<le> 0x43 \<or> u \<in> fst ` set hid_scan_codes\<rbrakk>
  \<Longrightarrow> \<exists>sc. map_hid_usage u = Ok sc"
  using map_of_eq_None_iff [of hid_scan_codes u]
  by (cases "map_of hid_scan_codes u") (auto simp: map_hid_usage_def)

lemma i32_bounds: "- (2 ^ 31) \<le> sint (w :: i32)" "sint (w :: i32) < 2 ^ 31"
  using sint_greater_eq [of w] sint_less [of w] by simp_all

lemma normalize_coordinate_in:
  assumes "sint minimum < sint maximum"
  shows "normalize_coordinate coord minimum maximum =
    Ok (word_of_int (min (max (trunc_div ((sint coord - sint minimum) * 65535) (sint maximum - sint minimum)) 0) 65535))"
  using assms i32_bounds [of coord] i32_bounds [of minimum] i32_bounds [of maximum]
  by (simp add: normalize_coordinate_def i64_checked_def Let_def)

lemma uint_u16: "\<lbrakk>0 \<le> k; k \<le> 65535\<rbrakk> \<Longrightarrow> uint (word_of_int k :: u16) = k"
  by (simp add: uint_word_of_int)

lemma normalize_coordinate_inside:
  assumes "sint minimum < sint maximum" "sint minimum \<le> sint coord" "sint coord \<le> sint maximum"
  shows "\<exists>a. normalize_coordinate coord minimum maximum = Ok a
    \<and> uint a = (sint coord - sint minimum) * 65535 div (sint maximum - sint minimum)"
proof -
  let ?o = "sint coord - sint minimum" and ?r = "sint maximum - sint minimum"
  have "0 \<le> ?o * 65535 div ?r" using assms by (simp add: pos_imp_zdiv_nonneg_iff)
  moreover have "?o * 65535 div ?r \<le> 65535"
  proof -
    have "?o * 65535 div ?r \<le> ?r * 65535 div ?r"
      using assms by (intro zdiv_mono1) simp_all
    moreover have "?r * 65535 div ?r = 65535"
      using assms(1) by (intro nonzero_mult_div_cancel_left) simp
    ultimately show ?thesis by simp
  qed
  moreover have "trunc_div (?o * 65535) ?r = ?o * 65535 div ?r"
    using assms by (simp add: trunc_div_def mult_less_0_iff)
  ultimately show ?thesis
    unfolding normalize_coordinate_in [OF assms(1)] by (auto simp: uint_u16)
qed

section \<open>UTF-8 and UTF-16 of a scalar value\<close>

lemma scalar_bound: "scalar_value cp \<Longrightarrow> cp < 0x110000"
  by (auto simp: scalar_value_def)

lemma char_utf8_bytes: "scalar_value cp \<Longrightarrow> \<forall>b \<in> set (char_utf8 cp). b < 256"
  using scalar_bound [of cp] by (auto simp: char_utf8_def)

lemma add_mod_multiple: "m dvd k \<Longrightarrow> x < m \<Longrightarrow> (k + x) mod m = (x :: nat)"
  by (metis mod_add_left_eq mod_less add_0 dvd_imp_mod_0)

lemma decode_utf8_lead:
  "\<lbrakk>128 \<le> a; a < 224\<rbrakk> \<Longrightarrow> decode_utf8 off (a # b # cs) = (off, wide_char (a mod 32 * 64 + b mod 64)) # decode_utf8 (off + 2) cs"
  "\<lbrakk>224 \<le> a; a < 240\<rbrakk> \<Longrightarrow> decode_utf8 off (a # b # c # cs) =
     (off, wide_char ((a mod 16 * 64 + b mod 64) * 64 + c mod 64)) # decode_utf8 (off + 3) cs"
  "240 \<le> a \<Longrightarrow> decode_utf8 off (a # b # c # d # cs) =
     (off, wide_char (((a mod 8 * 64 + b mod 64) * 64 + c mod 64) * 64 + d mod 64)) # decode_utf8 (off + 4) cs"
  by simp_all

lemma decode_utf8_char:
  assumes "scalar_value cp"
  shows "decode_utf8 off (char_utf8 cp @ rest) = (off, cp) # decode_utf8 (off + length (char_utf8 cp)) rest"
proof -
  have suc: "Suc (Suc (Suc off)) = off + 3" "Suc (off + 3) = off + 4" by simp_all
  have tail: "(128 + x mod 64) mod 64 = x mod 64" for x :: nat by (rule add_mod_multiple) simp_all
  have step: "x div 64 * 64 + x mod 64 = x" for x :: nat by (rule div_mult_mod_eq)
  have d: "cp div 4096 = cp div 64 div 64" "cp div 262144 = cp div 64 div 64 div 64"
    by (simp_all add: div_mult2_eq [symmetric])
  have two: "(192 + cp div 64) mod 32 * 64 + (128 + cp mod 64) mod 64 = cp" if "cp < 2048"
  proof -
    have "(192 + cp div 64) mod 32 = cp div 64" using that by (intro add_mod_multiple) simp_all
    then show ?thesis by (simp only: tail step)
  qed
  have three: "((224 + cp div 4096) mod 16 * 64 + (128 + cp div 64 mod 64) mod 64) * 64 + (128 + cp mod 64) mod 64 = cp"
    if "cp < 65536"
  proof -
    have "(224 + cp div 4096) mod 16 = cp div 4096" using that by (intro add_mod_multiple) simp_all
    then show ?thesis by (simp only: tail d step)
  qed
  have four: "(((240 + cp div 262144) mod 8 * 64 + (128 + cp div 4096 mod 64) mod 64) * 64 + (128 + cp div 64 mod 64) mod 64) * 64
      + (128 + cp mod 64) mod 64 = cp" if "cp < 1114112"
  proof -
    have "(240 + cp div 262144) mod 8 = cp div 262144" using that by (intro add_mod_multiple) simp_all
    then show ?thesis by (simp only: tail d step)
  qed
  consider "cp < 128" | "128 \<le> cp" "cp < 2048" | "2048 \<le> cp" "cp < 65536" | "65536 \<le> cp" "cp < 1114112"
    using scalar_bound [OF assms] by linarith
  then show ?thesis
  proof cases
    case 1
    then show ?thesis by (simp add: char_utf8_def)
  next
    case 2
    then have "char_utf8 cp = [192 + cp div 64, 128 + cp mod 64]" "192 + cp div 64 < 224" by (simp_all add: char_utf8_def)
    then show ?thesis
      using decode_utf8_lead(1) [of "192 + cp div 64" off "128 + cp mod 64" rest, unfolded two [OF 2(2)]] 2
      by (simp del: decode_utf8.simps add: wide_char_def suc)
  next
    case 3
    then have "char_utf8 cp = [224 + cp div 4096, 128 + cp div 64 mod 64, 128 + cp mod 64]" "224 + cp div 4096 < 240"
      by (simp_all add: char_utf8_def)
    then show ?thesis
      using decode_utf8_lead(2) [of "224 + cp div 4096" off "128 + cp div 64 mod 64" "128 + cp mod 64" rest, unfolded three [OF 3(2)]] 3
      by (simp del: decode_utf8.simps add: wide_char_def suc)
  next
    case 4
    then have "char_utf8 cp = [240 + cp div 262144, 128 + cp div 4096 mod 64, 128 + cp div 64 mod 64, 128 + cp mod 64]"
      by (simp add: char_utf8_def)
    then show ?thesis
      using decode_utf8_lead(3) [of "240 + cp div 262144" off "128 + cp div 4096 mod 64" "128 + cp div 64 mod 64" "128 + cp mod 64" rest,
        unfolded four [OF 4(2)]] 4
      by (simp del: decode_utf8.simps add: wide_char_def suc)
  qed
qed

lemma decode_utf8_chars:
  assumes "\<forall>cp \<in> set cps. scalar_value cp"
  shows "map snd (decode_utf8 off (concat (map char_utf8 cps))) = cps"
  using assms by (induction cps arbitrary: off) (simp_all add: decode_utf8_char)

lemma char_code_char_to_string: "scalar_value cp \<Longrightarrow> map char_code (char_to_string cp) = char_utf8 cp"
  using char_utf8_bytes [of cp] by (simp add: char_to_string_def char_code_def map_idI)

lemma encode_utf16_chars:
  assumes "\<forall>cp \<in> set cps. scalar_value cp"
  shows "encode_utf16 (concat (map char_to_string cps)) = concat (map char_utf16 cps)"
proof -
  have "map char_code (concat (map char_to_string cps)) = concat (map char_utf8 cps)"
    using assms by (induction cps) (simp_all add: char_code_char_to_string)
  then have "map snd (char_indices (concat (map char_to_string cps))) = cps"
    using decode_utf8_chars [OF assms, of 0] by (simp add: char_indices_def)
  moreover have "encode_utf16 s = concat (map char_utf16 (map snd (char_indices s)))" for s
    by (simp add: encode_utf16_def case_prod_unfold comp_def)
  ultimately show ?thesis by metis
qed

end
