(* ===== verification/Client_Window.thy ===== *)
theory Client_Window
  imports Windows_Input Client_Render
begin

text \<open>
  \<open>apps/nexus-client/src/window.rs\<close>: the window's configuration and commands, the two bounded queues of
  its events, the portable window thread, and the translation of Win32 messages into semantic events.
  The calls of the window system are not modelled; what \<open>GetKeyState\<close> reports is an argument.
\<close>

section \<open>Configuration and commands\<close>

definition DEFAULT_WINDOW_CHANNEL_CAPACITY :: nat where "DEFAULT_WINDOW_CHANNEL_CAPACITY = 16"
definition CONTROL_EVENT_CAPACITY :: nat where "CONTROL_EVENT_CAPACITY = 4"
definition MAX_WINDOW_TITLE_BYTES :: nat where "MAX_WINDOW_TITLE_BYTES = 256"

record WindowConfig =
  wc_title :: string
  wc_width :: u32
  wc_height :: u32
  wc_channel_capacity :: nat
  wc_max_render_payload :: nat

definition WindowConfig_default :: WindowConfig where
  "WindowConfig_default =
     \<lparr>wc_title = ''Nexus Remote Desktop'', wc_width = 1280, wc_height = 720,
      wc_channel_capacity = DEFAULT_WINDOW_CHANNEL_CAPACITY,
      wc_max_render_payload = MAX_RENDER_ACCESS_UNIT_SIZE\<rparr>"

datatype WindowError =
  We_InvalidDimensions | InvalidChannelCapacity | TitleTooLong | RenderPayloadTooLarge | ThreadStart
| CommandClosed | CommandFull | We_ShutdownTimeout | StartupTimeout

datatype WindowCommand = Cmd_Render DecodedFrameJob | SetTitle string | RequestFocus | Cmd_Close | Cmd_Shutdown

datatype WindowEvent =
  FocusChanged bool | Focused bool | Resized u32 u32 | We_Closed | We_Input InputEvent | RenderRequested
| RenderRejected

definition validate_config :: "WindowConfig \<Rightarrow> (unit, WindowError) result" where
  "validate_config config =
     (if wc_width config = 0 \<or> wc_height config = 0 \<or> wc_width config > 16384 \<or> wc_height config > 16384
      then Err We_InvalidDimensions
      else if wc_channel_capacity config = 0 \<or> wc_channel_capacity config > 1024 then Err InvalidChannelCapacity
      else if length (wc_title config) > 256 then Err TitleTooLong
      else if wc_max_render_payload config = 0 \<or> wc_max_render_payload config > MAX_RENDER_ACCESS_UNIT_SIZE
      then Err RenderPayloadTooLarge
      else Ok ())"

definition validate_command :: "WindowCommand \<Rightarrow> nat \<Rightarrow> (unit, WindowError) result" where
  "validate_command command max_render_payload =
     (case command of
        SetTitle title \<Rightarrow> if length title > MAX_WINDOW_TITLE_BYTES then Err TitleTooLong else Ok ()
      | Cmd_Render frame \<Rightarrow>
          if length (job_access_unit frame) > max_render_payload then Err RenderPayloadTooLarge else Ok ()
      | _ \<Rightarrow> Ok ())"

section \<open>The queue of control events\<close>

fun is_focus :: "WindowEvent \<Rightarrow> bool" where
  "is_focus (FocusChanged _) = True"
| "is_focus (Focused _) = True"
| "is_focus _ = False"

primrec position :: "('a \<Rightarrow> bool) \<Rightarrow> 'a list \<Rightarrow> nat option" where
  "position p [] = None"
| "position p (x # xs) = (if p x then Some 0 else map_option Suc (position p xs))"

definition remove_at :: "nat \<Rightarrow> 'a list \<Rightarrow> 'a list" where
  "remove_at i xs = take i xs @ drop (Suc i) xs"

definition control_push :: "WindowEvent list \<Rightarrow> WindowEvent \<Rightarrow> WindowEvent list" where
  "control_push events event =
     (let is_closed = (event = We_Closed);
          events = (if is_focus event then filter (\<lambda>e. \<not> is_focus e) events else events)
      in if length events \<ge> CONTROL_EVENT_CAPACITY then
           (case position is_focus events of
              Some index \<Rightarrow> remove_at index events @ [event]
            | None \<Rightarrow>
                if is_focus event \<or> is_closed then
                  (if is_closed \<and> We_Closed \<in> set events then events
                   else
                     (case position (\<lambda>e. e \<noteq> We_Closed) events of
                        Some index \<Rightarrow> remove_at index events @ [event]
                      | None \<Rightarrow> events))
                else events)
         else events @ [event])"

definition control_pop :: "WindowEvent list \<Rightarrow> WindowEvent list \<times> WindowEvent option" where
  "control_pop events = (case events of [] \<Rightarrow> ([], None) | e # es \<Rightarrow> (es, Some e))"

section \<open>The controller and the portable window thread\<close>

text \<open>
  \<open>sync_channel\<close>: a bounded queue whose \<open>try_send\<close> refuses an element when it is full.  The state is
  shared by the controller and the window's thread, which owns the receiving end of the commands.
\<close>

record WindowController =
  win_commands :: "WindowCommand list"
  win_control :: "WindowEvent list"
  win_normal :: "WindowEvent list"
  win_capacity :: nat
  win_render_queue :: RenderQueue
  win_max_render_payload :: nat
  win_native_handle :: nat
  win_shutdown_requested :: bool
  win_running :: bool
  win_worker :: bool

definition WindowController_start :: "WindowConfig \<Rightarrow> (WindowController, WindowError) result" where
  "WindowController_start config =
     and_then (validate_config config) (\<lambda>_.
       Ok \<lparr>win_commands = [], win_control = [], win_normal = [], win_capacity = wc_channel_capacity config,
           win_render_queue = RenderQueue_new, win_max_render_payload = wc_max_render_payload config,
           win_native_handle = 0, win_shutdown_requested = False, win_running = True,
           win_worker = True\<rparr>)"

definition win_try_send :: "WindowController \<Rightarrow> WindowCommand \<Rightarrow> WindowController \<times> (unit, WindowError) result" where
  "win_try_send w command =
     (case validate_command command (win_max_render_payload w) of
        Err e \<Rightarrow> (w, Err e)
      | Ok _ \<Rightarrow>
          if \<not> win_running w then (w, Err CommandClosed)
          else if length (win_commands w) \<ge> win_capacity w then (w, Err CommandFull)
          else (w\<lparr>win_commands := win_commands w @ [command]\<rparr>, Ok ()))"

definition send_normal :: "WindowController \<Rightarrow> WindowEvent \<Rightarrow> WindowController" where
  "send_normal w event =
     (if length (win_normal w) \<ge> win_capacity w then w else w\<lparr>win_normal := win_normal w @ [event]\<rparr>)"

definition send_control :: "WindowController \<Rightarrow> WindowEvent \<Rightarrow> WindowController" where
  "send_control w event = w\<lparr>win_control := control_push (win_control w) event\<rparr>"

definition try_next_event :: "WindowController \<Rightarrow> WindowController \<times> WindowEvent option" where
  "try_next_event w =
     (case control_pop (win_control w) of
        (control, Some e) \<Rightarrow> (w\<lparr>win_control := control\<rparr>, Some e)
      | (control, None) \<Rightarrow>
          (case win_normal w of
             [] \<Rightarrow> (w, None)
           | e # es \<Rightarrow> (w\<lparr>win_normal := es\<rparr>, Some e)))"

fun render_error :: "RenderQueueError \<Rightarrow> WindowError" where
  "render_error (AccessUnitTooLarge _ _) = RenderPayloadTooLarge"
| "render_error Rq_Shutdown = CommandClosed"
| "render_error EmptyAccessUnit = RenderPayloadTooLarge"
| "render_error Rq_StateUnavailable = RenderPayloadTooLarge"

definition render_latest :: "WindowController \<Rightarrow> DecodedFrameJob \<Rightarrow> WindowController \<times> (unit, WindowError) result" where
  "render_latest w frame =
     (if length (job_access_unit frame) > win_max_render_payload w then (w, Err RenderPayloadTooLarge)
      else
        (case push_latest (win_render_queue w) frame of
           (q, r) \<Rightarrow> (w\<lparr>win_render_queue := q\<rparr>, map_err render_error r)))"

definition native_handle :: "WindowController \<Rightarrow> nat option" where
  "native_handle w = (if win_native_handle w \<noteq> 0 then Some (win_native_handle w) else None)"

text \<open>One round of the portable thread; \<open>recv_timeout\<close> finds no command when the queue is empty.\<close>

definition close_window :: "WindowController \<Rightarrow> WindowController" where
  "close_window w = (send_control w We_Closed)\<lparr>win_native_handle := 0, win_running := False\<rparr>"

definition window_thread_round :: "WindowController \<Rightarrow> WindowController" where
  "window_thread_round w =
     (if \<not> win_running w then w
      else if win_shutdown_requested w then close_window w
      else
        (case win_commands w of
           [] \<Rightarrow> w
         | command # commands \<Rightarrow>
             (let w = w\<lparr>win_commands := commands\<rparr> in
              case command of
                Cmd_Render frame \<Rightarrow>
                  if length (job_access_unit frame) > win_max_render_payload w then send_control w RenderRejected
                  else
                    (case push_latest (win_render_queue w) frame of
                       (q, Err _) \<Rightarrow> send_control (w\<lparr>win_render_queue := q\<rparr>) RenderRejected
                     | (q, Ok _) \<Rightarrow> send_normal (w\<lparr>win_render_queue := q\<rparr>) RenderRequested)
              | SetTitle _ \<Rightarrow> w
              | RequestFocus \<Rightarrow> w
              | Cmd_Close \<Rightarrow> close_window w
              | Cmd_Shutdown \<Rightarrow> close_window w)))"

text \<open>
  \<open>shutdown\<close>: the request, then the thread's rounds until it has finished or the deadline is reached;
  \<open>rounds\<close> is the number of rounds the thread makes before the deadline.
\<close>

definition WindowController_shutdown :: "nat \<Rightarrow> WindowController \<Rightarrow> WindowController \<times> (unit, WindowError) result" where
  "WindowController_shutdown rounds w =
     (let w = fst (win_try_send (w\<lparr>win_shutdown_requested := True\<rparr>) Cmd_Shutdown) in
      if \<not> win_worker w then (w, Ok ())
      else
        (let w = (window_thread_round ^^ rounds) (w\<lparr>win_worker := False\<rparr>)
         in (w, if win_running w then Err We_ShutdownTimeout else Ok ())))"

section \<open>Win32 messages\<close>

type_synonym isize = "64 word"

definition signed_low :: "isize \<Rightarrow> i32" where
  "signed_low v = scast (ucast (ucast v AND (0xFFFF :: u32)) :: u16)"

definition signed_high :: "isize \<Rightarrow> i32" where
  "signed_high v = scast (ucast (drop_bit 16 (ucast v :: u32) AND 0xFFFF) :: u16)"

definition wheel_delta :: "u64 \<Rightarrow> i32" where
  "wheel_delta wparam = scast (ucast (drop_bit 16 wparam) :: u16)"

text \<open>\<open>String::from_utf16\<close> on a surrogate pair, and \<open>char::from_u32\<close>.\<close>

definition surrogate_pair :: "u16 \<Rightarrow> u16 \<Rightarrow> nat" where
  "surrogate_pair high low = 0x10000 + (unat high - 0xD800) * 1024 + (unat low - 0xDC00)"

definition decode_utf16_unit :: "u16 option \<Rightarrow> u16 \<Rightarrow> u16 option \<times> string option" where
  "decode_utf16_unit pending code_unit =
     (if 0xD800 \<le> code_unit \<and> code_unit \<le> 0xDBFF then (Some code_unit, None)
      else if 0xDC00 \<le> code_unit \<and> code_unit \<le> 0xDFFF then
        (None, map_option (\<lambda>high. char_to_string (surrogate_pair high code_unit)) pending)
      else (None, Some (char_to_string (unat code_unit))))"

definition numpad_usages :: "(u32 \<times> u32) list" where
  "numpad_usages =
     [(0x60, 0x62), (0x61, 0x59), (0x62, 0x5A), (0x63, 0x5B), (0x64, 0x5C), (0x65, 0x5D), (0x66, 0x5E),
      (0x67, 0x5F), (0x68, 0x60), (0x69, 0x61)]"

text \<open>The keys whose usage depends on the extended flag: key, usage with it, usage without it.\<close>

definition extended_usages :: "(u32 \<times> u32 \<times> u32) list" where
  "extended_usages =
     [(0x0D, 0x58, 0x28), (0x2D, 0x49, 0x62), (0x2E, 0x4C, 0x63), (0x24, 0x4A, 0x5F), (0x23, 0x4D, 0x59),
      (0x21, 0x4B, 0x61), (0x22, 0x4E, 0x5B), (0x25, 0x50, 0x5C), (0x26, 0x52, 0x60), (0x27, 0x4F, 0x5E),
      (0x28, 0x51, 0x5A), (0x11, 0xE4, 0xE0), (0x12, 0xE6, 0xE2)]"

definition plain_usages :: "(u32 \<times> u32) list" where
  "plain_usages =
     [(0x08, 0x2A), (0x09, 0x2B), (0x0C, 0x5D), (0x1B, 0x29), (0x20, 0x2C), (0x5B, 0xE3), (0x5C, 0xE7),
      (0x6A, 0x55), (0x6B, 0x57), (0x6D, 0x56), (0x6E, 0x63), (0x6F, 0x54), (0x90, 0x53), (0xBA, 0x33),
      (0xBB, 0x2E), (0xBC, 0x36), (0xBD, 0x2D), (0xBE, 0x37), (0xBF, 0x38), (0xC0, 0x35), (0xDB, 0x2F),
      (0xDC, 0x31), (0xDD, 0x30), (0xDE, 0x34)]"

definition map_virtual_key_to_hid :: "u32 \<Rightarrow> u8 \<Rightarrow> bool \<Rightarrow> u32 option" where
  "map_virtual_key_to_hid code scan extended =
     (if 0x41 \<le> code \<and> code \<le> 0x5A then Some (code - 0x41 + 0x04)
      else if 0x30 \<le> code \<and> code \<le> 0x39 then Some (if code = 0x30 then 0x27 else code - 0x30 + 0x1D)
      else if 0x70 \<le> code \<and> code \<le> 0x7B then Some (code - 0x70 + 0x3A)
      else if code = 0x10 then Some (if scan = 0x36 then 0xE5 else 0xE1)
      else
        (case map_of extended_usages code of
           Some (on, off) \<Rightarrow> Some (if extended then on else off)
         | None \<Rightarrow>
             if 0x60 \<le> code \<and> code \<le> 0x69 then map_of numpad_usages code else map_of plain_usages code))"

record key_state =
  ks_shift :: bool
  ks_ctrl :: bool
  ks_alt :: bool

definition add_modifier :: "bool \<Rightarrow> Modifiers \<Rightarrow> Modifiers \<Rightarrow> Modifiers" where
  "add_modifier down m modifiers =
     (if down then Modifiers_from_bits (Modifiers_bits modifiers OR Modifiers_bits m) else modifiers)"

definition key_modifiers :: "key_state \<Rightarrow> Modifiers" where
  "key_modifiers ks =
     add_modifier (ks_alt ks) Mod_ALT (add_modifier (ks_ctrl ks) Mod_CTRL (add_modifier (ks_shift ks) Mod_SHIFT Mod_NONE))"

definition key_event :: "key_state \<Rightarrow> u32 \<Rightarrow> isize \<Rightarrow> bool \<Rightarrow> InputEvent option" where
  "key_event ks code lparam pressed =
     (let scan = (ucast (drop_bit 16 lparam AND 0xFF) :: u8);
          extended = (drop_bit 24 lparam AND 1 \<noteq> 0)
      in case map_virtual_key_to_hid code scan extended of
           None \<Rightarrow> None
         | Some code \<Rightarrow> Some (Ev_Key code code (if pressed then Key_Down else Key_Up) (key_modifiers ks)))"

datatype WinMessage =
  WM_SETFOCUS | WM_KILLFOCUS | WM_SIZE | WM_CLOSE | WM_DESTROY | WM_KEYDOWN | WM_SYSKEYDOWN | WM_KEYUP
| WM_SYSKEYUP | WM_CHAR | WM_MOUSEMOVE | WM_LBUTTONDOWN | WM_LBUTTONUP | WM_RBUTTONDOWN | WM_RBUTTONUP
| WM_MBUTTONDOWN | WM_MBUTTONUP | WM_MOUSEWHEEL | WM_MOUSEHWHEEL | WM_Other

record native_window =
  nw_controller :: WindowController
  nw_pending_high_surrogate :: "u16 option"

definition nw_send :: "native_window \<Rightarrow> WindowEvent \<Rightarrow> native_window" where
  "nw_send n event = n\<lparr>nw_controller := send_normal (nw_controller n) event\<rparr>"

definition nw_send_control :: "native_window \<Rightarrow> WindowEvent \<Rightarrow> native_window" where
  "nw_send_control n event = n\<lparr>nw_controller := send_control (nw_controller n) event\<rparr>"

definition nw_send_key :: "native_window \<Rightarrow> InputEvent option \<Rightarrow> native_window" where
  "nw_send_key n event = (case event of None \<Rightarrow> n | Some e \<Rightarrow> nw_send n (We_Input e))"

text \<open>\<open>WM_CLOSE\<close> destroys the window, on which the system sends \<open>WM_DESTROY\<close> at once.\<close>

definition window_proc :: "key_state \<Rightarrow> native_window \<Rightarrow> WinMessage \<Rightarrow> u64 \<Rightarrow> isize \<Rightarrow> native_window" where
  "window_proc ks n message wparam lparam =
     (case message of
        WM_SETFOCUS \<Rightarrow> nw_send_control n (FocusChanged True)
      | WM_KILLFOCUS \<Rightarrow> nw_send_control n (FocusChanged False)
      | WM_SIZE \<Rightarrow> nw_send n (Resized (ucast lparam AND 0xFFFF) (drop_bit 16 (ucast lparam) AND 0xFFFF))
      | WM_CLOSE \<Rightarrow> nw_send_control n We_Closed
      | WM_DESTROY \<Rightarrow> nw_send_control n We_Closed
      | WM_KEYDOWN \<Rightarrow> nw_send_key n (key_event ks (ucast wparam) lparam True)
      | WM_SYSKEYDOWN \<Rightarrow> nw_send_key n (key_event ks (ucast wparam) lparam True)
      | WM_KEYUP \<Rightarrow> nw_send_key n (key_event ks (ucast wparam) lparam False)
      | WM_SYSKEYUP \<Rightarrow> nw_send_key n (key_event ks (ucast wparam) lparam False)
      | WM_CHAR \<Rightarrow>
          (case decode_utf16_unit (nw_pending_high_surrogate n) (ucast wparam) of
             (pending, None) \<Rightarrow> n\<lparr>nw_pending_high_surrogate := pending\<rparr>
           | (pending, Some text) \<Rightarrow> nw_send (n\<lparr>nw_pending_high_surrogate := pending\<rparr>) (We_Input (Ev_Text text)))
      | WM_MOUSEMOVE \<Rightarrow> nw_send n (We_Input (Ev_MouseMove (signed_low lparam) (signed_high lparam)))
      | WM_LBUTTONDOWN \<Rightarrow> nw_send n (We_Input (Ev_MouseButton Btn_Left True))
      | WM_LBUTTONUP \<Rightarrow> nw_send n (We_Input (Ev_MouseButton Btn_Left False))
      | WM_RBUTTONDOWN \<Rightarrow> nw_send n (We_Input (Ev_MouseButton Btn_Right True))
      | WM_RBUTTONUP \<Rightarrow> nw_send n (We_Input (Ev_MouseButton Btn_Right False))
      | WM_MBUTTONDOWN \<Rightarrow> nw_send n (We_Input (Ev_MouseButton Btn_Middle True))
      | WM_MBUTTONUP \<Rightarrow> nw_send n (We_Input (Ev_MouseButton Btn_Middle False))
      | WM_MOUSEWHEEL \<Rightarrow> nw_send n (We_Input (Ev_MouseWheel 0 (wheel_delta wparam)))
      | WM_MOUSEHWHEEL \<Rightarrow> nw_send n (We_Input (Ev_MouseWheel (wheel_delta wparam) 0))
      | WM_Other \<Rightarrow> n)"

section \<open>Laws of the control queue\<close>

lemma position_Some: "position p xs = Some i \<Longrightarrow> i < length xs \<and> p (xs ! i)"
  by (induction xs arbitrary: i) (auto split: if_splits)

lemma position_None: "position p xs = None \<longleftrightarrow> (\<forall>x \<in> set xs. \<not> p x)"
  by (induction xs) auto

lemma length_remove_at: "i < length xs \<Longrightarrow> Suc (length (remove_at i xs)) = length xs"
  by (simp add: remove_at_def)

lemma in_remove_at:
  assumes "x \<in> set xs" "i < length xs" "xs ! i \<noteq> x"
  shows "x \<in> set (remove_at i xs)"
proof -
  have "xs = take i xs @ xs ! i # drop (Suc i) xs" using assms(2) by (rule id_take_nth_drop)
  then have "x \<in> set (take i xs @ xs ! i # drop (Suc i) xs)" using assms(1) by simp
  then show ?thesis using assms(3) by (simp add: remove_at_def)
qed

lemma control_push_cases:
  fixes es e
  defines "es1 \<equiv> if is_focus e then filter (\<lambda>e. \<not> is_focus e) es else es"
  obtains (room) "length es1 < CONTROL_EVENT_CAPACITY" "control_push es e = es1 @ [e]"
  | (replaced) p i where "position p es1 = Some i" "\<not> p We_Closed" "control_push es e = remove_at i es1 @ [e]"
  | (dropped) "control_push es e = es1" "e = We_Closed \<longrightarrow> We_Closed \<in> set es1"
proof (cases "length es1 < CONTROL_EVENT_CAPACITY")
  case True
  then show ?thesis by (intro room) (simp_all add: control_push_def Let_def es1_def)
next
  case full: False
  then have push: "control_push es e = (case position is_focus es1 of
      Some index \<Rightarrow> remove_at index es1 @ [e]
    | None \<Rightarrow> if is_focus e \<or> e = We_Closed then
        (if e = We_Closed \<and> We_Closed \<in> set es1 then es1
         else (case position (\<lambda>e. e \<noteq> We_Closed) es1 of Some index \<Rightarrow> remove_at index es1 @ [e] | None \<Rightarrow> es1))
      else es1)"
    unfolding es1_def control_push_def Let_def by (simp only: not_less if_True)
  show ?thesis
  proof (cases "position is_focus es1")
    case (Some i)
    then show ?thesis using push by (intro replaced [of is_focus i]) simp_all
  next
    case nofocus: None
    show ?thesis
    proof (cases "(is_focus e \<or> e = We_Closed) \<and> \<not> (e = We_Closed \<and> We_Closed \<in> set es1)")
      case True
      show ?thesis
      proof (cases "position (\<lambda>e. e \<noteq> We_Closed) es1")
        case (Some i)
        then show ?thesis using push nofocus True by (intro replaced [of "\<lambda>e. e \<noteq> We_Closed" i]) auto
      next
        case None
        then have "\<forall>x \<in> set es1. x = We_Closed" by (simp add: position_None)
        moreover have "es1 \<noteq> []" using full by (auto simp: CONTROL_EVENT_CAPACITY_def)
        ultimately have "We_Closed \<in> set es1" by (cases es1) auto
        then show ?thesis using push nofocus None by (intro dropped) simp_all
      qed
    next
      case False
      then show ?thesis using push nofocus by (intro dropped) auto
    qed
  qed
qed

lemma control_push_length:
  assumes "length es \<le> CONTROL_EVENT_CAPACITY"
  shows "length (control_push es e) \<le> CONTROL_EVENT_CAPACITY"
proof -
  have le: "length (filter p es) \<le> CONTROL_EVENT_CAPACITY" for p
    using assms length_filter_le [of p es] by linarith
  show ?thesis
  proof (cases es e rule: control_push_cases)
    case (replaced p i)
    have "i < length (if is_focus e then filter (\<lambda>e. \<not> is_focus e) es else es)" using position_Some [OF replaced(1)] by blast
    from length_remove_at [OF this] show ?thesis using assms le by (simp add: replaced(3) split: if_splits)
  qed (use assms le in \<open>auto split: if_splits\<close>)
qed

lemma close_kept:
  assumes "We_Closed \<in> set es"
  shows "We_Closed \<in> set (control_push es e)"
proof (cases es e rule: control_push_cases)
  case (replaced p i)
  then show ?thesis
    using assms position_Some [OF replaced(1)] by (auto intro!: in_remove_at)
qed (use assms in \<open>auto split: if_splits\<close>)

lemma close_pushed: "We_Closed \<in> set (control_push es We_Closed)"
  by (cases es We_Closed rule: control_push_cases) auto

datatype queue_op = Qop_push WindowEvent | Qop_pop

fun queue_step :: "WindowEvent list \<Rightarrow> queue_op \<Rightarrow> WindowEvent list \<times> WindowEvent option" where
  "queue_step es (Qop_push e) = (control_push es e, None)"
| "queue_step es Qop_pop = control_pop es"

interpretation control_queue: machine queue_step "\<lambda>es. length es \<le> CONTROL_EVENT_CAPACITY"
proof
  fix es :: "WindowEvent list" and op assume "length es \<le> CONTROL_EVENT_CAPACITY"
  then show "length (fst (queue_step es op)) \<le> CONTROL_EVENT_CAPACITY"
    by (cases op) (auto simp: control_push_length control_pop_def split: list.splits)
qed

lemma close_survives:
  fixes es :: "WindowEvent list"
  assumes "We_Closed \<in> set es"
  shows "We_Closed \<in> set (fst (run_ops queue_step es ops)) \<or> Some We_Closed \<in> set (snd (run_ops queue_step es ops))"
  using assms
proof (induction ops arbitrary: es)
  case (Cons op ops)
  show ?case
  proof (cases "We_Closed \<in> set (fst (queue_step es op))")
    case True
    then show ?thesis using Cons.IH [OF True] by (auto simp del: run_ops.simps(2))
  next
    case False
    then have "snd (queue_step es op) = Some We_Closed"
      using Cons.prems close_kept by (cases op) (auto simp: control_pop_def split: list.splits)
    then show ?thesis by (simp del: run_ops.simps(2))
  qed
qed simp

text \<open>
  What a queue without room for another event does with a focus change that waits in it: any event that
  is not itself a focus change takes its place.
\<close>

lemma one_focus_removed:
  assumes "length (filter is_focus es) = 1" "position is_focus es = Some i"
  shows "filter is_focus (remove_at i es) = []"
  using assms
proof (induction es arbitrary: i)
  case (Cons x xs)
  show ?case
  proof (cases "is_focus x")
    case True
    then show ?thesis using Cons.prems by (simp add: remove_at_def)
  next
    case False
    then obtain j where "position is_focus xs = Some j" "i = Suc j" using Cons.prems(2) by auto
    then show ?thesis using Cons.IH [of j] Cons.prems(1) False by (simp add: remove_at_def)
  qed
qed simp

section \<open>Properties\<close>

text \<open>
  C21: closing the window is never lost.  Whatever events are pushed to the queue of control events and
  taken from it, it never holds more than its capacity of four, and a close that was pushed is still in
  it or has been taken from it.
\<close>

theorem window_close_never_lost:
  "length (fst (run_ops queue_step [] ops)) \<le> CONTROL_EVENT_CAPACITY
   \<and> (Qop_push We_Closed \<in> set ops \<longrightarrow>
        We_Closed \<in> set (fst (run_ops queue_step [] ops)) \<or> Some We_Closed \<in> set (snd (run_ops queue_step [] ops)))"
proof
  show "length (fst (run_ops queue_step [] ops)) \<le> CONTROL_EVENT_CAPACITY"
    by (rule control_queue.run_inv) simp
  show "Qop_push We_Closed \<in> set ops \<longrightarrow>
      We_Closed \<in> set (fst (run_ops queue_step [] ops)) \<or> Some We_Closed \<in> set (snd (run_ops queue_step [] ops))"
  proof
    assume "Qop_push We_Closed \<in> set ops"
    then obtain before after where ops: "ops = before @ Qop_push We_Closed # after" by (meson split_list)
    let ?es = "fst (run_ops queue_step [] before)"
    have "run_ops queue_step [] ops = (let (s, o1) = run_ops queue_step [] before;
        (s', o2) = run_ops queue_step s (Qop_push We_Closed # after) in (s', o1 @ o2))"
      by (simp only: ops run_ops_append)
    then show "We_Closed \<in> set (fst (run_ops queue_step [] ops)) \<or> Some We_Closed \<in> set (snd (run_ops queue_step [] ops))"
      using close_survives [of "control_push ?es We_Closed" after] close_pushed [of ?es]
      by (auto simp: case_prod_beta Let_def)
  qed
qed

theorem window_close_never_lost_witness:
  "We_Closed \<in> set (fst (run_ops queue_step [] [Qop_push We_Closed, Qop_push RenderRejected]))
    \<or> Some We_Closed \<in> set (snd (run_ops queue_step [] [Qop_push We_Closed, Qop_push RenderRejected]))"
  using window_close_never_lost [of "[Qop_push We_Closed, Qop_push RenderRejected]"] by (simp del: run_ops.simps)

text \<open>
  A change of focus can be lost.  In a full queue with one pending focus change, pushing any event
  other than a focus change or a repeated close drops the focus change: the reserved slot of the
  lifecycle events is given to an event that the comment calls disposable.  The viewer that lost the
  focus then still counts as focused.
\<close>

theorem window_focus_change_lost:
  assumes "length es = CONTROL_EVENT_CAPACITY" "length (filter is_focus es) = 1" "\<not> is_focus e"
  shows "filter is_focus (control_push es e) = []"
proof -
  obtain i where "position is_focus es = Some i"
    using assms(2) position_None [of is_focus es] by (cases "position is_focus es") (auto simp: filter_empty_conv)
  then show ?thesis
    using assms one_focus_removed [OF assms(2)] by (simp add: control_push_def Let_def)
qed

theorem window_focus_change_lost_witness:
  "filter is_focus (control_push [FocusChanged False, RenderRejected, RenderRejected, RenderRejected] RenderRejected) = []"
  by (rule window_focus_change_lost) (simp_all add: CONTROL_EVENT_CAPACITY_def)

end
