(* ===== verification/Client_Input.thy ===== *)
theory Client_Input
  imports Client_Window Protocol_Messages
begin

text \<open>
  \<open>apps/nexus-client/src/input.rs\<close>: the controller that bounds, rate-limits and frames the events of the
  window before they cross to the network.  \<open>Instant::now\<close> is an argument, in nanoseconds.
\<close>

section \<open>The controller\<close>

type_synonym instant = nat

definition DEFAULT_INPUT_QUEUE_CAPACITY :: nat where "DEFAULT_INPUT_QUEUE_CAPACITY = 64"
definition DEFAULT_INPUT_RATE_PER_SECOND :: nat where "DEFAULT_INPUT_RATE_PER_SECOND = 240"
definition MAX_INPUT_RATE_PER_SECOND :: nat where "MAX_INPUT_RATE_PER_SECOND = 4096"
definition MAX_INPUT_QUEUE_CAPACITY :: nat where "MAX_INPUT_QUEUE_CAPACITY = 1024"
definition MAX_INPUT_CONTROL_BYTES :: nat where "MAX_INPUT_CONTROL_BYTES = 64 * 1024"
definition one_second :: instant where "one_second = 1000000000"

datatype InputControllerError =
  NotFocused | Ic_Shutdown | RateLimited | QueueFull | InvalidQueueCapacity | InvalidRateLimit
| PayloadTooLarge | InvalidMonitor MonitorInfoError | InvalidCursor BackendError | Ic_Encode ClientInputError

record InputController =
  ic_monitor :: MonitorInfo
  ic_focused :: bool
  ic_shutdown :: bool
  ic_queue :: "bytes list"
  ic_queue_capacity :: nat
  ic_max_events_per_second :: nat
  ic_recent_events :: "instant list"

definition with_limits :: "MonitorInfo \<Rightarrow> nat \<Rightarrow> nat \<Rightarrow> (InputController, InputControllerError) result" where
  "with_limits monitor max_events_per_second queue_capacity =
     and_then (map_err InvalidMonitor (MonitorInfo_validate monitor)) (\<lambda>_.
       if queue_capacity = 0 \<or> queue_capacity > MAX_INPUT_QUEUE_CAPACITY then Err InvalidQueueCapacity
       else if max_events_per_second = 0 \<or> max_events_per_second > MAX_INPUT_RATE_PER_SECOND
       then Err InvalidRateLimit
       else Ok \<lparr>ic_monitor = monitor, ic_focused = False, ic_shutdown = False, ic_queue = [],
                ic_queue_capacity = queue_capacity, ic_max_events_per_second = max_events_per_second,
                ic_recent_events = []\<rparr>)"

definition InputController_new :: "MonitorInfo \<Rightarrow> (InputController, InputControllerError) result" where
  "InputController_new monitor = with_limits monitor DEFAULT_INPUT_RATE_PER_SECOND DEFAULT_INPUT_QUEUE_CAPACITY"

definition set_focused :: "InputController \<Rightarrow> bool \<Rightarrow> InputController" where
  "set_focused c focused = (if \<not> ic_shutdown c then c\<lparr>ic_focused := focused\<rparr> else c)"

definition is_focused :: "InputController \<Rightarrow> bool" where
  "is_focused c \<longleftrightarrow> ic_focused c \<and> \<not> ic_shutdown c"

definition ic_expire :: "InputController \<Rightarrow> InputController" where
  "ic_expire c = c\<lparr>ic_shutdown := True, ic_focused := False, ic_queue := []\<rparr>"

definition clear_pending :: "InputController \<Rightarrow> InputController" where
  "clear_pending c = c\<lparr>ic_queue := [], ic_recent_events := []\<rparr>"

text \<open>\<open>i64::clamp\<close> panics when the bounds are in the wrong order; \<open>as i32\<close> truncates.\<close>

definition i64_clamp :: "int \<Rightarrow> int \<Rightarrow> int \<Rightarrow> int outcome" where
  "i64_clamp v lo hi = (if lo \<le> hi then Returns (min (max v lo) hi) else Panics)"

definition clamp_axis :: "i32 \<Rightarrow> i32 \<Rightarrow> u32 \<Rightarrow> i32 outcome" where
  "clamp_axis v origin extent =
     (case i64_clamp (sint v) (sint origin) (sint origin + uint extent - 1) of
        Panics \<Rightarrow> Panics
      | Returns r \<Rightarrow> Returns (word_of_int r))"

definition clamp_to_monitor :: "InputEvent \<Rightarrow> MonitorInfo \<Rightarrow> InputEvent outcome" where
  "clamp_to_monitor input monitor =
     (case input of
        Ev_MouseMove x y \<Rightarrow>
          (case (clamp_axis x (origin_x monitor) (mon_width monitor), clamp_axis y (origin_y monitor) (mon_height monitor)) of
             (Returns x', Returns y') \<Rightarrow> Returns (Ev_MouseMove x' y')
           | _ \<Rightarrow> Panics)
      | other \<Rightarrow> Returns other)"

definition enqueue_input ::
  "'d input_codec \<Rightarrow> instant \<Rightarrow> InputController \<Rightarrow> InputEvent
     \<Rightarrow> (InputController \<times> (unit, InputControllerError) result) outcome" where
  "enqueue_input codec now c input =
     (if \<not> ic_focused c then Returns (c, Err NotFocused)
      else if length (ic_queue c) \<ge> ic_queue_capacity c then Returns (c, Err QueueFull)
      else
        (let recent = dropWhile (\<lambda>timestamp. now - timestamp \<ge> one_second) (ic_recent_events c);
             c = c\<lparr>ic_recent_events := recent\<rparr>
         in if length recent \<ge> ic_max_events_per_second c then Returns (c, Err RateLimited)
            else
              (case clamp_to_monitor input (ic_monitor c) of
                 Panics \<Rightarrow> Panics
               | Returns bounded \<Rightarrow>
                   (case ClientInputSender_encode codec bounded of
                      Err e \<Rightarrow> Returns (c, Err (Ic_Encode e))
                    | Ok encoded \<Rightarrow>
                        if length encoded > MAX_INPUT_CONTROL_BYTES then Returns (c, Err PayloadTooLarge)
                        else Returns (c\<lparr>ic_recent_events := recent @ [now], ic_queue := ic_queue c @ [encoded]\<rparr>, Ok ())))))"

definition ic_handle_window_event ::
  "'d input_codec \<Rightarrow> instant \<Rightarrow> InputController \<Rightarrow> WindowEvent
     \<Rightarrow> (InputController \<times> (unit, InputControllerError) result) outcome" where
  "ic_handle_window_event codec now c event =
     (if ic_shutdown c then Returns (c, Err Ic_Shutdown)
      else
        (case event of
           FocusChanged focused \<Rightarrow> Returns (set_focused c focused, Ok ())
         | Focused focused \<Rightarrow> Returns (set_focused c focused, Ok ())
         | We_Closed \<Rightarrow> Returns (ic_expire c, Ok ())
         | We_Input input \<Rightarrow> enqueue_input codec now c input
         | Resized _ _ \<Rightarrow> Returns (c, Ok ())
         | RenderRequested \<Rightarrow> Returns (c, Ok ())
         | RenderRejected \<Rightarrow> Returns (c, Ok ())))"

definition try_next_control :: "InputController \<Rightarrow> InputController \<times> bytes option" where
  "try_next_control c = (case ic_queue c of [] \<Rightarrow> (c, None) | q # qs \<Rightarrow> (c\<lparr>ic_queue := qs\<rparr>, Some q))"

definition validate_cursor_snapshot :: "InputController \<Rightarrow> CursorSnapshot \<Rightarrow> (unit, InputControllerError) result" where
  "validate_cursor_snapshot c snapshot = map_err InvalidCursor (CursorSnapshot_validate snapshot)"

section \<open>Laws\<close>

definition monitor_ok :: "MonitorInfo \<Rightarrow> bool" where
  "monitor_ok m \<longleftrightarrow> mon_width m \<noteq> 0 \<and> mon_height m \<noteq> 0"

lemma with_limits_Ok:
  assumes "with_limits m rate capacity = Ok c"
  shows "monitor_ok m" "ic_monitor c = m" "ic_queue c = []" "ic_recent_events c = []"
    and "ic_max_events_per_second c = rate" "ic_queue_capacity c = capacity" "0 < rate" "\<not> ic_focused c"
  using assms by (auto simp: with_limits_def MonitorInfo_validate_def monitor_ok_def res_simps split: if_splits)

text \<open>A coordinate is moved into the monitor, and neither the clamp nor the cast goes wrong.\<close>

lemma sint_of_int_i32: "\<lbrakk>- (2 ^ 31) \<le> k; k < 2 ^ 31\<rbrakk> \<Longrightarrow> sint (word_of_int k :: i32) = k"
  by (simp add: sint_sbintrunc' signed_take_bit_int_eq_self)

lemma clamp_axis_inside:
  assumes "extent \<noteq> 0"
  shows "\<exists>r. clamp_axis v origin extent = Returns r
    \<and> sint r = min (max (sint v) (sint origin)) (sint origin + uint extent - 1)"
proof -
  let ?r = "min (max (sint v) (sint origin)) (sint origin + uint extent - 1)"
  have "0 < uint extent" using assms by (metis uint_0_iff uint_nonnegative order_le_less)
  then have "sint origin \<le> sint origin + uint extent - 1" by linarith
  then have "- (2 ^ 31) \<le> ?r" "?r < 2 ^ 31"
    using i32_bounds [of v] i32_bounds [of origin] by (auto simp: min_def max_def)
  then have "sint (word_of_int ?r :: i32) = ?r"
    by (rule sint_of_int_i32)
  then show ?thesis
    using \<open>sint origin \<le> sint origin + uint extent - 1\<close> by (simp add: clamp_axis_def i64_clamp_def)
qed

lemma clamp_to_monitor_returns: "monitor_ok m \<Longrightarrow> \<exists>e. clamp_to_monitor input m = Returns e"
proof -
  assume m: "monitor_ok m"
  show ?thesis
  proof (cases input)
    case (Ev_MouseMove x y)
    then show ?thesis
      using m clamp_axis_inside [of "mon_width m" x "origin_x m"] clamp_axis_inside [of "mon_height m" y "origin_y m"]
      by (auto simp: clamp_to_monitor_def monitor_ok_def)
  qed (simp_all add: clamp_to_monitor_def)
qed

text \<open>
  The calls that change a controller: \<open>handle_window_event\<close>, \<open>try_next_control\<close>, \<open>clear_pending\<close>, which the
  runtime calls when a reconnect has replaced the transport and when the session may not control, \<open>set_focused\<close> and \<open>expire\<close>.
\<close>

datatype input_op = Iop_event instant WindowEvent | Iop_take | Iop_clear | Iop_focus bool | Iop_expire

text \<open>What a call did to the rate window: an event was accepted at a time, or the window was emptied.\<close>

datatype input_note = Accepted instant | Cleared | Quiet

fun input_step :: "'d input_codec \<Rightarrow> InputController \<Rightarrow> input_op \<Rightarrow> InputController \<times> input_note outcome" where
  "input_step codec c (Iop_event now event) =
     (case ic_handle_window_event codec now c event of
        Panics \<Rightarrow> (c, Panics)
      | Returns (c', r) \<Rightarrow> (c', Returns (case event of We_Input _ \<Rightarrow> if r = Ok () then Accepted now else Quiet | _ \<Rightarrow> Quiet)))"
| "input_step codec c Iop_take = (fst (try_next_control c), Returns Quiet)"
| "input_step codec c Iop_clear = (clear_pending c, Returns Cleared)"
| "input_step codec c (Iop_focus focused) = (set_focused c focused, Returns Quiet)"
| "input_step codec c Iop_expire = (ic_expire c, Returns Quiet)"

fun op_time :: "input_op \<Rightarrow> instant option" where
  "op_time (Iop_event now _) = Some now"
| "op_time _ = None"

text \<open>The times of the accepted events, cut where the rate window was emptied.\<close>

fun stretches :: "input_note outcome list \<Rightarrow> instant list list" where
  "stretches [] = [[]]"
| "stretches (Returns (Accepted t) # outs) = (t # hd (stretches outs)) # tl (stretches outs)"
| "stretches (Returns Cleared # outs) = [] # stretches outs"
| "stretches (Returns Quiet # outs) = stretches outs"
| "stretches (Panics # outs) = stretches outs"

lemma stretches_not_Nil [simp]: "stretches outs \<noteq> []"
  by (induction outs rule: stretches.induct) simp_all

text \<open>Between any two accepted events that are \<open>rate\<close> apart lies a second.\<close>

definition spaced :: "nat \<Rightarrow> instant list \<Rightarrow> bool" where
  "spaced rate ts \<longleftrightarrow> (\<forall>i. i + rate < length ts \<longrightarrow> ts ! i + one_second \<le> ts ! (i + rate))"

definition rate_inv :: "nat \<Rightarrow> nat \<Rightarrow> instant list \<Rightarrow> instant \<Rightarrow> InputController \<Rightarrow> bool" where
  "rate_inv rate capacity ts now c \<longleftrightarrow>
     ic_max_events_per_second c = rate \<and> ic_queue_capacity c = capacity \<and> length (ic_queue c) \<le> capacity
     \<and> monitor_ok (ic_monitor c) \<and> spaced rate ts
     \<and> (\<exists>old. ts = old @ ic_recent_events c \<and> (\<forall>t \<in> set old. t + one_second \<le> now))"

lemma rate_inv_later: "rate_inv rate capacity ts now c \<Longrightarrow> now \<le> now' \<Longrightarrow> rate_inv rate capacity ts now' c"
  unfolding rate_inv_def by (metis order_trans)

lemma spaced_snoc:
  assumes "spaced rate (old @ recent)" "\<forall>t \<in> set old. t + one_second \<le> now" "length recent < rate"
  shows "spaced rate ((old @ recent) @ [now])"
proof -
  have "((old @ recent) @ [now]) ! i + one_second \<le> ((old @ recent) @ [now]) ! (i + rate)"
    if i: "i + rate < length ((old @ recent) @ [now])" for i
  proof (cases "i + rate < length (old @ recent)")
    case True
    then have "i < length (old @ recent)" by simp
    with True show ?thesis using assms(1) by (simp only: spaced_def nth_append if_True)
  next
    case False
    then have last: "i + rate = length (old @ recent)" using i by simp
    then have "i < length old" using assms(3) by simp
    then have "((old @ recent) @ [now]) ! i \<in> set old" by (simp add: nth_append)
    then show ?thesis using assms(2) last by (simp add: nth_append)
  qed
  then show ?thesis unfolding spaced_def by blast
qed

lemma forget_old:
  assumes "ts = old @ recent" "\<forall>t \<in> set old. t + one_second \<le> now"
  shows "\<exists>old'. ts = old' @ dropWhile (\<lambda>t. now - t \<ge> one_second) recent \<and> (\<forall>t \<in> set old'. t + one_second \<le> now)"
proof (intro exI conjI)
  show "ts = (old @ takeWhile (\<lambda>t. now - t \<ge> one_second) recent) @ dropWhile (\<lambda>t. now - t \<ge> one_second) recent"
    by (simp add: assms(1))
  have "t + one_second \<le> now" if "t \<in> set (takeWhile (\<lambda>t. now - t \<ge> one_second) recent)" for t
    using set_takeWhileD [OF that] by (auto simp: one_second_def)
  then show "\<forall>t \<in> set (old @ takeWhile (\<lambda>t. now - t \<ge> one_second) recent). t + one_second \<le> now"
    using assms(2) by auto
qed

lemma enqueue_input_inv:
  assumes "rate_inv rate capacity ts now c"
  shows "\<exists>c' r. enqueue_input codec now c input = Returns (c', r)
    \<and> rate_inv rate capacity (if r = Ok () then ts @ [now] else ts) now c'"
proof -
  obtain old where old: "ts = old @ ic_recent_events c" "\<forall>t \<in> set old. t + one_second \<le> now"
    using assms by (auto simp: rate_inv_def)
  define recent where "recent = dropWhile (\<lambda>t. now - t \<ge> one_second) (ic_recent_events c)"
  obtain old' where old': "ts = old' @ recent" "\<forall>t \<in> set old'. t + one_second \<le> now"
    using forget_old [OF old] by (auto simp: recent_def)
  have kept: "rate_inv rate capacity ts now (c\<lparr>ic_recent_events := recent\<rparr>)"
    using assms old' by (auto simp: rate_inv_def)
  have "monitor_ok (ic_monitor c)" using assms by (simp add: rate_inv_def)
  then obtain bounded where b: "clamp_to_monitor input (ic_monitor c) = Returns bounded"
    using clamp_to_monitor_returns by blast
  have taken: "rate_inv rate capacity (ts @ [now]) now (c\<lparr>ic_recent_events := recent @ [now], ic_queue := ic_queue c @ [bs]\<rparr>)"
    if "length (ic_queue c) < capacity" "length recent < rate" for bs
    using assms that spaced_snoc [of rate old' recent now] old' by (auto simp: rate_inv_def)
  show ?thesis
    using assms kept taken b
    by (auto simp: enqueue_input_def Let_def recent_def [symmetric] rate_inv_def [of _ _ _ _ c] not_le split: result.splits)
qed

lemma ic_handle_inv:
  assumes "rate_inv rate capacity ts now c"
  shows "\<exists>c' r. ic_handle_window_event codec now c event = Returns (c', r)
    \<and> rate_inv rate capacity (case event of We_Input _ \<Rightarrow> if r = Ok () then ts @ [now] else ts | _ \<Rightarrow> ts) now c'"
proof (cases "ic_shutdown c")
  case True
  then show ?thesis using assms by (cases event) (simp_all add: ic_handle_window_event_def)
next
  case False
  then show ?thesis
    using assms enqueue_input_inv [OF assms, of codec]
    by (cases event) (auto simp: ic_handle_window_event_def set_focused_def ic_expire_def rate_inv_def)
qed

text \<open>The accepted events so far, and the stretches that the rest of a run adds to them.\<close>

definition spaced_after :: "nat \<Rightarrow> instant list \<Rightarrow> input_note outcome list \<Rightarrow> bool" where
  "spaced_after rate ts outs \<longleftrightarrow> list_all (spaced rate) ((ts @ hd (stretches outs)) # tl (stretches outs))"

lemma spaced_after_simps [simp]:
  "spaced_after rate ts [] \<longleftrightarrow> spaced rate ts"
  "spaced_after rate ts (Returns (Accepted t) # outs) \<longleftrightarrow> spaced_after rate (ts @ [t]) outs"
  "spaced_after rate ts (Returns Cleared # outs) \<longleftrightarrow> spaced rate ts \<and> spaced_after rate [] outs"
  "spaced_after rate ts (Returns Quiet # outs) \<longleftrightarrow> spaced_after rate ts outs"
  by (cases "stretches outs"; simp add: spaced_after_def)+

lemma spaced_after_Nil: "spaced_after rate [] outs \<longleftrightarrow> list_all (spaced rate) (stretches outs)"
  by (cases "stretches outs") (simp_all add: spaced_after_def)

lemma rate_inv_clear: "rate_inv rate capacity ts now c \<Longrightarrow> rate_inv rate capacity [] now (clear_pending c) \<and> spaced rate ts"
  by (simp add: rate_inv_def clear_pending_def spaced_def)

lemma input_step_inv:
  assumes "rate_inv rate capacity ts now c" "sorted (now # (case op_time op of None \<Rightarrow> [] | Some t \<Rightarrow> [t]))"
  shows "case input_step codec c op of (c', out) \<Rightarrow>
    out \<noteq> Panics \<and> (\<exists>ts'. rate_inv rate capacity ts' (case op_time op of None \<Rightarrow> now | Some t \<Rightarrow> t) c'
      \<and> (\<forall>outs. spaced_after rate ts' outs \<longrightarrow> spaced_after rate ts (out # outs)))"
proof (cases op)
  case (Iop_event t event)
  then have "rate_inv rate capacity ts t c" using assms by (auto intro: rate_inv_later)
  from ic_handle_inv [OF this, of codec event] obtain c' r where
    step: "ic_handle_window_event codec t c event = Returns (c', r)" and
    inv: "rate_inv rate capacity (case event of We_Input _ \<Rightarrow> if r = Ok () then ts @ [t] else ts | _ \<Rightarrow> ts) t c'" by blast
  from inv step show ?thesis by (cases event) (auto simp: Iop_event split: if_splits)
next
  case Iop_clear
  then show ?thesis using rate_inv_clear [OF assms(1)] by auto
qed (use assms in \<open>auto simp: try_next_control_def set_focused_def ic_expire_def rate_inv_def spaced_def
      split: list.splits\<close>)

lemma input_run_inv:
  assumes "rate_inv rate capacity ts now c" "sorted (now # List.map_filter op_time ops)"
  shows "(\<exists>ts' now'. rate_inv rate capacity ts' now' (fst (run_ops (input_step codec) c ops)))
    \<and> Panics \<notin> set (snd (run_ops (input_step codec) c ops)) \<and> spaced_after rate ts (snd (run_ops (input_step codec) c ops))"
  using assms
proof (induction ops arbitrary: ts now c)
  case Nil
  then show ?case by (auto simp: rate_inv_def)
next
  case (Cons op ops)
  let ?now = "case op_time op of None \<Rightarrow> now | Some t \<Rightarrow> t" and ?s = "input_step codec c op"
  have "sorted (now # (case op_time op of None \<Rightarrow> [] | Some t \<Rightarrow> [t]))" and later: "sorted (?now # List.map_filter op_time ops)"
    using Cons.prems(2) by (auto simp: List.map_filter_simps split: option.splits)
  from input_step_inv [OF Cons.prems(1) this(1), of codec] obtain ts' where
    step: "snd ?s \<noteq> Panics" "rate_inv rate capacity ts' ?now (fst ?s)"
      "\<And>outs. spaced_after rate ts' outs \<Longrightarrow> spaced_after rate ts (snd ?s # outs)" by (auto simp: split_beta)
  from Cons.IH [OF step(2) later] step(1,3) show ?case by (simp del: run_ops.simps(2))
qed

section \<open>Properties\<close>

text \<open>
  C20: the input limiter.  Whatever calls a new controller receives, in the order of their times, it never
  panics (no coordinate makes the clamp or the cast go wrong) and never holds more messages than its
  capacity.  Between two calls of \<open>clear_pending\<close>, which empties the rate window, it never accepts more than
  the configured number of input events in any second: two accepted events that are that number apart in
  the order of acceptance are at least a second apart.  The limit does not reach across \<open>clear_pending\<close>, which
  the runtime calls when a reconnect has replaced the transport and, in every poll, for a session that may
  not control.
\<close>

theorem input_rate_limited:
  assumes "with_limits monitor rate capacity = Ok c" "sorted (List.map_filter op_time ops)"
  shows "Panics \<notin> set (snd (run_ops (input_step codec) c ops))
    \<and> length (ic_queue (fst (run_ops (input_step codec) c ops))) \<le> capacity
    \<and> list_all (spaced rate) (stretches (snd (run_ops (input_step codec) c ops)))"
proof -
  have "rate_inv rate capacity [] 0 c"
    using with_limits_Ok [OF assms(1)] by (simp add: rate_inv_def spaced_def)
  from input_run_inv [OF this, of ops codec] assms(2) show ?thesis
    by (auto simp: rate_inv_def spaced_after_Nil)
qed

definition example_monitor :: MonitorInfo where
  "example_monitor = \<lparr>mon_id = 0, origin_x = 0, origin_y = 0, mon_width = 1920, mon_height = 1080, mon_scale = 0x3F800000\<rparr>"

lemma example_monitor_valid: "MonitorInfo_validate example_monitor = Ok ()"
proof -
  have "f32_is_finite 0x3F800000" by (simp add: f32_is_finite_def)
  moreover have "\<not> bit (0x3F800000 :: u32) 31" by (simp add: bit_iff_odd drop_bit_eq_div [symmetric])
  ultimately show ?thesis
    by (simp add: MonitorInfo_validate_def example_monitor_def f32_le_zero_def f32_gt_100_def)
qed

definition example_input_codec :: "unit input_codec" where
  "example_input_codec =
     \<lparr>key_encode = \<lambda>_. [], key_decode = \<lambda>_. Err (), text_encode = \<lambda>_. [], text_decode = \<lambda>_. Err (),
      move_encode = \<lambda>_. [], move_decode = \<lambda>_. Err (), button_encode = \<lambda>_. [], button_decode = \<lambda>_. Err (),
      wheel_encode = \<lambda>_. [], wheel_decode = \<lambda>_. Err ()\<rparr>"

definition example_calls :: "input_op list" where
  "example_calls =
     [Iop_event 5 (FocusChanged True), Iop_event 7 (We_Input (Ev_MouseMove 3 9999)),
      Iop_event 9 (We_Input (Ev_MouseButton Btn_Left True)), Iop_take,
      Iop_event 1000000007 (We_Input (Ev_MouseButton Btn_Left False)), Iop_clear,
      Iop_event 1000000009 (We_Input (Ev_MouseMove 4 4))]"

text \<open>With one event per second: the second event is refused, the third, a second after the first, is not.\<close>

lemma example_encode_input:
  "ClientInputSender_encode example_input_codec (Ev_MouseMove x y) = Ok (to_be 4 (0 :: u32))"
  "ClientInputSender_encode example_input_codec (Ev_MouseButton btn pressed) = Ok (to_be 4 (0 :: u32))"
  by (simp_all add: ClientInputSender_encode_def ClientInputSender_frame_cases example_input_codec_def res_simps del: to_be_numeral)

lemma example_clamp:
  "clamp_to_monitor (Ev_MouseMove 3 9999) example_monitor = Returns (Ev_MouseMove 3 1079)"
  "clamp_to_monitor (Ev_MouseMove 4 4) example_monitor = Returns (Ev_MouseMove 4 4)"
  "clamp_to_monitor (Ev_MouseButton btn pressed) example_monitor = Returns (Ev_MouseButton btn pressed)"
  by (simp_all add: clamp_to_monitor_def clamp_axis_def i64_clamp_def example_monitor_def)

theorem input_rate_limited_witness:
  "\<exists>c. with_limits example_monitor 1 8 = Ok c
    \<and> (let outs = snd (run_ops (input_step example_input_codec) c example_calls)
       in Panics \<notin> set outs \<and> stretches outs = [[7, 1000000007], [1000000009]] \<and> list_all (spaced 1) (stretches outs))"
proof -
  let ?c = "\<lparr>ic_monitor = example_monitor, ic_focused = False, ic_shutdown = False, ic_queue = [], ic_queue_capacity = 8,
      ic_max_events_per_second = 1, ic_recent_events = []\<rparr>"
  have c: "with_limits example_monitor 1 8 = Ok ?c"
    by (simp add: with_limits_def example_monitor_valid MAX_INPUT_QUEUE_CAPACITY_def MAX_INPUT_RATE_PER_SECOND_def res_simps)
  have "stretches (snd (run_ops (input_step example_input_codec) ?c example_calls)) = [[7, 1000000007], [1000000009]]"
    unfolding example_calls_def
    by (simp add: ic_handle_window_event_def set_focused_def enqueue_input_def one_second_def MAX_INPUT_CONTROL_BYTES_def Let_def
        example_encode_input example_clamp try_next_control_def clear_pending_def del: run_ops.simps(2) to_be_numeral)
  moreover have "sorted (List.map_filter op_time example_calls)" by (simp add: example_calls_def List.map_filter_simps)
  ultimately show ?thesis
    using c input_rate_limited [OF c, of example_calls example_input_codec] by (simp add: Let_def del: run_ops.simps)
qed

end
