(* ===== verification/Input_Pipeline.thy ===== *)
theory Input_Pipeline
  imports Client_Input
begin

text \<open>
  Keyboard, text and pointer from the viewer's window to the records that the host injects: \<open>window.rs\<close>
  and \<open>input.rs\<close> of \<open>apps/nexus-client\<close>, \<open>ClientInputSender\<close>, the desktop host's \<open>input_handler.rs\<close> and
  \<open>platform/windows/src/input.rs\<close>.
\<close>

section \<open>Keys\<close>

definition injectable :: "u32 \<Rightarrow> bool" where
  "injectable u \<longleftrightarrow>
     (0x1E \<le> u \<and> u \<le> 0x27 \<or> 0x3A \<le> u \<and> u \<le> 0x43 \<or> map_of hid_scan_codes u \<noteq> None) \<and> u \<le> 0xFFFF"

lemma injectable_letters: "list_all (\<lambda>n. injectable (of_nat (4 + n))) [0..<26]"
  by code_simp

lemma injectable_function_keys: "list_all (\<lambda>n. injectable (of_nat (0x3A + n))) [0..<12]"
  by code_simp

lemma injectable_tables:
  "list_all (\<lambda>(k, on, off). injectable on \<and> injectable off) extended_usages"
  "list_all (\<lambda>(k, u). injectable u) numpad_usages" "list_all (\<lambda>(k, u). injectable u) plain_usages"
  by code_simp+

lemma injectable_digits: "list_all (\<lambda>n. injectable (of_nat (0x1E + n))) [0..<10]" "injectable 0xE5" "injectable 0xE1"
  by code_simp+

lemma word_offset:
  assumes "a \<le> code" "code \<le> (b :: u32)" "unat b < unat a + n"
  obtains k where "k < n" "code = a + of_nat k"
proof
  have "unat (code - a) = unat code - unat a" using assms(1) by (simp add: unat_sub)
  then show "unat (code - a) < n" using assms by (simp add: word_le_nat_alt)
  show "code = a + of_nat (unat (code - a))" by simp
qed

lemma injectable_range:
  assumes "list_all (\<lambda>n. injectable (of_nat (m + n))) [0..<l]" "k < l"
  shows "injectable (of_nat m + of_nat k)"
  using assms by (simp add: list_all_iff)

lemma usage_injectable:
  assumes "map_virtual_key_to_hid code scan extended = Some usage"
  shows "injectable usage"
proof -
  have letters: "injectable (code - 0x41 + 0x04)" if r: "0x41 \<le> code" "code \<le> 0x5A"
  proof (rule word_offset [OF r, of 26])
    fix k assume "k < 26" "code = 0x41 + of_nat k"
    then show ?thesis using injectable_range [OF injectable_letters] by (simp add: add.commute)
  qed simp
  have fkeys: "injectable (code - 0x70 + 0x3A)" if r: "0x70 \<le> code" "code \<le> 0x7B"
  proof (rule word_offset [OF r, of 12])
    fix k assume "k < 12" "code = 0x70 + of_nat k"
    then show ?thesis using injectable_range [OF injectable_function_keys] by (simp add: add.commute)
  qed simp
  have digits: "injectable (if code = 0x30 then 0x27 else code - 0x30 + 0x1D)" if r: "0x30 \<le> code" "code \<le> 0x39"
  proof (cases "code = 0x30")
    case True
    then show ?thesis using injectable_range [OF injectable_digits(1), of 9] by simp
  next
    case False
    then have "0x31 \<le> code" using r(1) unfolding word_unat_eq_iff word_le_nat_alt by simp
    show ?thesis
    proof (rule word_offset [OF \<open>0x31 \<le> code\<close> r(2), of 10])
      fix k assume "k < 10" "code = 0x31 + of_nat k"
      then show ?thesis using False injectable_range [OF injectable_digits(1), of k] by (simp add: add.commute)
    qed simp
  qed
  have tables: "map_of numpad_usages code = Some u \<Longrightarrow> injectable u" "map_of plain_usages code = Some u \<Longrightarrow> injectable u"
    "map_of extended_usages code = Some (on, off) \<Longrightarrow> injectable on \<and> injectable off" for u on off
    using injectable_tables by (auto simp: list_all_iff dest!: map_of_SomeD)
  show ?thesis
    using assms letters digits fkeys tables injectable_digits(2,3)
    by (auto simp: map_virtual_key_to_hid_def split: if_splits option.splits)
qed

lemma injectable_Ok: "injectable u \<Longrightarrow> \<exists>sc. map_hid_usage u = Ok sc"
  by (cases "map_of hid_scan_codes u") (auto simp: injectable_def map_hid_usage_def res_simps)

text \<open>The message's scan code is bits 16 to 23 of its \<open>lparam\<close>, the flag of an extended key bit 24.\<close>

lemma extended_bit: "drop_bit 24 (w :: isize) AND 1 \<noteq> 0 \<longleftrightarrow> bit w 24"
  by (simp add: and_one_eq bit_iff_odd_drop_bit odd_iff_mod_2_eq_one)

lemma scan_bits: "drop_bit 16 (w :: isize) AND 0xFF = take_bit 8 (drop_bit 16 w)"
  by (simp add: take_bit_eq_mask mask_eq_exp_minus_1)

lemma key_event_usage:
  assumes "key_event ks code lparam pressed = Some e"
  obtains u where "e = Ev_Key u u (if pressed then Key_Down else Key_Up) (key_modifiers ks)" "injectable u"
    "map_virtual_key_to_hid code (ucast (take_bit 8 (drop_bit 16 lparam))) (bit lparam 24) = Some u"
  using assms usage_injectable unfolding key_event_def Let_def extended_bit scan_bits by (auto split: option.splits)

lemma from_bits_below: "\<exists>b. Modifiers_from_bits x = Modifiers b \<and> b < 16"
proof -
  have "unat (x AND 0x0F) \<le> 15" using word_and_le1 [of x "0x0F"] by (simp add: word_le_nat_alt)
  moreover have "unat (ucast (x AND 0x0F) :: u8) \<le> unat (x AND 0x0F)"
    by (simp add: unsigned_ucast_eq take_bit_nat_less_eq_self)
  ultimately show ?thesis by (simp add: Modifiers_from_bits_def word_less_nat_alt)
qed

lemma key_modifiers_canonical: "modifiers_canonical (Ev_Key p l a (key_modifiers ks))"
proof -
  have "\<exists>b. key_modifiers ks = Modifiers b \<and> b < 16"
    using from_bits_below by (simp add: key_modifiers_def add_modifier_def Mod_NONE_def)
  then show ?thesis by auto
qed

section \<open>Text\<close>

text \<open>The window receives a \<open>WM_CHAR\<close> message for every UTF-16 code unit.\<close>

definition type_units :: "key_state \<Rightarrow> isize \<Rightarrow> native_window \<Rightarrow> u16 list \<Rightarrow> native_window" where
  "type_units ks lparam n us = foldl (\<lambda>n u. window_proc ks n WM_CHAR (ucast u) lparam) n us"

lemma ucast_u16_u64 [simp]: "ucast (ucast u :: u64) = (u :: u16)"
  by (rule bit_word_eqI) (simp add: bit_ucast_iff)

lemma type_char:
  assumes "scalar_value cp"
  shows "type_units ks lparam n (char_utf16 cp) =
    nw_send (n\<lparr>nw_pending_high_surrogate := None\<rparr>) (We_Input (Ev_Text (char_to_string cp)))"
proof (cases "cp < 0x10000")
  case True
  then have "unat (of_nat cp :: u16) = cp" by (simp add: unat_of_nat)
  then show ?thesis
    using True assms
    by (auto simp: type_units_def window_proc_def char_utf16_def decode_utf16_unit_def scalar_value_def word_le_nat_alt)
next
  case False
  define hi where "hi = 0xD800 + (cp - 0x10000) div 1024"
  define lo where "lo = 0xDC00 + (cp - 0x10000) mod 1024"
  have b: "hi \<le> 0xDBFF" "lo \<le> 0xDFFF" "0xD800 \<le> hi" "0xDC00 \<le> lo"
    using scalar_bound [OF assms] by (auto simp: hi_def lo_def)
  then have u: "unat (of_nat hi :: u16) = hi" "unat (of_nat lo :: u16) = lo" by (simp_all add: unat_of_nat)
  have "surrogate_pair (of_nat hi) (of_nat lo) = cp"
    using False by (simp add: surrogate_pair_def u) (simp add: hi_def lo_def)
  then show ?thesis
    using False b u
    by (simp add: type_units_def window_proc_def char_utf16_def hi_def [symmetric] lo_def [symmetric] decode_utf16_unit_def
        word_le_nat_alt nw_send_def)
qed

text \<open>The texts that the window queues, as long as its queue has room.\<close>

lemma type_chars:
  assumes "\<forall>cp \<in> set cps. scalar_value cp"
    and "length (win_normal (nw_controller n)) + length cps \<le> win_capacity (nw_controller n)"
  shows "win_normal (nw_controller (type_units ks lparam n (concat (map char_utf16 cps)))) =
    win_normal (nw_controller n) @ map (\<lambda>cp. We_Input (Ev_Text (char_to_string cp))) cps"
  using assms
proof (induction cps arbitrary: n)
  case (Cons cp cps)
  let ?n = "nw_send (n\<lparr>nw_pending_high_surrogate := None\<rparr>) (We_Input (Ev_Text (char_to_string cp)))"
  have first: "win_normal (nw_controller ?n) = win_normal (nw_controller n) @ [We_Input (Ev_Text (char_to_string cp))]"
      "win_capacity (nw_controller ?n) = win_capacity (nw_controller n)"
    using Cons.prems(2) by (simp_all add: nw_send_def send_normal_def)
  have "type_units ks lparam n (concat (map char_utf16 (cp # cps))) = type_units ks lparam ?n (concat (map char_utf16 cps))"
    using type_char [of cp ks lparam n] Cons.prems(1) by (simp add: type_units_def)
  then show ?case using Cons.IH [of ?n] Cons.prems first by simp
qed (simp add: type_units_def)

section \<open>The way to the host\<close>

text \<open>The sizes of the Protobuf messages: a key event is small, and a text adds only its field header.\<close>

definition compact_codec :: "'d input_codec \<Rightarrow> bool" where
  "compact_codec c \<longleftrightarrow>
     (\<forall>m. length (key_encode c m) \<le> MAX_CONTROL_MESSAGE_SIZE)
     \<and> (\<forall>t. length (ti_text t) \<le> MAX_TEXT_BYTES \<longrightarrow> length (text_encode c t) \<le> MAX_CONTROL_MESSAGE_SIZE)"

lemma length_char_to_string: "length (char_to_string cp) \<le> MAX_TEXT_BYTES"
  by (simp add: char_to_string_def char_utf8_def MAX_TEXT_BYTES_def)

text \<open>A text is framed as the length of its message and the message, which the host decodes.\<close>

lemma text_framed:
  assumes "compact_codec c" "length text \<le> MAX_TEXT_BYTES"
  shows "ClientInputSender_encode c (Ev_Text text) =
    Ok (to_be 4 (of_nat (length (text_encode c \<lparr>ti_text = text\<rparr>)) :: u32) @ text_encode c \<lparr>ti_text = text\<rparr>)"
  using assms
  by (auto simp: ClientInputSender_encode_def ClientInputSender_frame_cases compact_codec_def res_simps not_less
      simp del: to_be_numeral)

definition handle_texts :: "'d input_codec \<Rightarrow> HostInputHandler \<Rightarrow> bytes list \<Rightarrow> HostInputHandler" where
  "handle_texts c h messages = foldl (\<lambda>h m. fst (handle_text_input c h m)) h messages"

lemma handle_texts_dispatched:
  assumes "input_codec_correct c"
  shows "dispatched (handle_texts c h (map (\<lambda>t. text_encode c \<lparr>ti_text = t\<rparr>) texts)) = dispatched h @ map Ev_Text texts"
  using assms
  by (induction texts arbitrary: h)
     (simp_all add: handle_texts_def handle_text_input_def input_codec_correct_def dispatch_event_def)

definition unicode_records :: "u16 list \<Rightarrow> InputRecord list" where
  "unicode_records us = concat (map (\<lambda>u. [Rec_Unicode u False, Rec_Unicode u True]) us)"

lemma translate_char:
  assumes "scalar_value cp"
  shows "translate (Ev_Text (char_to_string cp)) monitor = Ok (unicode_records (char_utf16 cp))"
  using encode_utf16_chars [of "[cp]"] assms by (simp add: unicode_records_def)

text \<open>A codec with fixed fields, on which the hypotheses hold.\<close>

definition wire_codec :: "unit input_codec" where
  "wire_codec =
     \<lparr>key_encode = \<lambda>m. to_be 4 (ke_physical_code m) @ to_be 4 (ke_logical_code m) @ to_be 4 (ke_modifiers m)
        @ [if ke_pressed m then 1 else 0],
      key_decode = \<lambda>bs. Ok \<lparr>ke_physical_code = from_be (take 4 bs), ke_logical_code = from_be (take 4 (drop 4 bs)),
        ke_pressed = (drop 12 bs = [1]), ke_modifiers = from_be (take 4 (drop 8 bs))\<rparr>,
      text_encode = \<lambda>t. as_bytes (ti_text t), text_decode = \<lambda>bs. Ok \<lparr>ti_text = map (\<lambda>b. char_of (unat b)) bs\<rparr>,
      move_encode = \<lambda>m. to_be 4 (mm_x m) @ to_be 4 (mm_y m),
      move_decode = \<lambda>bs. Ok \<lparr>mm_x = from_be (take 4 bs), mm_y = from_be (drop 4 bs)\<rparr>,
      button_encode = \<lambda>m. to_be 4 (pmb_button m) @ [if pmb_pressed m then 1 else 0],
      button_decode = \<lambda>bs. Ok \<lparr>pmb_button = from_be (take 4 bs), pmb_pressed = (drop 4 bs = [1])\<rparr>,
      wheel_encode = \<lambda>m. to_be 4 (mw_delta_x m) @ to_be 4 (mw_delta_y m),
      wheel_decode = \<lambda>bs. Ok \<lparr>mw_delta_x = from_be (take 4 bs), mw_delta_y = from_be (drop 4 bs)\<rparr>\<rparr>"

lemma wire_codec_ok: "input_codec_correct wire_codec" "compact_codec wire_codec"
proof -
  have "unat (of_char c :: u8) = of_char c" for c
    by (subst of_nat_of_char [symmetric]) (simp add: unat_of_nat)
  then have "map (\<lambda>b. char_of (unat b)) (as_bytes s) = s" for s
    by (simp add: as_bytes_def comp_def)
  then show "input_codec_correct wire_codec"
    by (simp add: input_codec_correct_def wire_codec_def del: to_be_numeral)
  show "compact_codec wire_codec"
    by (simp add: compact_codec_def wire_codec_def MAX_TEXT_BYTES_def MAX_CONTROL_MESSAGE_SIZE_def del: to_be_numeral)
qed

section \<open>Properties\<close>

text \<open>
  C6: every key of the viewer can be pressed on the host.  For a key message that the window turns into
  an event, the event is encoded, the host's handler decodes the message without its frame prefix to the
  very same event, and the injector submits one record, with the key-up mark of a release.  Its scan code is
  that of the usage to which the window's table maps the key, the scan code in bits 16 to 23 and the
  extended flag in bit 24 of the message.  The Protobuf codec is correct and its messages are small.  The
  theorem puts the handler and the injector together; in the program nothing yet hands the dispatched
  events to the injector.
\<close>

theorem keyboard_reaches_desktop:
  assumes "input_codec_correct c" "compact_codec c" "key_event ks code lparam pressed = Some e"
  shows "\<exists>bs (sc :: WindowsScanCode). ClientInputSender_encode c e = Ok bs
    \<and> handle_key_event c h (drop CONTROL_FRAME_PREFIX_SIZE bs) = (dispatch_event h e, Ok ())
    \<and> translate e monitor = Ok [Rec_ScanCode (sc_value sc) (sc_extended sc) (\<not> pressed)]
    \<and> (\<exists>u. map_virtual_key_to_hid code (ucast (take_bit 8 (drop_bit 16 lparam))) (bit lparam 24) = Some u
         \<and> map_hid_usage u = Ok sc)"
proof -
  obtain u where e: "e = Ev_Key u u (if pressed then Key_Down else Key_Up) (key_modifiers ks)" "injectable u"
      "map_virtual_key_to_hid code (ucast (take_bit 8 (drop_bit 16 lparam))) (bit lparam 24) = Some u"
    using key_event_usage [OF assms(3)] by blast
  have "\<not> u > 0xFFFF" using e(2) by (simp add: injectable_def not_less)
  then obtain bs where bs: "ClientInputSender_encode c e = Ok bs"
    using assms(2) e(1) by (auto simp: ClientInputSender_encode_def ClientInputSender_frame_cases compact_codec_def res_simps not_less)
  have "handler_of c e = handle_key_event c" by (simp add: e(1))
  then have host: "handle_key_event c h (drop CONTROL_FRAME_PREFIX_SIZE bs) = (dispatch_event h e, Ok ())"
    using ClientInputSender_encode_Ok [OF bs assms(1)] key_modifiers_canonical e(1) by metis
  obtain sc where sc: "map_hid_usage u = Ok sc"
    using injectable_Ok [OF e(2)] by blast
  then have "translate e monitor = Ok [Rec_ScanCode (sc_value sc) (sc_extended sc) (\<not> pressed)]" by (simp add: e(1))
  with host show ?thesis using bs e(3) sc by blast
qed

theorem keyboard_reaches_desktop_witness:
  "\<exists>bs (sc :: WindowsScanCode). ClientInputSender_encode wire_codec (Ev_Key 0xE5 0xE5 Key_Up Mod_NONE) = Ok bs
    \<and> handle_key_event wire_codec HostInputHandler_new (drop CONTROL_FRAME_PREFIX_SIZE bs) =
        (dispatch_event HostInputHandler_new (Ev_Key 0xE5 0xE5 Key_Up Mod_NONE), Ok ())
    \<and> translate (Ev_Key 0xE5 0xE5 Key_Up Mod_NONE) \<lparr>min_x = 0, min_y = 0, max_x = 9, max_y = 9\<rparr> =
        Ok [Rec_ScanCode (sc_value sc) (sc_extended sc) True]"
proof -
  have "key_event \<lparr>ks_shift = False, ks_ctrl = False, ks_alt = False\<rparr> 0x10 0x360000 False = Some (Ev_Key 0xE5 0xE5 Key_Up Mod_NONE)"
    by (simp add: key_event_def Let_def map_virtual_key_to_hid_def key_modifiers_def add_modifier_def)
  from keyboard_reaches_desktop [OF wire_codec_ok this, of HostInputHandler_new "\<lparr>min_x = 0, min_y = 0, max_x = 9, max_y = 9\<rparr>"]
  show ?thesis by auto
qed

text \<open>
  C7: typed text arrives character for character.  Whatever characters are typed, the window turns the
  UTF-16 code units that it receives for them into one text event per character, also when a character
  needs a surrogate pair, as long as its queue has room; the sender frames every event as a four-byte
  length and a message; \<open>decode_framed_control\<close> of the transport gives the message back from the frame; the
  host's handler, given the messages without their frames, dispatches the same texts; and the injector
  translates these to exactly the code units that were typed, in order, each as a press and a release.
  The Protobuf codec is assumed to be correct, and a text to add at most its header to its message.  In the
  program nothing yet takes the frames apart for the handler or hands the dispatched events to the injector.
\<close>

theorem typed_text_reaches_desktop:
  assumes "input_codec_correct c" "compact_codec c" "\<forall>cp \<in> set cps. scalar_value cp"
    and "length (win_normal (nw_controller n)) + length cps \<le> win_capacity (nw_controller n)"
  shows "win_normal (nw_controller (type_units ks lparam n (concat (map char_utf16 cps)))) =
      win_normal (nw_controller n) @ map (\<lambda>cp. We_Input (Ev_Text (char_to_string cp))) cps
    \<and> (\<exists>messages.
        list_all2 (\<lambda>cp m. ClientInputSender_encode c (Ev_Text (char_to_string cp)) = Ok (to_be 4 (of_nat (length m) :: u32) @ m)
            \<and> decode_framed_control (text_decode c) (to_be 4 (of_nat (length m) :: u32) @ m) = Ok \<lparr>ti_text = char_to_string cp\<rparr>)
          cps messages
        \<and> dispatched (handle_texts c HostInputHandler_new messages) = map (\<lambda>cp. Ev_Text (char_to_string cp)) cps)
    \<and> map (\<lambda>cp. translate (Ev_Text (char_to_string cp)) monitor) cps = map (\<lambda>cp. Ok (unicode_records (char_utf16 cp))) cps"
proof -
  let ?m = "\<lambda>cp. text_encode c \<lparr>ti_text = char_to_string cp\<rparr>"
  have small: "length (?m cp) \<le> MAX_CONTROL_MESSAGE_SIZE" for cp
    using assms(2) length_char_to_string by (simp add: compact_codec_def)
  have "decode_framed_control (text_decode c) (to_be 4 (of_nat (length (?m cp)) :: u32) @ ?m cp) = Ok \<lparr>ti_text = char_to_string cp\<rparr>" for cp
  proof (rule decode_encode_framed_control)
    show "encode_framed_control (text_encode c) \<lparr>ti_text = char_to_string cp\<rparr> = Ok (to_be 4 (of_nat (length (?m cp)) :: u32) @ ?m cp)"
      using small [of cp] by (simp add: encode_framed_control_def encode_control_def res_simps Let_def not_less del: to_be_numeral)
    show "text_decode c (?m cp) = Ok \<lparr>ti_text = char_to_string cp\<rparr>" using assms(1) by (simp add: input_codec_correct_def)
  qed
  then have "list_all2 (\<lambda>cp m. ClientInputSender_encode c (Ev_Text (char_to_string cp)) = Ok (to_be 4 (of_nat (length m) :: u32) @ m)
      \<and> decode_framed_control (text_decode c) (to_be 4 (of_nat (length m) :: u32) @ m) = Ok \<lparr>ti_text = char_to_string cp\<rparr>) cps (map ?m cps)"
    using text_framed [OF assms(2) length_char_to_string] by (simp add: list_all2_conv_all_nth del: to_be_numeral)
  moreover have "dispatched (handle_texts c HostInputHandler_new (map ?m cps)) = map (\<lambda>cp. Ev_Text (char_to_string cp)) cps"
    using handle_texts_dispatched [OF assms(1), of HostInputHandler_new "map char_to_string cps"]
    by (simp add: HostInputHandler_new_def comp_def)
  ultimately show ?thesis
    using type_chars [OF assms(3,4)] assms(3) by (auto simp del: translate.simps to_be_numeral simp: translate_char)
qed

definition example_window :: native_window where
  "example_window =
     \<lparr>nw_controller = \<lparr>win_commands = [], win_control = [], win_normal = [], win_capacity = 8,
        win_render_queue = RenderQueue_new, win_max_render_payload = 0, win_native_handle = 0,
        win_shutdown_requested = False, win_running = True, win_worker = True\<rparr>,
      nw_pending_high_surrogate = None\<rparr>"

theorem typed_text_reaches_desktop_witness:
  "win_normal (nw_controller (type_units \<lparr>ks_shift = False, ks_ctrl = False, ks_alt = False\<rparr> 0 example_window (concat (map char_utf16 [0x41, 0x1F600, 0xE9])))) =
      map (\<lambda>cp. We_Input (Ev_Text (char_to_string cp))) [0x41, 0x1F600, 0xE9]
    \<and> (\<exists>messages. length messages = 3
        \<and> dispatched (handle_texts wire_codec HostInputHandler_new messages) = map (\<lambda>cp. Ev_Text (char_to_string cp)) [0x41, 0x1F600, 0xE9])"
proof -
  have "\<forall>cp \<in> set [0x41, 0x1F600, 0xE9]. scalar_value cp"
      "length (win_normal (nw_controller example_window)) + length [0x41, 0x1F600, 0xE9 :: nat] \<le> win_capacity (nw_controller example_window)"
    by (simp_all add: scalar_value_def example_window_def)
  note T = typed_text_reaches_desktop [OF wire_codec_ok this, of "\<lparr>ks_shift = False, ks_ctrl = False, ks_alt = False\<rparr>" 0]
  have "win_normal (nw_controller example_window) = []" by (simp add: example_window_def)
  with T obtain messages where "list_all2 (\<lambda>cp m. ClientInputSender_encode wire_codec (Ev_Text (char_to_string cp)) =
        Ok (to_be 4 (of_nat (length m) :: u32) @ m)
      \<and> decode_framed_control (text_decode wire_codec) (to_be 4 (of_nat (length m) :: u32) @ m) = Ok \<lparr>ti_text = char_to_string cp\<rparr>)
      [0x41, 0x1F600, 0xE9] messages"
      "dispatched (handle_texts wire_codec HostInputHandler_new messages) = map (\<lambda>cp. Ev_Text (char_to_string cp)) [0x41, 0x1F600, 0xE9]"
    by blast
  moreover from this(1) have "length messages = 3" using list_all2_lengthD by fastforce
  ultimately show ?thesis using T \<open>win_normal (nw_controller example_window) = []\<close> by auto
qed

text \<open>
  C19: the pointer stays on the monitor and keeps its proportion.  For a monitor that is more than one pixel
  wide and high and whose edges fit the coordinate type, a move to any position is sent as a position on the monitor, and the host with the
  same bounds injects for each axis the fraction of the axis in units of 1/65535, rounded down.
\<close>

theorem pointer_reaches_desktop:
  assumes "1 < unat (mon_width m)" "1 < unat (mon_height m)"
    and "sint (origin_x m) + uint (mon_width m) \<le> 2 ^ 31" "sint (origin_y m) + uint (mon_height m) \<le> 2 ^ 31"
  shows "\<exists>x' y' ax ay. clamp_to_monitor (Ev_MouseMove x y) m = Returns (Ev_MouseMove x' y')
    \<and> translate (Ev_MouseMove x' y') \<lparr>min_x = origin_x m, min_y = origin_y m,
         max_x = origin_x m + mon_width m - 1, max_y = origin_y m + mon_height m - 1\<rparr> = Ok [Rec_MouseMove ax ay]
    \<and> sint x' = min (max (sint x) (sint (origin_x m))) (sint (origin_x m) + uint (mon_width m) - 1)
    \<and> sint y' = min (max (sint y) (sint (origin_y m))) (sint (origin_y m) + uint (mon_height m) - 1)
    \<and> uint ax = (sint x' - sint (origin_x m)) * 65535 div (uint (mon_width m) - 1)
    \<and> uint ay = (sint y' - sint (origin_y m)) * 65535 div (uint (mon_height m) - 1)"
proof -
  have axis: "\<exists>v' a. clamp_axis v org n = Returns v' \<and> normalize_coordinate v' org (org + n - 1) = Ok a
      \<and> sint v' = min (max (sint v) (sint org)) (sint org + uint n - 1)
      \<and> uint a = (sint v' - sint org) * 65535 div (uint n - 1)"
    if n: "1 < unat n" "sint org + uint n \<le> 2 ^ 31" for v org :: i32 and n :: u32
  proof -
    have un: "1 < uint n" using n(1) uint_nat [of n] by linarith
    have "org + n - 1 = word_of_int (sint org + uint n - 1)" by simp
    moreover have "- (2 ^ 31) \<le> sint org + uint n - 1" "sint org + uint n - 1 < 2 ^ 31"
      using n(2) un i32_bounds [of org] by linarith+
    ultimately have mx: "sint (org + n - 1) = sint org + uint n - 1" using sint_of_int_i32 by metis
    obtain v' where v': "clamp_axis v org n = Returns v'" "sint v' = min (max (sint v) (sint org)) (sint org + uint n - 1)"
      using clamp_axis_inside [of n v org] n(1) by (cases "n = 0") auto
    have "sint org < sint (org + n - 1)" "sint org \<le> sint v'" "sint v' \<le> sint (org + n - 1)"
      using mx un v'(2) by auto
    from normalize_coordinate_inside [OF this] v' mx show ?thesis by auto
  qed
  from axis [OF assms(1,3), of x] axis [OF assms(2,4), of y] show ?thesis
    by (auto simp: clamp_to_monitor_def)
qed

theorem pointer_reaches_desktop_witness:
  "\<exists>x' y' ax ay. clamp_to_monitor (Ev_MouseMove 5000 (- 3)) example_monitor = Returns (Ev_MouseMove x' y')
    \<and> translate (Ev_MouseMove x' y') \<lparr>min_x = 0, min_y = 0, max_x = 1919, max_y = 1079\<rparr> = Ok [Rec_MouseMove ax ay]
    \<and> sint x' = 1919 \<and> sint y' = 0 \<and> uint ax = 65535 \<and> uint ay = 0"
proof -
  have m: "origin_x example_monitor = 0" "origin_y example_monitor = 0" "mon_width example_monitor = 1920"
      "mon_height example_monitor = 1080"
    by (simp_all add: example_monitor_def)
  have "1 < unat (1920 :: u32)" "1 < unat (1080 :: u32)" "sint (0 :: i32) + uint (1920 :: u32) \<le> 2 ^ 31"
      "sint (0 :: i32) + uint (1080 :: u32) \<le> 2 ^ 31" by simp_all
  from pointer_reaches_desktop [of example_monitor, unfolded m, OF this, of 5000 "- 3"] obtain x' y' ax ay where
    r: "clamp_to_monitor (Ev_MouseMove 5000 (- 3)) example_monitor = Returns (Ev_MouseMove x' y')"
      "translate (Ev_MouseMove x' y') \<lparr>min_x = 0, min_y = 0, max_x = 0 + 1920 - 1, max_y = 0 + 1080 - 1\<rparr> = Ok [Rec_MouseMove ax ay]"
      "sint x' = 1919" "sint y' = 0" "uint ax = (sint x' - 0) * 65535 div 1919" "uint ay = (sint y' - 0) * 65535 div 1079"
    by (auto simp del: translate.simps)
  have "uint ax = 65535" "uint ay = 0" using r(5,6) unfolding r(3,4) by simp_all
  moreover have "(0 + 1920 - 1 :: i32) = 1919" "(0 + 1080 - 1 :: i32) = 1079" by simp_all
  ultimately show ?thesis using r(1-4) by metis
qed

end
