(* ===== verification/Client_Decoder.thy ===== *)
theory Client_Decoder
  imports Client_Render Client_Window "HOL-Library.Multiset"
begin

text \<open>
  The native part of \<open>apps/nexus-client/src/decoder.rs\<close>: the copy of a decoded buffer out of Media
  Foundation, the decoder with its queues of submitted frames and finished surfaces, and its owner on the
  other side of the command channel.  Media Foundation is an argument: a transform with its own state,
  of whose behaviour nothing is assumed.
\<close>

section \<open>Buffers\<close>

text \<open>
  What the calls on an \<open>IMFMediaBuffer\<close> return; \<open>None\<close> is a failed call.  A locked buffer is a list of
  bytes from an address on; the address 0 is the null pointer.
\<close>

record locked_2d =
  l2_source :: nat
  l2_start :: nat
  l2_pitch :: i32
  l2_length :: u32
  l2_memory :: bytes
  l2_unlocks :: bool

record locked_flat =
  lf_source :: nat
  lf_max :: u32
  lf_current :: u32
  lf_memory :: bytes
  lf_unlocks :: bool

record media_buffer =
  mb_max_length :: "u32 option"
  mb_current_length :: "u32 option"
  mb_2d2 :: "locked_2d option option"
  mb_2d :: "(u32 option \<times> bytes option) option"
  mb_flat :: "locked_flat option"

definition copy_2d2 :: "locked_2d \<Rightarrow> nat \<Rightarrow> nat \<Rightarrow> nat \<Rightarrow> (bytes \<times> nat, DecoderError) result" where
  "copy_2d2 l width rows max_length =
     (if l2_source l = 0 \<or> l2_start l = 0 \<or> sint (l2_pitch l) < 0 then Err InvalidSurface
      else
        (let pitch = nat (sint (l2_pitch l)); allocation_length = unat (l2_length l) in
         if pitch < width then Err InvalidSurface
         else if allocation_length > max_length \<or> allocation_length > MAX_SURFACE_BYTES then Err InvalidSurface
         else if l2_source l < l2_start l then Err InvalidSurface
         else
           (let offset = l2_source l - l2_start l in
            and_then (ok_or De_InvalidDimensions (usize_checked_mul pitch rows)) (\<lambda>len.
            and_then (ok_or De_InvalidDimensions (usize_checked_add offset len)) (\<lambda>extent.
              if extent > allocation_length then Err InvalidSurface
              else Ok (slice_at (l2_memory l) offset len, pitch))))))"

definition copy_flat :: "locked_flat \<Rightarrow> nat \<Rightarrow> nat \<Rightarrow> nat \<Rightarrow> (bytes \<times> nat, DecoderError) result" where
  "copy_flat l width expected max_length =
     (if lf_source l = 0 then Err De_BackendLost
      else
        (let locked_max = unat (lf_max l); locked_current = unat (lf_current l);
             bytes_result =
               (if locked_max \<le> max_length \<and> locked_max \<le> MAX_SURFACE_BYTES \<and> locked_current \<ge> expected
                   \<and> locked_current \<le> locked_max
                then Ok (slice_at (lf_memory l) 0 expected) else Err InvalidSurface)
         in if \<not> lf_unlocks l then Err De_BackendLost
            else map_ok (\<lambda>bs. (bs, width)) bytes_result))"

definition copy_contiguous :: "u32 option \<times> bytes option \<Rightarrow> nat \<Rightarrow> nat \<Rightarrow> nat \<Rightarrow> (bytes \<times> nat, DecoderError) result" where
  "copy_contiguous b width expected max_length =
     and_then (ok_or De_BackendLost (fst b)) (\<lambda>contiguous_length.
       if unat contiguous_length \<noteq> expected \<or> unat contiguous_length > max_length then Err InvalidSurface
       else
         and_then (ok_or De_BackendLost (snd b)) (\<lambda>bs.
           Ok (copy_into (replicate (unat contiguous_length) 0) 0 (take (unat contiguous_length) bs), width)))"

definition copy_locked :: "media_buffer \<Rightarrow> nat \<Rightarrow> nat \<Rightarrow> nat \<Rightarrow> nat \<Rightarrow> (bytes \<times> nat, DecoderError) result" where
  "copy_locked buffer width rows expected max_length =
     (case mb_2d2 buffer of
        Some None \<Rightarrow> Err De_BackendLost
      | Some (Some l) \<Rightarrow>
          if \<not> l2_unlocks l then Err De_BackendLost else copy_2d2 l width rows max_length
      | None \<Rightarrow>
          (case mb_2d buffer of
             Some b \<Rightarrow> copy_contiguous b width expected max_length
           | None \<Rightarrow>
               (case mb_flat buffer of
                  None \<Rightarrow> Err De_BackendLost
                | Some l \<Rightarrow> copy_flat l width expected max_length)))"

definition copy_buffer_with_stride :: "media_buffer \<Rightarrow> u32 \<Rightarrow> u32 \<Rightarrow> (bytes \<times> nat, DecoderError) result" where
  "copy_buffer_with_stride buffer width height =
     and_then (ok_or De_BackendLost (mb_max_length buffer)) (\<lambda>max_length.
       if unat max_length > MAX_SURFACE_BYTES then Err InvalidSurface
       else
         and_then (ok_or De_BackendLost (mb_current_length buffer)) (\<lambda>actual_length.
           if actual_length > max_length then Err InvalidSurface
           else
             and_then (ok_or De_InvalidDimensions (usize_checked_add (unat height) (unat height div 2))) (\<lambda>rows.
             and_then (validated_nv12_len width height) (\<lambda>expected.
               if unat actual_length < expected then Err InvalidSurface
               else copy_locked buffer (unat width) rows expected (unat max_length)))))"

section \<open>The decoder\<close>

definition MAX_PENDING_DECODED_FRAMES :: nat where "MAX_PENDING_DECODED_FRAMES = 8"
definition MAX_OUTPUTS_PER_SUBMISSION :: nat where "MAX_OUTPUTS_PER_SUBMISSION = 8"

type_synonym i64 = "64 word"

record output_sample =
  os_time :: "i64 option"
  os_buffer :: "media_buffer option"

text \<open>
  \<open>ProcessOutput\<close> with the two tests of \<open>dwStatus\<close> that the code makes.  \<open>mf_stream_info\<close> is whether the
  transform provides the samples, and \<open>cbSize\<close>.
\<close>

datatype process_output = Po_Ok "output_sample option" bool bool | Po_NeedMoreInput | Po_Failed

record 't mft =
  mf_new_sample :: "'t \<Rightarrow> nat \<Rightarrow> bool"
  mf_process_input :: "'t \<Rightarrow> bytes \<Rightarrow> i64 \<Rightarrow> 't \<times> bool"
  mf_stream_info :: "'t \<Rightarrow> (bool \<times> u32) option"
  mf_process_output :: "'t \<Rightarrow> 't \<times> process_output"
  mf_flush :: "'t \<Rightarrow> 't \<times> bool"

record PendingFrame =
  pf_frame_id :: u32
  pf_timestamp_us :: u64
  pf_timestamp_hns :: i64
  pf_keyframe :: bool

record 't NativeDecoder =
  nd_transform :: 't
  nd_width :: u32
  nd_height :: u32
  nd_gate :: DecoderGate
  nd_pending_inputs :: "PendingFrame list"
  nd_pending_surfaces :: "DecodedSurface list"

definition NativeDecoder_start :: "'t \<Rightarrow> u32 \<Rightarrow> u32 \<Rightarrow> ('t NativeDecoder, DecoderError) result" where
  "NativeDecoder_start transform width height =
     and_then (validated_nv12_len width height) (\<lambda>_.
       Ok \<lparr>nd_transform = transform, nd_width = width, nd_height = height, nd_gate = DecoderGate_default,
           nd_pending_inputs = [], nd_pending_surfaces = []\<rparr>)"

definition timestamp_hns :: "u64 \<Rightarrow> (i64, DecoderError) result" where
  "timestamp_hns timestamp =
     (if unat timestamp * 10 < 2 ^ 63 then Ok (of_nat (unat timestamp * 10)) else Err De_BackendLost)"

definition input_sample :: "'t mft \<Rightarrow> 't \<Rightarrow> DecodedFrameJob \<Rightarrow> (bytes \<times> i64, DecoderError) result" where
  "input_sample mf t job =
     (if length (job_access_unit job) \<ge> 2 ^ 32
      then Err (De_Frame (AccessUnitTooLarge (length (job_access_unit job)) MAX_RENDER_ACCESS_UNIT_SIZE))
      else if \<not> mf_new_sample mf t (length (job_access_unit job)) then Err De_BackendLost
      else map_ok (\<lambda>timestamp. (job_access_unit job, timestamp)) (timestamp_hns (job_timestamp_us job)))"

definition take_one_output ::
  "'t mft \<Rightarrow> 't NativeDecoder \<Rightarrow> 't NativeDecoder \<times> (output_sample option \<times> bool, DecoderError) result" where
  "take_one_output mf d =
     (case mf_stream_info mf (nd_transform d) of
        None \<Rightarrow> (d, Err De_BackendLost)
      | Some (transform_provides_sample, announced) \<Rightarrow>
          (let ready =
             (if transform_provides_sample then Ok ()
              else
                and_then (validated_nv12_len (nd_width d) (nd_height d)) (\<lambda>expected.
                  let capacity = max expected (unat announced) in
                  if capacity > MAX_SURFACE_BYTES then Err InvalidSurface
                  else if \<not> mf_new_sample mf (nd_transform d) capacity then Err De_BackendLost
                  else Ok ()))
           in case ready of
                Err e \<Rightarrow> (d, Err e)
              | Ok _ \<Rightarrow>
                  (case mf_process_output mf (nd_transform d) of (t, out) \<Rightarrow>
                     (d\<lparr>nd_transform := t\<rparr>,
                      case out of
                        Po_Ok sample no_sample incomplete \<Rightarrow> Ok (if no_sample then None else sample, incomplete)
                      | Po_NeedMoreInput \<Rightarrow> Ok (None, False)
                      | Po_Failed \<Rightarrow> Err De_BackendLost))))"

definition surface_of :: "'t NativeDecoder \<Rightarrow> PendingFrame \<Rightarrow> bytes \<Rightarrow> DecodedSurface" where
  "surface_of d meta packed =
     \<lparr>sf_frame_id = pf_frame_id meta, sf_timestamp_us = pf_timestamp_us meta, sf_keyframe = pf_keyframe meta,
      sf_width = nd_width d, sf_height = nd_height d, sf_format = Nv12, sf_bytes = packed\<rparr>"

text \<open>One output of the transform, matched with the submitted frame that has its time.\<close>

definition take_surface :: "'t NativeDecoder \<Rightarrow> output_sample \<Rightarrow> 't NativeDecoder \<times> (unit, DecoderError) result" where
  "take_surface d sample =
     (case os_time sample of
        None \<Rightarrow> (d, Err De_BackendLost)
      | Some time \<Rightarrow>
          (case position (\<lambda>p. pf_timestamp_hns p = time) (nd_pending_inputs d) of
             None \<Rightarrow> (d, Err De_BackendLost)
           | Some i \<Rightarrow>
               (let meta = nd_pending_inputs d ! i;
                    d = d\<lparr>nd_pending_inputs := remove_at i (nd_pending_inputs d)\<rparr>
                in case and_then (ok_or De_BackendLost (os_buffer sample)) (\<lambda>buffer.
                          and_then (copy_buffer_with_stride buffer (nd_width d) (nd_height d)) (\<lambda>(bs, stride).
                          and_then (repack_nv12 bs stride (nd_width d) (nd_height d)) (\<lambda>packed.
                            let surface = surface_of d meta packed in
                            map_ok (\<lambda>_. surface) (DecodedSurface_validate surface)))) of
                     Err e \<Rightarrow> (d, Err e)
                   | Ok surface \<Rightarrow>
                       if length (nd_pending_surfaces d) = MAX_PENDING_DECODED_FRAMES then (d, Err De_BackendLost)
                       else (d\<lparr>nd_pending_surfaces := nd_pending_surfaces d @ [surface]\<rparr>, Ok ()))))"

fun drain_loop :: "nat \<Rightarrow> 't mft \<Rightarrow> 't NativeDecoder \<Rightarrow> 't NativeDecoder \<times> (unit, DecoderError) result" where
  "drain_loop 0 mf d = (d, Err De_BackendLost)"
| "drain_loop (Suc n) mf d =
     (case take_one_output mf d of
        (d, Err e) \<Rightarrow> (d, Err e)
      | (d, Ok (None, more_output)) \<Rightarrow> if more_output then drain_loop n mf d else (d, Ok ())
      | (d, Ok (Some sample, more_output)) \<Rightarrow>
          (case take_surface d sample of
             (d, Err e) \<Rightarrow> (d, Err e)
           | (d, Ok _) \<Rightarrow> if more_output then drain_loop n mf d else (d, Ok ())))"

definition drain_outputs :: "'t mft \<Rightarrow> 't NativeDecoder \<Rightarrow> 't NativeDecoder \<times> (unit, DecoderError) result" where
  "drain_outputs = drain_loop MAX_OUTPUTS_PER_SUBMISSION"

definition pending_frame :: "DecodedFrameJob \<Rightarrow> i64 \<Rightarrow> PendingFrame" where
  "pending_frame job time =
     \<lparr>pf_frame_id = job_frame_id job, pf_timestamp_us = job_timestamp_us job, pf_timestamp_hns = time,
      pf_keyframe = job_keyframe job\<rparr>"

definition pop_surface :: "'t NativeDecoder \<Rightarrow> 't NativeDecoder \<times> DecodedSurface option" where
  "pop_surface d =
     (case nd_pending_surfaces d of
        [] \<Rightarrow> (d, None)
      | s # ss \<Rightarrow> (d\<lparr>nd_pending_surfaces := ss\<rparr>, Some s))"

definition nd_decode ::
  "'t mft \<Rightarrow> 't NativeDecoder \<Rightarrow> DecodedFrameJob \<Rightarrow> 't NativeDecoder \<times> (DecodedSurface option, DecoderError) result" where
  "nd_decode mf d job =
     (case DecoderGate_accept (nd_gate d) job of
        (gate, Err e) \<Rightarrow> (d\<lparr>nd_gate := gate\<rparr>, Err e)
      | (gate, Ok _) \<Rightarrow>
          (let d = d\<lparr>nd_gate := gate\<rparr> in
           case input_sample mf (nd_transform d) job of
             Err e \<Rightarrow> (d, Err e)
           | Ok (sample, sample_time) \<Rightarrow>
               (case timestamp_hns (job_timestamp_us job) of
                  Err e \<Rightarrow> (d, Err e)
                | Ok time \<Rightarrow>
                    if length (nd_pending_inputs d) = MAX_PENDING_DECODED_FRAMES then (d, Err De_BackendLost)
                    else
                      (case mf_process_input mf (nd_transform d) sample sample_time of
                         (t, False) \<Rightarrow> (d\<lparr>nd_transform := t\<rparr>, Err De_BackendLost)
                       | (t, True) \<Rightarrow>
                           (case drain_outputs mf (d\<lparr>nd_transform := t,
                                   nd_pending_inputs := nd_pending_inputs d @ [pending_frame job time]\<rparr>) of
                              (d, Err e) \<Rightarrow> (d, Err e)
                            | (d, Ok _) \<Rightarrow> (case pop_surface d of (d, s) \<Rightarrow> (d, Ok s)))))))"

definition nd_reset :: "'t mft \<Rightarrow> 't NativeDecoder \<Rightarrow> 't NativeDecoder \<times> (unit, DecoderError) result" where
  "nd_reset mf d =
     (case mf_flush mf (nd_transform d) of
        (t, False) \<Rightarrow> (d\<lparr>nd_transform := t\<rparr>, Err De_BackendLost)
      | (t, True) \<Rightarrow>
          (d\<lparr>nd_transform := t, nd_pending_inputs := [], nd_pending_surfaces := [],
             nd_gate := DecoderGate_reset (nd_gate d)\<rparr>, Ok ()))"

text \<open>
  The owner of the decoder's thread.  \<open>answered\<close> says whether the reply comes within the request timeout;
  the thread carries the command out either way.
\<close>

record 't MediaFoundationDecoder =
  mfd_gate :: DecoderGate
  mfd_native :: "'t NativeDecoder"

definition MediaFoundationDecoder_start :: "'t \<Rightarrow> u32 \<Rightarrow> u32 \<Rightarrow> ('t MediaFoundationDecoder, DecoderError) result" where
  "MediaFoundationDecoder_start transform width height =
     map_ok (\<lambda>native. \<lparr>mfd_gate = DecoderGate_default, mfd_native = native\<rparr>)
       (NativeDecoder_start transform width height)"

definition mfd_decode ::
  "'t mft \<Rightarrow> bool \<Rightarrow> 't MediaFoundationDecoder \<Rightarrow> DecodedFrameJob
     \<Rightarrow> 't MediaFoundationDecoder \<times> (DecodedSurface option, DecoderError) result" where
  "mfd_decode mf answered m job =
     (case DecoderGate_accept (mfd_gate m) job of
        (gate, Err e) \<Rightarrow> (m\<lparr>mfd_gate := gate\<rparr>, Err e)
      | (gate, Ok _) \<Rightarrow>
          (case nd_decode mf (mfd_native m) job of (native, r) \<Rightarrow>
             (m\<lparr>mfd_gate := gate, mfd_native := native\<rparr>, if answered then r else Err De_BackendLost)))"

definition mfd_reset ::
  "'t mft \<Rightarrow> bool \<Rightarrow> 't MediaFoundationDecoder \<Rightarrow> 't MediaFoundationDecoder \<times> (unit, DecoderError) result" where
  "mfd_reset mf answered m =
     (case nd_reset mf (mfd_native m) of (native, r) \<Rightarrow>
        (m\<lparr>mfd_gate := DecoderGate_reset (mfd_gate m), mfd_native := native\<rparr>,
         if answered then r else Err De_BackendLost))"

section \<open>Laws of the copy\<close>

text \<open>What the documentation of the locks promises: the reported length is the extent of the memory.\<close>

definition extents_true :: "media_buffer \<Rightarrow> bool" where
  "extents_true buffer \<longleftrightarrow>
     (case mb_2d2 buffer of Some (Some l) \<Rightarrow> length (l2_memory l) = unat (l2_length l) | _ \<Rightarrow> True)
     \<and> (case mb_flat buffer of Some l \<Rightarrow> length (lf_memory l) = unat (lf_max l) | _ \<Rightarrow> True)"

lemma copy_2d2_in_bounds:
  assumes "copy_2d2 l width rows max_length = Ok (bs, stride)" "length (l2_memory l) = unat (l2_length l)"
  shows "width \<le> stride" "length bs = stride * rows" "stride * rows \<le> MAX_SURFACE_BYTES"
  using assms
  by (auto simp: copy_2d2_def Let_def res_simps usize_checked_mul_def usize_checked_add_def slice_at_def not_less
      split: if_splits)

lemma copy_flat_in_bounds:
  assumes "copy_flat l width expected max_length = Ok (bs, stride)" "length (lf_memory l) = unat (lf_max l)"
  shows "stride = width" "length bs = expected"
  using assms by (auto simp: copy_flat_def Let_def res_simps slice_at_def split: if_splits)

lemma copy_contiguous_in_bounds:
  assumes "copy_contiguous b width expected max_length = Ok (bs, stride)"
  shows "stride = width" "length bs = expected"
  using assms by (auto simp: copy_contiguous_def res_simps copy_into_def split: if_splits)

lemma copy_locked_in_bounds:
  assumes "copy_locked buffer width rows expected max_length = Ok (bs, stride)" "extents_true buffer"
    and "expected = width * rows" "expected \<le> MAX_SURFACE_BYTES"
  shows "width \<le> stride \<and> length bs = stride * rows \<and> length bs \<le> MAX_SURFACE_BYTES"
proof (cases "mb_2d2 buffer")
  case (Some l2)
  then show ?thesis
    using assms(1,2) copy_2d2_in_bounds [of _ width rows max_length bs stride]
    by (cases l2) (auto simp: copy_locked_def extents_true_def split: if_splits)
next
  case None
  then show ?thesis
    using assms copy_flat_in_bounds [of _ width expected max_length bs stride]
      copy_contiguous_in_bounds [of _ width expected max_length bs stride]
    by (cases "mb_2d buffer"; cases "mb_flat buffer") (auto simp: copy_locked_def extents_true_def)
qed

lemma validated_nv12_len_Ok:
  assumes "validated_nv12_len width height = Ok n"
  shows "n = unat width * (unat height + unat height div 2)" "n \<le> MAX_SURFACE_BYTES"
    "is_ok (validated_pixel_count width height)"
proof -
  obtain pixels where px: "validated_pixel_count width height = Ok pixels" and n: "n = pixels + pixels div 2" "n \<le> MAX_SURFACE_BYTES"
    using assms by (auto simp: validated_nv12_len_def res_simps usize_checked_add_def not_less split: if_splits)
  then show "n \<le> MAX_SURFACE_BYTES" "is_ok (validated_pixel_count width height)" by simp_all
  have "even (unat height)" "pixels = unat width * unat height" using px by (simp_all add: validated_pixel_count_iff)
  then show "n = unat width * (unat height + unat height div 2)" using n(1) by (auto simp: algebra_simps elim!: evenE)
qed

lemma copy_buffer_in_bounds:
  assumes "copy_buffer_with_stride buffer width height = Ok (bs, stride)" "extents_true buffer"
  shows "unat width \<le> stride" "length bs = stride * (unat height + unat height div 2)" "length bs \<le> MAX_SURFACE_BYTES"
    and "is_ok (validated_pixel_count width height)"
proof -
  obtain max_length expected where e: "validated_nv12_len width height = Ok expected" and
    c: "copy_locked buffer (unat width) (unat height + unat height div 2) expected max_length = Ok (bs, stride)"
    using assms(1)
    by (auto simp: copy_buffer_with_stride_def res_simps usize_checked_add_def split: if_splits)
  note n = validated_nv12_len_Ok [OF e]
  then show "is_ok (validated_pixel_count width height)" by simp
  show "unat width \<le> stride" "length bs = stride * (unat height + unat height div 2)" "length bs \<le> MAX_SURFACE_BYTES"
    using copy_locked_in_bounds [OF c assms(2) n(1,2)] by simp_all
qed

section \<open>Laws of the decoder\<close>

text \<open>What a frame carries through the decoder.\<close>

type_synonym frame_key = "u32 \<times> u64 \<times> bool"

definition job_key :: "DecodedFrameJob \<Rightarrow> frame_key" where
  "job_key job = (job_frame_id job, job_timestamp_us job, job_keyframe job)"

definition pf_key :: "PendingFrame \<Rightarrow> frame_key" where
  "pf_key p = (pf_frame_id p, pf_timestamp_us p, pf_keyframe p)"

definition sf_key :: "DecodedSurface \<Rightarrow> frame_key" where
  "sf_key s = (sf_frame_id s, sf_timestamp_us s, sf_keyframe s)"

text \<open>The frames that are inside the decoder, and its invariant.\<close>

definition nd_load :: "'t NativeDecoder \<Rightarrow> frame_key multiset" where
  "nd_load d = mset (map pf_key (nd_pending_inputs d)) + mset (map sf_key (nd_pending_surfaces d))"

definition surface_good :: "u32 \<Rightarrow> u32 \<Rightarrow> DecodedSurface \<Rightarrow> bool" where
  "surface_good width height s \<longleftrightarrow>
     DecodedSurface_validate s = Ok () \<and> sf_width s = width \<and> sf_height s = height \<and> sf_format s = Nv12"

definition nd_inv :: "u32 \<Rightarrow> u32 \<Rightarrow> 't NativeDecoder \<Rightarrow> bool" where
  "nd_inv width height d \<longleftrightarrow>
     nd_width d = width \<and> nd_height d = height
     \<and> length (nd_pending_inputs d) \<le> MAX_PENDING_DECODED_FRAMES
     \<and> length (nd_pending_surfaces d) \<le> MAX_PENDING_DECODED_FRAMES
     \<and> (\<forall>s \<in> set (nd_pending_surfaces d). surface_good width height s)"

lemma mset_remove_at: "i < length xs \<Longrightarrow> mset xs = add_mset (xs ! i) (mset (remove_at i xs))"
  by (simp add: remove_at_def) (metis id_take_nth_drop mset.simps(2) mset_append union_mset_add_mset_right)

lemma take_one_output_same:
  "nd_load (fst (take_one_output mf d)) = nd_load d \<and> (nd_inv w h d \<longrightarrow> nd_inv w h (fst (take_one_output mf d)))"
  by (auto simp: take_one_output_def nd_load_def nd_inv_def Let_def split: option.splits result.splits prod.splits)

text \<open>A matched output moves one frame from the submitted ones to the finished ones, or loses it.\<close>

lemma sf_key_surface_of [simp]: "sf_key (surface_of d meta packed) = pf_key meta"
  by (simp add: sf_key_def surface_of_def pf_key_def)

lemma surface_of_update [simp]: "surface_of (d\<lparr>nd_pending_inputs := ps\<rparr>) meta packed = surface_of d meta packed"
  by (simp add: surface_of_def)

lemma take_surface_load: "nd_load (fst (take_surface d sample)) \<subseteq># nd_load d"
proof -
  have rm: "mset (nd_pending_inputs d) = add_mset (nd_pending_inputs d ! i) (mset (remove_at i (nd_pending_inputs d)))"
    if "position q (nd_pending_inputs d) = Some i" for q i
    using mset_remove_at [of i "nd_pending_inputs d"] position_Some [OF that] by simp
  show ?thesis
    unfolding take_surface_def nd_load_def Let_def
    by (auto simp: rm res_simps split: option.splits result.splits if_splits)
qed

lemma take_surface_inv: "nd_inv w h d \<Longrightarrow> nd_inv w h (fst (take_surface d sample))"
proof -
  assume inv: "nd_inv w h d"
  have rm: "length (remove_at i (nd_pending_inputs d)) \<le> MAX_PENDING_DECODED_FRAMES"
    if "position q (nd_pending_inputs d) = Some i" for q i
    using inv length_remove_at [of i "nd_pending_inputs d"] position_Some [OF that] by (auto simp: nd_inv_def)
  have good: "surface_good (nd_width d) (nd_height d) (surface_of d meta packed)" if "DecodedSurface_validate (surface_of d meta packed) = Ok ()" for meta packed
    using that by (simp add: surface_good_def surface_of_def)
  show ?thesis
    using inv unfolding take_surface_def Let_def
    by (auto simp: rm res_simps good nd_inv_def split: option.splits result.splits if_splits)
qed

lemma drain_loop_load: "nd_load (fst (drain_loop n mf d)) \<subseteq># nd_load d"
proof (induction n arbitrary: d)
  case (Suc n)
  have out: "nd_load (fst (take_one_output mf d)) = nd_load d" using take_one_output_same by blast
  have sub: "nd_load (fst (drain_loop n mf (fst (take_surface d' sample)))) \<subseteq># nd_load d'" for d' :: "'a NativeDecoder" and sample
    using Suc.IH take_surface_load subset_mset.order_trans by blast
  obtain d' r where o: "take_one_output mf d = (d', r)" by fastforce
  show ?case
    using out Suc.IH [of d'] sub [of d'] take_surface_load [of d']
    by (auto simp: o split: result.splits prod.splits option.splits dest!: spec)
       (metis fst_conv)+
qed simp

lemma drain_loop_inv: "nd_inv w h d \<Longrightarrow> nd_inv w h (fst (drain_loop n mf d))"
proof (induction n arbitrary: d)
  case (Suc n)
  obtain d' r where o: "take_one_output mf d = (d', r)" by fastforce
  then have "nd_inv w h d'" using Suc.prems take_one_output_same [of mf d w h] by simp
  then have "nd_inv w h (fst (take_surface d' sample))" "nd_inv w h (fst (drain_loop n mf d'))"
      "nd_inv w h (fst (drain_loop n mf (fst (take_surface d' sample))))" for sample
    using Suc.IH take_surface_inv by blast+
  with \<open>nd_inv w h d'\<close> show ?case
    by (auto simp: o split: result.splits prod.splits option.splits) (metis fst_conv)+
qed simp

lemma nd_decode_load:
  "nd_load (fst (nd_decode mf d job)) + (case snd (nd_decode mf d job) of Ok (Some s) \<Rightarrow> {#sf_key s#} | _ \<Rightarrow> {#})
     \<subseteq># add_mset (job_key job) (nd_load d)"
proof -
  define submitted where "submitted = (\<lambda>gate t time. d\<lparr>nd_gate := gate, nd_transform := t,
      nd_pending_inputs := nd_pending_inputs d @ [pending_frame job time]\<rparr>)"
  have drained: "nd_load (fst (drain_outputs mf (submitted gate t time))) \<subseteq># add_mset (job_key job) (nd_load d)" for gate t time
    using drain_loop_load [of MAX_OUTPUTS_PER_SUBMISSION mf "submitted gate t time"]
    by (simp add: drain_outputs_def submitted_def nd_load_def pending_frame_def pf_key_def job_key_def)
  have popped: "nd_load (fst (pop_surface d')) + (case snd (pop_surface d') of Some s \<Rightarrow> {#sf_key s#} | None \<Rightarrow> {#}) = nd_load d'"
    for d' :: "'a NativeDecoder"
    by (auto simp: pop_surface_def nd_load_def split: list.splits)
  have keep: "nd_load (d\<lparr>nd_gate := gate\<rparr>) = nd_load d" "nd_load (d\<lparr>nd_gate := gate, nd_transform := t\<rparr>) = nd_load d" for gate t
    by (simp_all add: nd_load_def)
  show ?thesis
  proof (cases "drain_outputs mf (submitted (fst (DecoderGate_accept (nd_gate d) job))
      (fst (mf_process_input mf (nd_transform d) (job_access_unit job) (of_nat (unat (job_timestamp_us job) * 10))))
      (of_nat (unat (job_timestamp_us job) * 10)))")
    case (Pair d' r)
    have d': "nd_load d' \<subseteq># add_mset (job_key job) (nd_load d)" using drained Pair by (metis fst_conv)
    show ?thesis
      using d' popped [of d'] Pair
      by (auto simp: nd_decode_def Let_def keep input_sample_def timestamp_hns_def submitted_def res_simps
          split: result.splits prod.splits if_splits option.splits bool.splits)
  qed
qed

lemma nd_decode_inv:
  assumes "nd_inv w h d"
  shows "nd_inv w h (fst (nd_decode mf d job))"
    and "snd (nd_decode mf d job) = Ok (Some s) \<Longrightarrow> surface_good w h s"
proof -
  define submitted where "submitted = (\<lambda>gate t time. d\<lparr>nd_gate := gate, nd_transform := t,
      nd_pending_inputs := nd_pending_inputs d @ [pending_frame job time]\<rparr>)"
  have drained: "nd_inv w h (fst (drain_outputs mf (submitted gate t time)))"
    if "length (nd_pending_inputs d) \<noteq> MAX_PENDING_DECODED_FRAMES" for gate t time
    unfolding drain_outputs_def
    by (rule drain_loop_inv) (use assms that in \<open>simp add: submitted_def nd_inv_def\<close>)
  have popped: "nd_inv w h (fst (pop_surface d')) \<and> (snd (pop_surface d') = Some s \<longrightarrow> surface_good w h s)"
    if "nd_inv w h d'" for d' :: "'a NativeDecoder"
    using that by (auto simp: pop_surface_def nd_inv_def split: list.splits)
  have keep: "nd_inv w h (d\<lparr>nd_gate := gate\<rparr>)" "nd_inv w h (d\<lparr>nd_gate := gate, nd_transform := t\<rparr>)" for gate t
    using assms by (simp_all add: nd_inv_def)
  obtain d' r where Pair: "drain_outputs mf (submitted (fst (DecoderGate_accept (nd_gate d) job))
      (fst (mf_process_input mf (nd_transform d) (job_access_unit job) (of_nat (unat (job_timestamp_us job) * 10))))
      (of_nat (unat (job_timestamp_us job) * 10))) = (d', r)" by fastforce
  then have d': "nd_inv w h d'" if "length (nd_pending_inputs d) \<noteq> MAX_PENDING_DECODED_FRAMES"
    using drained [OF that] by (metis fst_conv)
  show "nd_inv w h (fst (nd_decode mf d job))" "snd (nd_decode mf d job) = Ok (Some s) \<Longrightarrow> surface_good w h s"
    using popped [OF d'] d' Pair
    by (auto simp: nd_decode_def Let_def keep input_sample_def timestamp_hns_def submitted_def res_simps
        split: result.splits prod.splits if_splits option.splits bool.splits)
qed

interpretation decoder: machine "nd_decode mf" "nd_inv w h"
  for mf w h
  by unfold_locales (rule nd_decode_inv)

text \<open>A decoder without frames: a new one, and one after a reset.\<close>

lemma NativeDecoder_start_Ok:
  assumes "NativeDecoder_start t w h = Ok d"
  shows "nd_inv w h d" "nd_load d = {#}" "\<not> initialized (nd_gate d)"
  using assms by (auto simp: NativeDecoder_start_def nd_inv_def nd_load_def res_simps DecoderGate_default_def)

lemma nd_reset_Ok:
  assumes "snd (nd_reset mf d) = Ok ()"
  shows "nd_load (fst (nd_reset mf d)) = {#}" "\<not> initialized (nd_gate (fst (nd_reset mf d)))"
    and "nd_inv w h d \<Longrightarrow> nd_inv w h (fst (nd_reset mf d))"
  using assms by (auto simp: nd_reset_def nd_load_def nd_inv_def DecoderGate_reset_def split: prod.splits bool.splits)

definition decoded :: "(DecodedSurface option, DecoderError) result list \<Rightarrow> DecodedSurface list" where
  "decoded outs = List.map_filter (\<lambda>out. case out of Ok s \<Rightarrow> s | Err _ \<Rightarrow> None) outs"

lemma decoded_Nil [simp]: "decoded [] = []"
  by (simp add: decoded_def List.map_filter_simps)

lemma decoded_Cons:
  "decoded (out # outs) = (case out of Ok (Some s) \<Rightarrow> [s] | _ \<Rightarrow> []) @ decoded outs"
  by (auto simp: decoded_def List.map_filter_simps split: result.splits option.splits)

lemma decoded_load:
  "nd_load (fst (run_ops (nd_decode mf) d jobs)) + mset (map sf_key (decoded (snd (run_ops (nd_decode mf) d jobs))))
     \<subseteq># nd_load d + mset (map job_key jobs)"
proof (induction jobs arbitrary: d)
  case (Cons job jobs)
  let ?d = "fst (nd_decode mf d job)"
    and ?out = "case snd (nd_decode mf d job) of Ok (Some s) \<Rightarrow> {#sf_key s#} | _ \<Rightarrow> {#}"
  have "mset (map sf_key (decoded (snd (run_ops (nd_decode mf) d (job # jobs))))) =
      ?out + mset (map sf_key (decoded (snd (run_ops (nd_decode mf) ?d jobs))))"
    by (simp add: decoded_Cons split: result.splits option.splits del: run_ops.simps(2))
  then have "nd_load (fst (run_ops (nd_decode mf) d (job # jobs))) + mset (map sf_key (decoded (snd (run_ops (nd_decode mf) d (job # jobs)))))
      \<subseteq># (nd_load ?d + mset (map job_key jobs)) + ?out"
    using Cons.IH [of ?d] by (simp add: algebra_simps del: run_ops.simps(2) mset_map)
  also have "\<dots> \<subseteq># add_mset (job_key job) (nd_load d) + mset (map job_key jobs)"
    using subset_mset.add_right_mono [OF nd_decode_load [of mf d job], of "mset (map job_key jobs)"]
    by (simp add: algebra_simps del: mset_map)
  finally show ?case by simp
qed simp

lemma decoded_good:
  "nd_inv w h d \<Longrightarrow> \<forall>s \<in> set (decoded (snd (run_ops (nd_decode mf) d jobs))). surface_good w h s"
proof (induction jobs arbitrary: d)
  case (Cons job jobs)
  then show ?case
    using nd_decode_inv [OF Cons.prems, of mf job]
    by (auto simp: decoded_Cons split: result.splits option.splits simp del: run_ops.simps(2))
qed simp

section \<open>Properties\<close>

text \<open>
  C16: the copy out of a Media Foundation buffer stays inside the memory that the lock mapped, for every
  address, pitch and length that the lock may report: the bytes that are read are all there, never more
  than the limit, and they are enough rows of enough width, so that repacking them succeeds and gives a
  surface that the renderer's validation accepts.
\<close>

theorem decoder_copy_in_bounds:
  assumes "extents_true buffer" "copy_buffer_with_stride buffer width height = Ok (bs, stride)"
  shows "length bs = stride * (unat height + unat height div 2) \<and> length bs \<le> MAX_SURFACE_BYTES
    \<and> repack_nv12 bs stride width height = Ok (nv12_rows bs stride (unat width) (unat height))
    \<and> DecodedSurface_validate \<lparr>sf_frame_id = f, sf_timestamp_us = ts, sf_keyframe = k, sf_width = width,
        sf_height = height, sf_format = Nv12, sf_bytes = nv12_rows bs stride (unat width) (unat height)\<rparr> = Ok ()"
proof -
  note b = copy_buffer_in_bounds [OF assms(2,1)]
  then have r: "repack_nv12 bs stride width height = Ok (nv12_rows bs stride (unat width) (unat height))"
    by (simp add: repack_nv12_cases MAX_SURFACE_BYTES_def not_less)
  then show ?thesis
    using b(2,3) by (auto intro!: repacked_surface_valid)
qed

text \<open>
  C15: whatever the transform answers, a decoder that starts empty, freshly started or after a reset, gives
  back only frames it was given, none of them twice, each with the identity, time stamp and keyframe flag
  it was submitted with; every surface is valid and has the dimensions of the stream; and the two queues
  stay within their bound.
\<close>

theorem decoder_output_faithful:
  assumes "NativeDecoder_start t w h = Ok d0 \<or> nd_inv w h d \<and> nd_reset mf d = (d0, Ok ())"
    and "run_ops (nd_decode mf) d0 jobs = (d1, outs)"
  shows "mset (map sf_key (decoded outs)) \<subseteq># mset (map job_key jobs)
    \<and> (\<forall>s \<in> set (decoded outs). surface_good w h s)
    \<and> length (nd_pending_inputs d1) \<le> MAX_PENDING_DECODED_FRAMES
    \<and> length (nd_pending_surfaces d1) \<le> MAX_PENDING_DECODED_FRAMES"
proof -
  have d0: "nd_inv w h d0" "nd_load d0 = {#}"
    using assms(1) NativeDecoder_start_Ok [of t w h d0] nd_reset_Ok [of mf d] by auto
  have "nd_load d1 + mset (map sf_key (decoded outs)) \<subseteq># mset (map job_key jobs)"
    using decoded_load [of mf d0 jobs] assms(2) d0(2) by simp
  then have "mset (map sf_key (decoded outs)) \<subseteq># mset (map job_key jobs)"
    using mset_subset_eq_add_right subset_mset.order_trans by blast
  moreover have "nd_inv w h d1"
    using decoder.run_inv [OF d0(1), of mf jobs] assms(2) by simp
  ultimately show ?thesis
    using decoded_good [OF d0(1), of mf jobs] assms(2) by (simp add: nd_inv_def)
qed

section \<open>Examples\<close>

text \<open>A transform that answers every input at once with a picture of 2 by 2 pixels.\<close>

definition example_buffer :: media_buffer where
  "example_buffer =
     \<lparr>mb_max_length = Some 12, mb_current_length = Some 6,
      mb_2d2 = Some (Some \<lparr>l2_source = 102, l2_start = 100, l2_pitch = 3, l2_length = 11,
        l2_memory = [9, 9, 1, 2, 0, 3, 4, 0, 5, 6, 0], l2_unlocks = True\<rparr>),
      mb_2d = None, mb_flat = None\<rparr>"

definition example_mft :: "i64 option mft" where
  "example_mft =
     \<lparr>mf_new_sample = \<lambda>_ _. True, mf_process_input = \<lambda>_ _ time. (Some time, True),
      mf_stream_info = \<lambda>_. Some (False, 0),
      mf_process_output = \<lambda>t. (None, case t of None \<Rightarrow> Po_NeedMoreInput
        | Some time \<Rightarrow> Po_Ok (Some \<lparr>os_time = Some time, os_buffer = Some example_buffer\<rparr>) False False),
      mf_flush = \<lambda>_. (None, True)\<rparr>"

definition example_frame_job :: "u32 \<Rightarrow> DecodedFrameJob" where
  "example_frame_job n =
     \<lparr>job_frame_id = n, job_timestamp_us = 5, job_keyframe = True, job_access_unit = [0, 0, 1, 0x67, 7]\<rparr>"

lemmas decoder_eval = copy_buffer_with_stride_def copy_locked_def copy_2d2_def example_buffer_def usize_checked_add_def
  usize_checked_mul_def validated_nv12_len_def validated_pixel_count_def MAX_SURFACE_BYTES_def MAX_SURFACE_WIDTH_def
  MAX_SURFACE_HEIGHT_def slice_at_def Let_def

lemma example_copy: "copy_buffer_with_stride example_buffer 2 2 = Ok ([1, 2, 0, 3, 4, 0, 5, 6, 0], 3)"
  by (simp add: decoder_eval)

theorem decoder_copy_in_bounds_witness:
  "repack_nv12 [1, 2, 0, 3, 4, 0, 5, 6, 0] 3 2 2 = Ok [1, 2, 3, 4, 5, 6]"
proof -
  have "extents_true example_buffer" by (simp add: extents_true_def example_buffer_def)
  from decoder_copy_in_bounds [OF this example_copy]
  show ?thesis by (simp add: nv12_rows_def slice_at_def upt_rec)
qed

lemma example_gate: "DecoderGate_accept DecoderGate_default (example_frame_job n) = (\<lparr>initialized = True\<rparr>, Ok ())"
  by (simp add: DecoderGate_accept_def validate_frame_def example_frame_job_def DecoderGate_default_def MAX_RENDER_ACCESS_UNIT_SIZE_def
      MAX_FRAME_PAYLOAD_SIZE_def contains_h264_sequence_header_def windows_def upt_rec)

lemma example_decode_one:
  "\<exists>d1 s. run_ops (nd_decode example_mft)
     \<lparr>nd_transform = None, nd_width = 2, nd_height = 2, nd_gate = DecoderGate_default, nd_pending_inputs = [],
      nd_pending_surfaces = []\<rparr> [example_frame_job 7] = (d1, [Ok (Some s)]) \<and> sf_frame_id s = 7"
proof -
  let ?d = "\<lparr>nd_transform = None, nd_width = 2, nd_height = 2, nd_gate = DecoderGate_default, nd_pending_inputs = [],
      nd_pending_surfaces = []\<rparr>"
  have surface: "take_surface d \<lparr>os_time = Some 50, os_buffer = Some example_buffer\<rparr> =
      (d\<lparr>nd_pending_inputs := [], nd_pending_surfaces := [surface_of d (pending_frame (example_frame_job 7) 50) [1, 2, 3, 4, 5, 6]]\<rparr>, Ok ())"
    if "nd_width d = 2" "nd_height d = 2" "nd_pending_inputs d = [pending_frame (example_frame_job 7) 50]" "nd_pending_surfaces d = []"
    for d :: "i64 option NativeDecoder"
    using that
    by (simp add: take_surface_def Let_def example_copy pending_frame_def remove_at_def MAX_PENDING_DECODED_FRAMES_def)
      (simp add: repack_nv12_cases validated_pixel_count_def MAX_SURFACE_WIDTH_def MAX_SURFACE_HEIGHT_def usize_checked_mul_def
        nv12_rows_def slice_at_def upt_rec DecodedSurface_validate_def surface_of_def usize_checked_add_def MAX_SURFACE_BYTES_def
        MAX_PENDING_DECODED_FRAMES_def)
  have out: "take_one_output example_mft d =
      (d\<lparr>nd_transform := None\<rparr>, Ok (Some \<lparr>os_time = Some 50, os_buffer = Some example_buffer\<rparr>, False))"
    if "nd_width d = 2" "nd_height d = 2" "nd_transform d = Some 50" for d
    using that by (simp add: take_one_output_def example_mft_def decoder_eval)
  have drained: "drain_outputs example_mft d =
      (d\<lparr>nd_transform := None, nd_pending_inputs := [],
         nd_pending_surfaces := [surface_of d (pending_frame (example_frame_job 7) 50) [1, 2, 3, 4, 5, 6]]\<rparr>, Ok ())"
    if "nd_width d = 2" "nd_height d = 2" "nd_transform d = Some 50"
      "nd_pending_inputs d = [pending_frame (example_frame_job 7) 50]" "nd_pending_surfaces d = []" for d
    using that out [OF that(1-3)] surface [of "d\<lparr>nd_transform := None\<rparr>"]
    by (simp add: drain_outputs_def MAX_OUTPUTS_PER_SUBMISSION_def eval_nat_numeral surface_of_def)
  have job: "job_timestamp_us (example_frame_job 7) = 5" "length (job_access_unit (example_frame_job 7)) = 5"
      "job_frame_id (example_frame_job 7) = 7"
    by (simp_all add: example_frame_job_def)
  have "mf_new_sample example_mft = (\<lambda>_ _. True)" "mf_process_input example_mft = (\<lambda>_ _ time. (Some time, True))"
    by (simp_all add: example_mft_def)
  then show ?thesis
    by (simp add: nd_decode_def example_gate Let_def input_sample_def timestamp_hns_def job drained MAX_PENDING_DECODED_FRAMES_def
        pop_surface_def surface_of_def)
      (simp add: pending_frame_def job)
qed

theorem decoder_output_faithful_witness:
  "\<exists>d1 s. run_ops (nd_decode example_mft)
     \<lparr>nd_transform = None, nd_width = 2, nd_height = 2, nd_gate = DecoderGate_default, nd_pending_inputs = [],
      nd_pending_surfaces = []\<rparr> [example_frame_job 7] = (d1, [Ok (Some s)]) \<and> sf_frame_id s = 7 \<and> surface_good 2 2 s"
proof -
  let ?d = "\<lparr>nd_transform = None, nd_width = 2, nd_height = 2, nd_gate = DecoderGate_default, nd_pending_inputs = [],
      nd_pending_surfaces = []\<rparr> :: i64 option NativeDecoder"
  obtain d1 s where r: "run_ops (nd_decode example_mft) ?d [example_frame_job 7] = (d1, [Ok (Some s)])" "sf_frame_id s = 7"
    using example_decode_one by blast
  have "NativeDecoder_start None 2 2 = Ok ?d" by (simp add: NativeDecoder_start_def decoder_eval)
  then have "surface_good 2 2 s"
    using decoder_output_faithful [of None 2 2 ?d _ example_mft, OF disjI1 r(1)] by (simp add: decoded_Cons)
  with r show ?thesis by blast
qed

end
