(* ===== verification/Client_Pipeline.thy ===== *)
theory Client_Pipeline
  imports Client_Decoder
begin

text \<open>
  The native pipeline of \<open>apps/nexus-client/src/runtime.rs\<close>: the slot of the newest frame, the epochs
  that a reconnect starts, and the worker that decodes and presents.  The worker is modelled by the
  points between which the owner of the pipeline may act; the renderer is an argument.
\<close>

section \<open>The pipeline\<close>

text \<open>
  The worker is idle, has taken a job out of the slot, has decoded a surface, is about to present one, or
  has left its loop.
\<close>

datatype worker_phase =
    Ph_Idle | Ph_Taken u64 DecodedFrameJob | Ph_Decoded u64 DecodedSurface | Ph_Present u64 DecodedSurface | Ph_Finished

text \<open>
  \<open>np_submitted\<close> and \<open>np_shown\<close> are histories that no operation reads: the jobs put into the slot and the
  surfaces the renderer has presented, with their generations.
\<close>

record 't NativePipeline =
  np_pending :: "(u64 \<times> DecodedFrameJob) option"
  np_generation :: u64
  np_stop :: bool
  np_errors :: "DecoderError list"
  np_worker :: bool
  np_decoder :: "'t MediaFoundationDecoder"
  np_worker_generation :: u64
  np_phase :: worker_phase
  np_submitted :: "(u64 \<times> DecodedFrameJob) list"
  np_shown :: "(u64 \<times> DecodedSurface) list"

text \<open>\<open>answered\<close>: the thread was spawned and reports within two seconds; \<open>renderer\<close> is how the renderer starts.\<close>

definition NativePipeline_start ::
  "'t \<Rightarrow> (unit, DecoderError) result \<Rightarrow> bool \<Rightarrow> nat option \<Rightarrow> u32 \<Rightarrow> u32 \<Rightarrow> ('t NativePipeline, DecoderError) result" where
  "NativePipeline_start transform renderer answered handle width height =
     and_then (ok_or De_BackendUnavailable handle) (\<lambda>_.
     if \<not> answered then Err De_BackendUnavailable
     else
       and_then (MediaFoundationDecoder_start transform width height) (\<lambda>decoder.
       and_then renderer (\<lambda>_.
         Ok \<lparr>np_pending = None, np_generation = 0, np_stop = False, np_errors = [], np_worker = True,
           np_decoder = decoder, np_worker_generation = 0, np_phase = Ph_Idle, np_submitted = [], np_shown = []\<rparr>)))"

definition stale_native_job :: "u64 \<Rightarrow> u64 \<Rightarrow> u64 \<Rightarrow> bool" where
  "stale_native_job job_generation current_generation worker_generation \<longleftrightarrow>
     job_generation < current_generation \<or> job_generation < worker_generation"

text \<open>\<open>error_tx.try_send(error); break\<close> on a channel of capacity one.\<close>

definition worker_fail :: "DecoderError \<Rightarrow> 't NativePipeline \<Rightarrow> 't NativePipeline" where
  "worker_fail e p =
     p\<lparr>np_errors := (if length (np_errors p) \<ge> 1 then np_errors p else np_errors p @ [e]), np_phase := Ph_Finished\<rparr>"

definition worker_take :: "'t NativePipeline \<Rightarrow> 't NativePipeline" where
  "worker_take p =
     (if np_stop p then p\<lparr>np_phase := Ph_Finished\<rparr>
      else
        (case np_pending p of
           None \<Rightarrow> p
         | Some (generation, job) \<Rightarrow> p\<lparr>np_pending := None, np_phase := Ph_Taken generation job\<rparr>))"

definition worker_decode :: "'t mft \<Rightarrow> bool \<Rightarrow> 't NativePipeline \<Rightarrow> u64 \<Rightarrow> DecodedFrameJob \<Rightarrow> 't NativePipeline" where
  "worker_decode mf answered p generation job =
     (case mfd_decode mf answered (np_decoder p) job of
        (m, Ok (Some surface)) \<Rightarrow> p\<lparr>np_decoder := m, np_phase := Ph_Decoded generation surface\<rparr>
      | (m, Ok None) \<Rightarrow> p\<lparr>np_decoder := m, np_phase := Ph_Idle\<rparr>
      | (m, Err e) \<Rightarrow>
          if e = MissingSequenceHeader then p\<lparr>np_decoder := m, np_phase := Ph_Idle\<rparr>
          else worker_fail e (p\<lparr>np_decoder := m\<rparr>))"

definition worker_job :: "'t mft \<Rightarrow> bool \<Rightarrow> 't NativePipeline \<Rightarrow> u64 \<Rightarrow> DecodedFrameJob \<Rightarrow> 't NativePipeline" where
  "worker_job mf answered p generation job =
     (if stale_native_job generation (np_generation p) (np_worker_generation p) then p\<lparr>np_phase := Ph_Idle\<rparr>
      else if generation > np_worker_generation p then
        (case mfd_reset mf answered (np_decoder p) of
           (m, Err e) \<Rightarrow> worker_fail e (p\<lparr>np_decoder := m\<rparr>)
         | (m, Ok _) \<Rightarrow>
             worker_decode mf answered (p\<lparr>np_decoder := m, np_worker_generation := generation\<rparr>) generation job)
      else worker_decode mf answered p generation job)"

definition worker_step ::
  "'t mft \<Rightarrow> (DecodedSurface \<Rightarrow> (unit, DecoderError) result) \<Rightarrow> bool \<Rightarrow> 't NativePipeline \<Rightarrow> 't NativePipeline" where
  "worker_step mf present answered p =
     (case np_phase p of
        Ph_Idle \<Rightarrow> worker_take p
      | Ph_Taken generation job \<Rightarrow> worker_job mf answered p generation job
      | Ph_Decoded generation surface \<Rightarrow>
          p\<lparr>np_phase := (if generation = np_generation p then Ph_Present generation surface else Ph_Idle)\<rparr>
      | Ph_Present generation surface \<Rightarrow>
          (case present surface of
             Err e \<Rightarrow> worker_fail e p
           | Ok _ \<Rightarrow> p\<lparr>np_phase := Ph_Idle, np_shown := np_shown p @ [(generation, surface)]\<rparr>)
      | Ph_Finished \<Rightarrow> p)"

definition poll_error :: "'t NativePipeline \<Rightarrow> 't NativePipeline \<times> DecoderError option" where
  "poll_error p = (case np_errors p of [] \<Rightarrow> (p, None) | e # es \<Rightarrow> (p\<lparr>np_errors := es\<rparr>, Some e))"

definition np_submit :: "'t NativePipeline \<Rightarrow> DecodedFrameJob \<Rightarrow> 't NativePipeline \<times> (unit, DecoderError) result" where
  "np_submit p job =
     (case poll_error p of
        (p, Some e) \<Rightarrow> (p, Err e)
      | (p, None) \<Rightarrow>
          if np_worker p \<and> np_phase p = Ph_Finished then (p, Err De_BackendLost)
          else
            (p\<lparr>np_pending := Some (np_generation p, job),
               np_submitted := np_submitted p @ [(np_generation p, job)]\<rparr>, Ok ()))"

text \<open>\<open>reset_for_reconnect\<close> has two steps, between which the worker may act.\<close>

definition reset_generation :: "'t NativePipeline \<Rightarrow> 't NativePipeline" where
  "reset_generation p = p\<lparr>np_generation := np_generation p + 1\<rparr>"

definition reset_pending :: "'t NativePipeline \<Rightarrow> 't NativePipeline" where
  "reset_pending p = p\<lparr>np_pending := None\<rparr>"

definition reset_for_reconnect :: "'t NativePipeline \<Rightarrow> 't NativePipeline" where
  "reset_for_reconnect p = reset_pending (reset_generation p)"

text \<open>\<open>finished\<close> says whether the worker has ended when the deadline is reached.\<close>

definition np_shutdown :: "bool \<Rightarrow> 't NativePipeline \<Rightarrow> 't NativePipeline \<times> bool" where
  "np_shutdown finished p =
     (if np_worker p then (p\<lparr>np_stop := True, np_worker := False\<rparr>, finished)
      else (p\<lparr>np_stop := True\<rparr>, True))"

section \<open>The pipeline as a machine\<close>

datatype pipeline_op =
    Pl_Submit DecodedFrameJob | Pl_Reset_Generation | Pl_Reset_Pending | Pl_Poll | Pl_Shutdown bool | Pl_Worker bool

fun pipeline_step ::
  "'t mft \<Rightarrow> (DecodedSurface \<Rightarrow> (unit, DecoderError) result) \<Rightarrow> 't NativePipeline \<Rightarrow> pipeline_op \<Rightarrow> 't NativePipeline \<times> unit" where
  "pipeline_step mf present p (Pl_Submit job) = (fst (np_submit p job), ())"
| "pipeline_step mf present p Pl_Reset_Generation = (reset_generation p, ())"
| "pipeline_step mf present p Pl_Reset_Pending = (reset_pending p, ())"
| "pipeline_step mf present p Pl_Poll = (fst (poll_error p), ())"
| "pipeline_step mf present p (Pl_Shutdown finished) = (fst (np_shutdown finished p), ())"
| "pipeline_step mf present p (Pl_Worker answered) = (worker_step mf present answered p, ())"

text \<open>A frame with these data was submitted in the generation; a sequence start was.\<close>

definition from_epoch :: "'t NativePipeline \<Rightarrow> u64 \<Rightarrow> frame_key \<Rightarrow> bool" where
  "from_epoch p g k \<longleftrightarrow> (\<exists>job. (g, job) \<in> set (np_submitted p) \<and> job_key job = k)"

definition epoch_open :: "'t NativePipeline \<Rightarrow> u64 \<Rightarrow> bool" where
  "epoch_open p g \<longleftrightarrow> (\<exists>job. (g, job) \<in> set (np_submitted p) \<and> sequence_start job)"

definition surface_ok :: "u32 \<Rightarrow> u32 \<Rightarrow> 't NativePipeline \<Rightarrow> u64 \<Rightarrow> DecodedSurface \<Rightarrow> bool" where
  "surface_ok w h p g s \<longleftrightarrow> from_epoch p g (sf_key s) \<and> epoch_open p g \<and> surface_good w h s"

definition decoder_ok :: "u32 \<Rightarrow> u32 \<Rightarrow> 't NativePipeline \<Rightarrow> bool" where
  "decoder_ok w h p \<longleftrightarrow>
     nd_inv w h (mfd_native (np_decoder p))
     \<and> (\<forall>k \<in># nd_load (mfd_native (np_decoder p)). from_epoch p (np_worker_generation p) k)
     \<and> (initialized (mfd_gate (np_decoder p)) \<longrightarrow> epoch_open p (np_worker_generation p))"

fun phase_ok :: "u32 \<Rightarrow> u32 \<Rightarrow> 't NativePipeline \<Rightarrow> worker_phase \<Rightarrow> bool" where
  "phase_ok w h p Ph_Idle \<longleftrightarrow> decoder_ok w h p"
| "phase_ok w h p (Ph_Taken g job) \<longleftrightarrow> decoder_ok w h p \<and> (g, job) \<in> set (np_submitted p)"
| "phase_ok w h p (Ph_Decoded g s) \<longleftrightarrow> decoder_ok w h p \<and> g = np_worker_generation p \<and> surface_ok w h p g s"
| "phase_ok w h p (Ph_Present g s) \<longleftrightarrow> decoder_ok w h p \<and> g = np_worker_generation p \<and> surface_ok w h p g s"
| "phase_ok w h p Ph_Finished \<longleftrightarrow> True"

definition pipeline_inv :: "u32 \<Rightarrow> u32 \<Rightarrow> 't NativePipeline \<Rightarrow> bool" where
  "pipeline_inv w h p \<longleftrightarrow>
     phase_ok w h p (np_phase p)
     \<and> (\<forall>e. np_pending p = Some e \<longrightarrow> e \<in> set (np_submitted p))
     \<and> (\<forall>(g, s) \<in> set (np_shown p). g \<le> np_worker_generation p \<and> surface_ok w h p g s)
     \<and> sorted (map fst (np_shown p))"

section \<open>Laws\<close>

lemma gate_accept_opens:
  "initialized (fst (DecoderGate_accept g job)) \<Longrightarrow> initialized g \<or> sequence_start job"
  by (auto simp: DecoderGate_accept_def sequence_start_def split: result.splits if_splits)

lemma gate_accept_Ok: "snd (DecoderGate_accept g job) = Ok u \<Longrightarrow> initialized (fst (DecoderGate_accept g job))"
  by (auto simp: DecoderGate_accept_def split: result.splits if_splits)

lemma nd_decode_keys:
  "k \<in># nd_load (fst (nd_decode mf d job)) \<Longrightarrow> k \<in># nd_load d \<or> k = job_key job"
  "snd (nd_decode mf d job) = Ok (Some s) \<Longrightarrow> sf_key s \<in># nd_load d \<or> sf_key s = job_key job"
  using nd_decode_load [of mf d job] by (auto dest: mset_subset_eqD)

lemma mfd_decode_laws:
  assumes "nd_inv w h (mfd_native m)" "mfd_decode mf answered m job = (m', r)"
  shows "nd_inv w h (mfd_native m')"
    and "k \<in># nd_load (mfd_native m') \<Longrightarrow> k \<in># nd_load (mfd_native m) \<or> k = job_key job"
    and "initialized (mfd_gate m') \<Longrightarrow> initialized (mfd_gate m) \<or> sequence_start job"
    and "r = Ok (Some s) \<Longrightarrow> sf_key s \<in># nd_load (mfd_native m) \<or> sf_key s = job_key job"
    and "r = Ok (Some s) \<Longrightarrow> surface_good w h s \<and> initialized (mfd_gate m')"
proof -
  obtain gate g where g: "DecoderGate_accept (mfd_gate m) job = (gate, g)" by fastforce
  obtain native n where n: "nd_decode mf (mfd_native m) job = (native, n)" by fastforce
  have gate: "initialized gate \<Longrightarrow> initialized (mfd_gate m) \<or> sequence_start job" "g = Ok () \<Longrightarrow> initialized gate"
    using gate_accept_opens [of "mfd_gate m" job] gate_accept_Ok [of "mfd_gate m" job] by (simp_all add: g)
  have native: "nd_inv w h native" "n = Ok (Some s) \<Longrightarrow> surface_good w h s"
      "k \<in># nd_load native \<Longrightarrow> k \<in># nd_load (mfd_native m) \<or> k = job_key job"
      "n = Ok (Some s) \<Longrightarrow> sf_key s \<in># nd_load (mfd_native m) \<or> sf_key s = job_key job"
    using nd_decode_inv [OF assms(1), of mf job] nd_decode_keys [where mf = mf and d = "mfd_native m" and job = job]
    by (simp_all add: n)
  have m': "m' = (case g of Err _ \<Rightarrow> m\<lparr>mfd_gate := gate\<rparr> | Ok _ \<Rightarrow> m\<lparr>mfd_gate := gate, mfd_native := native\<rparr>)"
      "r = (case g of Err e \<Rightarrow> Err e | Ok _ \<Rightarrow> if answered then n else Err De_BackendLost)"
    using assms(2) by (auto simp: mfd_decode_def g n split: result.splits)
  show "nd_inv w h (mfd_native m')" using native(1) assms(1) by (cases g) (simp_all add: m')
  show "k \<in># nd_load (mfd_native m') \<Longrightarrow> k \<in># nd_load (mfd_native m) \<or> k = job_key job"
    using native(3) by (cases g) (simp_all add: m')
  show "initialized (mfd_gate m') \<Longrightarrow> initialized (mfd_gate m) \<or> sequence_start job"
    using gate(1) by (cases g) (simp_all add: m')
  show "r = Ok (Some s) \<Longrightarrow> sf_key s \<in># nd_load (mfd_native m) \<or> sf_key s = job_key job"
    using native(4) by (cases g; cases answered) (simp_all add: m')
  show "r = Ok (Some s) \<Longrightarrow> surface_good w h s \<and> initialized (mfd_gate m')"
    using native(2) gate(2) by (cases g; cases answered) (simp_all add: m')
qed

lemma mfd_reset_laws:
  assumes "nd_inv w h (mfd_native m)" "mfd_reset mf answered m = (m', Ok u)"
  shows "nd_inv w h (mfd_native m')" "nd_load (mfd_native m') = {#}" "\<not> initialized (mfd_gate m')"
  using assms nd_reset_Ok [of mf "mfd_native m"]
  by (auto simp: mfd_reset_def DecoderGate_reset_def split: prod.splits if_splits)

text \<open>The steps of the worker keep the histories it does not write, and only move its generation forward.\<close>

lemma worker_decode_frame:
  "np_submitted (worker_decode mf a p g job) = np_submitted p" "np_shown (worker_decode mf a p g job) = np_shown p"
  "np_pending (worker_decode mf a p g job) = np_pending p"
  "np_worker_generation (worker_decode mf a p g job) = np_worker_generation p"
  by (simp_all add: worker_decode_def worker_fail_def split: prod.splits result.splits option.splits)

lemma worker_decode_phase:
  assumes "decoder_ok w h p" "(np_worker_generation p, job) \<in> set (np_submitted p)"
  shows "phase_ok w h (worker_decode mf a p (np_worker_generation p) job)
    (np_phase (worker_decode mf a p (np_worker_generation p) job))"
proof -
  let ?g = "np_worker_generation p"
  obtain m r where m: "mfd_decode mf a (np_decoder p) job = (m, r)" by fastforce
  have inv: "nd_inv w h (mfd_native (np_decoder p))" using assms(1) by (simp add: decoder_ok_def)
  note laws = mfd_decode_laws [OF inv m]
  have here: "from_epoch p ?g (job_key job)" "sequence_start job \<Longrightarrow> epoch_open p ?g"
    using assms(2) by (auto simp: from_epoch_def epoch_open_def)
  have upd: "from_epoch (p\<lparr>np_decoder := m, np_phase := ph\<rparr>) = from_epoch p"
      "epoch_open (p\<lparr>np_decoder := m, np_phase := ph\<rparr>) = epoch_open p" for ph
    by (simp_all add: fun_eq_iff from_epoch_def epoch_open_def)
  have ok: "decoder_ok w h (p\<lparr>np_decoder := m, np_phase := ph\<rparr>)" for ph
  proof -
    have "from_epoch p ?g k" if "k \<in># nd_load (mfd_native m)" for k
      using laws(2) [OF that] here(1) assms(1) by (auto simp only: decoder_ok_def)
    then show ?thesis using assms(1) laws(1,3) here(2) by (auto simp only: decoder_ok_def upd) auto
  qed
  have surf: "surface_ok w h (p\<lparr>np_decoder := m, np_phase := ph\<rparr>) ?g s" if "r = Ok (Some s)" for s ph
    using laws(3) laws(4,5) [OF that] assms(1) here by (auto simp only: surface_ok_def upd decoder_ok_def)
  show ?thesis
    using ok surf by (auto simp: worker_decode_def m worker_fail_def split: result.splits option.splits)
qed

lemma worker_job_inv:
  assumes "pipeline_inv w h p" "np_phase p = Ph_Taken g job"
  shows "pipeline_inv w h (worker_job mf a p g job)"
proof -
  have ok: "decoder_ok w h p" "(g, job) \<in> set (np_submitted p)" using assms by (simp_all add: pipeline_inv_def)
  show ?thesis
  proof (cases "stale_native_job g (np_generation p) (np_worker_generation p)")
    case True
    then show ?thesis
      using assms ok by (simp add: worker_job_def pipeline_inv_def decoder_ok_def surface_ok_def from_epoch_def epoch_open_def)
  next
    case fresh: False
    then have le: "np_worker_generation p \<le> g" by (auto simp: stale_native_job_def)
    obtain m r where m: "mfd_reset mf a (np_decoder p) = (m, r)" by fastforce
    have inv: "pipeline_inv w h (worker_decode mf a q g job)"
      if q: "q = p \<and> g = np_worker_generation p \<or> q = p\<lparr>np_decoder := m, np_worker_generation := g\<rparr> \<and> r = Ok ()" for q
    proof -
      have "nd_inv w h (mfd_native (np_decoder p))" using ok(1) by (simp add: decoder_ok_def)
      from mfd_reset_laws [OF this] m
      have "decoder_ok w h q" using q ok(1) by (auto simp: decoder_ok_def)
      moreover have g: "g = np_worker_generation q" "(np_worker_generation q, job) \<in> set (np_submitted q)" using q ok(2) by auto
      ultimately have "phase_ok w h (worker_decode mf a q g job) (np_phase (worker_decode mf a q g job))"
        using worker_decode_phase by simp
      moreover have "np_submitted q = np_submitted p" "np_shown q = np_shown p" "np_pending q = np_pending p" "np_worker_generation q = g"
        using q by auto
      ultimately show ?thesis
        using assms(1) le
        by (auto simp: pipeline_inv_def worker_decode_frame surface_ok_def from_epoch_def epoch_open_def)
    qed
    show ?thesis
    proof (cases "g = np_worker_generation p")
      case True
      then show ?thesis using inv [of p] fresh by (simp add: worker_job_def)
    next
      case False
      with le have "np_worker_generation p < g" by simp
      then show ?thesis
        using inv [of "p\<lparr>np_decoder := m, np_worker_generation := g\<rparr>"] fresh assms(1)
        by (cases r) (simp_all add: worker_job_def m worker_fail_def pipeline_inv_def surface_ok_def from_epoch_def epoch_open_def)
    qed
  qed
qed

lemma worker_step_inv: "pipeline_inv w h p \<Longrightarrow> pipeline_inv w h (worker_step mf present a p)"
proof (cases "np_phase p")
  case (Ph_Taken g job)
  then show "pipeline_inv w h p \<Longrightarrow> pipeline_inv w h (worker_step mf present a p)"
    using worker_job_inv by (simp add: worker_step_def)
next
  case (Ph_Present g s)
  assume inv: "pipeline_inv w h p"
  show ?thesis
  proof (cases "present s")
    case (Ok u)
    show ?thesis
      using inv
      by (auto simp: worker_step_def Ph_Present Ok pipeline_inv_def decoder_ok_def surface_ok_def from_epoch_def epoch_open_def
          sorted_append)
  next
    case (Err e)
    show ?thesis
      using inv
      by (simp add: worker_step_def Ph_Present Err worker_fail_def pipeline_inv_def surface_ok_def from_epoch_def epoch_open_def)
  qed
qed (auto simp: worker_step_def worker_take_def pipeline_inv_def decoder_ok_def surface_ok_def from_epoch_def epoch_open_def
    split: option.splits)

text \<open>A submission only adds to the history, so everything that holds of the epochs still does.\<close>

lemma epoch_mono:
  assumes "set (np_submitted p) \<subseteq> set (np_submitted q)"
  shows "from_epoch p g k \<Longrightarrow> from_epoch q g k" "epoch_open p g \<Longrightarrow> epoch_open q g" "surface_ok w h p g s \<Longrightarrow> surface_ok w h q g s"
  using assms by (auto simp: from_epoch_def epoch_open_def surface_ok_def)

lemma pipeline_inv_mono:
  assumes "pipeline_inv w h p" "set (np_submitted p) \<subseteq> set (np_submitted q)" "np_decoder q = np_decoder p"
    and "np_worker_generation q = np_worker_generation p" "np_phase q = np_phase p" "np_shown q = np_shown p"
    and "\<forall>e. np_pending q = Some e \<longrightarrow> e \<in> set (np_submitted q)"
  shows "pipeline_inv w h q"
proof -
  note mono = epoch_mono [OF assms(2)]
  have "decoder_ok w h p \<Longrightarrow> decoder_ok w h q" using mono assms(3,4) by (simp add: decoder_ok_def)
  then have "phase_ok w h q (np_phase q)"
    using assms(1-5) mono(3) by (cases "np_phase p") (auto simp: pipeline_inv_def)
  then show ?thesis using assms mono(3) by (auto simp: pipeline_inv_def)
qed

lemma pipeline_step_inv:
  assumes "pipeline_inv w h p"
  shows "pipeline_inv w h (fst (pipeline_step mf present p op))"
proof (cases "\<exists>a. op = Pl_Worker a")
  case True
  then show ?thesis using worker_step_inv assms by auto
next
  case False
  have pend: "e \<in> set (np_submitted p)" if "np_pending p = Some e" for e using assms that by (simp add: pipeline_inv_def)
  show ?thesis
    by (rule pipeline_inv_mono [OF assms]; cases op)
       (use False pend in \<open>auto simp: np_submit_def poll_error_def reset_generation_def reset_pending_def np_shutdown_def
          split: list.splits option.splits\<close>)
qed

interpretation pipeline: machine "pipeline_step mf present" "pipeline_inv w h"
  for mf present w h
  by unfold_locales (rule pipeline_step_inv)

lemma NativePipeline_start_inv:
  "NativePipeline_start t renderer answered handle w h = Ok p \<Longrightarrow> pipeline_inv w h p \<and> np_shown p = []"
  using NativeDecoder_start_Ok [of t w h]
  by (auto simp: NativePipeline_start_def MediaFoundationDecoder_start_def pipeline_inv_def decoder_ok_def DecoderGate_default_def
      res_simps split: if_splits)

section \<open>Properties\<close>

text \<open>
  C8: the epochs of the viewer's pipeline do not mix.  For every interleaving of the worker with
  submissions, reconnects and shutdown, whatever the transform, the renderer and the timeouts do: the
  surfaces are presented in the order of their epochs, so that no picture from before a reconnect follows
  one from after it; each belongs to a frame that was submitted in its epoch and is valid; and nothing of an
  epoch is presented unless a keyframe with a sequence header was submitted in it.
\<close>

theorem pipeline_epochs_separate:
  assumes "NativePipeline_start t renderer answered handle w h = Ok p0"
    and "p = fst (run_ops (pipeline_step mf present) p0 ops)"
  shows "sorted (map fst (np_shown p))
    \<and> (\<forall>(g, s) \<in> set (np_shown p).
         (\<exists>job. (g, job) \<in> set (np_submitted p) \<and> job_key job = sf_key s)
         \<and> (\<exists>start. (g, start) \<in> set (np_submitted p) \<and> sequence_start start)
         \<and> surface_good w h s)"
proof -
  have "pipeline_inv w h p"
    using pipeline.run_inv NativePipeline_start_inv [OF assms(1)] assms(2) by blast
  then show ?thesis by (auto simp: pipeline_inv_def surface_ok_def from_epoch_def epoch_open_def)
qed

text \<open>A frame that passes through the whole pipeline.\<close>

theorem pipeline_epochs_separate_witness:
  "\<exists>p0 p g s job.
     NativePipeline_start None (Ok ()) True (Some 1) 2 2 = Ok p0
     \<and> p = fst (run_ops (pipeline_step example_mft (\<lambda>_. Ok ())) p0
         [Pl_Submit (example_frame_job 7), Pl_Worker True, Pl_Worker True, Pl_Worker True, Pl_Worker True])
     \<and> np_shown p = [(g, s)] \<and> (g, job) \<in> set (np_submitted p) \<and> job_key job = sf_key s"
proof -
  let ?nd = "\<lparr>nd_transform = None, nd_width = 2, nd_height = 2, nd_gate = DecoderGate_default, nd_pending_inputs = [],
      nd_pending_surfaces = []\<rparr> :: i64 option NativeDecoder"
  let ?m = "\<lparr>mfd_gate = DecoderGate_default, mfd_native = ?nd\<rparr>"
  let ?p0 = "\<lparr>np_pending = None, np_generation = 0, np_stop = False, np_errors = [], np_worker = True, np_decoder = ?m,
      np_worker_generation = 0, np_phase = Ph_Idle, np_submitted = [], np_shown = []\<rparr>"
  let ?ops = "[Pl_Submit (example_frame_job 7), Pl_Worker True, Pl_Worker True, Pl_Worker True, Pl_Worker True]"
  have start: "NativePipeline_start None (Ok ()) True (Some 1) 2 2 = Ok ?p0"
    by (simp add: NativePipeline_start_def MediaFoundationDecoder_start_def NativeDecoder_start_def decoder_eval)
  obtain d1 s where "nd_decode example_mft ?nd (example_frame_job 7) = (d1, Ok (Some s))"
    using example_decode_one by (auto split: prod.splits)
  then have dec: "mfd_decode example_mft True ?m (example_frame_job 7) = (\<lparr>mfd_gate = \<lparr>initialized = True\<rparr>, mfd_native = d1\<rparr>, Ok (Some s))"
    by (simp add: mfd_decode_def example_gate)
  obtain p where p: "p = fst (run_ops (pipeline_step example_mft (\<lambda>_. Ok ())) ?p0 ?ops)" by blast
  then have "np_shown p = [(0, s)]"
    by (simp add: np_submit_def poll_error_def worker_step_def worker_take_def worker_job_def worker_decode_def stale_native_job_def dec)
  then show ?thesis
    using pipeline_epochs_separate [OF start p] start p by fastforce
qed

end
