(* ===== verification/Client_Session.thy ===== *)
theory Client_Session
  imports Relay_Token Auth_Verifier Session_State
begin

text \<open>
  \<open>apps/nexus-client/src/session.rs\<close>: the lifecycle of the viewer's session, from the signed
  capability and relay token it starts with, over reconnects, to its expiry.  The time of every
  operation is its argument, as in the code; the Protobuf encoding of the capability and the
  signature check are arguments of the model.
\<close>

section \<open>Model\<close>

definition DEFAULT_MAX_SESSION_DURATION :: Duration where
  "DEFAULT_MAX_SESSION_DURATION = dur_from_secs (30 * 60)"

datatype ClientState = Cl_Disconnected | Cl_Connecting | Cl_Connected | Cl_Reconnecting | Cl_Expired

record RelayTokenMetadata =
  rm_relay_id :: string
  rm_session_id :: string
  rm_client_device_id :: string
  rm_target_device_id :: string
  rm_expires_at :: UnixTimestamp
  rm_signature :: bytes

record ClientVerification =
  cv_capability_key :: bytes
  cv_relay_key :: bytes
  cv_relay_id :: string

record SessionPolicy =
  pol_max_duration :: Duration
  pol_reconnect_window :: Duration

definition SessionPolicy_new :: "Duration \<Rightarrow> Duration \<Rightarrow> (SessionPolicy, SessionPolicyError) result" where
  "SessionPolicy_new max_duration0 reconnect_window =
     and_then (SessionDurationPolicy_new max_duration0) (\<lambda>_.
       and_then (ReconnectPolicy_new reconnect_window) (\<lambda>_.
         Ok \<lparr>pol_max_duration = max_duration0, pol_reconnect_window = reconnect_window\<rparr>))"

datatype ClientError =
    Ce_Expired
  | Ce_InvalidTransition ClientState ClientState      \<comment> \<open>\<open>from\<close>, \<open>to\<close>\<close>
  | Ce_IdentityMismatch | Ce_CapabilityNotActive | Ce_CapabilityExpired | Ce_RelayTokenExpired
  | Ce_ReconnectWindowElapsed | Ce_InvalidCapabilitySignature | Ce_InvalidRelaySignature
  | Ce_PermissionDenied string

record ClientSession =
  cl_capability :: SessionCapability
  cl_relay_token :: RelayTokenMetadata
  cl_state :: ClientState
  cl_reconnect_deadline :: "UnixTimestamp option"
  cl_established_at :: "UnixTimestamp option"
  cl_duration_policy :: SessionDurationPolicy
  cl_reconnect_policy :: ReconnectPolicy
  cl_verification :: ClientVerification

text \<open>The two \<open>expect\<close>s panic on a policy that \<open>SessionPolicy::new\<close> would refuse.\<close>

definition ClientSession_new ::
  "SessionCapability \<Rightarrow> RelayTokenMetadata \<Rightarrow> SessionPolicy \<Rightarrow> ClientVerification \<Rightarrow> ClientSession outcome" where
  "ClientSession_new capability relay_token policy verification =
     (case (SessionDurationPolicy_new (pol_max_duration policy), ReconnectPolicy_new (pol_reconnect_window policy)) of
        (Ok duration_policy, Ok reconnect_policy) \<Rightarrow>
          Returns \<lparr>cl_capability = capability, cl_relay_token = relay_token, cl_state = Cl_Disconnected,
                   cl_reconnect_deadline = None, cl_established_at = None, cl_duration_policy = duration_policy,
                   cl_reconnect_policy = reconnect_policy, cl_verification = verification\<rparr>
      | _ \<Rightarrow> Panics)"

definition has_permission :: "ClientSession \<Rightarrow> string \<Rightarrow> bool" where
  "has_permission s permission = list_ex (\<lambda>granted. granted = permission) (cap_permissions (cl_capability s))"

definition can_view :: "ClientSession \<Rightarrow> bool" where "can_view s = has_permission s ''desktop.view''"
definition can_control :: "ClientSession \<Rightarrow> bool" where "can_control s = has_permission s ''desktop.control''"

definition require_permission :: "ClientSession \<Rightarrow> string \<Rightarrow> (unit, ClientError) result" where
  "require_permission s permission =
     (if has_permission s permission then Ok () else Err (Ce_PermissionDenied permission))"

definition require_view :: "ClientSession \<Rightarrow> (unit, ClientError) result" where
  "require_view s = (if can_view s then Ok () else Err (Ce_PermissionDenied ''desktop.view''))"

definition require_control :: "ClientSession \<Rightarrow> (unit, ClientError) result" where
  "require_control s = (if can_control s then Ok () else Err (Ce_PermissionDenied ''desktop.control''))"

definition session_duration_expired :: "ClientSession \<Rightarrow> UnixTimestamp \<Rightarrow> bool" where
  "session_duration_expired s now =
     (case cl_established_at s of
        Some at \<Rightarrow> saturating_duration_since now at \<ge> sdp_max_duration (cl_duration_policy s)
      | None \<Rightarrow> False)"

definition can_reconnect :: "ClientSession \<Rightarrow> UnixTimestamp \<Rightarrow> bool" where
  "can_reconnect s now \<longleftrightarrow>
     cl_state s = Cl_Reconnecting
     \<and> (case cl_reconnect_deadline s of Some deadline \<Rightarrow> now \<le> deadline | None \<Rightarrow> False)
     \<and> \<not> session_duration_expired s now"

definition validate_identity :: "ClientSession \<Rightarrow> (unit, ClientError) result" where
  "validate_identity s =
     (if cap_session_id (cl_capability s) \<noteq> rm_session_id (cl_relay_token s)
         \<or> cap_client_device_id (cl_capability s) \<noteq> rm_client_device_id (cl_relay_token s)
         \<or> cap_target_device_id (cl_capability s) \<noteq> rm_target_device_id (cl_relay_token s)
      then Err Ce_IdentityMismatch else Ok ())"

definition RelayTokenMetadata_signing_bytes :: "RelayTokenMetadata \<Rightarrow> bytes" where
  "RelayTokenMetadata_signing_bytes m =
     as_bytes ''nexus-relay-token/v1'' @ [0]
     @ concat (map (\<lambda>value0. to_be 2 (of_nat (length value0) :: u16) @ as_bytes value0)
         [rm_session_id m, rm_relay_id m, rm_client_device_id m, rm_target_device_id m])
     @ [0] @ to_be 8 (as_secs (rm_expires_at m))"

definition validate_claims ::
  "ed_verify \<Rightarrow> (SessionCapability \<Rightarrow> bytes) \<Rightarrow> ClientSession \<Rightarrow> UnixTimestamp \<Rightarrow> (unit, ClientError) result" where
  "validate_claims v proto_encode s now =
     and_then (validate_identity s) (\<lambda>_.
     and_then (map_err (\<lambda>_. Ce_IdentityMismatch) (SessionCapability_validate (cl_capability s))) (\<lambda>_.
       if as_secs now < cap_not_before (cl_capability s) then Err Ce_CapabilityNotActive
       else if as_secs now \<ge> cap_expires_at (cl_capability s) then Err Ce_CapabilityExpired
       else if now \<ge> rm_expires_at (cl_relay_token s) then Err Ce_RelayTokenExpired
       else if length (cap_signature (cl_capability s)) \<noteq> 64 then Err Ce_InvalidCapabilitySignature
       else if v (cv_capability_key (cl_verification s))
                 (SessionCapability_signing_bytes proto_encode (cl_capability s)) (cap_signature (cl_capability s))
               \<noteq> Some True then Err Ce_InvalidCapabilitySignature
       else if rm_relay_id (cl_relay_token s) \<noteq> cv_relay_id (cl_verification s)
               \<or> length (rm_signature (cl_relay_token s)) \<noteq> 64 then Err Ce_InvalidRelaySignature
       else if v (cv_relay_key (cl_verification s)) (RelayTokenMetadata_signing_bytes (cl_relay_token s))
                 (rm_signature (cl_relay_token s)) \<noteq> Some True then Err Ce_InvalidRelaySignature
       else Ok ()))"

definition ensure_active ::
  "ed_verify \<Rightarrow> (SessionCapability \<Rightarrow> bytes) \<Rightarrow> ClientSession \<Rightarrow> UnixTimestamp
     \<Rightarrow> ClientSession \<times> (unit, ClientError) result" where
  "ensure_active v proto_encode s now =
     (if cl_state s = Cl_Expired then (s, Err Ce_Expired)
      else if cl_state s \<noteq> Cl_Connected then (s, Err (Ce_InvalidTransition (cl_state s) Cl_Connected))
      else
        (case validate_claims v proto_encode s now of
           Err e \<Rightarrow> (s, Err e)
         | Ok _ \<Rightarrow>
             if session_duration_expired s now
             then (s\<lparr>cl_state := Cl_Expired, cl_reconnect_deadline := None\<rparr>, Err Ce_Expired)
             else (s, Ok ())))"

definition begin_connect ::
  "ed_verify \<Rightarrow> (SessionCapability \<Rightarrow> bytes) \<Rightarrow> ClientSession \<Rightarrow> UnixTimestamp
     \<Rightarrow> ClientSession \<times> (unit, ClientError) result" where
  "begin_connect v proto_encode s now =
     (if cl_state s = Cl_Expired then (s, Err Ce_Expired)
      else if cl_state s = Cl_Reconnecting \<and> \<not> can_reconnect s now
        then (s\<lparr>cl_state := Cl_Expired\<rparr>, Err Ce_ReconnectWindowElapsed)
      else if cl_state s \<noteq> Cl_Reconnecting \<and> cl_state s \<noteq> Cl_Disconnected
        then (s, Err (Ce_InvalidTransition (cl_state s) Cl_Connecting))
      else
        (case validate_claims v proto_encode s now of
           Err e \<Rightarrow> (s, Err e)
         | Ok _ \<Rightarrow> (s\<lparr>cl_state := Cl_Connecting\<rparr>, Ok ())))"

definition connected ::
  "ed_verify \<Rightarrow> (SessionCapability \<Rightarrow> bytes) \<Rightarrow> ClientSession \<Rightarrow> UnixTimestamp
     \<Rightarrow> ClientSession \<times> (unit, ClientError) result" where
  "connected v proto_encode s now =
     (if cl_state s = Cl_Expired then (s, Err Ce_Expired)
      else if cl_state s \<noteq> Cl_Connecting then (s, Err (Ce_InvalidTransition (cl_state s) Cl_Connected))
      else if cl_established_at s \<noteq> None
              \<and> (case cl_reconnect_deadline s of Some deadline \<Rightarrow> now > deadline | None \<Rightarrow> False)
        then (s\<lparr>cl_state := Cl_Expired\<rparr>, Err Ce_ReconnectWindowElapsed)
      else
        (case validate_claims v proto_encode s now of
           Err e \<Rightarrow> (s, Err e)
         | Ok _ \<Rightarrow>
             if (case cl_established_at s of Some _ \<Rightarrow> session_duration_expired s now | None \<Rightarrow> False)
             then (s\<lparr>cl_state := Cl_Expired\<rparr>, Err Ce_Expired)
             else
               (let s = (if cl_established_at s = None then s\<lparr>cl_established_at := Some now\<rparr> else s)
                in (s\<lparr>cl_reconnect_deadline := None, cl_state := Cl_Connected\<rparr>, Ok ()))))"

definition reconnect_attempt_failed ::
  "ClientSession \<Rightarrow> UnixTimestamp \<Rightarrow> ClientSession \<times> (unit, ClientError) result" where
  "reconnect_attempt_failed s now =
     (if cl_state s \<noteq> Cl_Connecting then (s, Err (Ce_InvalidTransition (cl_state s) Cl_Reconnecting))
      else if session_duration_expired s now
        then (s\<lparr>cl_state := Cl_Expired, cl_reconnect_deadline := None\<rparr>, Err Ce_Expired)
      else
        (case cl_reconnect_deadline s of
           None \<Rightarrow> (s\<lparr>cl_state := Cl_Expired\<rparr>, Err Ce_ReconnectWindowElapsed)
         | Some deadline \<Rightarrow>
             if now > deadline
             then (s\<lparr>cl_state := Cl_Expired, cl_reconnect_deadline := None\<rparr>, Err Ce_ReconnectWindowElapsed)
             else (s\<lparr>cl_state := Cl_Reconnecting\<rparr>, Ok ())))"

definition transport_lost :: "ClientSession \<Rightarrow> UnixTimestamp \<Rightarrow> ClientSession \<times> (unit, ClientError) result" where
  "transport_lost s now =
     (if cl_state s = Cl_Expired then (s, Err Ce_Expired)
      else if cl_state s \<noteq> Cl_Connected then (s, Err (Ce_InvalidTransition (cl_state s) Cl_Reconnecting))
      else if session_duration_expired s now then (s\<lparr>cl_state := Cl_Expired\<rparr>, Err Ce_Expired)
      else (s\<lparr>cl_reconnect_deadline := Some (ts_saturating_add now (rp_window (cl_reconnect_policy s))),
              cl_state := Cl_Reconnecting\<rparr>, Ok ()))"

definition expire :: "ClientSession \<Rightarrow> ClientSession \<times> (unit, ClientError) result" where
  "expire s =
     (if cl_state s = Cl_Expired then (s, Err Ce_Expired)
      else (s\<lparr>cl_state := Cl_Expired, cl_reconnect_deadline := None\<rparr>, Ok ()))"

section \<open>The lifecycle as a sequence of operations\<close>

datatype client_op =
    Cop_Begin UnixTimestamp | Cop_Connected UnixTimestamp | Cop_AttemptFailed UnixTimestamp
  | Cop_Lost UnixTimestamp | Cop_EnsureActive UnixTimestamp | Cop_Expire

fun client_step ::
  "ed_verify \<Rightarrow> (SessionCapability \<Rightarrow> bytes) \<Rightarrow> ClientSession \<Rightarrow> client_op
     \<Rightarrow> ClientSession \<times> (unit, ClientError) result" where
  "client_step v enc s (Cop_Begin now) = begin_connect v enc s now"
| "client_step v enc s (Cop_Connected now) = connected v enc s now"
| "client_step v enc s (Cop_AttemptFailed now) = reconnect_attempt_failed s now"
| "client_step v enc s (Cop_Lost now) = transport_lost s now"
| "client_step v enc s (Cop_EnsureActive now) = ensure_active v enc s now"
| "client_step v enc s Cop_Expire = expire s"

lemmas client_ops = begin_connect_def connected_def reconnect_attempt_failed_def transport_lost_def
  ensure_active_def expire_def

text \<open>
  The invariant of the lifecycle for a session with the claims of \<open>s0\<close>: the claims and policies
  never change, a connected session is established and has no deadline, a reconnecting one is
  established and has one.
\<close>

definition cl_inv :: "ClientSession \<Rightarrow> ClientSession \<Rightarrow> bool" where
  "cl_inv s0 s \<longleftrightarrow>
     cl_capability s = cl_capability s0 \<and> cl_relay_token s = cl_relay_token s0
     \<and> cl_verification s = cl_verification s0 \<and> cl_duration_policy s = cl_duration_policy s0
     \<and> cl_reconnect_policy s = cl_reconnect_policy s0
     \<and> (case cl_state s of
           Cl_Disconnected \<Rightarrow> cl_established_at s = None \<and> cl_reconnect_deadline s = None
         | Cl_Connecting \<Rightarrow> cl_established_at s = None \<longleftrightarrow> cl_reconnect_deadline s = None
         | Cl_Connected \<Rightarrow> cl_established_at s \<noteq> None \<and> cl_reconnect_deadline s = None
         | Cl_Reconnecting \<Rightarrow> cl_established_at s \<noteq> None \<and> cl_reconnect_deadline s \<noteq> None
         | Cl_Expired \<Rightarrow> True)"

lemma cl_inv_new: "ClientSession_new cap tok pol ver = Returns s \<Longrightarrow> cl_inv s s"
  by (auto simp: ClientSession_new_def cl_inv_def split: result.splits)

lemma client_step_inv: "cl_inv s0 s \<Longrightarrow> cl_inv s0 (fst (client_step v enc s op))"
  by (cases op; cases "cl_state s")
     (auto simp: client_ops cl_inv_def can_reconnect_def Let_def split: result.splits option.splits)

interpretation client: machine "client_step v enc" "cl_inv s0"
  for v enc s0
  by unfold_locales (rule client_step_inv)

text \<open>Permanence: an expired session stays expired and refuses everything; the time of establishment is set once.\<close>

lemma client_step_expired:
  "cl_state s = Cl_Expired \<Longrightarrow> fst (client_step v enc s op) = s \<and> \<not> is_ok (snd (client_step v enc s op))"
  by (cases op) (simp_all add: client_ops)

lemma client_step_established:
  "cl_established_at s = Some t \<Longrightarrow> cl_established_at (fst (client_step v enc s op)) = Some t"
  by (cases op) (auto simp: client_ops Let_def split: result.splits option.splits)

lemma run_client_expired:
  "cl_state s = Cl_Expired \<Longrightarrow>
     fst (run_ops (client_step v enc) s ops) = s
     \<and> (\<forall>out \<in> set (snd (run_ops (client_step v enc) s ops)). \<not> is_ok out)"
  using client_step_expired by (induction ops) (simp_all del: run_ops.simps(2))

lemma run_client_established:
  "cl_established_at s = Some t \<Longrightarrow> cl_established_at (fst (run_ops (client_step v enc) s ops)) = Some t"
  by (induction ops arbitrary: s) (simp_all add: client_step_established del: run_ops.simps(2))

text \<open>What validated claims are.\<close>

definition claims_hold ::
  "ed_verify \<Rightarrow> (SessionCapability \<Rightarrow> bytes) \<Rightarrow> SessionCapability \<Rightarrow> RelayTokenMetadata \<Rightarrow> ClientVerification
     \<Rightarrow> UnixTimestamp \<Rightarrow> bool" where
  "claims_hold v enc cap tok ver now \<longleftrightarrow>
     cap_session_id cap = rm_session_id tok \<and> cap_client_device_id cap = rm_client_device_id tok
     \<and> cap_target_device_id cap = rm_target_device_id tok \<and> SessionCapability_validate cap = Ok ()
     \<and> cap_not_before cap \<le> as_secs now \<and> as_secs now < cap_expires_at cap \<and> now < rm_expires_at tok
     \<and> sig_accepted v (cv_capability_key ver) (SessionCapability_signing_bytes enc cap) (cap_signature cap)
     \<and> rm_relay_id tok = cv_relay_id ver
     \<and> sig_accepted v (cv_relay_key ver) (RelayTokenMetadata_signing_bytes tok) (rm_signature tok)"

lemma validate_claims_iff:
  "validate_claims v enc s now = Ok () \<longleftrightarrow>
     claims_hold v enc (cl_capability s) (cl_relay_token s) (cl_verification s) now"
  by (auto simp: validate_claims_def claims_hold_def validate_identity_def sig_accepted_def res_simps
      not_le not_less split: if_splits)

text \<open>The relay accepts the bytes the client checks: the two encoders agree on client tokens.\<close>

definition metadata_of :: "RelayToken \<Rightarrow> RelayTokenMetadata" where
  "metadata_of t =
     \<lparr>rm_relay_id = rt_relay_id t, rm_session_id = id_as_str (rt_session_id t),
      rm_client_device_id = id_as_str (rt_client_device_id t),
      rm_target_device_id = id_as_str (rt_target_device_id t), rm_expires_at = rt_expires_at t,
      rm_signature = rt_signature t\<rparr>"

lemma metadata_signing_bytes:
  "rt_role t = Role_Client \<Longrightarrow> RelayTokenMetadata_signing_bytes (metadata_of t) = RelayToken_signing_bytes t"
  by (simp add: RelayTokenMetadata_signing_bytes_def RelayToken_signing_bytes_def metadata_of_def rt_put_def
      del: to_be_numeral)

section \<open>Properties\<close>

lemma ClientSession_new_Returns:
  "ClientSession_new cap tok pol ver = Returns s \<longleftrightarrow>
     0 < pol_max_duration pol \<and> 0 < pol_reconnect_window pol
     \<and> s = \<lparr>cl_capability = cap, cl_relay_token = tok, cl_state = Cl_Disconnected, cl_reconnect_deadline = None,
            cl_established_at = None, cl_duration_policy = \<lparr>sdp_max_duration = pol_max_duration pol\<rparr>,
            cl_reconnect_policy = \<lparr>rp_window = pol_reconnect_window pol\<rparr>, cl_verification = ver\<rparr>"
  by (auto simp: ClientSession_new_def SessionDurationPolicy_new_def ReconnectPolicy_new_def)

lemma since_itself [simp]: "saturating_duration_since t t = 0"
  by (simp add: saturating_duration_since_def saturating_sub_def dur_from_secs_def)

lemma ensure_active_Ok:
  "snd (ensure_active v enc s now) = Ok () \<longleftrightarrow>
     cl_state s = Cl_Connected \<and> validate_claims v enc s now = Ok () \<and> \<not> session_duration_expired s now"
  by (auto simp: ensure_active_def split: result.splits)

lemma ensure_active_same: "snd (ensure_active v enc s now) = Ok () \<Longrightarrow> fst (ensure_active v enc s now) = s"
  by (auto simp: ensure_active_def split: result.splits if_splits)

lemma connected_Ok:
  assumes "snd (connected v enc s now) = Ok ()"
  shows "validate_claims v enc s now = Ok ()" "\<not> session_duration_expired s now"
    and "cl_state (fst (connected v enc s now)) = Cl_Connected"
    and "cl_established_at (fst (connected v enc s now)) = Some (case cl_established_at s of None \<Rightarrow> now | Some at \<Rightarrow> at)"
  using assms
  by (auto simp: connected_def session_duration_expired_def Let_def split: result.splits if_splits option.splits)

text \<open>
  C17: whatever the viewer has done before, its session is only ever entered or used while its claims
  hold: the capability and the relay token name the same session and devices, are inside their validity,
  and carry the signatures of the two configured keys.  The session is then connected, less than the
  maximal duration has passed since it was first established, and no later operation, a reconnect
  included, moves the time of establishment.
\<close>

theorem viewer_operations_authorized:
  assumes "ClientSession_new cap tok pol ver = Returns s0"
    and "s = fst (run_ops (client_step v enc) s0 ops)"
    and "op = Cop_Connected now \<or> op = Cop_EnsureActive now"
    and "client_step v enc s op = (s', Ok ())"
  shows "claims_hold v enc cap tok ver now \<and> cl_state s' = Cl_Connected
    \<and> (\<exists>at. saturating_duration_since now at < pol_max_duration pol
         \<and> (\<forall>later. cl_established_at (fst (run_ops (client_step v enc) s' later)) = Some at))"
proof -
  have pos: "0 < pol_max_duration pol" using assms(1) by (simp add: ClientSession_new_Returns)
  have inv: "cl_inv s0 s" using client.run_inv [OF cl_inv_new [OF assms(1)]] assms(2) by simp
  then have parts: "cl_capability s = cap" "cl_relay_token s = tok" "cl_verification s = ver"
      "sdp_max_duration (cl_duration_policy s) = pol_max_duration pol"
    using assms(1) by (simp_all add: cl_inv_def ClientSession_new_Returns)
  have ok: "validate_claims v enc s now = Ok () \<and> \<not> session_duration_expired s now \<and> cl_state s' = Cl_Connected
      \<and> (\<exists>at. cl_established_at s' = Some at \<and> (cl_established_at s = Some at \<or> at = now))"
  proof (cases "op = Cop_Connected now")
    case True
    then have "snd (connected v enc s now) = Ok ()" "s' = fst (connected v enc s now)" using assms(4) by simp_all
    then show ?thesis using connected_Ok [of v enc s now] by (auto split: option.splits)
  next
    case False
    then have o: "snd (ensure_active v enc s now) = Ok ()" "s' = fst (ensure_active v enc s now)" using assms(3,4) by auto
    then have "s' = s" using ensure_active_same by simp
    moreover have "cl_state s = Cl_Connected" using o(1) by (simp add: ensure_active_Ok)
    ultimately show ?thesis using o(1) inv by (auto simp: ensure_active_Ok cl_inv_def)
  qed
  then obtain at where at: "cl_established_at s' = Some at" "cl_established_at s = Some at \<or> at = now" by blast
  have "saturating_duration_since now at < pol_max_duration pol"
    using at(2) ok pos by (auto simp: session_duration_expired_def parts not_le)
  then show ?thesis
    using ok run_client_established [OF at(1)] by (auto simp: validate_claims_iff parts)
qed

text \<open>
  C18: the session's record stays well formed under every sequence of operations.  The claims, keys and
  policies are the ones it was made with; a session that was never connected has neither a time of
  establishment nor a deadline, a connected one has only the former, one that is to reconnect has both; and
  once it is expired, every further
  operation is refused and changes nothing.
\<close>

theorem viewer_session_well_formed:
  assumes "ClientSession_new cap tok pol ver = Returns s0"
    and "s = fst (run_ops (client_step v enc) s0 ops)"
  shows "cl_inv s0 s
    \<and> (cl_state s = Cl_Expired \<longrightarrow> fst (client_step v enc s op) = s \<and> \<not> is_ok (snd (client_step v enc s op)))"
  using client.run_inv [OF cl_inv_new [OF assms(1)]] client_step_expired assms(2) by simp

section \<open>Examples\<close>

abbreviation accept_all :: ed_verify where "accept_all \<equiv> \<lambda>_ _ _. Some True"

definition example_metadata :: RelayTokenMetadata where
  "example_metadata =
     \<lparr>rm_relay_id = ''r1'', rm_session_id = ''s1'', rm_client_device_id = ''c1'', rm_target_device_id = ''h1'',
      rm_expires_at = from_secs 20, rm_signature = replicate 64 0\<rparr>"

definition example_viewer :: ClientSession where
  "example_viewer =
     \<lparr>cl_capability = example_capability (replicate 64 0), cl_relay_token = example_metadata,
      cl_state = Cl_Disconnected, cl_reconnect_deadline = None, cl_established_at = None,
      cl_duration_policy = \<lparr>sdp_max_duration = 9\<rparr>, cl_reconnect_policy = \<lparr>rp_window = 5\<rparr>,
      cl_verification = \<lparr>cv_capability_key = [], cv_relay_key = [], cv_relay_id = ''r1''\<rparr>\<rparr>"

lemma example_viewer_new:
  "ClientSession_new (example_capability (replicate 64 0)) example_metadata \<lparr>pol_max_duration = 9, pol_reconnect_window = 5\<rparr>
     \<lparr>cv_capability_key = [], cv_relay_key = [], cv_relay_id = ''r1''\<rparr> = Returns example_viewer"
  by (simp add: ClientSession_new_Returns example_viewer_def)

lemma example_viewer_claims:
  assumes "10 \<le> as_secs now" "as_secs now < 20"
  shows "claims_hold accept_all enc (example_capability (replicate 64 0)) example_metadata
    \<lparr>cv_capability_key = [], cv_relay_key = [], cv_relay_id = ''r1''\<rparr> now"
  using assms
  by (simp add: claims_hold_def example_capability_def example_metadata_def SessionCapability_validate_Ok sig_accepted_def
      MAX_SESSION_ID_LEN_def MAX_CAPABILITY_PERMISSIONS_def MAX_NONCE_LEN_def less_UnixTimestamp_def from_secs_def)

lemma example_viewer_connecting:
  "fst (run_ops (client_step accept_all enc) example_viewer [Cop_Begin (from_secs 15)]) = example_viewer\<lparr>cl_state := Cl_Connecting\<rparr>"
proof -
  have "validate_claims accept_all enc example_viewer (from_secs 15) = Ok ()"
    using example_viewer_claims [of "from_secs 15"]
    by (simp add: validate_claims_iff example_viewer_def from_secs_def)
  then show ?thesis by (simp add: begin_connect_def) (simp add: example_viewer_def)
qed

theorem viewer_operations_authorized_witness:
  "claims_hold accept_all (\<lambda>_. []) (example_capability (replicate 64 0)) example_metadata
     \<lparr>cv_capability_key = [], cv_relay_key = [], cv_relay_id = ''r1''\<rparr> (from_secs 16)"
proof -
  let ?s = "example_viewer\<lparr>cl_state := Cl_Connecting\<rparr>"
  have "validate_claims accept_all (\<lambda>_. []) ?s (from_secs 16) = Ok ()"
    using example_viewer_claims [of "from_secs 16"]
    by (simp add: validate_claims_iff example_viewer_def from_secs_def)
  then have "snd (connected accept_all (\<lambda>_. []) ?s (from_secs 16)) = Ok ()"
    by (simp add: connected_def example_viewer_def)
  then obtain s' where "client_step accept_all (\<lambda>_. []) ?s (Cop_Connected (from_secs 16)) = (s', Ok ())"
    by (metis client_step.simps(2) prod.collapse)
  from viewer_operations_authorized [OF example_viewer_new example_viewer_connecting [symmetric] _ this]
  show ?thesis by blast
qed

theorem viewer_session_well_formed_witness:
  "cl_inv example_viewer (example_viewer\<lparr>cl_state := Cl_Connecting\<rparr>)"
  using viewer_session_well_formed [OF example_viewer_new example_viewer_connecting [symmetric]] by blast

end
