(* ===== verification/Client_Runtime.thy ===== *)
theory Client_Runtime
  imports Client_Pipeline Client_Receiver Client_Input Client_Session
begin

text \<open>
  \<open>apps/nexus-client/src/runtime.rs\<close>: the viewer's bootstrap from its environment, the run loop that joins
  network, session, window, input and pipeline, the reconnect loop, and the shutdown that fails closed.
  QUIC is an argument: what a read returns, whether a connection attempt or a send succeeds.
\<close>

section \<open>Errors, configuration and bootstrap\<close>

definition RUNTIME_POLL_INTERVAL :: Duration where "RUNTIME_POLL_INTERVAL = dur_from_millis 2"
definition RECONNECT_RETRY_INTERVAL :: Duration where "RECONNECT_RETRY_INTERVAL = dur_from_millis 100"

text \<open>The variants of \<open>quinn::ConnectionError\<close>, without the details that the code does not look at.\<close>

datatype ConnectionError =
  VersionMismatch | TransportError | ConnectionClosed | ApplicationClosed | Conn_Reset | TimedOut | LocallyClosed
| CidsExhausted

text \<open>The text in \<open>InvalidBootstrap\<close> is represented by the variable it is about.\<close>

datatype 'd ClientRuntimeError =
    Rt_Window WindowError | Rt_Input InputControllerError | Rt_Receiver "'d ClientReceiverError"
  | Rt_Transport ConnectionError | Rt_Connect | Rt_Session ClientError | Rt_Decoder DecoderError | Rt_SendDatagram
  | Rt_Shutdown | SessionBootstrapRequired | InvalidBootstrap string | Rt_ShutdownTimeout | InvalidStreamDimensions

datatype ClientConfigurationError = MissingServer | InvalidServer | InvalidServerName

record 'a ClientConfiguration =
  cc_server :: 'a
  cc_server_name :: string

definition ClientConfiguration_from_env ::
  "(string \<Rightarrow> 'a option) \<Rightarrow> (string \<Rightarrow> string option) \<Rightarrow> ('a ClientConfiguration, ClientConfigurationError) result" where
  "ClientConfiguration_from_env parse_addr env =
     and_then (ok_or MissingServer (env ''NEXUS_CLIENT_SERVER'')) (\<lambda>server.
     and_then (ok_or InvalidServer (parse_addr server)) (\<lambda>server.
       let server_name = unwrap_or (env ''NEXUS_CLIENT_SERVER_NAME'') ''localhost'' in
       if server_name = [] \<or> length server_name > 253 then Err InvalidServerName
       else Ok \<lparr>cc_server = server, cc_server_name = server_name\<rparr>))"

definition required_env :: "(string \<Rightarrow> string option) \<Rightarrow> string \<Rightarrow> (string, 'd ClientRuntimeError) result" where
  "required_env env name = ok_or (InvalidBootstrap name) (env name)"

definition parse_env :: "nat \<Rightarrow> (string \<Rightarrow> string option) \<Rightarrow> string \<Rightarrow> (nat, 'd ClientRuntimeError) result" where
  "parse_env mx env name =
     and_then (required_env env name) (\<lambda>text. map_err (\<lambda>_. InvalidBootstrap name) (parse_uint mx text))"

text \<open>\<open>u8::from_str_radix(_, 16)\<close> on two ASCII characters: like all integer parsers it accepts a leading plus sign.\<close>

definition hex_value :: "char \<Rightarrow> nat option" where
  "hex_value c =
     (let n = char_code c in
      if 48 \<le> n \<and> n \<le> 57 then Some (n - 48)
      else if 97 \<le> n \<and> n \<le> 102 then Some (n - 87)
      else if 65 \<le> n \<and> n \<le> 70 then Some (n - 55)
      else None)"

definition u8_from_hex_pair :: "char \<Rightarrow> char \<Rightarrow> u8 option" where
  "u8_from_hex_pair a b =
     (if a = CHR ''+'' then map_option of_nat (hex_value b)
      else (case (hex_value a, hex_value b) of (Some x, Some y) \<Rightarrow> Some (of_nat (16 * x + y)) | _ \<Rightarrow> None))"

fun hex_pairs :: "string \<Rightarrow> bytes option" where
  "hex_pairs (a # b # rest) =
     (case u8_from_hex_pair a b of None \<Rightarrow> None | Some x \<Rightarrow> map_option (\<lambda>bs. x # bs) (hex_pairs rest))"
| "hex_pairs _ = Some []"

definition decode_hex :: "string \<Rightarrow> string \<Rightarrow> (bytes, 'd ClientRuntimeError) result" where
  "decode_hex name value0 =
     (if \<not> list_all (\<lambda>c. char_code c < 128) value0 then Err (InvalidBootstrap name)
      else if length value0 mod 2 \<noteq> 0 then Err (InvalidBootstrap name)
      else ok_or (InvalidBootstrap name) (hex_pairs value0))"

definition read_hex_env :: "(string \<Rightarrow> string option) \<Rightarrow> string \<Rightarrow> (bytes, 'd ClientRuntimeError) result" where
  "read_hex_env env name = and_then (required_env env name) (decode_hex name)"

definition read_fixed_hex_env :: "nat \<Rightarrow> (string \<Rightarrow> string option) \<Rightarrow> string \<Rightarrow> (bytes, 'd ClientRuntimeError) result" where
  "read_fixed_hex_env n env name =
     and_then (read_hex_env env name) (\<lambda>bs. if length bs = n then Ok bs else Err (InvalidBootstrap name))"

definition verifying_key_env ::
  "(bytes \<Rightarrow> bool) \<Rightarrow> (string \<Rightarrow> string option) \<Rightarrow> string \<Rightarrow> (bytes, 'd ClientRuntimeError) result" where
  "verifying_key_env valid_key env name =
     and_then (read_fixed_hex_env 32 env name) (\<lambda>bs. if valid_key bs then Ok bs else Err (InvalidBootstrap name))"

record VideoStreamConfig =
  vs_width :: u32
  vs_height :: u32

definition VideoStreamConfig_validate :: "VideoStreamConfig \<Rightarrow> (unit, 'd ClientRuntimeError) result" where
  "VideoStreamConfig_validate c =
     (if vs_width c = 0 \<or> vs_height c = 0 \<or> vs_width c > 7680 \<or> vs_height c > 4320
         \<or> unat (vs_width c) mod 2 \<noteq> 0 \<or> unat (vs_height c) mod 2 \<noteq> 0
      then Err InvalidStreamDimensions else Ok ())"

definition VideoStreamConfig_new :: "u32 \<Rightarrow> u32 \<Rightarrow> (VideoStreamConfig, 'd ClientRuntimeError) result" where
  "VideoStreamConfig_new width height =
     (let config = \<lparr>vs_width = width, vs_height = height\<rparr> in map_ok (\<lambda>_. config) (VideoStreamConfig_validate config))"

definition bootstrap_names :: "string list" where
  "bootstrap_names =
     [''NEXUS_CLIENT_SERVER_CERT_DER'', ''NEXUS_CLIENT_CAPABILITY_HEX'', ''NEXUS_CLIENT_CAPABILITY_VERIFYING_KEY_HEX'',
      ''NEXUS_CLIENT_RELAY_ID'', ''NEXUS_CLIENT_RELAY_SESSION_ID'', ''NEXUS_CLIENT_RELAY_CLIENT_DEVICE_ID'',
      ''NEXUS_CLIENT_RELAY_TARGET_DEVICE_ID'', ''NEXUS_CLIENT_RELAY_EXPIRES_AT'', ''NEXUS_CLIENT_RELAY_SIGNATURE_HEX'',
      ''NEXUS_CLIENT_RELAY_VERIFYING_KEY_HEX'', ''NEXUS_CLIENT_FRAME_KEY_HEX'', ''NEXUS_CLIENT_NONCE_DOMAIN'',
      ''NEXUS_CLIENT_MONITOR_WIDTH'', ''NEXUS_CLIENT_MONITOR_HEIGHT'', ''NEXUS_CLIENT_STREAM_WIDTH'',
      ''NEXUS_CLIENT_STREAM_HEIGHT'']"

text \<open>What the bootstrap asks of other libraries.\<close>

record bootstrap_externals =
  bx_endpoint :: "bytes \<Rightarrow> bool"
  bx_decode_capability :: "bytes \<Rightarrow> SessionCapability option"
  bx_valid_key :: "bytes \<Rightarrow> bool"

record bootstrap_result =
  br_session :: "ClientSession outcome"
  br_monitor :: MonitorInfo
  br_stream :: VideoStreamConfig
  br_frame_key :: bytes
  br_nonce_domain :: u32

definition read_relay_token :: "(string \<Rightarrow> string option) \<Rightarrow> (RelayTokenMetadata, 'd ClientRuntimeError) result" where
  "read_relay_token env =
     and_then (required_env env ''NEXUS_CLIENT_RELAY_ID'') (\<lambda>relay_id.
     and_then (required_env env ''NEXUS_CLIENT_RELAY_SESSION_ID'') (\<lambda>sid.
     and_then (required_env env ''NEXUS_CLIENT_RELAY_CLIENT_DEVICE_ID'') (\<lambda>client_device_id.
     and_then (required_env env ''NEXUS_CLIENT_RELAY_TARGET_DEVICE_ID'') (\<lambda>target_device_id.
     and_then (parse_env usize_max env ''NEXUS_CLIENT_RELAY_EXPIRES_AT'') (\<lambda>expires_at.
     and_then (read_hex_env env ''NEXUS_CLIENT_RELAY_SIGNATURE_HEX'') (\<lambda>signature.
       Ok \<lparr>rm_relay_id = relay_id, rm_session_id = sid, rm_client_device_id = client_device_id,
           rm_target_device_id = target_device_id, rm_expires_at = from_secs (of_nat expires_at),
           rm_signature = signature\<rparr>))))))"

text \<open>\<open>run_configured_with_cancellation\<close> up to the connection.  The scale is the bits of \<open>1.0\<close>.\<close>

definition bootstrap ::
  "bootstrap_externals \<Rightarrow> (string \<Rightarrow> string option) \<Rightarrow> bool \<Rightarrow> (bootstrap_result, 'd ClientRuntimeError) result" where
  "bootstrap bx env is_cancelled =
     (if is_cancelled then Err Rt_Shutdown
      else if \<not> list_ex (\<lambda>name. env name \<noteq> None) bootstrap_names then Err SessionBootstrapRequired
      else
        and_then (read_hex_env env ''NEXUS_CLIENT_SERVER_CERT_DER'') (\<lambda>certificate.
        if \<not> bx_endpoint bx certificate then Err (InvalidBootstrap ''NEXUS_CLIENT_SERVER_CERT_DER'') else
        and_then (read_hex_env env ''NEXUS_CLIENT_CAPABILITY_HEX'') (\<lambda>capability_bytes.
        and_then (ok_or (InvalidBootstrap ''NEXUS_CLIENT_CAPABILITY_HEX'') (bx_decode_capability bx capability_bytes)) (\<lambda>capability.
        and_then (read_relay_token env) (\<lambda>relay_token.
        and_then (verifying_key_env (bx_valid_key bx) env ''NEXUS_CLIENT_CAPABILITY_VERIFYING_KEY_HEX'') (\<lambda>capability_key.
        and_then (verifying_key_env (bx_valid_key bx) env ''NEXUS_CLIENT_RELAY_VERIFYING_KEY_HEX'') (\<lambda>relay_key.
        and_then (map_err (\<lambda>_. InvalidBootstrap []) (SessionPolicy_new DEFAULT_MAX_SESSION_DURATION (dur_from_secs 60))) (\<lambda>policy.
        and_then (parse_env (2 ^ 32 - 1) env ''NEXUS_CLIENT_MONITOR_WIDTH'') (\<lambda>width.
        and_then (parse_env (2 ^ 32 - 1) env ''NEXUS_CLIENT_MONITOR_HEIGHT'') (\<lambda>height.
        and_then (parse_env (2 ^ 32 - 1) env ''NEXUS_CLIENT_STREAM_WIDTH'') (\<lambda>stream_width.
        and_then (parse_env (2 ^ 32 - 1) env ''NEXUS_CLIENT_STREAM_HEIGHT'') (\<lambda>stream_height.
        and_then (VideoStreamConfig_new (of_nat stream_width) (of_nat stream_height)) (\<lambda>stream.
        and_then (read_fixed_hex_env 32 env ''NEXUS_CLIENT_FRAME_KEY_HEX'') (\<lambda>frame_key.
        and_then (parse_env (2 ^ 32 - 1) env ''NEXUS_CLIENT_NONCE_DOMAIN'') (\<lambda>nonce_domain.
          Ok \<lparr>br_session = ClientSession_new capability relay_token policy
                 \<lparr>cv_capability_key = capability_key, cv_relay_key = relay_key, cv_relay_id = rm_relay_id relay_token\<rparr>,
              br_monitor = \<lparr>mon_id = 0, origin_x = 0, origin_y = 0, mon_width = of_nat width, mon_height = of_nat height,
                 mon_scale = 0x3F800000\<rparr>,
              br_stream = stream, br_frame_key = frame_key, br_nonce_domain = of_nat nonce_domain\<rparr>)))))))))))))))"

section \<open>The runtime\<close>

text \<open>A connection: whether it is open, and the datagrams that were sent on it.\<close>

record connection =
  conn_open :: bool
  conn_sent :: "bytes list"

definition conn_close :: "connection \<Rightarrow> connection" where
  "conn_close c = c\<lparr>conn_open := False\<rparr>"

text \<open>\<open>notify_one\<close> leaves a permit for the next waiter.\<close>

record RuntimeCancellation =
  rc_cancelled :: bool
  rc_permit :: bool

definition RuntimeCancellation_new :: RuntimeCancellation where
  "RuntimeCancellation_new = \<lparr>rc_cancelled = False, rc_permit = False\<rparr>"

definition rc_cancel :: "RuntimeCancellation \<Rightarrow> RuntimeCancellation" where
  "rc_cancel c = c\<lparr>rc_cancelled := True, rc_permit := True\<rparr>"

record 't ClientRuntime =
  rt_connection :: connection
  rt_session :: ClientSession
  rt_receiver :: ClientReceiver
  rt_window :: WindowController
  rt_input :: InputController
  rt_received_frames :: u64
  rt_sent_input_messages :: u64
  rt_latest_frame :: "DecodedFrameJob option"
  rt_latest_cursor :: "CursorPosition option"
  rt_latest_cursor_shape :: "CursorShape option"
  rt_pipeline :: "'t NativePipeline"
  rt_cancellation :: RuntimeCancellation
  rt_shutdown :: bool

record RuntimeSummary =
  received_frames :: u64
  sent_input_messages :: u64

text \<open>
  The libraries, and how far the two threads get before the deadline of a shutdown.  The render queue of
  the runtime is the window's.
\<close>

record ('t, 'd, 'e) runtime_env =
  re_verify :: ed_verify
  re_encode :: "SessionCapability \<Rightarrow> bytes"
  re_open :: aead
  re_position :: "bytes \<Rightarrow> (CursorPosition, 'd) result"
  re_shape :: "bytes \<Rightarrow> (CursorShape, 'd) result"
  re_codec :: "'e input_codec"
  re_mft :: "'t mft"
  re_present :: "DecodedSurface \<Rightarrow> (unit, DecoderError) result"
  re_pipeline_stops :: bool
  re_window_rounds :: nat

definition win_update_render :: "(RenderQueue \<Rightarrow> RenderQueue) \<Rightarrow> WindowController \<Rightarrow> WindowController" where
  "win_update_render f w = w\<lparr>win_render_queue := f (win_render_queue w)\<rparr>"

definition fail_closed_with_deadline ::
  "('t, 'd, 'e) runtime_env \<Rightarrow> 't ClientRuntime \<Rightarrow> 't ClientRuntime \<times> bool" where
  "fail_closed_with_deadline x r =
     (case np_shutdown (re_pipeline_stops x) (rt_pipeline r) of (pipeline, pipeline_stopped) \<Rightarrow>
      (case WindowController_shutdown (re_window_rounds x)
              (win_update_render RenderQueue_shutdown (rt_window r)) of (window, window_stopped) \<Rightarrow>
         (r\<lparr>rt_cancellation := rc_cancel (rt_cancellation r), rt_session := fst (expire (rt_session r)),
            rt_input := ic_expire (rt_input r), rt_latest_frame := None, rt_latest_cursor := None,
            rt_latest_cursor_shape := None, rt_connection := conn_close (rt_connection r), rt_shutdown := True,
            rt_pipeline := pipeline, rt_window := window\<rparr>,
          pipeline_stopped \<and> is_ok window_stopped)))"

definition fail_closed :: "('t, 'd, 'e) runtime_env \<Rightarrow> 't ClientRuntime \<Rightarrow> 't ClientRuntime" where
  "fail_closed x r = fst (fail_closed_with_deadline x r)"

definition ClientRuntime_shutdown ::
  "('t, 'd, 'e) runtime_env \<Rightarrow> 't ClientRuntime \<Rightarrow> 't ClientRuntime \<times> (unit, 'd ClientRuntimeError) result" where
  "ClientRuntime_shutdown x r =
     (if rt_shutdown r then (r, Ok ())
      else (case fail_closed_with_deadline x r of
              (r, True) \<Rightarrow> (r, Ok ())
            | (r, False) \<Rightarrow> (r, Err Rt_ShutdownTimeout)))"

section \<open>Window events and input\<close>

fun is_input :: "WindowEvent \<Rightarrow> bool" where
  "is_input (We_Input _) = True"
| "is_input _ = False"

definition handle_window_event ::
  "('t, 'd, 'e) runtime_env \<Rightarrow> instant \<Rightarrow> 't ClientRuntime \<Rightarrow> WindowEvent
     \<Rightarrow> ('t ClientRuntime \<times> (unit, 'd ClientRuntimeError) result) outcome" where
  "handle_window_event x now r event =
     (if rt_shutdown r then Returns (r, Err Rt_Shutdown)
      else if is_input event \<and> \<not> can_control (rt_session r) then Returns (r, Ok ())
      else
        (case ic_handle_window_event (re_codec x) now (rt_input r) event of
           Panics \<Rightarrow> Panics
         | Returns (i, Err e) \<Rightarrow> Returns (r\<lparr>rt_input := i\<rparr>, Err (Rt_Input e))
         | Returns (i, Ok _) \<Rightarrow>
             if event = We_Closed then Returns (fail_closed x (r\<lparr>rt_input := i\<rparr>), Err Rt_Shutdown)
             else Returns (r\<lparr>rt_input := i\<rparr>, Ok ())))"

text \<open>The loop takes the events that are in the queues; one that arrives meanwhile is left to the next poll.\<close>

definition queued_events :: "WindowController \<Rightarrow> nat" where
  "queued_events w = length (win_control w) + length (win_normal w)"

lemma try_next_event_queued: "try_next_event w = (w', Some e) \<Longrightarrow> queued_events w' < queued_events w"
  by (auto simp: try_next_event_def control_pop_def queued_events_def split: list.splits)

function pump_window_events ::
  "('t, 'd, 'e) runtime_env \<Rightarrow> instant \<Rightarrow> 't ClientRuntime
     \<Rightarrow> ('t ClientRuntime \<times> (unit, 'd ClientRuntimeError) result) outcome" where
  "pump_window_events x now r =
     (case try_next_event (rt_window r) of
        (w, None) \<Rightarrow> Returns (r\<lparr>rt_window := w\<rparr>, Ok ())
      | (w, Some event) \<Rightarrow>
          if is_input event \<and> \<not> can_control (rt_session r) then pump_window_events x now (r\<lparr>rt_window := w\<rparr>)
          else
            (case ic_handle_window_event (re_codec x) now (rt_input r) event of
               Panics \<Rightarrow> Panics
             | Returns (i, Err e) \<Rightarrow> Returns (r\<lparr>rt_window := w, rt_input := i\<rparr>, Err (Rt_Input e))
             | Returns (i, Ok _) \<Rightarrow>
                 if event = We_Closed then Returns (fail_closed x (r\<lparr>rt_window := w, rt_input := i\<rparr>), Err Rt_Shutdown)
                 else pump_window_events x now (r\<lparr>rt_window := w, rt_input := i\<rparr>)))"
  by pat_completeness auto
termination
  by (relation "measure (\<lambda>(_, _, r). queued_events (rt_window r))") (auto dest: try_next_event_queued [OF sym])

declare pump_window_events.simps [simp del]

definition pump_input ::
  "bool \<Rightarrow> 't ClientRuntime \<Rightarrow> 't ClientRuntime \<times> (unit, 'd ClientRuntimeError) result" where
  "pump_input send_ok r =
     (if \<not> can_control (rt_session r) then (r\<lparr>rt_input := clear_pending (rt_input r)\<rparr>, Ok ())
      else
        (case try_next_control (rt_input r) of
           (i, None) \<Rightarrow> (r\<lparr>rt_input := i\<rparr>, Ok ())
         | (i, Some control) \<Rightarrow>
             if \<not> send_ok then (r\<lparr>rt_input := i\<rparr>, Err Rt_SendDatagram)
             else
               (r\<lparr>rt_input := i,
                  rt_connection := (rt_connection r)\<lparr>conn_sent := conn_sent (rt_connection r) @ [control]\<rparr>,
                  rt_sent_input_messages := saturating_add (rt_sent_input_messages r) 1\<rparr>, Ok ())))"

section \<open>The run loop\<close>

definition accept_inbound_datagram ::
  "('t, 'd, 'e) runtime_env \<Rightarrow> 't ClientRuntime \<Rightarrow> bytes \<Rightarrow> 't ClientRuntime \<times> (unit, 'd ClientRuntimeError) result" where
  "accept_inbound_datagram x r bs =
     (if is_ok (decode_video_datagram bs) then
        (case accept_datagram (re_open x) (rt_receiver r) bs of
           (receiver, res) \<Rightarrow> (r\<lparr>rt_receiver := receiver\<rparr>, map_err Rt_Receiver res))
      else
        (case accept_control_datagram (re_position x) (re_shape x) (rt_receiver r) bs of
           Ok (Cce_CursorPosition cursor) \<Rightarrow> (r\<lparr>rt_latest_cursor := Some cursor\<rparr>, Ok ())
         | Ok (Cce_CursorShape shape) \<Rightarrow> (r\<lparr>rt_latest_cursor_shape := Some shape\<rparr>, Ok ())
         | Err e \<Rightarrow> (r, Err (Rt_Receiver e))))"

text \<open>From the network to the pipeline: the newest frame, if the datagram completed one.\<close>

definition deliver_frame ::
  "'t ClientRuntime \<Rightarrow> 't ClientRuntime \<times> (unit, 'd ClientRuntimeError) result" where
  "deliver_frame r =
     (case drain_latest_frame (rt_receiver r) of
        (receiver, None) \<Rightarrow> (r\<lparr>rt_receiver := receiver\<rparr>, Ok ())
      | (receiver, Some frame) \<Rightarrow>
          (let r = r\<lparr>rt_receiver := receiver, rt_latest_frame := Some frame\<rparr> in
           case render_latest (rt_window r) frame of
             (window, Err e) \<Rightarrow> (r\<lparr>rt_window := window\<rparr>, Err (Rt_Window e))
           | (window, Ok _) \<Rightarrow>
               (case take_latest (win_render_queue window) of
                  (q, job) \<Rightarrow>
                    (let r = r\<lparr>rt_window := window\<lparr>win_render_queue := q\<rparr>\<rparr> in
                     case (case job of None \<Rightarrow> (rt_pipeline r, Ok ()) | Some render_job \<Rightarrow> np_submit (rt_pipeline r) render_job) of
                       (pipeline, Err e) \<Rightarrow> (r\<lparr>rt_pipeline := pipeline\<rparr>, Err (Rt_Decoder e))
                     | (pipeline, Ok _) \<Rightarrow>
                         (r\<lparr>rt_pipeline := pipeline,
                            rt_received_frames := saturating_add (rt_received_frames r) 1\<rparr>, Ok ())))))"

datatype 'd run_status = Running | Returned "(RuntimeSummary, 'd ClientRuntimeError) result" | Panicked

definition fail_with :: "('t, 'd, 'e) runtime_env \<Rightarrow> 't ClientRuntime \<Rightarrow> 'd ClientRuntimeError \<Rightarrow> 't ClientRuntime \<times> 'd run_status" where
  "fail_with x r e = (fail_closed x r, Returned (Err e))"

definition summary :: "'t ClientRuntime \<Rightarrow> RuntimeSummary" where
  "summary r = \<lparr>received_frames = rt_received_frames r, sent_input_messages = rt_sent_input_messages r\<rparr>"

fun reconnectable :: "ConnectionError \<Rightarrow> bool" where
  "reconnectable ConnectionClosed = True"
| "reconnectable ApplicationClosed = True"
| "reconnectable Conn_Reset = True"
| "reconnectable LocallyClosed = True"
| "reconnectable _ = False"

text \<open>The datagram branch of the loop; \<open>now\<close> and \<open>later\<close> are its two readings of the clock.\<close>

definition on_datagram ::
  "('t, 'd, 'e) runtime_env \<Rightarrow> UnixTimestamp \<Rightarrow> UnixTimestamp \<Rightarrow> (bytes, ConnectionError) result \<Rightarrow> 't ClientRuntime
     \<Rightarrow> 't ClientRuntime \<times> 'd run_status" where
  "on_datagram x now later datagram r =
     (case ensure_active (re_verify x) (re_encode x) (rt_session r) now of
        (session, Err e) \<Rightarrow> fail_with x (r\<lparr>rt_session := session\<rparr>) (Rt_Session e)
      | (session, Ok _) \<Rightarrow>
          (let r = r\<lparr>rt_session := session\<rparr> in
           case datagram of
             Err e \<Rightarrow>
               if \<not> reconnectable e then fail_with x r (Rt_Transport e)
               else if rc_cancelled (rt_cancellation r) then fail_with x r Rt_Shutdown
               else
                 (case transport_lost (rt_session r) later of
                    (session, Err e) \<Rightarrow> fail_with x (r\<lparr>rt_session := session\<rparr>) (Rt_Session e)
                  | (session, Ok _) \<Rightarrow>
                      (let r = r\<lparr>rt_session := session, rt_pipeline := reset_for_reconnect (rt_pipeline r)\<rparr>
                       in (r, Returned (Ok (summary r)))))
           | Ok bs \<Rightarrow>
               (case accept_inbound_datagram x r bs of
                  (r, Err e) \<Rightarrow> fail_with x r e
                | (r, Ok _) \<Rightarrow>
                    (case deliver_frame r of
                       (r, Err e) \<Rightarrow> fail_with x r e
                     | (r, Ok _) \<Rightarrow> (r, Running)))))"

definition on_poll ::
  "('t, 'd, 'e) runtime_env \<Rightarrow> UnixTimestamp \<Rightarrow> instant \<Rightarrow> bool \<Rightarrow> 't ClientRuntime \<Rightarrow> 't ClientRuntime \<times> 'd run_status" where
  "on_poll x now instant send_ok r =
     (case poll_error (rt_pipeline r) of
        (pipeline, Some e) \<Rightarrow> fail_with x (r\<lparr>rt_pipeline := pipeline\<rparr>) (Rt_Decoder e)
      | (pipeline, None) \<Rightarrow>
          (case ensure_active (re_verify x) (re_encode x) (rt_session r) now of
             (session, Err e) \<Rightarrow> fail_with x (r\<lparr>rt_session := session\<rparr>) (Rt_Session e)
           | (session, Ok _) \<Rightarrow>
               (case pump_window_events x instant (r\<lparr>rt_session := session\<rparr>) of
                  Panics \<Rightarrow> (r\<lparr>rt_session := session\<rparr>, Panicked)
                | Returns (r, Err e) \<Rightarrow> fail_with x r e
                | Returns (r, Ok _) \<Rightarrow>
                    (case pump_input send_ok r of
                       (r, Err e) \<Rightarrow> fail_with x r e
                     | (r, Ok _) \<Rightarrow> (r, Running)))))"

text \<open>
  What can happen to a running viewer: a branch of the \<open>select!\<close> is taken, or one of the other threads
  acts: the window reports an event, the pipeline's worker makes a step, someone cancels.
\<close>

datatype runtime_event =
    Rv_Notified
  | Rv_Datagram UnixTimestamp UnixTimestamp "(bytes, ConnectionError) result"
  | Rv_Poll UnixTimestamp instant bool
  | Rv_Control WindowEvent
  | Rv_Normal WindowEvent
  | Rv_Worker bool
  | Rv_Cancel

fun run_step :: "('t, 'd, 'e) runtime_env \<Rightarrow> runtime_event \<Rightarrow> 't ClientRuntime \<Rightarrow> 't ClientRuntime \<times> 'd run_status" where
  "run_step x Rv_Notified r =
     (if rc_permit (rt_cancellation r)
      then fail_with x (r\<lparr>rt_cancellation := (rt_cancellation r)\<lparr>rc_permit := False\<rparr>\<rparr>) Rt_Shutdown
      else (r, Running))"
| "run_step x (Rv_Datagram now later datagram) r = on_datagram x now later datagram r"
| "run_step x (Rv_Poll now instant send_ok) r = on_poll x now instant send_ok r"
| "run_step x (Rv_Control event) r = (r\<lparr>rt_window := send_control (rt_window r) event\<rparr>, Running)"
| "run_step x (Rv_Normal event) r = (r\<lparr>rt_window := send_normal (rt_window r) event\<rparr>, Running)"
| "run_step x (Rv_Worker answered) r =
     (r\<lparr>rt_pipeline := worker_step (re_mft x) (re_present x) answered (rt_pipeline r)\<rparr>, Running)"
| "run_step x Rv_Cancel r = (r\<lparr>rt_cancellation := rc_cancel (rt_cancellation r)\<rparr>, Running)"

fun run_loop :: "('t, 'd, 'e) runtime_env \<Rightarrow> runtime_event list \<Rightarrow> 't ClientRuntime \<Rightarrow> 't ClientRuntime \<times> 'd run_status" where
  "run_loop x [] r = (r, Running)"
| "run_loop x (ev # evs) r =
     (case run_step x ev r of
        (r, Running) \<Rightarrow> run_loop x evs r
      | (r, status) \<Rightarrow> (r, status))"

definition run :: "('t, 'd, 'e) runtime_env \<Rightarrow> runtime_event list \<Rightarrow> 't ClientRuntime \<Rightarrow> 't ClientRuntime \<times> 'd run_status" where
  "run x evs r =
     (if rt_shutdown r \<or> rc_cancelled (rt_cancellation r) then (r, Returned (Err Rt_Shutdown))
      else run_loop x evs r)"

section \<open>Requests of the owner\<close>

definition request_close :: "'t ClientRuntime \<Rightarrow> 't ClientRuntime \<times> (unit, 'd ClientRuntimeError) result" where
  "request_close r =
     (case win_try_send (rt_window r) Cmd_Close of (w, res) \<Rightarrow> (r\<lparr>rt_window := w\<rparr>, map_err Rt_Window res))"

definition request_shutdown :: "'t ClientRuntime \<Rightarrow> 't ClientRuntime" where
  "request_shutdown r =
     r\<lparr>rt_cancellation := rc_cancel (rt_cancellation r), rt_connection := conn_close (rt_connection r)\<rparr>"

definition rt_drain_latest_frame :: "'t ClientRuntime \<Rightarrow> 't ClientRuntime \<times> DecodedFrameJob option" where
  "rt_drain_latest_frame r = (r\<lparr>rt_latest_frame := None\<rparr>, rt_latest_frame r)"

definition drain_latest_cursor :: "'t ClientRuntime \<Rightarrow> 't ClientRuntime \<times> CursorPosition option" where
  "drain_latest_cursor r = (r\<lparr>rt_latest_cursor := None\<rparr>, rt_latest_cursor r)"

definition drain_latest_cursor_shape :: "'t ClientRuntime \<Rightarrow> 't ClientRuntime \<times> CursorShape option" where
  "drain_latest_cursor_shape r = (r\<lparr>rt_latest_cursor_shape := None\<rparr>, rt_latest_cursor_shape r)"

section \<open>Connecting and reconnecting\<close>

text \<open>
  One attempt to connect: the clock when it begins, what comes of it, whether the runtime is cancelled
  meanwhile, the clock after it, and whether a cancellation ends the pause that follows.
\<close>

datatype connect_outcome = Co_Refused | Co_Cancelled | Co_Failed ConnectionError | Co_Connected

record attempt =
  at_now :: UnixTimestamp
  at_outcome :: connect_outcome
  at_cancelled :: bool
  at_later :: UnixTimestamp
  at_pause_cancelled :: bool

record 't native_start =
  ns_transform :: 't
  ns_renderer :: "(unit, DecoderError) result"
  ns_answered :: bool
  ns_handle :: nat

definition build_runtime ::
  "'t native_start \<Rightarrow> connection \<Rightarrow> ClientSession \<Rightarrow> bytes \<Rightarrow> u32 \<Rightarrow> MonitorInfo \<Rightarrow> VideoStreamConfig \<Rightarrow> WindowConfig
     \<Rightarrow> RuntimeCancellation \<Rightarrow> ('t ClientRuntime, 'd ClientRuntimeError) result" where
  "build_runtime ns conn session frame_key nonce_domain monitor stream window_config cancellation =
     (case set_cursor_monitor (ClientReceiver_new frame_key nonce_domain) monitor of
        (_, Err e) \<Rightarrow> Err (Rt_Receiver e)
      | (receiver, Ok _) \<Rightarrow>
          and_then (map_err Rt_Input (InputController_new monitor)) (\<lambda>input.
          and_then (map_err Rt_Window (WindowController_start window_config)) (\<lambda>window.
          let window = window\<lparr>win_native_handle := ns_handle ns\<rparr> in
          and_then (map_err Rt_Decoder (NativePipeline_start (ns_transform ns) (ns_renderer ns) (ns_answered ns)
              (native_handle window) (vs_width stream) (vs_height stream))) (\<lambda>pipeline.
            Ok \<lparr>rt_connection = conn, rt_session = session, rt_receiver = receiver, rt_window = window,
                rt_input = input, rt_received_frames = 0, rt_sent_input_messages = 0, rt_latest_frame = None,
                rt_latest_cursor = None, rt_latest_cursor_shape = None, rt_pipeline = pipeline,
                rt_cancellation = cancellation, rt_shutdown = False\<rparr>))))"

definition new_connection :: connection where
  "new_connection = \<lparr>conn_open = True, conn_sent = []\<rparr>"

definition connect_with_cancellation ::
  "('t, 'd, 'e) runtime_env \<Rightarrow> 't native_start \<Rightarrow> attempt \<Rightarrow> MonitorInfo \<Rightarrow> VideoStreamConfig \<Rightarrow> ClientSession \<Rightarrow> bytes \<Rightarrow> u32
     \<Rightarrow> RuntimeCancellation \<Rightarrow> ('t ClientRuntime, 'd ClientRuntimeError) result" where
  "connect_with_cancellation x ns at monitor stream session frame_key nonce_domain cancellation =
     (if rc_cancelled cancellation then Err Rt_Shutdown
      else
        and_then (VideoStreamConfig_validate stream) (\<lambda>_.
        and_then (map_err Rt_Session (require_view session)) (\<lambda>_.
          case begin_connect (re_verify x) (re_encode x) session (at_now at) of
            (session, Err e) \<Rightarrow> Err (Rt_Session e)
          | (session, Ok _) \<Rightarrow>
              (case at_outcome at of
                 Co_Refused \<Rightarrow> Err Rt_Connect
               | Co_Cancelled \<Rightarrow> Err Rt_Shutdown
               | Co_Failed e \<Rightarrow> Err (Rt_Transport e)
               | Co_Connected \<Rightarrow>
                   if at_cancelled at then Err Rt_Shutdown
                   else
                     (case connected (re_verify x) (re_encode x) session (at_later at) of
                        (session, Err e) \<Rightarrow> Err (Rt_Session e)
                      | (session, Ok _) \<Rightarrow>
                          build_runtime ns new_connection session frame_key nonce_domain monitor stream
                            WindowConfig_default cancellation)))))"

definition attempt_failed ::
  "'t ClientRuntime \<Rightarrow> UnixTimestamp \<Rightarrow> 'd ClientRuntimeError \<Rightarrow> 't ClientRuntime \<times> (unit, 'd ClientRuntimeError) result" where
  "attempt_failed r later error0 =
     (case reconnect_attempt_failed (rt_session r) later of
        (session, Err e) \<Rightarrow> (r\<lparr>rt_session := session\<rparr>, Err (Rt_Session e))
      | (session, Ok _) \<Rightarrow> (r\<lparr>rt_session := session\<rparr>, Err error0))"

definition reconnect_attempt ::
  "('t, 'd, 'e) runtime_env \<Rightarrow> attempt \<Rightarrow> 't ClientRuntime \<Rightarrow> 't ClientRuntime \<times> (unit, 'd ClientRuntimeError) result" where
  "reconnect_attempt x at r =
     (if rc_cancelled (rt_cancellation r) then (r, Err Rt_Shutdown)
      else
        (case begin_connect (re_verify x) (re_encode x) (rt_session r) (at_now at) of
           (session, Err e) \<Rightarrow> (r\<lparr>rt_session := session\<rparr>, Err (Rt_Session e))
         | (session, Ok _) \<Rightarrow>
             (let r = r\<lparr>rt_session := session\<rparr> in
              case at_outcome at of
                Co_Refused \<Rightarrow> attempt_failed r (at_later at) Rt_Connect
              | Co_Cancelled \<Rightarrow> (r, Err Rt_Shutdown)
              | Co_Failed e \<Rightarrow> attempt_failed r (at_later at) (Rt_Transport e)
              | Co_Connected \<Rightarrow>
                  (case connected (re_verify x) (re_encode x) (rt_session r) (at_later at) of
                     (session, Err e) \<Rightarrow> (r\<lparr>rt_session := session\<rparr>, Err (Rt_Session e))
                   | (session, Ok _) \<Rightarrow>
                       (r\<lparr>rt_session := session, rt_connection := new_connection,
                          rt_input := clear_pending (rt_input r),
                          rt_window := win_update_render RenderQueue_clear (rt_window r),
                          rt_latest_frame := None, rt_latest_cursor := None, rt_latest_cursor_shape := None,
                          rt_pipeline := reset_for_reconnect (rt_pipeline r)\<rparr>, Ok ())))))"

text \<open>The retries, one attempt after the other; not returning is \<open>None\<close>.\<close>

partial_function (option) reconnect_loop ::
  "('t, 'd, 'e) runtime_env \<Rightarrow> (nat \<Rightarrow> attempt) \<Rightarrow> nat \<Rightarrow> 't ClientRuntime
     \<Rightarrow> ('t ClientRuntime \<times> (unit, 'd ClientRuntimeError) result) option" where
  "reconnect_loop x attempts n r =
     (if rc_cancelled (rt_cancellation r) then Some (r, Err Rt_Shutdown)
      else
        (let (r, res) = reconnect_attempt x (attempts n) r in
         if res = Ok () then Some (r, Ok ())
         else if cl_state (rt_session r) \<noteq> Cl_Reconnecting then Some (fail_closed x r, res)
         else if at_pause_cancelled (attempts n) then Some (r, Err Rt_Shutdown)
         else reconnect_loop x attempts (Suc n) r))"

definition reconnect_with_retry ::
  "('t, 'd, 'e) runtime_env \<Rightarrow> (nat \<Rightarrow> attempt) \<Rightarrow> 't ClientRuntime
     \<Rightarrow> ('t ClientRuntime \<times> (unit, 'd ClientRuntimeError) result) option" where
  "reconnect_with_retry x attempts r =
     (if rt_shutdown r then Some (r, Err Rt_Shutdown) else reconnect_loop x attempts 0 r)"

text \<open>
  The loop of \<open>run_configured_with_cancellation\<close> after the first connection: each round is a run and the
  attempts to reconnect after it.  Every way out drops the runtime, which shuts it down.
\<close>

fun run_configured ::
  "('t, 'd, 'e) runtime_env \<Rightarrow> (runtime_event list \<times> (nat \<Rightarrow> attempt)) list \<Rightarrow> 't ClientRuntime
     \<Rightarrow> 't ClientRuntime \<times> 'd run_status" where
  "run_configured x [] r = (r, Running)"
| "run_configured x ((evs, attempts) # rounds) r =
     (case run x evs r of
        (r, Returned res) \<Rightarrow>
          if rc_cancelled (rt_cancellation r) \<and> res = Err Rt_Shutdown \<or> cl_state (rt_session r) \<noteq> Cl_Reconnecting then
            (case ClientRuntime_shutdown x r of
               (r, down) \<Rightarrow>
                 (r, Returned (case (res, down) of (Err e, _) \<Rightarrow> Err e | (Ok s, Ok _) \<Rightarrow> Ok s | (Ok _, Err e) \<Rightarrow> Err e)))
          else
            (case reconnect_with_retry x attempts r of
               None \<Rightarrow> (r, Running)
             | Some (r, Err e) \<Rightarrow> (fst (ClientRuntime_shutdown x r), Returned (Err e))
             | Some (r, Ok _) \<Rightarrow> run_configured x rounds r)
      | (r, status) \<Rightarrow> (r, status))"

end
