(* ===== verification/Runtime_Properties.thy ===== *)
theory Runtime_Properties
  imports Client_Runtime End_To_End
begin

text \<open>
  What the viewer's runtime guarantees: it fails closed, it sends input only with authority, its reconnect
  loop ends, and what a session that the control plane grants is worth to it.
\<close>

section \<open>Failing closed\<close>

text \<open>A runtime that has let go of everything, and one that has not begun to.\<close>

definition closed :: "'t ClientRuntime \<Rightarrow> bool" where
  "closed r \<longleftrightarrow>
     rt_shutdown r \<and> rc_cancelled (rt_cancellation r) \<and> cl_state (rt_session r) = Cl_Expired
     \<and> \<not> conn_open (rt_connection r) \<and> ic_shutdown (rt_input r) \<and> \<not> ic_focused (rt_input r) \<and> ic_queue (rt_input r) = []
     \<and> rq_shutdown (win_render_queue (rt_window r)) \<and> rq_latest (win_render_queue (rt_window r)) = None
     \<and> rt_latest_frame r = None \<and> rt_latest_cursor r = None \<and> rt_latest_cursor_shape r = None
     \<and> np_stop (rt_pipeline r)"

definition alive :: "'t ClientRuntime \<Rightarrow> bool" where
  "alive r \<longleftrightarrow> \<not> rt_shutdown r \<and> monitor_ok (ic_monitor (rt_input r))"

lemma window_rounds_render:
  "win_shutdown_requested w \<Longrightarrow> win_render_queue ((window_thread_round ^^ n) w) = win_render_queue w"
proof -
  have "win_shutdown_requested (window_thread_round w) \<and> win_render_queue (window_thread_round w) = win_render_queue w"
    if "win_shutdown_requested w" for w
    using that by (simp add: window_thread_round_def close_window_def send_control_def)
  moreover assume "win_shutdown_requested w"
  ultimately have "win_shutdown_requested ((window_thread_round ^^ n) w)
      \<and> win_render_queue ((window_thread_round ^^ n) w) = win_render_queue w"
    by (induction n) simp_all
  then show ?thesis by simp
qed

lemma window_shutdown_render: "win_render_queue (fst (WindowController_shutdown n w)) = win_render_queue w"
  by (simp add: WindowController_shutdown_def Let_def win_try_send_def window_rounds_render split: result.splits)

lemma expire_state: "cl_state (fst (expire s)) = Cl_Expired"
  by (simp add: expire_def)

lemma closed_fail_closed: "closed (fail_closed x r)"
  by (simp add: closed_def fail_closed_def fail_closed_with_deadline_def np_shutdown_def rc_cancel_def conn_close_def
      ic_expire_def expire_state win_update_render_def RenderQueue_shutdown_def case_prod_beta window_shutdown_render)

lemma fail_with_closed: "fail_with x r e = (r', Returned res) \<Longrightarrow> closed r'"
  by (auto simp: fail_with_def closed_fail_closed)

text \<open>The input controller keeps its monitor, and with a valid monitor it does not panic.\<close>

lemma enqueue_input_returns:
  assumes "monitor_ok (ic_monitor c)"
  shows "\<exists>c' r. enqueue_input codec now c input = Returns (c', r) \<and> ic_monitor c' = ic_monitor c"
proof -
  obtain e where "clamp_to_monitor input (ic_monitor c) = Returns e" using clamp_to_monitor_returns [OF assms] by blast
  then show ?thesis
    by (auto simp: enqueue_input_def Let_def split: result.splits)
qed

lemma window_event_returns:
  assumes "monitor_ok (ic_monitor c)"
  shows "\<exists>c' r. ic_handle_window_event codec now c event = Returns (c', r) \<and> ic_monitor c' = ic_monitor c"
proof (cases "\<exists>i. event = We_Input i")
  case True
  then show ?thesis
    using enqueue_input_returns [OF assms, of codec now] by (auto simp: ic_handle_window_event_def)
next
  case False
  then show ?thesis
    by (cases event) (auto simp: ic_handle_window_event_def set_focused_def ic_expire_def)
qed

lemma pump_window_events_returns:
  "alive r \<Longrightarrow> \<exists>r' res. pump_window_events x now r = Returns (r', res) \<and> (res = Ok () \<longrightarrow> alive r')"
proof (induction x now r rule: pump_window_events.induct)
  case (1 x now r)
  obtain w e where e: "try_next_event (rt_window r) = (w, e)" by fastforce
  show ?case
  proof (cases e)
    case None
    then show ?thesis using 1 e by (simp add: pump_window_events.simps [of x now r] alive_def)
  next
    case (Some event)
    obtain i res where i: "ic_handle_window_event (re_codec x) now (rt_input r) event = Returns (i, res)" "ic_monitor i = ic_monitor (rt_input r)"
      using 1(3) window_event_returns [of "rt_input r" "re_codec x" now event] by (auto simp: alive_def)
    have "alive (r\<lparr>rt_window := w\<rparr>)" "alive (r\<lparr>rt_window := w, rt_input := i\<rparr>)" using 1(3) i(2) by (simp_all add: alive_def)
    then show ?thesis
      using 1(1) [OF e [symmetric] Some] 1(2) [OF e [symmetric] Some _ i(1) refl] e Some i(1)
      by (cases res) (auto simp: pump_window_events.simps [of x now r])
  qed
qed

text \<open>The datagram path leaves the session, the input and the connection alone.\<close>

lemma accept_inbound_same:
  assumes "accept_inbound_datagram x r bs = (r', res)"
  shows "rt_shutdown r' = rt_shutdown r" "rt_input r' = rt_input r" "rt_session r' = rt_session r"
    "rt_connection r' = rt_connection r" "rt_cancellation r' = rt_cancellation r"
  using assms
  by (auto simp: accept_inbound_datagram_def split: if_splits prod.splits result.splits ClientControlEvent.splits)

lemma deliver_frame_same:
  assumes "deliver_frame r = (r', res)"
  shows "rt_shutdown r' = rt_shutdown r" "rt_input r' = rt_input r" "rt_session r' = rt_session r"
    "rt_connection r' = rt_connection r" "rt_cancellation r' = rt_cancellation r"
  using assms
  by (auto simp: deliver_frame_def Let_def split: prod.splits option.splits result.splits)

fun outcome_ok :: "'t ClientRuntime \<Rightarrow> 'd run_status \<Rightarrow> bool" where
  "outcome_ok r Running \<longleftrightarrow> alive r"
| "outcome_ok r (Returned (Err e)) \<longleftrightarrow> closed r"
| "outcome_ok r (Returned (Ok s)) \<longleftrightarrow> alive r \<and> cl_state (rt_session r) = Cl_Reconnecting"
| "outcome_ok r Panicked \<longleftrightarrow> False"

lemma outcome_fail_with [simp]: "case fail_with x r e of (r', st) \<Rightarrow> outcome_ok r' st"
  by (simp add: fail_with_def closed_fail_closed)

lemma transport_lost_Ok: "transport_lost s now = (s', Ok u) \<Longrightarrow> cl_state s' = Cl_Reconnecting"
  by (auto simp: transport_lost_def split: if_splits)

lemma on_datagram_outcome:
  assumes "alive r"
  shows "case on_datagram x now later datagram r of (r', st) \<Rightarrow> outcome_ok r' st"
proof -
  obtain s res where ea: "ensure_active (re_verify x) (re_encode x) (rt_session r) now = (s, res)" by fastforce
  let ?r = "r\<lparr>rt_session := s\<rparr>"
  show ?thesis
  proof (cases res)
    case (Err e)
    then show ?thesis by (simp add: on_datagram_def ea)
  next
    case (Ok u)
    note ok = this
    show ?thesis
    proof (cases datagram)
      case (Err e)
      obtain s' tl where "transport_lost s later = (s', tl)" by fastforce
      then show ?thesis
        using assms transport_lost_Ok [of s later s']
        by (cases tl) (simp_all add: on_datagram_def ea ok Err Let_def alive_def)
    next
      case datagram: (Ok bs)
      obtain r1 acc where acc: "accept_inbound_datagram x ?r bs = (r1, acc)" by fastforce
      obtain r2 del where del: "deliver_frame r1 = (r2, del :: (unit, 'b ClientRuntimeError) result)" by fastforce
      show ?thesis
        using assms accept_inbound_same [OF acc] deliver_frame_same [OF del]
        by (cases acc; cases del) (simp_all add: on_datagram_def ea ok datagram Let_def acc del alive_def)
    qed
  qed
qed

lemma pump_input_alive: "alive r \<Longrightarrow> alive (fst (pump_input ok r))"
  by (auto simp: alive_def pump_input_def clear_pending_def try_next_control_def split: list.splits)

lemma on_poll_outcome:
  assumes "alive r"
  shows "case on_poll x now instant ok r of (r', st) \<Rightarrow> outcome_ok r' st"
proof -
  obtain p e where p: "poll_error (rt_pipeline r) = (p, e)" by fastforce
  obtain s res where ea: "ensure_active (re_verify x) (re_encode x) (rt_session r) now = (s, res)" by fastforce
  have "alive (r\<lparr>rt_session := s\<rparr>)" using assms by (simp add: alive_def)
  then obtain r1 ev where ev: "pump_window_events x instant (r\<lparr>rt_session := s\<rparr>) = Returns (r1, ev)" "ev = Ok () \<longrightarrow> alive r1"
    using pump_window_events_returns by blast
  obtain r2 sent where sent: "pump_input ok r1 = (r2, sent :: (unit, 'b ClientRuntimeError) result)" by fastforce
  then have "ev = Ok () \<Longrightarrow> alive r2" using pump_input_alive [of r1 ok] ev(2) by (metis fst_conv)
  then show ?thesis
    by (cases e; cases res; cases ev; cases sent) (simp_all add: on_poll_def p ea ev(1) sent)
qed

lemma run_step_outcome: "alive r \<Longrightarrow> case run_step x ev r of (r', st) \<Rightarrow> outcome_ok r' st"
proof (cases ev)
  case (Rv_Datagram now later datagram)
  then show "alive r \<Longrightarrow> ?thesis" using on_datagram_outcome [of r x now later datagram] by simp
next
  case (Rv_Poll now instant ok)
  then show "alive r \<Longrightarrow> ?thesis" using on_poll_outcome [of r x now instant ok] by simp
qed (simp_all add: alive_def)

lemma run_loop_outcome: "alive r \<Longrightarrow> case run_loop x evs r of (r', st) \<Rightarrow> outcome_ok r' st"
proof (induction evs arbitrary: r)
  case (Cons ev evs)
  obtain r1 st where st: "run_step x ev r = (r1, st)" by fastforce
  then have "outcome_ok r1 st" using run_step_outcome [OF Cons.prems, of x ev] by simp
  then show ?case using Cons.IH by (cases st) (simp_all add: st)
qed simp

section \<open>Reconnecting\<close>

lemma attempt_failed_same:
  "rt_shutdown (fst (attempt_failed r later e)) = rt_shutdown r" "rt_input (fst (attempt_failed r later e)) = rt_input r"
  "rt_connection (fst (attempt_failed r later e)) = rt_connection r" "snd (attempt_failed r later e) \<noteq> Ok ()"
  "rt_session (fst (attempt_failed r later e)) = fst (reconnect_attempt_failed (rt_session r) later)"
  by (simp_all add: attempt_failed_def split: prod.splits result.splits)

lemma reconnect_attempt_alive:
  assumes "alive r"
  shows "alive (fst (reconnect_attempt x at r))"
proof -
  obtain s res where b: "begin_connect (re_verify x) (re_encode x) (rt_session r) (at_now at) = (s, res)" by fastforce
  obtain s' c where c: "connected (re_verify x) (re_encode x) s (at_later at) = (s', c)" by fastforce
  show ?thesis
    using assms
    by (cases res; cases c; cases "at_outcome at")
      (simp_all add: reconnect_attempt_def b c Let_def alive_def attempt_failed_same clear_pending_def)
qed

text \<open>A failed attempt that can be retried has kept the deadline.\<close>

lemma begin_connect_deadline: "cl_reconnect_deadline (fst (begin_connect v enc s now)) = cl_reconnect_deadline s"
  by (auto simp: begin_connect_def split: result.splits)

lemma begin_connect_Ok: "begin_connect v enc s now = (s', Ok u) \<Longrightarrow> cl_state s' = Cl_Connecting"
  by (auto simp: begin_connect_def split: result.splits if_splits)

lemma begin_connect_Ok_claims: "snd (begin_connect v enc s now) = Ok u \<Longrightarrow> validate_claims v enc s now = Ok ()"
  by (auto simp: begin_connect_def split: result.splits if_splits)

lemma attempt_failed_deadline:
  "cl_state (fst (reconnect_attempt_failed s now)) = Cl_Reconnecting \<Longrightarrow> cl_state s = Cl_Connecting \<Longrightarrow>
     cl_reconnect_deadline (fst (reconnect_attempt_failed s now)) = cl_reconnect_deadline s"
  by (auto simp: reconnect_attempt_failed_def split: option.splits if_splits)

lemma connected_Err_state:
  "connected v enc s now = (s', Err e) \<Longrightarrow> cl_state s = Cl_Connecting \<Longrightarrow> cl_state s' \<noteq> Cl_Reconnecting"
  by (auto simp: connected_def Let_def split: result.splits if_splits)

lemma reconnect_attempt_retry:
  assumes "reconnect_attempt x at r = (r', res)" "res \<noteq> Ok ()" "cl_state (rt_session r') = Cl_Reconnecting"
  shows "cl_reconnect_deadline (rt_session r') = cl_reconnect_deadline (rt_session r)"
proof -
  obtain s b where b: "begin_connect (re_verify x) (re_encode x) (rt_session r) (at_now at) = (s, b)" by fastforce
  then have d: "cl_reconnect_deadline s = cl_reconnect_deadline (rt_session r)"
    using begin_connect_deadline [of "re_verify x" "re_encode x" "rt_session r" "at_now at"] by simp
  obtain s' c where c: "connected (re_verify x) (re_encode x) s (at_later at) = (s', c)" by fastforce
  show ?thesis
  proof (cases b)
    case (Err e)
    then show ?thesis using assms d by (auto simp: reconnect_attempt_def b split: if_splits)
  next
    case (Ok u)
    then have st: "cl_state s = Cl_Connecting" using begin_connect_Ok [of _ _ _ _ s] b by simp
    have failed: ?thesis if "attempt_failed (r\<lparr>rt_session := s\<rparr>) later e = (r', res)" for later e
      using attempt_failed_deadline [OF _ st, of later] attempt_failed_same(5) [of "r\<lparr>rt_session := s\<rparr>" later e] that assms(3) d
      by (metis ClientRuntime.select_convs(2) ClientRuntime.update_convs(2) ClientRuntime.surjective fst_conv)
    show ?thesis
      using assms failed st d connected_Err_state [OF _ st, of "re_verify x" "re_encode x" "at_later at" s']
      by (cases c; cases "at_outcome at")
        (auto simp: reconnect_attempt_def b Ok c Let_def split: if_splits)
  qed
qed

lemma reconnect_attempt_late:
  assumes "cl_state (rt_session r) = Cl_Reconnecting" "cl_reconnect_deadline (rt_session r) = Some d" "d < at_now at"
    and "\<not> rc_cancelled (rt_cancellation r)"
  shows "cl_state (rt_session (fst (reconnect_attempt x at r))) = Cl_Expired" "snd (reconnect_attempt x at r) \<noteq> Ok ()"
proof -
  have "\<not> at_now at \<le> d" using assms(3) by simp
  then show "cl_state (rt_session (fst (reconnect_attempt x at r))) = Cl_Expired" "snd (reconnect_attempt x at r) \<noteq> Ok ()"
    using assms by (simp_all add: reconnect_attempt_def begin_connect_def can_reconnect_def)
qed

lemma reconnect_loop_ends:
  assumes "cl_state (rt_session r) = Cl_Reconnecting" "cl_reconnect_deadline (rt_session r) = Some d"
    and "d < at_now (attempts (n + k))"
  shows "\<exists>res. reconnect_loop x attempts n r = Some res"
  using assms
proof (induction k arbitrary: n r)
  case 0
  then show ?case
    using reconnect_attempt_late [of r d "attempts n" x]
    by (subst reconnect_loop.simps) (simp add: case_prod_beta Let_def)
next
  case (Suc k)
  obtain r' res where a: "reconnect_attempt x (attempts n) r = (r', res)" by fastforce
  have "\<exists>y. reconnect_loop x attempts (Suc n) r' = Some y"
    if "res \<noteq> Ok ()" "cl_state (rt_session r') = Cl_Reconnecting"
    using reconnect_attempt_retry [OF a that] that Suc.IH [of r' "Suc n"] Suc.prems by simp
  then show ?case
    by (subst reconnect_loop.simps) (auto simp: a)
qed

lemmas reconnect_loop_rule = reconnect_loop.raw_induct [where xa = "(((x, attempts), n), r)" for x attempts n r, unfolded split_conv]

lemma reconnect_loop_outcome:
  assumes "reconnect_loop x attempts n r = Some y" "alive r"
  shows "(snd y = Ok () \<longrightarrow> alive (fst y)) \<and> (alive (fst y) \<or> closed (fst y))"
proof -
  have "alive r \<longrightarrow> (snd y = Ok () \<longrightarrow> alive (fst y)) \<and> (alive (fst y) \<or> closed (fst y))"
    using assms(1)
  proof (rule reconnect_loop_rule [rotated])
    fix f x attempts n r y
    assume hyp: "\<And>x attempts n r y. f x attempts n r = Some y \<Longrightarrow>
        alive r \<longrightarrow> (snd y = Ok () \<longrightarrow> alive (fst y)) \<and> (alive (fst y) \<or> closed (fst y))"
      and body: "(if rc_cancelled (rt_cancellation r) then Some (r, Err Rt_Shutdown)
        else let (r, res) = reconnect_attempt x (attempts n) r
             in if res = Ok () then Some (r, Ok ())
                else if cl_state (rt_session r) \<noteq> Cl_Reconnecting then Some (fail_closed x r, res)
                else if at_pause_cancelled (attempts n) then Some (r, Err Rt_Shutdown)
                else f x attempts (Suc n) r) = Some y"
    obtain r' res where a: "reconnect_attempt x (attempts n) r = (r', res)" by fastforce
    have "alive r \<Longrightarrow> alive r'" using reconnect_attempt_alive [of r x "attempts n"] a by simp
    then show "alive r \<longrightarrow> (snd y = Ok () \<longrightarrow> alive (fst y)) \<and> (alive (fst y) \<or> closed (fst y))"
      using body hyp [of x attempts "Suc n" r' y]
      by (auto simp: a closed_fail_closed split: if_splits)
  qed
  then show ?thesis using assms(2) by blast
qed

lemma shutdown_closes: "alive r \<or> closed r \<Longrightarrow> closed (fst (ClientRuntime_shutdown x r))"
  using closed_fail_closed [of x r]
  by (auto simp: ClientRuntime_shutdown_def fail_closed_def alive_def closed_def split: prod.splits bool.splits)

lemma run_configured_outcome:
  assumes "alive r" "run_configured x rounds r = (r', status)"
  shows "status \<noteq> Panicked \<and> (status = Running \<or> closed r')"
  using assms
proof (induction rounds arbitrary: r)
  case (Cons rd rounds)
  obtain evs attempts where rd: "rd = (evs, attempts)" by fastforce
  obtain r1 st where run1: "run x evs r = (r1, st)" by fastforce
  have ok: "outcome_ok r1 st \<or> (r1 = r \<and> st = Returned (Err Rt_Shutdown) \<and> rc_cancelled (rt_cancellation r1))"
    using run1 run_loop_outcome [OF Cons.prems(1), of x evs] Cons.prems(1) by (auto simp: run_def alive_def split: if_splits)
  show ?case
  proof (cases st)
    case (Returned res)
    have live: "alive r1 \<or> closed r1" using ok Returned Cons.prems(1) by (cases res) auto
    show ?thesis
    proof (cases "rc_cancelled (rt_cancellation r1) \<and> res = Err Rt_Shutdown \<or> cl_state (rt_session r1) \<noteq> Cl_Reconnecting")
      case True
      then show ?thesis
        using Cons.prems(2) shutdown_closes [OF live, of x] by (auto simp: rd run1 Returned split: prod.splits)
    next
      case False
      then have "alive r1" using live by (auto simp: closed_def)
      have loop: "(snd y = Ok () \<longrightarrow> alive (fst y)) \<and> (alive (fst y) \<or> closed (fst y))"
        if "reconnect_with_retry x attempts r1 = Some y" for y
        using that reconnect_loop_outcome [of x attempts 0 r1 y] \<open>alive r1\<close> by (simp add: reconnect_with_retry_def alive_def split: if_splits)
      show ?thesis
      proof (cases "reconnect_with_retry x attempts r1")
        case None
        then show ?thesis using Cons.prems(2) False by (auto simp: rd run1 Returned)
      next
        case (Some y)
        obtain r2 e where y: "y = (r2, e)" by fastforce
        show ?thesis
          using loop [OF Some] Some Cons.prems(2) False Cons.IH [of r2] shutdown_closes [of r2 x]
          by (cases e) (auto simp: rd run1 Returned y)
      qed
    qed
  next
    case Running
    then show ?thesis using Cons.prems(2) by (auto simp: rd run1)
  next
    case Panicked
    then show ?thesis using ok by simp
  qed
qed simp

section \<open>Properties of the runtime\<close>

lemma build_runtime_alive:
  assumes "build_runtime ns conn session key domain monitor stream config cancellation = Ok r"
  shows "alive r" "rt_session r = session" "rt_connection r = conn" "rt_cancellation r = cancellation"
proof -
  have "\<And>i. InputController_new monitor = Ok i \<Longrightarrow> monitor_ok (ic_monitor i)"
    unfolding InputController_new_def using with_limits_Ok(1,2) by metis
  then show "alive r" "rt_session r = session" "rt_connection r = conn" "rt_cancellation r = cancellation"
    using assms by (auto simp: build_runtime_def alive_def res_simps Let_def split: prod.splits result.splits)
qed

text \<open>
  C5: the viewer fails closed.  Whatever arrives from the network, the window, the pipeline's worker and
  the user, and however often the transport is lost and found again: the runtime never panics, and when
  it returns, with a summary or with an error, its session is expired, its connection closed, its input
  controller shut and empty, its render queue shut and empty, its pipeline told to stop, and no frame and
  no cursor is left in it.
\<close>

theorem viewer_fails_closed:
  assumes "build_runtime ns new_connection session key domain monitor stream config cancellation = Ok r"
    and "run_configured x rounds r = (r', status)"
  shows "status \<noteq> Panicked \<and> (status = Running \<or> closed r')"
  using run_configured_outcome [OF build_runtime_alive(1) [OF assms(1)] assms(2)] .

text \<open>
  C14: the retries end.  A runtime that lost its transport returns from the reconnect loop, whatever the
  attempts come to, as soon as one of them begins after the deadline of the reconnect window; no attempt
  moves that deadline.
\<close>

theorem reconnect_terminates:
  assumes "cl_state (rt_session r) = Cl_Reconnecting" "cl_reconnect_deadline (rt_session r) = Some d"
    and "d < at_now (attempts n)"
  shows "\<exists>res. reconnect_with_retry x attempts r = Some res"
  using reconnect_loop_ends [of r d attempts 0 n x] assms by (simp add: reconnect_with_retry_def)

section \<open>The authority to send\<close>

definition session_claims :: "ClientSession \<Rightarrow> SessionCapability \<times> RelayTokenMetadata \<times> ClientVerification" where
  "session_claims s = (cl_capability s, cl_relay_token s, cl_verification s)"

definition claims_of :: "'t ClientRuntime \<Rightarrow> SessionCapability \<times> RelayTokenMetadata \<times> ClientVerification" where
  "claims_of r = session_claims (rt_session r)"

definition sent :: "'t ClientRuntime \<Rightarrow> bytes list" where
  "sent r = conn_sent (rt_connection r)"

text \<open>The session is the same one and nothing was sent.\<close>

definition quiet :: "'t ClientRuntime \<Rightarrow> 't ClientRuntime \<Rightarrow> bool" where
  "quiet r r' \<longleftrightarrow> sent r' = sent r \<and> claims_of r' = claims_of r"

lemma quiet_trans: "quiet r r' \<Longrightarrow> quiet r' r'' \<Longrightarrow> quiet r r''"
  by (simp add: quiet_def)

lemma session_claims_step: "session_claims (fst (client_step v enc s op)) = session_claims s"
  by (cases op) (auto simp: session_claims_def client_ops Let_def split: result.splits option.splits)

lemmas session_claims_ops = session_claims_step [of _ _ _ "Cop_EnsureActive now" for now, simplified]
  session_claims_step [of _ _ _ "Cop_Lost now" for now, simplified] session_claims_step [of _ _ _ Cop_Expire, simplified]

lemma can_control_claims: "claims_of r' = claims_of r \<Longrightarrow> can_control (rt_session r') = can_control (rt_session r)"
  by (simp add: claims_of_def session_claims_def can_control_def has_permission_def)

lemma quiet_fail_closed: "quiet r (fail_closed x r)"
  by (simp add: quiet_def sent_def claims_of_def fail_closed_def fail_closed_with_deadline_def conn_close_def case_prod_beta
      session_claims_ops)

lemma pump_window_events_quiet: "pump_window_events x now r = Returns (r', res) \<Longrightarrow> quiet r r'"
proof (induction x now r rule: pump_window_events.induct)
  case (1 x now r)
  obtain w e where e: "try_next_event (rt_window r) = (w, e)" by fastforce
  have keep: "quiet r (r\<lparr>rt_window := w\<rparr>)" "quiet r (r\<lparr>rt_window := w, rt_input := i\<rparr>)" for i
    by (simp_all add: quiet_def sent_def claims_of_def)
  show ?case
  proof (cases e)
    case None
    then show ?thesis using 1(3) e keep(1) by (simp add: pump_window_events.simps [of x now r])
  next
    case (Some event)
    show ?thesis
    proof (cases "is_input event \<and> \<not> can_control (rt_session r)")
      case True
      then have "quiet (r\<lparr>rt_window := w\<rparr>) r'"
        using 1(1) [OF e [symmetric] Some] 1(3) by (simp add: pump_window_events.simps [of x now r] e Some)
      then show ?thesis using keep(1) quiet_trans by blast
    next
      case ctl: False
      show ?thesis
      proof (cases "ic_handle_window_event (re_codec x) now (rt_input r) event")
        case Panics
        then show ?thesis using 1(3) ctl by (simp add: pump_window_events.simps [of x now r] e Some)
      next
        case (Returns ir)
        obtain i ires where ir: "ir = (i, ires)" by fastforce
        note body = 1(3) [unfolded pump_window_events.simps [of x now r] e Some prod.case option.case if_not_P [OF ctl] Returns ir outcome.case]
        show ?thesis
        proof (cases ires)
          case (Err err)
          then show ?thesis using body keep(2) [of i] by auto
        next
          case (Ok u)
          have "quiet (r\<lparr>rt_window := w, rt_input := i\<rparr>) r'"
            using 1(2) [OF e [symmetric] Some ctl Returns ir [symmetric] Ok] body Ok quiet_fail_closed
            by (cases "event = We_Closed") auto
          then show ?thesis using keep(2) quiet_trans by blast
        qed
      qed
    qed
  qed
qed

lemma accept_inbound_quiet: "accept_inbound_datagram x r bs = (r', res) \<Longrightarrow> quiet r r'"
  using accept_inbound_same [of x r bs r' res] by (simp add: quiet_def sent_def claims_of_def)

lemma deliver_frame_quiet: "deliver_frame r = (r', res) \<Longrightarrow> quiet r r'"
  using deliver_frame_same [of r r' res] by (simp add: quiet_def sent_def claims_of_def)

lemma quiet_session: "session_claims s = claims_of r \<Longrightarrow> quiet r (r\<lparr>rt_session := s\<rparr>)"
  by (simp add: quiet_def sent_def claims_of_def)

lemma quiet_fail_with: "quiet r r1 \<Longrightarrow> quiet r (fst (fail_with x r1 e))"
  using quiet_fail_closed quiet_trans by (simp add: fail_with_def) blast

lemma on_datagram_quiet: "quiet r (fst (on_datagram x now later datagram r))"
proof -
  obtain s res where ea: "ensure_active (re_verify x) (re_encode x) (rt_session r) now = (s, res)" by fastforce
  then have s: "session_claims s = claims_of r" using session_claims_ops(1) [of "re_verify x" "re_encode x" "rt_session r" now] by (simp add: claims_of_def)
  let ?r = "r\<lparr>rt_session := s\<rparr>"
  have q: "quiet r ?r" by (rule quiet_session [OF s])
  show ?thesis
  proof (cases res)
    case (Err e)
    then show ?thesis using quiet_fail_with [OF q] by (simp add: on_datagram_def ea)
  next
    case ok: (Ok u)
    show ?thesis
    proof (cases datagram)
      case (Err e)
      obtain s' tl where tl: "transport_lost s later = (s', tl)" by fastforce
      then have "session_claims s' = claims_of r" using session_claims_ops(2) [of s later] s by simp
      then have "quiet r (r\<lparr>rt_session := s'\<rparr>)" "quiet r (r\<lparr>rt_session := s', rt_pipeline := p\<rparr>)" for p
        by (simp_all add: quiet_def sent_def claims_of_def)
      then show ?thesis
        by (cases tl) (simp_all add: on_datagram_def ea ok Err Let_def tl q quiet_fail_with)
    next
      case datagram: (Ok bs)
      obtain r1 acc where acc: "accept_inbound_datagram x ?r bs = (r1, acc)" by fastforce
      obtain r2 del where del: "deliver_frame r1 = (r2, del :: (unit, 'b ClientRuntimeError) result)" by fastforce
      have q1: "quiet r r1" using quiet_trans [OF q accept_inbound_quiet [OF acc]] .
      then have q2: "quiet r r2" using quiet_trans deliver_frame_quiet [OF del] by blast
      show ?thesis
        by (cases acc; cases del) (simp_all add: on_datagram_def ea ok datagram Let_def acc del q1 q2 quiet_fail_with)
    qed
  qed
qed

text \<open>What a poll may send: one message, and only with the authority to.\<close>

definition may_send :: "('t, 'd, 'e) runtime_env \<Rightarrow> 't ClientRuntime \<Rightarrow> UnixTimestamp \<Rightarrow> bool" where
  "may_send x r now \<longleftrightarrow>
     (case claims_of r of (cap, tok, ver) \<Rightarrow>
        claims_hold (re_verify x) (re_encode x) cap tok ver now \<and> ''desktop.control'' \<in> set (cap_permissions cap))"

lemma may_send_iff:
  "may_send x r now \<longleftrightarrow> validate_claims (re_verify x) (re_encode x) (rt_session r) now = Ok () \<and> can_control (rt_session r)"
  by (auto simp: may_send_def claims_of_def session_claims_def validate_claims_iff can_control_def has_permission_def list_ex_iff)

lemma pump_input_sent:
  assumes "pump_input ok r = (r', res)"
  shows "claims_of r' = claims_of r"
    and "sent r' = sent r \<or> can_control (rt_session r) \<and> (\<exists>m. sent r' = sent r @ [m])"
  using assms
  by (auto simp: pump_input_def claims_of_def sent_def split: if_splits prod.splits option.splits)

lemma on_poll_sent:
  assumes "on_poll x now instant ok r = (r', st)"
  shows "claims_of r' = claims_of r \<and> (sent r' = sent r \<or> may_send x r now \<and> (\<exists>m. sent r' = sent r @ [m]))"
proof -
  obtain p e where p: "poll_error (rt_pipeline r) = (p, e)" by fastforce
  obtain s res where ea: "ensure_active (re_verify x) (re_encode x) (rt_session r) now = (s, res)" by fastforce
  then have s: "session_claims s = claims_of r" using session_claims_ops(1) [of "re_verify x" "re_encode x" "rt_session r" now] by (simp add: claims_of_def)
  have q: "quiet r (r\<lparr>rt_session := s\<rparr>)" "quiet r (r\<lparr>rt_pipeline := p\<rparr>)"
    using quiet_session [OF s] by (simp_all add: quiet_def sent_def claims_of_def)
  have quiet: ?thesis if "quiet r r'" using that by (simp add: quiet_def)
  show ?thesis
  proof (cases "e = None \<and> res = Ok ()")
    case False
    then have "quiet r r'"
      using assms quiet_fail_with [OF q(1), of x] quiet_fail_with [OF q(2), of x]
      by (cases e; cases res) (auto simp: on_poll_def p ea fail_with_def)
    then show ?thesis by (rule quiet)
  next
    case ok: True
    show ?thesis
    proof (cases "pump_window_events x instant (r\<lparr>rt_session := s\<rparr>) :: ('a ClientRuntime \<times> (unit, 'b ClientRuntimeError) result) outcome")
      case Panics
      then have "r' = r\<lparr>rt_session := s\<rparr>" using assms ok by (simp add: on_poll_def p ea)
      then show ?thesis using q(1) quiet by simp
    next
      case (Returns rr)
      obtain r1 ev where rr: "rr = (r1, ev)" by fastforce
      have q1: "quiet r r1" using quiet_trans [OF q(1)] pump_window_events_quiet Returns rr by blast
      obtain r2 pi where pi: "pump_input ok r1 = (r2, pi :: (unit, 'b ClientRuntimeError) result)" by fastforce
      note sent2 = pump_input_sent [OF pi]
      have "validate_claims (re_verify x) (re_encode x) (rt_session r) now = Ok ()"
        using ensure_active_Ok [of "re_verify x" "re_encode x" "rt_session r" now] ea ok by simp
      then have may: "can_control (rt_session r1) \<Longrightarrow> may_send x r now"
        using q1 can_control_claims [of r1 r] by (simp add: may_send_iff quiet_def)
      have r': "quiet r r' \<or> claims_of r' = claims_of r2 \<and> sent r' = sent r2"
        using assms ok q1 quiet_fail_with [OF q1, of x] quiet_fail_closed [of r2 x]
        by (cases ev; cases pi) (auto simp: on_poll_def p ea Returns rr pi fail_with_def quiet_def)
      then show ?thesis using sent2 may q1 by (auto simp: quiet_def)
    qed
  qed
qed

definition sending_polls :: "('t, 'd, 'e) runtime_env \<Rightarrow> 't ClientRuntime \<Rightarrow> runtime_event list \<Rightarrow> runtime_event list" where
  "sending_polls x r evs = filter (\<lambda>ev. case ev of Rv_Poll now _ _ \<Rightarrow> may_send x r now | _ \<Rightarrow> False) evs"

lemma run_step_sent:
  assumes "run_step x ev r = (r', st)"
  shows "claims_of r' = claims_of r \<and> (\<exists>ms. sent r' = sent r @ ms \<and> length ms \<le> length (sending_polls x r [ev]))"
proof (cases ev)
  case (Rv_Datagram now later datagram)
  then have "quiet r r'" using on_datagram_quiet [of r x now later datagram] assms by simp
  then show ?thesis by (simp add: quiet_def)
next
  case (Rv_Poll now instant ok)
  have "on_poll x now instant ok r = (r', st)" using assms Rv_Poll by simp
  from on_poll_sent [OF this] show ?thesis by (auto simp: Rv_Poll sending_polls_def)
next
  case Rv_Notified
  have "quiet r (r\<lparr>rt_cancellation := c\<rparr>)" for c by (simp add: quiet_def sent_def claims_of_def)
  then have "quiet r (fst (run_step x Rv_Notified r))" by (simp add: quiet_fail_with) (simp add: quiet_def)
  then have "quiet r r'" using assms Rv_Notified by simp
  then show ?thesis by (simp add: quiet_def)
qed (use assms in \<open>auto simp: sent_def claims_of_def\<close>)

text \<open>
  C13: input leaves the viewer only with authority.  In every run of its loop, at most one message is sent
  per poll, and only at polls at which the signed claims of the session hold and its capability grants
  \<open>desktop.control\<close>; so a session that may only view sends nothing, whatever its window reports.
\<close>

theorem viewer_input_authorized:
  "\<exists>ms. sent (fst (run_loop x evs r)) = sent r @ ms \<and> length ms \<le> length (sending_polls x r evs)"
proof (induction evs arbitrary: r)
  case (Cons ev evs)
  obtain r1 st where st: "run_step x ev r = (r1, st)" by fastforce
  from run_step_sent [OF this] obtain m1 where m1: "claims_of r1 = claims_of r" "sent r1 = sent r @ m1" "length m1 \<le> length (sending_polls x r [ev])"
    by blast
  have "may_send x r1 = may_send x r" using m1(1) by (simp add: fun_eq_iff may_send_def)
  then have same: "sending_polls x r1 evs = sending_polls x r evs"
    by (auto simp: sending_polls_def intro!: filter_cong split: runtime_event.splits)
  have split: "length (sending_polls x r (ev # evs)) = length (sending_polls x r [ev]) + length (sending_polls x r evs)"
    by (simp add: sending_polls_def)
  show ?case
  proof (cases "st = Running")
    case True
    obtain m2 where "sent (fst (run_loop x evs r1)) = sent r1 @ m2" "length m2 \<le> length (sending_polls x r1 evs)"
      using Cons.IH by blast
    then show ?thesis using m1 same split True by (auto simp: st intro!: exI [of _ "m1 @ m2"])
  next
    case False
    then show ?thesis using m1 split by (cases st) (auto simp: st intro!: exI [of _ m1])
  qed
qed simp

section \<open>A granted session at the viewer\<close>

text \<open>The claims of a granted session hold from the request on for 120 seconds, and not a second longer.\<close>

lemma granted_claims:
  assumes "signature_correct (x_sign x) (x_verify x) (x_pub x)" "sig_length_64 (x_sign x)"
    and "\<forall>c. proto_decode (x_proto x c) = Some c"
    and "request_session_handler x sink fg fs fa now uuid nonce p st = (st', Ok resp)"
    and "valid_id (sq_subject_user_id p)" "valid_id (sq_client_device_id p)" "valid_id (sq_target_device_id p)"
    and "ap_control_plane_id st \<noteq> []" "length (ap_control_plane_id st) \<le> 128" "length nonce = 16"
    and "unat (as_secs now) + 120 < 2 ^ 64"
    and "proto_decode (sa_capability_bytes resp) = Some c"
    and "ver = \<lparr>cv_capability_key = x_pub x (ap_signing_key st), cv_relay_key = x_pub x (ap_signing_key st),
           cv_relay_id = sa_relay_id resp\<rparr>"
  shows "claims_hold (x_verify x) (x_proto x) c (metadata_of (sa_client_relay_token resp)) ver t
    \<longleftrightarrow> as_secs now \<le> as_secs t \<and> as_secs t < as_secs now + 120"
proof -
  obtain g where g: "DesktopView \<in> g" and sid: "Id_new (''sess-'' @ uuid_simple uuid) = Ok (sa_session_id resp)"
    and bytes: "sa_capability_bytes resp = x_proto x (sign_capability x (ap_signing_key st)
       (unsigned_capability st p (sa_session_id resp) (map Action_as_str (ActionSet_iter g)) now nonce))"
    and relay: "sa_relay_id resp = ap_default_relay_id st" "sa_expires_at resp = from_secs (as_secs now + session_ttl_secs)"
      "sa_client_relay_token resp = session_token x st p (sa_session_id resp) (sa_expires_at resp) Role_Client"
    by (rule request_session_Ok [OF assms(4)])
  define c0 where "c0 = unsigned_capability st p (sa_session_id resp) (map Action_as_str (ActionSet_iter g)) now nonce"
  let ?tok = "sa_client_relay_token resp"
  have c: "c = sign_capability x (ap_signing_key st) c0" using assms(3,12) by (simp add: bytes c0_def)
  have vid: "valid_id (sa_session_id resp)" using Id_new_as_str [OF sid] by (auto simp: valid_id_def)
  have "as_secs now \<le> as_secs now + 120" using add_ttl [OF assms(11)] by simp
  from unsigned_capability_admissible [OF assms(5-7) vid assms(8-10) g assms(11) order_refl this]
  have "cap_admissible (Some (id_as_str (sq_target_device_id p))) c 1 now" by (simp add: c sign_capability_def c0_def)
  then have "SessionCapability_validate c = Ok ()" by (simp only: cap_admissible_def)
  moreover have "sig_accepted (x_verify x) (x_pub x (ap_signing_key st)) (SessionCapability_signing_bytes (x_proto x) c) (cap_signature c)"
    using assms(1,2)
    by (simp add: c sign_capability_def SessionCapability_signing_bytes_def c0_def unsigned_capability_def sig_accepted_def
        signature_correct_def sig_length_64_def)
  moreover have "RelayTokenMetadata_signing_bytes (metadata_of ?tok) = RelayToken_signing_bytes ?tok"
    by (rule metadata_signing_bytes) (simp add: relay(3) session_token_def RelayToken_sign_def)
  moreover have "sig_accepted (x_verify x) (x_pub x (ap_signing_key st)) (RelayToken_signing_bytes ?tok) (rt_signature ?tok)"
    using assms(1,2)
    by (simp add: relay(3) session_token_def RelayToken_sign_def RelayToken_signing_bytes_def sig_accepted_def signature_correct_def
        sig_length_64_def)
  ultimately show ?thesis
    by (auto simp: claims_hold_def assms(13) metadata_of_def)
       (simp_all add: c sign_capability_def c0_def unsigned_capability_def session_ttl_secs_def relay session_token_def
         RelayToken_sign_def less_UnixTimestamp_def from_secs_def)
qed

text \<open>
  C34: a granted session lives 120 seconds at the viewer.  With the capability and the client's relay token
  of the control plane's answer, and the control plane's public key, the viewer connects and works at any
  time in the 120 seconds after the request.  From then on every connect, every reconnect and every use of
  the session is refused, whatever happened before and however long the session policy would let an
  established session run: the capability's expiry is not only a limit for establishing the session.
\<close>

theorem viewer_session_ends_with_capability:
  assumes "signature_correct (x_sign x) (x_verify x) (x_pub x)" "sig_length_64 (x_sign x)"
    and "\<forall>c. proto_decode (x_proto x c) = Some c"
    and "request_session_handler x sink fg fs fa now uuid nonce p st = (st', Ok resp)"
    and "valid_id (sq_subject_user_id p)" "valid_id (sq_client_device_id p)" "valid_id (sq_target_device_id p)"
    and "ap_control_plane_id st \<noteq> []" "length (ap_control_plane_id st) \<le> 128" "length nonce = 16"
    and "unat (as_secs now) + 120 < 2 ^ 64"
    and "proto_decode (sa_capability_bytes resp) = Some c"
    and "ver = \<lparr>cv_capability_key = x_pub x (ap_signing_key st), cv_relay_key = x_pub x (ap_signing_key st),
           cv_relay_id = sa_relay_id resp\<rparr>"
    and "ClientSession_new c (metadata_of (sa_client_relay_token resp)) pol ver = Returns s0"
  shows "(as_secs now \<le> as_secs t \<and> as_secs t < as_secs now + 120 \<longrightarrow>
            snd (run_ops (client_step (x_verify x) (x_proto x)) s0 [Cop_Begin t, Cop_Connected t, Cop_EnsureActive t])
              = [Ok (), Ok (), Ok ()])
    \<and> (as_secs now + 120 \<le> as_secs t \<and> op \<in> {Cop_Begin t, Cop_Connected t, Cop_EnsureActive t} \<longrightarrow>
            snd (client_step (x_verify x) (x_proto x) (fst (run_ops (client_step (x_verify x) (x_proto x)) s0 ops)) op) \<noteq> Ok ())"
proof -
  note claims = granted_claims [OF assms(1-13)]
  note s0 = assms(14) [unfolded ClientSession_new_Returns]
  have valid: "validate_claims (x_verify x) (x_proto x) s t = Ok () \<longleftrightarrow> as_secs now \<le> as_secs t \<and> as_secs t < as_secs now + 120"
    if "cl_inv s0 s" for s
    using that s0 claims by (simp add: validate_claims_iff cl_inv_def)
  have "validate_claims (x_verify x) (x_proto x) s t = Ok ()"
    if "as_secs now \<le> as_secs t" "as_secs t < as_secs now + 120" "cl_capability s = c"
      "cl_relay_token s = metadata_of (sa_client_relay_token resp)" "cl_verification s = ver" for s
    using that claims by (simp add: validate_claims_iff)
  then have now: "as_secs now \<le> as_secs t \<and> as_secs t < as_secs now + 120 \<longrightarrow>
      snd (run_ops (client_step (x_verify x) (x_proto x)) s0 [Cop_Begin t, Cop_Connected t, Cop_EnsureActive t]) = [Ok (), Ok (), Ok ()]"
    using s0 by (auto simp: begin_connect_def connected_def ensure_active_def session_duration_expired_def Let_def)
  let ?s = "fst (run_ops (client_step (x_verify x) (x_proto x)) s0 ops)"
  have inv: "cl_inv s0 ?s" by (rule client.run_inv [OF cl_inv_new [OF assms(14)]])
  have "snd (client_step (x_verify x) (x_proto x) ?s op) \<noteq> Ok ()"
    if "as_secs now + 120 \<le> as_secs t" "op \<in> {Cop_Begin t, Cop_Connected t, Cop_EnsureActive t}"
    using that valid [OF inv] connected_Ok(1) [of "x_verify x" "x_proto x" ?s t]
    by (auto simp: ensure_active_Ok not_less [symmetric] dest: begin_connect_Ok_claims)
  with now show ?thesis by blast
qed

section \<open>Examples\<close>

definition example_env :: "(i64 option, unit, unit) runtime_env" where
  "example_env =
     \<lparr>re_verify = accept_all, re_encode = \<lambda>_. [], re_open = \<lambda>_ _ _ _. None, re_position = \<lambda>_. Err (), re_shape = \<lambda>_. Err (),
      re_codec = example_input_codec, re_mft = example_mft, re_present = \<lambda>_. Ok (), re_pipeline_stops = True,
      re_window_rounds = 1\<rparr>"

definition example_start :: "i64 option native_start" where
  "example_start = \<lparr>ns_transform = None, ns_renderer = Ok (), ns_answered = True, ns_handle = 1\<rparr>"

definition late_attempt :: attempt where
  "late_attempt = \<lparr>at_now = from_secs 6, at_outcome = Co_Refused, at_cancelled = False, at_later = from_secs 6,
     at_pause_cancelled = False\<rparr>"

lemma example_build:
  "\<exists>r. build_runtime example_start new_connection session key domain example_monitor \<lparr>vs_width = 2, vs_height = 2\<rparr>
     WindowConfig_default RuntimeCancellation_new = Ok r"
proof -
  have "\<exists>p. NativePipeline_start (None :: i64 option) (Ok ()) True (Some (Suc 0)) 2 2 = Ok p"
    by (simp add: NativePipeline_start_def MediaFoundationDecoder_start_def NativeDecoder_start_def decoder_eval)
  then show ?thesis
    by (auto simp: build_runtime_def example_monitor_valid set_cursor_monitor_def InputController_new_def with_limits_def WindowController_start_def
        validate_config_def WindowConfig_default_def example_start_def native_handle_def DEFAULT_INPUT_QUEUE_CAPACITY_def
        MAX_INPUT_QUEUE_CAPACITY_def DEFAULT_INPUT_RATE_PER_SECOND_def MAX_INPUT_RATE_PER_SECOND_def
        DEFAULT_WINDOW_CHANNEL_CAPACITY_def MAX_RENDER_ACCESS_UNIT_SIZE_def MAX_FRAME_PAYLOAD_SIZE_def)
qed

theorem viewer_fails_closed_witness:
  "\<exists>r r'. build_runtime example_start new_connection example_viewer [] 0 example_monitor \<lparr>vs_width = 2, vs_height = 2\<rparr>
       WindowConfig_default RuntimeCancellation_new = (Ok r :: (_, unit ClientRuntimeError) result)
     \<and> run_configured example_env [([Rv_Cancel, Rv_Notified], \<lambda>_. late_attempt)] r = (r', Returned (Err Rt_Shutdown))
     \<and> closed r'"
proof -
  obtain r where r: "build_runtime example_start new_connection example_viewer [] 0 example_monitor \<lparr>vs_width = 2, vs_height = 2\<rparr>
       WindowConfig_default RuntimeCancellation_new = (Ok r :: (_, unit ClientRuntimeError) result)"
    using example_build by blast
  have fresh: "\<not> rt_shutdown r" "rt_cancellation r = RuntimeCancellation_new"
    using build_runtime_alive [OF r] by (simp_all add: alive_def)
  define r1 where "r1 = fail_closed example_env (r\<lparr>rt_cancellation := \<lparr>rc_cancelled = True, rc_permit = False\<rparr>\<rparr>)"
  have down: "rt_shutdown r1" "rc_cancelled (rt_cancellation r1)" using closed_fail_closed [of example_env] unfolding r1_def closed_def by blast+
  have "run example_env [Rv_Cancel, Rv_Notified] r = (r1, Returned (Err Rt_Shutdown))"
    by (simp add: run_def fresh rc_cancel_def RuntimeCancellation_new_def fail_with_def r1_def)
  then have "run_configured example_env [([Rv_Cancel, Rv_Notified], \<lambda>_. late_attempt)] r = (r1, Returned (Err Rt_Shutdown))"
    using down by (simp add: ClientRuntime_shutdown_def)
  with viewer_fails_closed [OF r this] r show ?thesis by blast
qed

definition lost_viewer :: ClientSession where
  "lost_viewer = example_viewer\<lparr>cl_state := Cl_Reconnecting, cl_reconnect_deadline := Some (from_secs 5), cl_established_at := Some (from_secs 1)\<rparr>"

theorem reconnect_terminates_witness:
  "\<exists>r res. build_runtime example_start new_connection lost_viewer [] 0 example_monitor \<lparr>vs_width = 2, vs_height = 2\<rparr>
       WindowConfig_default RuntimeCancellation_new = (Ok r :: (_, unit ClientRuntimeError) result)
     \<and> reconnect_with_retry example_env (\<lambda>_. late_attempt) r = Some res"
proof -
  obtain r where r: "build_runtime example_start new_connection lost_viewer [] 0 example_monitor \<lparr>vs_width = 2, vs_height = 2\<rparr>
       WindowConfig_default RuntimeCancellation_new = (Ok r :: (_, unit ClientRuntimeError) result)"
    using example_build by blast
  then have s: "cl_state (rt_session r) = Cl_Reconnecting" "cl_reconnect_deadline (rt_session r) = Some (from_secs 5)"
    using build_runtime_alive(2) [OF r] by (simp_all add: lost_viewer_def)
  have "from_secs 5 < at_now ((\<lambda>_ :: nat. late_attempt) 0)"
    by (simp add: late_attempt_def less_UnixTimestamp_def from_secs_def)
  from reconnect_terminates [OF s this, of example_env] r show ?thesis by blast
qed

theorem viewer_session_ends_with_capability_witness:
  "\<exists>st' resp c s0.
     request_session_handler (example_externals\<lparr>x_proto := example_encode\<rparr>) example_sink {} {} {} (from_secs 10) (replicate 16 0)
       (replicate 16 7) example_payload session_app = (st', Ok resp)
     \<and> ClientSession_new c (metadata_of (sa_client_relay_token resp)) \<lparr>pol_max_duration = dur_from_secs 1800, pol_reconnect_window = 5\<rparr>
         \<lparr>cv_capability_key = [], cv_relay_key = [], cv_relay_id = sa_relay_id resp\<rparr> = Returns s0
     \<and> snd (client_step (\<lambda>_ _ _. Some True) example_encode s0 (Cop_EnsureActive (from_secs 131))) \<noteq> Ok ()"
proof -
  let ?x = "example_externals\<lparr>x_proto := example_encode\<rparr>"
  obtain st' resp where r: "request_session_handler ?x example_sink {} {} {} (from_secs 10)
      (replicate 16 0) (replicate 16 7) example_payload session_app = (st', Ok resp)"
    using example_session [of example_encode] by blast
  have dec: "\<forall>c. example_decode (x_proto ?x c) = Some c" by (simp add: example_decode_encode)
  obtain g where "sa_capability_bytes resp = x_proto ?x (sign_capability ?x (ap_signing_key session_app)
       (unsigned_capability session_app example_payload (sa_session_id resp) (map Action_as_str (ActionSet_iter g)) (from_secs 10) (replicate 16 7)))"
    using request_session_Ok [OF r] by blast
  then obtain c where c: "example_decode (sa_capability_bytes resp) = Some c" using dec by metis
  let ?pol = "\<lparr>pol_max_duration = dur_from_secs 1800, pol_reconnect_window = 5\<rparr>"
  let ?ver = "\<lparr>cv_capability_key = [], cv_relay_key = [], cv_relay_id = sa_relay_id resp\<rparr>"
  obtain s0 where s0: "ClientSession_new c (metadata_of (sa_client_relay_token resp)) ?pol ?ver = Returns s0"
    by (simp add: ClientSession_new_Returns dur_from_secs_def)
  have ver: "?ver = \<lparr>cv_capability_key = x_pub ?x (ap_signing_key session_app), cv_relay_key = x_pub ?x (ap_signing_key session_app),
      cv_relay_id = sa_relay_id resp\<rparr>" by (simp add: example_externals_def AppState_new_def)
  from viewer_session_ends_with_capability [OF example_crypto dec r _ _ _ _ _ _ _ c ver s0, of "from_secs 131" "Cop_EnsureActive (from_secs 131)" "[]"]
  have "snd (client_step (\<lambda>_ _ _. Some True) example_encode s0 (Cop_EnsureActive (from_secs 131))) \<noteq> Ok ()"
    by (simp add: valid_id_def example_payload_def example_ids AppState_new_def from_secs_def example_externals_def del: client_step.simps)
  with r s0 show ?thesis by blast
qed

end
