(* ===== verification/Spec2Isabelle.thy ===== *)
theory Spec2Isabelle
  imports Common_Time Common_Ids Policy_Engine Session_State Protocol_Messages
    Transport_Reassembly Transport_Control
    Auth_Verifier Audit_Log Signed_Documents
    Media_Pipeline Input_Pipeline Runtime_Properties
begin

text \<open>
  A verification library for Nexus Remote, a remote desktop platform written in Rust.

  \<^bold>\<open>The program.\<close>  A control plane (\<open>apps/nexusd\<close>) enrolls devices, evaluates a policy for each request
  of a session, and answers with a signed capability and two signed relay tokens.  On the controlled machine
  an agent (\<open>apps/nexus-agent\<close>) keeps the device identity and admits sessions by their capability; the
  desktop host (\<open>apps/nexus-desktop-host\<close>) captures, encodes, seals and packetizes frames and injects
  input.  A relay (\<open>apps/nexus-relay\<close>) pairs the two endpoints of a session by their tokens and copies
  between them.  The viewer (\<open>apps/nexus-client\<close>) connects with capability and token, reassembles, opens,
  decodes and presents the frames, and sends the events of its window.  The crates under \<open>crates/\<close> hold
  what the programs share, \<open>platform/windows\<close> the native backends.

  \<^bold>\<open>How the code is modelled.\<close>  A struct is a record, an enum a datatype, an integer a word of its width, a
  \<open>String\<close> the list of its UTF-8 bytes, a timestamp its seconds and an \<open>Instant\<close> its nanoseconds.  A
  method that changes \<open>self\<close> returns the new value; a \<open>Result\<close> is the datatype \<open>result\<close>; a panic is the
  value \<open>Panics\<close> of \<open>outcome\<close>, or, where the code cannot reach it, shown not to arise.  Clocks, random
  bytes and failures of the system are arguments of the operation that meets them.  Code of other packages is
  an argument too: the AEAD, X25519, HKDF, Ed25519 and BLAKE3, \<open>serde_json\<close>, the generated Protobuf codec,
  QUIC, the SQL driver, and the calls of Windows.  What a theorem needs of such an argument is a hypothesis:
  that opening inverts sealing, that a genuine signature is accepted, or that only what was signed is, that a decoder
  inverts its encoder,
  that a lock reports the extent of the memory it maps.  Each of these has a witness.  Threads and tasks are
  steps between the points where others may act, and the theorems quantify over all sequences of steps.

  \<^bold>\<open>Foundations.\<close>
  \<^item> \<open>Nexus_Prelude\<close>: words, bytes, big-endian encodings, results, and the contract of a component driven by
    operations: the locales \<open>machine\<close> (an invariant), \<open>ranked_machine\<close> (a rank that grows) and
    \<open>emitting_machine\<close> (outputs that never repeat).
  \<^item> \<open>Rust_Std\<close>: \<open>Duration\<close>, number parsing and printing, UTF-8 and the string functions in use.
  \<^item> \<open>Nexus_Maps\<close>: \<open>HashMap\<close> and \<open>BTreeMap\<close>, two interpretations of the locale \<open>map_adt\<close>.

  \<^bold>\<open>Shared crates.\<close>
  \<^item> \<open>Common_Time\<close>, \<open>Common_Ids\<close>: \<open>nexus-common\<close>.
  \<^item> \<open>Policy_Action\<close>, \<open>Policy_Model\<close>, \<open>Policy_Ip\<close>, \<open>Policy_Engine\<close>: \<open>nexus-policy\<close>.  The evaluation is sound and
    complete for the relation it computes, a request is granted exactly the union of the matching roles, and
    an update is accepted exactly when it narrows.
  \<^item> \<open>Session_State\<close>: \<open>nexus-session\<close>.  The states from which nothing leads on are final, and a reconnect does
    not give back any of the maximal duration.
  \<^item> \<open>Protocol_Messages\<close>, \<open>Video_Packet\<close>: \<open>nexus-protocol\<close>.  The packet header is an interpretation of the locale
    \<open>framed_codec\<close>: decoding succeeds exactly on encodings.
  \<^item> \<open>Crypto_Core\<close>: \<open>nexus-crypto\<close>.  One nonce allocator never repeats a nonce, two of different directions share
    none, and the associated data of different frames differ.  Two allocators of one direction do repeat each other's
    nonces; that a key has only one is up to the caller, and the host's worker breaks it.
  \<^item> \<open>Transport_Video\<close>, \<open>Transport_Reassembly\<close>, \<open>Transport_Control\<close>: \<open>nexus-transport\<close>.  Whatever packets arrive,
    the reassembler stays within its memory bound and delivers fresh frames only; the packets of a frame give
    the frame back in every order.
  \<^item> \<open>Auth_Replay\<close>, \<open>Auth_Tokens\<close>, \<open>Auth_Verifier\<close>: \<open>nexus-auth\<close>.  The locales \<open>once_guard\<close>, \<open>replay_guard\<close> and
    \<open>signed_document\<close> state what a replay cache and a signed document promise; they are interpreted on the
    nonce cache, the capability verifier, the viewer's nonce window, the relay's slots, the enrollments, and
    the three kinds of signed documents.
  \<^item> \<open>Audit_Log\<close>: \<open>nexus-audit\<close>.  A change to a chained event is detected, or is a collision of the hash.
  \<^item> \<open>Input_Events\<close>, \<open>Media_Source\<close>: \<open>nexus-input\<close>, \<open>nexus-capture\<close>, \<open>nexus-codec\<close>.

  \<^bold>\<open>Programs.\<close>
  \<^item> \<open>Control_Storage\<close>, \<open>Control_Plane\<close>, \<open>Control_Invariants\<close>: \<open>nexusd\<close>.  The tables with their keys, every
    transaction with the statements that may fail, every handler.  Any sequence of requests keeps the tables
    consistent, the use of a token within its budget, and the stored audit events in step with the chain;
    theorems about a restart, about two requests that overlap, and about tokens for several devices show
    where the code does not do what it means to.
  \<^item> \<open>Agent_Session\<close>, \<open>Agent_Identity\<close>: \<open>nexus-agent\<close>.  Every session of the agent was authorized by a genuine
    capability for this device.
  \<^item> \<open>Relay_Token\<close>, \<open>Relay_Session\<close>, \<open>Relay_Stream\<close>, \<open>Relay_Server\<close>, \<open>Relay_Pairing\<close>: \<open>nexus-relay\<close>.  A slot of a
    session is taken once, the handshake does not depend on how the stream is cut, and copying is faithful.  In every
    interleaving a bridge joins two different connections with authentic tokens of one session; that they are a client and
    a host can fail, because a join and the entry into the list of waiting peers are two steps (\<open>relay_pairing_race\<close>).
    \<open>Relay_Pairing\<close> shows that the two meet when the second presents its token after the first is in that list, whatever
    connections of other sessions do in between.
  \<^item> \<open>Desktop_Host\<close>, \<open>Windows_Cursor\<close>, \<open>Windows_Input\<close>: \<open>nexus-desktop-host\<close> and the portable part of
    \<open>platform/windows\<close>.
  \<^item> \<open>Client_Session\<close>, \<open>Client_Receiver\<close>, \<open>Client_Render\<close>, \<open>Client_Decoder\<close>, \<open>Client_Pipeline\<close>, \<open>Client_Window\<close>,
    \<open>Client_Input\<close>, \<open>Client_Runtime\<close>: \<open>nexus-client\<close>, file by file; \<open>Client_Decoder\<close> is the native half of
    \<open>decoder.rs\<close> and \<open>Client_Pipeline\<close> the pipeline of \<open>runtime.rs\<close>.  Operations of the session need valid claims; only
    sealed frames are shown, none of them twice; copies out of native memory stay inside it; the decoder gives
    back what it was given; frames from before and after a reconnect do not mix; the window's close event is
    not lost; input is rate-limited from one clearing of the controller, which a reconnect does, to the next.

  \<^bold>\<open>The parts together.\<close>
  \<^item> \<open>Media_Pipeline\<close>: what the host's streamer encodes is what the viewer's receiver delivers, over a network
    that reorders and repeats.
  \<^item> \<open>Input_Pipeline\<close>: a key, a text and a pointer position at the viewer's window become the records that
    the host injects for it.  The parts are composed here; the host does not yet pass the events it decodes to its injector.
  \<^item> \<open>End_To_End\<close>: a session that the control plane grants is admitted by the agent, and its endpoints meet at
    the relay in the schedules of \<open>Relay_Pairing\<close>.
  \<^item> \<open>Signed_Documents\<close>: the control plane signs credentials, capabilities and relay tokens with one key, its operator
    enrollment tokens with the same one.  A log of what the handlers sign, shown to be complete; with unforgeable
    signatures, a document that a device, an agent or a relay accepts goes back to a request in it, and no
    document passes for one of another kind.
  \<^item> \<open>Runtime_Properties\<close>: the viewer as a whole fails closed, sends input only with authority, ends its reconnect
    attempts, and can use a granted session for exactly as long as the capability is valid.

  \<^bold>\<open>Bounds and fuel.\<close>  Loops over data are structural.  The loops of the code with a fixed bound have that bound: the
  decoder takes eight outputs per submission (\<open>MAX_OUTPUTS_PER_SUBMISSION\<close>).  The loop over the window's events
  ends because each round removes an event.  The reconnect loop is an option-valued partial function over an unbounded
  sequence of attempts, shown to return once an attempt begins after the deadline.  The handshake readers
  end because each read makes their buffer longer, up to its limit.  The run loop of the viewer, the worker of the
  host, the copy loops and the tasks of the relay go on as long as events arrive; they take the list of these, so
  that every finite prefix of a run is covered.

  \<^bold>\<open>Not modelled.\<close>  \<open>platform/windows/src/capture.rs\<close> and \<open>codec.rs\<close> drive Windows Graphics Capture, Direct3D 11 and an
  asynchronous Media Foundation encoder; the host relies on them through a capture source and an encoder, which
  are arguments of \<open>Desktop_Host\<close>.  The Direct3D renderer of the viewer, the creation of its native window, the
  selection of its decoder and the joining of native threads (\<open>native_worker.rs\<close>) are calls of the system.
  \<open>quic.rs\<close>, the TLS configuration of the relay and \<open>server.rs\<close> of the control plane configure other packages.
  The entry points of agent, relay, host and command line tool start nothing yet, and \<open>nexus-observability\<close> is empty.
\<close>

end
